(* ===== verification/Prelude.thy ===== *)
theory Prelude
  imports Complex_Main "HOL-Library.Char_ord" "HOL-Library.List_Lexorder"
begin

text \<open>
  Shared vocabulary of the development.

  Python code that may raise and that mutates objects is modelled as an \<open>effect\<close>: a function
  from a state to a result (\<open>Inl\<close> the raised exception, \<open>Inr\<close> the returned value) and the
  state left behind. The state survives a raise, as the mutations made before a \<open>raise\<close> do.
  The combinators \<open>ret\<close>, \<open>raise_exc\<close>, \<open>bnd\<close>, \<open>thn\<close>, \<open>catch_exc\<close> and \<open>foreach\<close> are the return,
  raise, sequencing, \<open>try/except\<close> and \<open>for\<close> of the source.

  The locale \<open>step_relation\<close> states once how a reflexive and transitive relation between the
  states before and after is kept by composed effects; the components interpret it on the
  relations they need (history extension, append-only tables, unchanged databases).
\<close>

named_theorems keeps_intros \<open>introduction rules for effects that keep a step relation\<close>
named_theorems row_simps \<open>facts on table rows and row updates\<close>

section \<open>Effects: exceptions and state\<close>

type_synonym ('s, 'e, 'a) effect = "'s \<Rightarrow> ('e + 'a) \<times> 's"

definition ret :: "'a \<Rightarrow> ('s, 'e, 'a) effect" where
  "ret a = (\<lambda>s. (Inr a, s))"

definition raise_exc :: "'e \<Rightarrow> ('s, 'e, 'a) effect" where
  "raise_exc e = (\<lambda>s. (Inl e, s))"

definition bnd :: "('s, 'e, 'a) effect \<Rightarrow> ('a \<Rightarrow> ('s, 'e, 'b) effect) \<Rightarrow> ('s, 'e, 'b) effect" where
  "bnd m f = (\<lambda>s. case m s of (Inl e, s') \<Rightarrow> (Inl e, s') | (Inr a, s') \<Rightarrow> f a s')"

definition thn :: "('s, 'e, 'a) effect \<Rightarrow> ('s, 'e, 'b) effect \<Rightarrow> ('s, 'e, 'b) effect" where
  "thn m n = bnd m (\<lambda>_. n)"

definition get_st :: "('s, 'e, 's) effect" where
  "get_st = (\<lambda>s. (Inr s, s))"

definition upd_st :: "('s \<Rightarrow> 's) \<Rightarrow> ('s, 'e, unit) effect" where
  "upd_st f = (\<lambda>s. (Inr (), f s))"

definition lift_res :: "'e + 'a \<Rightarrow> ('s, 'e, 'a) effect" where
  "lift_res r = (\<lambda>s. (r, s))"

definition catch_exc :: "('s, 'e, 'a) effect \<Rightarrow> ('e \<Rightarrow> ('s, 'e, 'a) effect) \<Rightarrow> ('s, 'e, 'a) effect" where
  "catch_exc m h = (\<lambda>s. case m s of (Inl e, s') \<Rightarrow> h e s' | (Inr a, s') \<Rightarrow> (Inr a, s'))"

fun foreach :: "'x list \<Rightarrow> ('x \<Rightarrow> ('s, 'e, unit) effect) \<Rightarrow> ('s, 'e, unit) effect" where
  "foreach [] body = ret ()"
| "foreach (x # xs) body = thn (body x) (foreach xs body)"

text \<open>A database transaction: the changes of a body that raises are rolled back.\<close>

definition atomically :: "('s, 'e, 'a) effect \<Rightarrow> ('s, 'e, 'a) effect" where
  "atomically m = (\<lambda>s. case m s of (Inl e, s') \<Rightarrow> (Inl e, s) | (Inr a, s') \<Rightarrow> (Inr a, s'))"

lemmas effect_defs = ret_def raise_exc_def bnd_def thn_def get_st_def upd_st_def lift_res_def
  catch_exc_def atomically_def

lemma bnd_ret [simp]: "bnd (ret a) f = f a"
  by (simp add: effect_defs)

lemma bnd_raise [simp]: "bnd (raise_exc e) f = raise_exc e"
  by (simp add: effect_defs fun_eq_iff)

lemma bnd_assoc: "bnd (bnd m f) g = bnd m (\<lambda>x. bnd (f x) g)"
  by (auto simp: bnd_def fun_eq_iff split: prod.splits sum.splits)

lemma bnd_Inr:
  "bnd m f s = (Inr b, t) \<longleftrightarrow> (\<exists>a u. m s = (Inr a, u) \<and> f a u = (Inr b, t))"
  by (auto simp: bnd_def split: prod.splits sum.splits)

lemma bnd_Inl:
  "bnd m f s = (Inl e, t) \<longleftrightarrow> m s = (Inl e, t) \<or> (\<exists>a u. m s = (Inr a, u) \<and> f a u = (Inl e, t))"
  by (auto simp: bnd_def split: prod.splits sum.splits)

lemma thn_Inr:
  "thn m n s = (Inr b, t) \<longleftrightarrow> (\<exists>a u. m s = (Inr a, u) \<and> n u = (Inr b, t))"
  by (auto simp: thn_def bnd_Inr)

lemma thn_Inl:
  "thn m n s = (Inl e, t) \<longleftrightarrow> m s = (Inl e, t) \<or> (\<exists>a u. m s = (Inr a, u) \<and> n u = (Inl e, t))"
  by (auto simp: thn_def bnd_Inl)

lemma atomically_raise: "fst (m s) = Inl e \<Longrightarrow> atomically m s = (Inl e, s)"
  by (auto simp: atomically_def split: prod.splits sum.splits)

lemma atomically_Inr: "atomically m s = (Inr a, t) \<longleftrightarrow> m s = (Inr a, t)"
  by (auto simp: atomically_def split: prod.splits sum.splits)

lemma atomically_Inl: "atomically m s = (Inl e, t) \<longleftrightarrow> t = s \<and> (\<exists>u. m s = (Inl e, u))"
  by (auto simp: atomically_def split: prod.splits sum.splits)

section \<open>Relations kept by effects\<close>

definition keeps :: "('s \<Rightarrow> 's \<Rightarrow> bool) \<Rightarrow> ('s, 'e, 'a) effect \<Rightarrow> bool" where
  "keeps R m \<longleftrightarrow> (\<forall>s. R s (snd (m s)))"

lemma keepsI: "(\<And>s. R s (snd (m s))) \<Longrightarrow> keeps R m"
  by (simp add: keeps_def)

lemma keepsD: "keeps R m \<Longrightarrow> m s = (r, t) \<Longrightarrow> R s t"
  by (auto simp: keeps_def dest: spec [where x = s])

locale step_relation =
  fixes R :: "'s \<Rightarrow> 's \<Rightarrow> bool"
  assumes R_refl: "R s s"
    and R_trans: "R s t \<Longrightarrow> R t u \<Longrightarrow> R s u"
begin

lemma keeps_ret [keeps_intros]: "keeps R (ret a)"
  by (simp add: keeps_def ret_def R_refl)

lemma keeps_raise [keeps_intros]: "keeps R (raise_exc e)"
  by (simp add: keeps_def raise_exc_def R_refl)

lemma keeps_lift [keeps_intros]: "keeps R (lift_res r)"
  by (simp add: keeps_def lift_res_def R_refl)

lemma keeps_get [keeps_intros]: "keeps R get_st"
  by (simp add: keeps_def get_st_def R_refl)

lemma keeps_upd: "(\<And>s. R s (f s)) \<Longrightarrow> keeps R (upd_st f)"
  by (simp add: keeps_def upd_st_def)

lemma keeps_bnd [keeps_intros]:
  assumes m: "keeps R m" and f: "\<And>a. keeps R (f a)"
  shows "keeps R (bnd m f)"
proof (rule keepsI)
  fix s
  obtain r u where mu: "m s = (r, u)" by (cases "m s")
  then have su: "R s u" using m by (auto dest: keepsD)
  show "R s (snd (bnd m f s))"
  proof (cases r)
    case (Inl e)
    with mu su show ?thesis by (simp add: bnd_def)
  next
    case (Inr a)
    have "R u (snd (f a u))" using f [of a] by (simp add: keeps_def)
    with mu su Inr show ?thesis by (auto simp: bnd_def intro: R_trans)
  qed
qed

lemma keeps_thn [keeps_intros]: "keeps R m \<Longrightarrow> keeps R n \<Longrightarrow> keeps R (thn m n)"
  by (simp add: thn_def keeps_bnd)

lemma keeps_catch [keeps_intros]:
  assumes m: "keeps R m" and h: "\<And>e. keeps R (h e)"
  shows "keeps R (catch_exc m h)"
proof (rule keepsI)
  fix s
  obtain r u where mu: "m s = (r, u)" by (cases "m s")
  then have su: "R s u" using m by (auto dest: keepsD)
  show "R s (snd (catch_exc m h s))"
  proof (cases r)
    case (Inl e)
    have "R u (snd (h e u))" using h [of e] by (simp add: keeps_def)
    with mu su Inl show ?thesis by (auto simp: catch_exc_def intro: R_trans)
  next
    case (Inr a)
    with mu su show ?thesis by (simp add: catch_exc_def)
  qed
qed

lemma keeps_foreach [keeps_intros]:
  "(\<And>x. keeps R (body x)) \<Longrightarrow> keeps R (foreach xs body)"
  by (induction xs) (auto intro: keeps_ret keeps_thn)

lemma keeps_atomically [keeps_intros]: "keeps R m \<Longrightarrow> keeps R (atomically m)"
  by (auto simp: keeps_def atomically_def R_refl split: prod.splits sum.splits)
    (metis snd_conv)

end

end
