(* ===== verification/Times.thy ===== *)
theory Times
  imports PyValues
begin

text \<open>
  Timestamps. A \<open>datetime\<close> is its wall-clock reading in microseconds and, when it is aware, its
  offset from UTC. The text a timestamp is stored as is kept structured: \<open>IsoText d\<close> is what
  \<open>d.isoformat()\<close> writes, \<open>RawText s\<close> any text that \<open>fromisoformat\<close> rejects, the empty one
  included. Canonical UTC texts order as the instants they name, which is how \<open>utc_key\<close> orders
  them.
\<close>

datatype datetime = DateTime (wall_us: int) (utc_offset: "int option")

definition is_aware :: "datetime \<Rightarrow> bool" where
  "is_aware d \<longleftrightarrow> utc_offset d \<noteq> None"

definition utc_datetime :: "int \<Rightarrow> datetime" where
  "utc_datetime us = DateTime us (Some 0)"

text \<open>The instant of an aware datetime, in microseconds since the epoch.\<close>

definition instant :: "datetime \<Rightarrow> int" where
  "instant d = wall_us d - (case utc_offset d of None \<Rightarrow> 0 | Some off \<Rightarrow> off)"

text \<open>\<open>d.astimezone(timezone.utc)\<close> of an aware \<open>d\<close>, and \<open>d.replace(tzinfo=timezone.utc)\<close>.\<close>

definition astimezone_utc :: "datetime \<Rightarrow> datetime" where
  "astimezone_utc d = utc_datetime (instant d)"

definition replace_utc :: "datetime \<Rightarrow> datetime" where
  "replace_utc d = DateTime (wall_us d) (Some 0)"

text \<open>
  Python's \<open>==\<close>: an aware and a naive datetime are never equal; two aware ones are equal when
  they name the same instant.
\<close>

definition datetime_eq :: "datetime \<Rightarrow> datetime \<Rightarrow> bool" where
  "datetime_eq a b \<longleftrightarrow>
     (if is_aware a \<and> is_aware b then instant a = instant b
      else if is_aware a \<or> is_aware b then False
      else wall_us a = wall_us b)"

datatype iso_text = IsoText datetime | RawText string

definition isoformat :: "datetime \<Rightarrow> iso_text" where
  "isoformat d = IsoText d"

definition fromisoformat :: "iso_text \<Rightarrow> datetime option" where
  "fromisoformat t = (case t of IsoText d \<Rightarrow> Some d | RawText _ \<Rightarrow> None)"

definition empty_text :: iso_text where
  "empty_text = RawText []"

lemma fromisoformat_isoformat [simp]: "fromisoformat (isoformat d) = Some d"
  by (simp add: fromisoformat_def isoformat_def)

lemma isoformat_not_empty [simp]: "isoformat d \<noteq> empty_text" "empty_text \<noteq> isoformat d"
  by (simp_all add: isoformat_def empty_text_def)

lemma utc_datetime_simps [simp]:
  "is_aware (utc_datetime us)" "instant (utc_datetime us) = us"
  "astimezone_utc (utc_datetime us) = utc_datetime us"
  by (simp_all add: is_aware_def utc_datetime_def instant_def astimezone_utc_def)

lemma astimezone_utc_simps [simp]:
  "is_aware (astimezone_utc d)" "instant (astimezone_utc d) = instant d"
  "astimezone_utc (astimezone_utc d) = astimezone_utc d"
  by (simp_all add: astimezone_utc_def)

text \<open>The place of a stored UTC text in SQLite's text order: the empty text comes first.\<close>

definition utc_key :: "iso_text \<Rightarrow> int option" where
  "utc_key t = (case t of IsoText d \<Rightarrow> Some (instant d) | RawText _ \<Rightarrow> None)"

section \<open>The text itself\<close>

text \<open>
  \<open>isoformat()\<close> spelled out, for the places where the stored texts are compared as texts. The civil
  date of a day number counts in eras of 400 years from 1 March of year 0.
\<close>

definition civil_date :: "int \<Rightarrow> int \<times> int \<times> int" where
  "civil_date day =
     (let z = day + 719468; era = z div 146097; doe = z mod 146097;
          yoe = (doe - doe div 1460 + doe div 36524 - doe div 146096) div 365;
          doy = doe - (365 * yoe + yoe div 4 - yoe div 100);
          mp = (5 * doy + 2) div 153;
          d = doy - (153 * mp + 2) div 5 + 1;
          m = (if mp < 10 then mp + 3 else mp - 9);
          y = yoe + era * 400 + (if m \<le> 2 then 1 else 0)
      in (y, m, d))"

definition padded :: "nat \<Rightarrow> int \<Rightarrow> string" where
  "padded w n = (let s = show_int n in replicate (w - length s) CHR ''0'' @ s)"

definition date_time_text :: "int \<Rightarrow> string" where
  "date_time_text us =
     (let day = us div 86400000000; s = us mod 86400000000 div 1000000;
          (y, m, d) = civil_date day
      in padded 4 y @ ''-'' @ padded 2 m @ ''-'' @ padded 2 d @ ''T'' @
         padded 2 (s div 3600) @ '':'' @ padded 2 (s div 60 mod 60) @ '':'' @ padded 2 (s mod 60))"

definition offset_text :: "int option \<Rightarrow> string" where
  "offset_text off = (case off of None \<Rightarrow> [] | Some offset \<Rightarrow>
     (let a = \<bar>offset\<bar>; s = a div 1000000; u = a mod 1000000
      in (if offset < 0 then ''-'' else ''+'') @ padded 2 (s div 3600) @ '':'' @ padded 2 (s div 60 mod 60) @
         (if s mod 60 = 0 \<and> u = 0 then [] else '':'' @ padded 2 (s mod 60)) @
         (if u = 0 then [] else ''.'' @ padded 6 u)))"

definition iso_string :: "iso_text \<Rightarrow> string" where
  "iso_string t = (case t of
     IsoText d \<Rightarrow> date_time_text (wall_us d) @
       (if wall_us d mod 1000000 = 0 then [] else ''.'' @ padded 6 (wall_us d mod 1000000)) @
       offset_text (utc_offset d)
   | RawText s \<Rightarrow> s)"

text \<open>The UTC text with \<open>timespec="microseconds"\<close>.\<close>

definition iso_micro :: "int \<Rightarrow> string" where
  "iso_micro us = date_time_text us @ ''.'' @ padded 6 (us mod 1000000) @ ''+00:00''"

text \<open>SQLite's \<open>CAST(strftime('%s', t) AS INTEGER)\<close>; NULL for a text that is not a time.\<close>

definition unix_seconds :: "iso_text \<Rightarrow> int option" where
  "unix_seconds t = (case t of IsoText d \<Rightarrow> Some (instant d div 1000000) | RawText _ \<Rightarrow> None)"

end
