(* ===== verification/Outcomes.thy ===== *)
theory Outcomes
  imports Times
begin

text \<open>
  The closed vocabularies of the framework (\<open>rpacore/status.py\<close>, \<open>rpacore/outcome.py\<close>), its
  exception types (\<open>rpacore/exceptions.py\<close>) and the validation of failure codes and definition
  identities (\<open>rpacore/outcome.py\<close>, \<open>rpacore/_definition.py\<close>).
\<close>

section \<open>Lifecycle and outcome vocabularies\<close>

datatype status = PENDING | IN_PROGRESS | SUCCESSFUL | FAILED | SKIPPED

datatype outcome_category =
    OC_SUCCESSFUL | OC_BUSINESS_FAILED | OC_SYSTEM_FAILED | OC_VALIDATION_FAILED
  | OC_INTERRUPTED | OC_LEASE_LOST | OC_UNKNOWN

datatype retry_disposition =
    RD_NOT_APPLICABLE | RD_NOT_REQUESTED | RD_RETRY_SCHEDULED | RD_RETRY_EXHAUSTED | RD_UNKNOWN

fun status_value :: "status \<Rightarrow> string" where
  "status_value PENDING = ''pending''"
| "status_value IN_PROGRESS = ''in_progress''"
| "status_value SUCCESSFUL = ''successful''"
| "status_value FAILED = ''failed''"
| "status_value SKIPPED = ''skipped''"

fun outcome_value :: "outcome_category \<Rightarrow> string" where
  "outcome_value OC_SUCCESSFUL = ''successful''"
| "outcome_value OC_BUSINESS_FAILED = ''business_failed''"
| "outcome_value OC_SYSTEM_FAILED = ''system_failed''"
| "outcome_value OC_VALIDATION_FAILED = ''validation_failed''"
| "outcome_value OC_INTERRUPTED = ''interrupted''"
| "outcome_value OC_LEASE_LOST = ''lease_lost''"
| "outcome_value OC_UNKNOWN = ''unknown''"

fun disposition_value :: "retry_disposition \<Rightarrow> string" where
  "disposition_value RD_NOT_APPLICABLE = ''not_applicable''"
| "disposition_value RD_NOT_REQUESTED = ''not_requested''"
| "disposition_value RD_RETRY_SCHEDULED = ''retry_scheduled''"
| "disposition_value RD_RETRY_EXHAUSTED = ''retry_exhausted''"
| "disposition_value RD_UNKNOWN = ''unknown''"

text \<open>The enum constructors called on a stored value, \<open>Status(text)\<close> and its kin.\<close>

definition status_of :: "string \<Rightarrow> status option" where
  "status_of s = find (\<lambda>x. status_value x = s) [PENDING, IN_PROGRESS, SUCCESSFUL, FAILED, SKIPPED]"

definition outcome_of :: "string \<Rightarrow> outcome_category option" where
  "outcome_of s = find (\<lambda>x. outcome_value x = s)
     [OC_SUCCESSFUL, OC_BUSINESS_FAILED, OC_SYSTEM_FAILED, OC_VALIDATION_FAILED,
      OC_INTERRUPTED, OC_LEASE_LOST, OC_UNKNOWN]"

definition disposition_of :: "string \<Rightarrow> retry_disposition option" where
  "disposition_of s = find (\<lambda>x. disposition_value x = s)
     [RD_NOT_APPLICABLE, RD_NOT_REQUESTED, RD_RETRY_SCHEDULED, RD_RETRY_EXHAUSTED, RD_UNKNOWN]"

lemma status_of_value [simp]: "status_of (status_value s) = Some s"
  by (cases s) (simp_all add: status_of_def)

lemma outcome_of_value [simp]: "outcome_of (outcome_value c) = Some c"
  by (cases c) (simp_all add: outcome_of_def)

lemma disposition_of_value [simp]: "disposition_of (disposition_value r) = Some r"
  by (cases r) (simp_all add: disposition_of_def)

lemma status_value_inject [simp]: "status_value a = status_value b \<longleftrightarrow> a = b"
  by (metis status_of_value option.inject)

section \<open>Exceptions\<close>

text \<open>
  \<open>BusinessException\<close> and \<open>SystemException\<close> carry the same attributes; \<open>halts_flag\<close> is the
  constructor's argument, which a \<open>SystemException\<close> overrides by a property that is always true.
\<close>

record step_exc =
  is_business :: bool
  exc_message :: string
  exc_action :: string
  exc_retry_number :: int
  exc_occurred_at :: datetime
  exc_screenshot_path :: string
  halts_flag :: bool
  exc_code :: string

definition halts_remaining_steps :: "step_exc \<Rightarrow> bool" where
  "halts_remaining_steps e = (if is_business e then halts_flag e else True)"

datatype pyexc =
    StepExc step_exc
  | MemoryErr
  | KeyboardInterrupt
  | SystemExit
  | ExecutionValidationError string
  | DefinitionIdentityError string
  | JsonStateError string
  | JSONDecodeError
  | ValueErr string
  | TypeErr string
  | KeyErr string
  | RuntimeErr string
  | OSErr string
  | OperationalError string
  | IntegrityError string
  | QueueLeaseLostError string
  | TransactionFenceError string
  | CheckpointError pyexc bool
  | DurableBindingError string
  | LeaseRenewalError string
  | OtherException string

text \<open>The class tests of the \<open>except\<close> clauses.\<close>

definition is_exception :: "pyexc \<Rightarrow> bool" where
  "is_exception e \<longleftrightarrow> e \<noteq> KeyboardInterrupt \<and> e \<noteq> SystemExit"

definition is_fatal_signal :: "pyexc \<Rightarrow> bool" where
  "is_fatal_signal e \<longleftrightarrow> e \<in> {MemoryErr, KeyboardInterrupt, SystemExit}"

fun is_execution_validation_error :: "pyexc \<Rightarrow> bool" where
  "is_execution_validation_error (ExecutionValidationError _) = True"
| "is_execution_validation_error (DefinitionIdentityError _) = True"
| "is_execution_validation_error _ = False"

fun is_value_error :: "pyexc \<Rightarrow> bool" where
  "is_value_error (ValueErr _) = True"
| "is_value_error JSONDecodeError = True"
| "is_value_error (ExecutionValidationError _) = True"
| "is_value_error (DefinitionIdentityError _) = True"
| "is_value_error _ = False"

fun is_type_error :: "pyexc \<Rightarrow> bool" where
  "is_type_error (TypeErr _) = True"
| "is_type_error (JsonStateError _) = True"
| "is_type_error _ = False"

fun is_sqlite_error :: "pyexc \<Rightarrow> bool" where
  "is_sqlite_error (OperationalError _) = True"
| "is_sqlite_error (IntegrityError _) = True"
| "is_sqlite_error _ = False"

fun is_json_state_error :: "pyexc \<Rightarrow> bool" where
  "is_json_state_error (JsonStateError _) = True"
| "is_json_state_error _ = False"

fun is_key_error :: "pyexc \<Rightarrow> bool" where
  "is_key_error (KeyErr _) = True"
| "is_key_error _ = False"

fun is_system_exception :: "pyexc \<Rightarrow> bool" where
  "is_system_exception (StepExc e) = (\<not> is_business e)"
| "is_system_exception _ = False"

fun exc_str :: "pyexc \<Rightarrow> string" where
  "exc_str (StepExc e) = exc_message e"
| "exc_str MemoryErr = []"
| "exc_str KeyboardInterrupt = []"
| "exc_str SystemExit = []"
| "exc_str (ExecutionValidationError m) = m"
| "exc_str (DefinitionIdentityError m) = m"
| "exc_str (JsonStateError m) = m"
| "exc_str JSONDecodeError = ''Expecting value''"
| "exc_str (ValueErr m) = m"
| "exc_str (TypeErr m) = m"
| "exc_str (KeyErr m) = m"
| "exc_str (RuntimeErr m) = m"
| "exc_str (OSErr m) = m"
| "exc_str (OperationalError m) = m"
| "exc_str (IntegrityError m) = m"
| "exc_str (QueueLeaseLostError m) = m"
| "exc_str (TransactionFenceError m) = m"
| "exc_str (CheckpointError e _) = exc_str e"
| "exc_str (DurableBindingError m) = m"
| "exc_str (LeaseRenewalError m) = m"
| "exc_str (OtherException m) = m"

section \<open>Failure codes\<close>

text \<open>The pattern \<open>[a-z][a-z0-9_]*(?:\.[a-z][a-z0-9_]*)+\<close>, matched against the whole text.\<close>

definition tail_char :: "char \<Rightarrow> bool" where
  "tail_char c \<longleftrightarrow> is_lower c \<or> is_digit c \<or> c = CHR ''_''"

definition code_segment :: "string \<Rightarrow> bool" where
  "code_segment s = (case s of [] \<Rightarrow> False | c # cs \<Rightarrow> is_lower c \<and> list_all tail_char cs)"

definition fullmatch_failure_code :: "string \<Rightarrow> bool" where
  "fullmatch_failure_code s =
     (let segments = split_on CHR ''.'' s
      in 2 \<le> length segments \<and> list_all code_segment segments)"

definition validate_failure_code :: "string \<Rightarrow> pyexc + string" where
  "validate_failure_code code =
     (if code \<noteq> [] \<and> \<not> fullmatch_failure_code code
      then Inl (ValueErr ''code must be empty or lowercase dot-separated ASCII segments'')
      else Inr code)"

text \<open>The language of the pattern, read off the regular expression.\<close>

inductive code_lang :: "string \<Rightarrow> bool" where
  pair: "code_segment a \<Longrightarrow> code_segment b \<Longrightarrow> code_lang (a @ CHR ''.'' # b)"
| more: "code_lang s \<Longrightarrow> code_segment b \<Longrightarrow> code_lang (s @ CHR ''.'' # b)"

lemma dot_not_in_segment: "code_segment s \<Longrightarrow> CHR ''.'' \<notin> set s"
  by (auto simp: code_segment_def is_lower_def is_digit_def tail_char_def list_all_iff code_point_def
      split: list.splits)

lemma split_on_append_sep: "split_on c (s @ c # t) = split_on c s @ split_on c t"
proof (induction s)
  case (Cons x s)
  obtain w ws where "split_on c s = w # ws" by (metis list.exhaust split_on_nonempty)
  with Cons show ?case by simp
qed simp

lemma split_on_absent: "c \<notin> set s \<Longrightarrow> split_on c s = [s]"
  by (induction s) auto

lemma code_lang_fullmatch: "code_lang s \<Longrightarrow> fullmatch_failure_code s"
proof (induction rule: code_lang.induct)
  case (pair a b)
  then have "split_on CHR ''.'' (a @ CHR ''.'' # b) = [a, b]"
    by (simp add: split_on_append_sep split_on_absent dot_not_in_segment)
  with pair show ?case by (simp add: fullmatch_failure_code_def)
next
  case (more s b)
  then show ?case
    by (simp add: fullmatch_failure_code_def split_on_append_sep split_on_absent
        dot_not_in_segment Let_def)
qed

lemma join_on_snoc: "ws \<noteq> [] \<Longrightarrow> join_on c (ws @ [w]) = join_on c ws @ c # w"
  by (induction c ws rule: join_on.induct) auto

lemma segments_code_lang:
  "2 \<le> length ws \<Longrightarrow> list_all code_segment ws \<Longrightarrow> code_lang (join_on CHR ''.'' ws)"
proof (induction ws rule: rev_induct)
  case (snoc w ws)
  show ?case
  proof (cases "length ws = 1")
    case True
    then obtain a where "ws = [a]" by (auto simp: length_Suc_conv)
    with snoc.prems show ?thesis by (auto intro: code_lang.pair)
  next
    case False
    with snoc.prems have two: "2 \<le> length ws" and "ws \<noteq> []" by auto
    then show ?thesis using snoc by (auto simp: join_on_snoc intro: code_lang.more)
  qed
qed simp

lemma fullmatch_code_lang: "fullmatch_failure_code s \<Longrightarrow> code_lang s"
  using segments_code_lang [of "split_on CHR ''.'' s"]
  by (simp add: fullmatch_failure_code_def join_split Let_def)

lemma fullmatch_failure_code_iff: "fullmatch_failure_code s \<longleftrightarrow> code_lang s"
  using code_lang_fullmatch fullmatch_code_lang by blast

section \<open>Exception constructors\<close>

text \<open>\<open>occurred_at or datetime.now(timezone.utc)\<close>: \<open>now\<close> is the clock reading.\<close>

definition business_exception ::
  "string \<Rightarrow> string \<Rightarrow> int \<Rightarrow> datetime option \<Rightarrow> datetime \<Rightarrow> string \<Rightarrow> bool \<Rightarrow> string \<Rightarrow> pyexc + step_exc" where
  "business_exception message action retry_number occurred now screenshot halts code =
     (case validate_failure_code code of
        Inl e \<Rightarrow> Inl e
      | Inr c \<Rightarrow> Inr \<lparr>is_business = True, exc_message = message, exc_action = action,
          exc_retry_number = retry_number,
          exc_occurred_at = (case occurred of None \<Rightarrow> now | Some t \<Rightarrow> t),
          exc_screenshot_path = screenshot, halts_flag = halts, exc_code = c\<rparr>)"

definition system_exception ::
  "string \<Rightarrow> string \<Rightarrow> int \<Rightarrow> datetime option \<Rightarrow> datetime \<Rightarrow> string \<Rightarrow> string \<Rightarrow> pyexc + step_exc" where
  "system_exception message action retry_number occurred now screenshot code =
     (case validate_failure_code code of
        Inl e \<Rightarrow> Inl e
      | Inr c \<Rightarrow> Inr \<lparr>is_business = False, exc_message = message, exc_action = action,
          exc_retry_number = retry_number,
          exc_occurred_at = (case occurred of None \<Rightarrow> now | Some t \<Rightarrow> t),
          exc_screenshot_path = screenshot, halts_flag = True, exc_code = c\<rparr>)"

section \<open>Definition identities\<close>

definition max_definition_identity_length :: nat where
  "max_definition_identity_length = 255"

text \<open>The value is \<open>None\<close> or a \<open>str\<close>; \<open>required\<close> is the keyword argument.\<close>

definition validate_definition_identity :: "pyval \<Rightarrow> bool \<Rightarrow> pyexc + string" where
  "validate_definition_identity value required =
     (if value = PNone \<and> required
      then Inl (DefinitionIdentityError ''must be a non-empty str'')
      else case value of
        PStr s \<Rightarrow>
          (if s = []
           then (if required then Inl (DefinitionIdentityError ''must be a non-empty str'') else Inr s)
           else if s \<noteq> strip s
           then Inl (DefinitionIdentityError ''must not have leading or trailing whitespace'')
           else if max_definition_identity_length < length s
           then Inl (DefinitionIdentityError ''must be at most 255 characters'')
           else if \<exists>c \<in> set s. is_control c
           then Inl (DefinitionIdentityError ''must not contain control characters'')
           else Inr s)
      | _ \<Rightarrow> Inl (DefinitionIdentityError ''must be a str''))"

lemma validate_definition_identity_ok:
  "validate_definition_identity v req = Inr s \<Longrightarrow>
   v = PStr s \<and> (req \<longrightarrow> s \<noteq> []) \<and> s = strip s \<and> length s \<le> 255 \<and> (\<forall>c \<in> set s. \<not> is_control c)"
  by (auto simp: validate_definition_identity_def max_definition_identity_length_def strip_def
      split: if_splits pyval.splits)

end
