(* ===== verification/JsonState.thy ===== *)
theory JsonState
  imports Outcomes
begin

text \<open>
  Validation of durable JSON data (\<open>rpacore/_json_state.py\<close>).

  The validator guards against cyclic containers by the identities (\<open>id(value)\<close>) of the
  containers being visited, so it is modelled on a store of objects: a value is a reference, and
  the heap says which list or dict a container identity stands for. Its abstract meaning is on
  trees: \<open>denotes h v t\<close> unfolds a reference to the finite tree it stands for, which exists only
  when no cycle is reachable, and \<open>json_safe\<close> is the condition on the tree. The refinement
  theorem says that the validator accepts exactly the references that denote a JSON-safe tree.
\<close>

section \<open>Objects with identity\<close>

datatype pyref =
    RNone | RBool bool | RInt int | RFloat pyfloat | RStr string | RRef nat | ROther string

datatype hobj = HList "pyref list" | HDict "(pyref \<times> pyref) list"

type_synonym heap = "(nat \<times> hobj) list"

datatype path_elem = Field string | Index nat | Key pyref

datatype json_error = StateTypeError "path_elem list" string pyref

section \<open>The validator\<close>

text \<open>
  The validator always stops: entering a container adds its identity to \<open>active\<close>, which stays within the
  finitely many containers of the heap; within a container the items run out.
\<close>

lemma card_unvisited_less:
  "map_of h r = Some ob \<Longrightarrow> r \<notin> active \<Longrightarrow>
   card (dom (map_of h) - insert r active) < card (dom (map_of h) - active)"
  by (rule psubset_card_mono) (auto simp: finite_dom_map_of)

definition unvisited :: "heap \<Rightarrow> nat set \<Rightarrow> nat" where
  "unvisited h active = card (dom (map_of h) - active)"

function (sequential)
  validate_val :: "heap \<Rightarrow> path_elem list \<Rightarrow> nat set \<Rightarrow> pyref \<Rightarrow> json_error + unit" and
  validate_items :: "heap \<Rightarrow> path_elem list \<Rightarrow> nat set \<Rightarrow> nat \<Rightarrow> pyref list \<Rightarrow> json_error + unit" and
  validate_pairs :: "heap \<Rightarrow> path_elem list \<Rightarrow> nat set \<Rightarrow> (pyref \<times> pyref) list \<Rightarrow> json_error + unit"
where
  "validate_val h path active RNone = Inr ()"
| "validate_val h path active (RStr s) = Inr ()"
| "validate_val h path active (RBool b) = Inr ()"
| "validate_val h path active (RInt i) = Inr ()"
| "validate_val h path active (RFloat f) =
     (if isfinite f then Inr ()
      else Inl (StateTypeError path ''finite JSON number'' (RFloat f)))"
| "validate_val h path active (RRef r) =
     (case map_of h r of
        None \<Rightarrow> Inl (StateTypeError path ''JSON value'' (RRef r))
      | Some ob \<Rightarrow>
          (if r \<in> active then Inl (StateTypeError path ''acyclic JSON value'' (RRef r))
           else case ob of
             HList xs \<Rightarrow> validate_items h path (insert r active) 0 xs
           | HDict kvs \<Rightarrow> validate_pairs h path (insert r active) kvs))"
| "validate_val h path active (ROther c) = Inl (StateTypeError path ''JSON value'' (ROther c))"
| "validate_items h path active i [] = Inr ()"
| "validate_items h path active i (x # xs) =
     (case validate_val h (path @ [Index i]) active x of
        Inl e \<Rightarrow> Inl e
      | Inr _ \<Rightarrow> validate_items h path active (Suc i) xs)"
| "validate_pairs h path active [] = Inr ()"
| "validate_pairs h path active ((k, v) # kvs) =
     (case k of
        RStr _ \<Rightarrow>
          (case validate_val h (path @ [Key k]) active v of
             Inl e \<Rightarrow> Inl e
           | Inr _ \<Rightarrow> validate_pairs h path active kvs)
      | _ \<Rightarrow> Inl (StateTypeError (path @ [Key k]) ''string key'' k))"
  by pat_completeness auto

termination
  by (relation "measures
      [\<lambda>x. case x of Inl (h, p, a, v) \<Rightarrow> unvisited h a
         | Inr (Inl (h, p, a, i, xs)) \<Rightarrow> unvisited h a | Inr (Inr (h, p, a, kvs)) \<Rightarrow> unvisited h a,
       \<lambda>x. case x of Inl (h, p, a, v) \<Rightarrow> 0
         | Inr (Inl (h, p, a, i, xs)) \<Rightarrow> Suc (length xs) | Inr (Inr (h, p, a, kvs)) \<Rightarrow> Suc (length kvs)]")
    (auto simp: unvisited_def card_unvisited_less)

definition validate_json_safe_ref :: "heap \<Rightarrow> string \<Rightarrow> pyref \<Rightarrow> json_error + unit" where
  "validate_json_safe_ref h path v = validate_val h [Field path] {} v"

definition validate_json_object_ref :: "heap \<Rightarrow> string \<Rightarrow> pyref \<Rightarrow> json_error + unit" where
  "validate_json_object_ref h path v =
     (case v of
        RRef r \<Rightarrow> (case map_of h r of
            Some (HDict _) \<Rightarrow> validate_val h [Field path] {} v
          | _ \<Rightarrow> Inl (StateTypeError [Field path] ''JSON object'' v))
      | _ \<Rightarrow> Inl (StateTypeError [Field path] ''JSON object'' v))"

section \<open>Meaning on trees\<close>

fun json_safe :: "pyval \<Rightarrow> bool" where
  "json_safe PNone = True"
| "json_safe (PBool b) = True"
| "json_safe (PInt i) = True"
| "json_safe (PFloat f) = isfinite f"
| "json_safe (PStr s) = True"
| "json_safe (PList xs) = list_all json_safe xs"
| "json_safe (PDict kvs) = list_all (\<lambda>(k, v). (case k of PStr _ \<Rightarrow> True | _ \<Rightarrow> False) \<and> json_safe v) kvs"
| "json_safe (POther c) = False"

inductive denotes :: "heap \<Rightarrow> pyref \<Rightarrow> pyval \<Rightarrow> bool" for h where
  d_none: "denotes h RNone PNone"
| d_bool: "denotes h (RBool b) (PBool b)"
| d_int: "denotes h (RInt i) (PInt i)"
| d_float: "denotes h (RFloat f) (PFloat f)"
| d_str: "denotes h (RStr s) (PStr s)"
| d_other: "denotes h (ROther c) (POther c)"
| d_list: "map_of h r = Some (HList xs) \<Longrightarrow> list_all2 (denotes h) xs ts \<Longrightarrow> denotes h (RRef r) (PList ts)"
| d_dict: "map_of h r = Some (HDict kvs) \<Longrightarrow>
    list_all2 (\<lambda>x y. denotes h (fst x) (fst y) \<and> denotes h (snd x) (snd y)) kvs ts \<Longrightarrow>
    denotes h (RRef r) (PDict ts)"

inductive_cases denotes_noneE: "denotes h RNone t"
inductive_cases denotes_boolE: "denotes h (RBool b) t"
inductive_cases denotes_intE: "denotes h (RInt i) t"
inductive_cases denotes_floatE: "denotes h (RFloat f) t"
inductive_cases denotes_strE: "denotes h (RStr s) t"
inductive_cases denotes_otherE: "denotes h (ROther c) t"
inductive_cases denotes_refE: "denotes h (RRef r) t"

lemmas denotes_leafE = denotes_noneE denotes_boolE denotes_intE denotes_floatE denotes_strE
  denotes_otherE

lemma denotes_PStr: "denotes h k (PStr s) \<longleftrightarrow> k = RStr s"
  by (auto elim: denotes.cases intro: denotes.intros)

text \<open>A reference denotes at most one tree.\<close>

lemma denotes_unique: "denotes h v t \<Longrightarrow> denotes h v t' \<Longrightarrow> t = t'"
proof (induction v t arbitrary: t' rule: denotes.induct)
  case (d_list r xs ts)
  from d_list.prems d_list.hyps obtain ts' where t': "t' = PList ts'" and all: "list_all2 (denotes h) xs ts'"
    by (auto elim: denotes_refE)
  have "list_all2 (\<lambda>x t. \<forall>t'. denotes h x t' \<longrightarrow> t = t') xs ts"
    using d_list.IH by (auto elim: list_all2_mono)
  then have "ts = ts'" using all
    by (auto simp: list_all2_conv_all_nth intro: nth_equalityI)
  with t' show ?case by simp
next
  case (d_dict r kvs ts)
  from d_dict.prems d_dict.hyps obtain ts' where t': "t' = PDict ts'"
    and all: "list_all2 (\<lambda>x y. denotes h (fst x) (fst y) \<and> denotes h (snd x) (snd y)) kvs ts'"
    by (auto elim: denotes_refE)
  have "ts = ts'" using d_dict.IH all
    by (auto simp: list_all2_conv_all_nth intro!: nth_equalityI prod_eqI)
  with t' show ?case by simp
qed (auto elim: denotes_leafE)

section \<open>Refinement\<close>

text \<open>An accepted value denotes a safe tree.\<close>

lemma validate_sound:
  "validate_val h path active v = Inr () \<Longrightarrow> \<exists>t. denotes h v t \<and> json_safe t"
  "validate_items h path active i xs = Inr () \<Longrightarrow>
     \<exists>ts. list_all2 (denotes h) xs ts \<and> list_all json_safe ts"
  "validate_pairs h path active kvs = Inr () \<Longrightarrow>
     \<exists>ts. list_all2 (\<lambda>x y. denotes h (fst x) (fst y) \<and> denotes h (snd x) (snd y)) kvs ts
        \<and> json_safe (PDict ts)"
proof (induction h path active v and h path active i xs and h path active kvs
    rule: validate_val_validate_items_validate_pairs.induct)
  case (6 h path active r)
  then obtain ob where ob: "map_of h r = Some ob" "r \<notin> active"
    by (auto split: option.splits if_splits)
  show ?case
  proof (cases ob)
    case (HList xs)
    with 6 ob obtain ts where "list_all2 (denotes h) xs ts" "list_all json_safe ts" by auto
    with HList ob show ?thesis by (auto intro!: exI [of _ "PList ts"] denotes.intros)
  next
    case (HDict kvs)
    with 6 ob obtain ts where
      "list_all2 (\<lambda>x y. denotes h (fst x) (fst y) \<and> denotes h (snd x) (snd y)) kvs ts"
      "json_safe (PDict ts)" by auto
    with HDict ob show ?thesis by (auto intro!: exI [of _ "PDict ts"] denotes.intros)
  qed
next
  case (9 h path active i x xs)
  then obtain t ts where "denotes h x t" "json_safe t" "list_all2 (denotes h) xs ts"
    "list_all json_safe ts" by (auto split: sum.splits)
  then show ?case by (intro exI [of _ "t # ts"]) simp
next
  case (11 h path active k v kvs)
  then obtain s t ts where "k = RStr s" "denotes h v t" "json_safe t"
    "list_all2 (\<lambda>x y. denotes h (fst x) (fst y) \<and> denotes h (snd x) (snd y)) kvs ts"
    "json_safe (PDict ts)"
    by (auto split: sum.splits pyref.splits)
  then show ?case
    by (intro exI [of _ "(PStr s, t) # ts"]) (auto simp: denotes_PStr)
qed (auto intro: denotes.intros split: if_splits)

text \<open>
  For the converse, every identity in \<open>active\<close> stands for a strictly larger tree than the one
  being visited, so it is not met again.
\<close>

definition larger_active :: "heap \<Rightarrow> nat set \<Rightarrow> nat \<Rightarrow> bool" where
  "larger_active h active n \<longleftrightarrow> (\<forall>r \<in> active. \<exists>t. denotes h (RRef r) t \<and> n < size t)"

lemma larger_active_fresh:
  "larger_active h active (size t) \<Longrightarrow> denotes h (RRef r) t \<Longrightarrow> r \<notin> active"
  by (auto simp: larger_active_def dest: denotes_unique)

lemma larger_active_insert:
  "larger_active h active (size t) \<Longrightarrow> denotes h (RRef r) t \<Longrightarrow> n < size t \<Longrightarrow>
   larger_active h (insert r active) n"
  by (force simp: larger_active_def)

lemma size_list_item: "t \<in> set ts \<Longrightarrow> size t < size (PList ts)"
  by (induction ts) auto

lemma size_dict_item: "(k, t) \<in> set ts \<Longrightarrow> size t < size (PDict ts)"
  by (induction ts) auto

lemma validate_complete:
  "denotes h v t \<Longrightarrow> json_safe t \<Longrightarrow> larger_active h active (size t) \<Longrightarrow>
     validate_val h path active v = Inr ()"
  "list_all2 (denotes h) xs ts \<Longrightarrow> list_all json_safe ts \<Longrightarrow>
     \<forall>t \<in> set ts. larger_active h active (size t) \<Longrightarrow> validate_items h path active i xs = Inr ()"
  "list_all2 (\<lambda>x y. denotes h (fst x) (fst y) \<and> denotes h (snd x) (snd y)) kvs ps \<Longrightarrow>
     json_safe (PDict ps) \<Longrightarrow> \<forall>(k, t) \<in> set ps. larger_active h active (size t) \<Longrightarrow>
     validate_pairs h path active kvs = Inr ()"
proof (induction h path active v and h path active i xs and h path active kvs
    arbitrary: t and ts and ps rule: validate_val_validate_items_validate_pairs.induct)
  case (6 h path active r)
  have fresh: "r \<notin> active" using 6(3,5) by (rule larger_active_fresh [rotated])
  from 6(3) consider
    (lst) xs ts where "map_of h r = Some (HList xs)" "list_all2 (denotes h) xs ts" "t = PList ts"
  | (dct) kvs ps where "map_of h r = Some (HDict kvs)" "t = PDict ps"
      "list_all2 (\<lambda>x y. denotes h (fst x) (fst y) \<and> denotes h (snd x) (snd y)) kvs ps"
    by (auto elim: denotes_refE)
  then show ?case
  proof cases
    case lst
    have "larger_active h active (size (PList ts))" "denotes h (RRef r) (PList ts)"
      using 6(3,5) lst(3) by simp_all
    then have "\<forall>u \<in> set ts. larger_active h (insert r active) (size u)"
      by (blast intro: larger_active_insert size_list_item)
    with 6 lst fresh show ?thesis by auto
  next
    case dct
    have "larger_active h active (size (PDict ps))" "denotes h (RRef r) (PDict ps)"
      using 6(3,5) dct(2) by simp_all
    then have "\<forall>(k, u) \<in> set ps. larger_active h (insert r active) (size u)"
      by (blast intro: larger_active_insert size_dict_item)
    with 6 dct fresh show ?thesis by auto
  qed
next
  case (9 h path active i x xs)
  then show ?case by (auto simp: list_all2_Cons1)
next
  case (11 h path active k v kvs)
  from 11(3) obtain k' t' ps' where ps: "ps = (k', t') # ps'" "denotes h k k'" "denotes h v t'"
    "list_all2 (\<lambda>x y. denotes h (fst x) (fst y) \<and> denotes h (snd x) (snd y)) kvs ps'"
    by (auto simp: list_all2_Cons1)
  with 11(4) obtain s where k: "k = RStr s" by (auto split: pyval.splits simp: denotes_PStr)
  then have "validate_val h (path @ [Key k]) active v = Inr ()"
    using 11(1) [OF k] ps 11(4,5) by auto
  moreover have "validate_pairs h path active kvs = Inr ()"
    using 11(2) [OF k calculation] ps 11(4,5) k by auto
  ultimately show ?case using k by simp
qed (auto elim: denotes_leafE)

lemma validate_val_iff:
  "validate_val h path {} v = Inr () \<longleftrightarrow> (\<exists>t. denotes h v t \<and> json_safe t)"
  using validate_sound(1) [of h path "{}" v] validate_complete(1) [of h v _ "{}" path]
  by (auto simp: larger_active_def)

section \<open>Values without aliasing\<close>

text \<open>
  The rest of the development holds durable data as trees, for which the validators are the tree
  condition (the framework's own values are never cyclic).
\<close>

definition validate_json_safe :: "pyval \<Rightarrow> pyexc + unit" where
  "validate_json_safe v = (if json_safe v then Inr () else Inl (JsonStateError ''expected JSON value''))"

definition validate_json_object :: "pyval \<Rightarrow> pyexc + unit" where
  "validate_json_object v =
     (case v of
        PDict _ \<Rightarrow> validate_json_safe v
      | _ \<Rightarrow> Inl (JsonStateError ''expected JSON object''))"

definition safe_dict :: "pydict \<Rightarrow> bool" where
  "safe_dict d \<longleftrightarrow> list_all (\<lambda>(k, v). json_safe v) d"

lemma validate_json_object_of_dict:
  "validate_json_object (of_dict d) =
     (if safe_dict d then Inr () else Inl (JsonStateError ''expected JSON value''))"
proof -
  have "json_safe (of_dict d) = safe_dict d"
    by (induction d) (auto simp: of_dict_def safe_dict_def)
  then show ?thesis
    by (simp add: validate_json_object_def validate_json_safe_def of_dict_def)
qed

end
