(* ===== verification/Transactions.thy ===== *)
theory Transactions
  imports JsonState
begin

text \<open>
  Steps and transactions (\<open>rpacore/step.py\<close>, \<open>rpacore/transaction.py\<close>).

  The fields carry the types of the source's annotations, so the \<open>isinstance\<close> guards of the
  validators hold by typing; every other check of \<open>validate_for_execution\<close> and
  \<open>validate_durable_data\<close> is a branch here, in the source's order. A step is identified by its
  place in \<open>tx_steps\<close>, where the source uses \<open>id(step)\<close>.
\<close>

section \<open>Data\<close>

datatype history_event =
    TRANSACTION_STARTED | STEP_STARTED | STEP_SUCCEEDED | STEP_FAILED | STEP_SKIPPED
  | STEP_INTERRUPTED | RETRY_SCHEDULED | TRANSACTION_RESUMED | TRANSACTION_COMPLETED

fun event_value :: "history_event \<Rightarrow> string" where
  "event_value TRANSACTION_STARTED = ''transaction_started''"
| "event_value STEP_STARTED = ''step_started''"
| "event_value STEP_SUCCEEDED = ''step_succeeded''"
| "event_value STEP_FAILED = ''step_failed''"
| "event_value STEP_SKIPPED = ''step_skipped''"
| "event_value STEP_INTERRUPTED = ''step_interrupted''"
| "event_value RETRY_SCHEDULED = ''retry_scheduled''"
| "event_value TRANSACTION_RESUMED = ''transaction_resumed''"
| "event_value TRANSACTION_COMPLETED = ''transaction_completed''"

definition event_of :: "string \<Rightarrow> history_event option" where
  "event_of s = find (\<lambda>x. event_value x = s)
     [TRANSACTION_STARTED, STEP_STARTED, STEP_SUCCEEDED, STEP_FAILED, STEP_SKIPPED,
      STEP_INTERRUPTED, RETRY_SCHEDULED, TRANSACTION_RESUMED, TRANSACTION_COMPLETED]"

lemma event_of_value [simp]: "event_of (event_value e) = Some e"
  by (cases e) (simp_all add: event_of_def)

record history_entry =
  he_sequence :: int
  he_timestamp :: datetime
  he_event :: history_event
  he_status :: status
  he_retry_number :: int
  he_step_name :: string
  he_step_order :: "int option"

record artifact =
  art_name :: string
  art_path :: string
  art_kind :: string
  art_id :: string
  art_created_at :: datetime
  art_metadata :: pydict

record step =
  st_name :: string
  st_order :: int
  st_status :: status
  st_arguments :: pydict
  st_exceptions :: "step_exc list"

record transaction =
  tx_reference :: string
  tx_id :: string
  tx_status :: status
  tx_retry_count :: int
  tx_created_at :: "datetime option"
  tx_started_at :: "datetime option"
  tx_finished_at :: "datetime option"
  tx_state :: pydict
  tx_metadata :: pydict
  tx_artifacts :: "artifact list"
  tx_steps :: "step list"
  tx_history :: "history_entry list"
  tx_outcome :: outcome_category
  tx_disposition :: retry_disposition
  tx_failure_code :: string
  tx_definition_identity :: string

text \<open>\<open>Step.__init__\<close>: a fresh step is pending, without exceptions.\<close>

definition new_step :: "string \<Rightarrow> int \<Rightarrow> pydict option \<Rightarrow> step" where
  "new_step name order arguments =
     \<lparr>st_name = name, st_order = order, st_status = PENDING,
      st_arguments = (case arguments of None \<Rightarrow> [] | Some a \<Rightarrow> a), st_exceptions = []\<rparr>"

text \<open>\<open>Transaction.__post_init__\<close> on the given field values.\<close>

definition transaction_post_init :: "transaction \<Rightarrow> pyexc + transaction" where
  "transaction_post_init t =
     (if tx_retry_count t < 0 then Inl (ValueErr ''retry_count must be >= 0'')
      else case validate_failure_code (tx_failure_code t) of
        Inl e \<Rightarrow> Inl e
      | Inr c \<Rightarrow>
          (case validate_definition_identity (PStr (tx_definition_identity t)) False of
             Inl e \<Rightarrow> Inl e
           | Inr d \<Rightarrow> Inr (t\<lparr>tx_failure_code := c, tx_definition_identity := d\<rparr>)))"

section \<open>Step selections\<close>

definition ordered_steps :: "transaction \<Rightarrow> step list" where
  "ordered_steps t = sort_key st_order (tx_steps t)"

definition failed_steps :: "transaction \<Rightarrow> step list" where
  "failed_steps t = filter (\<lambda>s. st_status s = FAILED) (tx_steps t)"

text \<open>The same selections as places in \<open>tx_steps\<close>.\<close>

definition ordered_indices :: "transaction \<Rightarrow> nat list" where
  "ordered_indices t = sort_key (\<lambda>i. st_order (tx_steps t ! i)) [0..<length (tx_steps t)]"

definition failed_indices :: "transaction \<Rightarrow> nat list" where
  "failed_indices t = filter (\<lambda>i. st_status (tx_steps t ! i) = FAILED) [0..<length (tx_steps t)]"

lemma map_insort_key: "map f (insort_key (\<lambda>x. g (f x)) a xs) = insort_key g (f a) (map f xs)"
  by (induction xs) auto

lemma map_sort_key: "map f (sort_key (\<lambda>x. g (f x)) xs) = sort_key g (map f xs)"
proof -
  have "map f (foldr (insort_key (\<lambda>x. g (f x))) xs []) = foldr (insort_key g) (map f xs) []"
    by (induction xs) (auto simp: map_insort_key)
  then show ?thesis by (simp add: sort_key_def)
qed

lemma ordered_indices_steps: "map (\<lambda>i. tx_steps t ! i) (ordered_indices t) = ordered_steps t"
proof -
  have "map (\<lambda>i. tx_steps t ! i) (ordered_indices t) =
      sort_key st_order (map (\<lambda>i. tx_steps t ! i) [0..<length (tx_steps t)])"
    unfolding ordered_indices_def by (rule map_sort_key)
  then show ?thesis by (simp add: ordered_steps_def map_nth)
qed

lemma failed_indices_steps: "map (\<lambda>i. tx_steps t ! i) (failed_indices t) = failed_steps t"
proof -
  have "map (\<lambda>i. tx_steps t ! i) (failed_indices t) =
      filter (\<lambda>s. st_status s = FAILED) (map (\<lambda>i. tx_steps t ! i) [0..<length (tx_steps t)])"
    by (simp add: failed_indices_def filter_map o_def)
  then show ?thesis by (simp add: failed_steps_def map_nth)
qed

text \<open>Code equations on the step list itself.\<close>

lemma enumerate_nth: "map (\<lambda>i. (i, xs ! i)) [0..<length xs] = enumerate 0 xs"
  by (rule nth_equalityI) (simp_all add: nth_enumerate_eq)

lemma ordered_indices_code [code]:
  "ordered_indices t = map fst (sort_key (\<lambda>p. st_order (snd p)) (enumerate 0 (tx_steps t)))"
proof -
  have "map (\<lambda>i. (i, tx_steps t ! i)) (ordered_indices t) =
      sort_key (\<lambda>p. st_order (snd p)) (enumerate 0 (tx_steps t))"
    using map_sort_key [of "\<lambda>i. (i, tx_steps t ! i)" "\<lambda>p. st_order (snd p)" "[0..<length (tx_steps t)]"]
    by (simp add: ordered_indices_def enumerate_nth)
  then have "map fst (map (\<lambda>i. (i, tx_steps t ! i)) (ordered_indices t)) =
      map fst (sort_key (\<lambda>p. st_order (snd p)) (enumerate 0 (tx_steps t)))" by simp
  then show ?thesis by (simp add: o_def)
qed

lemma failed_indices_code [code]:
  "failed_indices t = map fst (filter (\<lambda>p. st_status (snd p) = FAILED) (enumerate 0 (tx_steps t)))"
proof -
  have "map fst (filter (\<lambda>p. st_status (snd p) = FAILED)
      (map (\<lambda>i. (i, tx_steps t ! i)) [0..<length (tx_steps t)])) = failed_indices t"
    by (simp add: failed_indices_def filter_map o_def)
  then show ?thesis by (simp add: enumerate_nth)
qed

lemma set_ordered_indices [simp]: "set (ordered_indices t) = {0..<length (tx_steps t)}"
  by (simp add: ordered_indices_def)

lemma distinct_ordered_indices [simp]: "distinct (ordered_indices t)"
  by (simp add: ordered_indices_def)

lemma sorted_ordered_indices: "sorted (map (\<lambda>i. st_order (tx_steps t ! i)) (ordered_indices t))"
  by (simp add: ordered_indices_def)

section \<open>History\<close>

definition append_history ::
  "transaction \<Rightarrow> history_event \<Rightarrow> status option \<Rightarrow> int option \<Rightarrow> step option \<Rightarrow>
   datetime option \<Rightarrow> datetime \<Rightarrow> history_entry \<times> transaction" where
  "append_history t event st retry s timestamp now =
     (let entry = \<lparr>he_sequence = int (length (tx_history t)) + 1,
            he_timestamp = (case timestamp of None \<Rightarrow> now | Some ts \<Rightarrow> ts),
            he_event = event,
            he_status = (case st of None \<Rightarrow> tx_status t | Some x \<Rightarrow> x),
            he_retry_number = (case retry of None \<Rightarrow> tx_retry_count t | Some n \<Rightarrow> n),
            he_step_name = (case s of None \<Rightarrow> [] | Some x \<Rightarrow> st_name x),
            he_step_order = map_option st_order s\<rparr>
      in (entry, t\<lparr>tx_history := tx_history t @ [entry]\<rparr>))"

text \<open>The audit trail is numbered 1, 2, 3, \<open>\<dots>\<close>.\<close>

definition history_numbered :: "history_entry list \<Rightarrow> bool" where
  "history_numbered h \<longleftrightarrow> (\<forall>i < length h. he_sequence (h ! i) = int i + 1)"

lemma history_numbered_append:
  "history_numbered h \<Longrightarrow> he_sequence e = int (length h) + 1 \<Longrightarrow> history_numbered (h @ [e])"
  by (auto simp: history_numbered_def nth_append less_Suc_eq)

lemma append_history_simps [simp]:
  "tx_history (snd (append_history t ev st rn s ts now)) =
     tx_history t @ [fst (append_history t ev st rn s ts now)]"
  "tx_steps (snd (append_history t ev st rn s ts now)) = tx_steps t"
  "tx_status (snd (append_history t ev st rn s ts now)) = tx_status t"
  "tx_retry_count (snd (append_history t ev st rn s ts now)) = tx_retry_count t"
  "tx_outcome (snd (append_history t ev st rn s ts now)) = tx_outcome t"
  "tx_disposition (snd (append_history t ev st rn s ts now)) = tx_disposition t"
  "tx_failure_code (snd (append_history t ev st rn s ts now)) = tx_failure_code t"
  "tx_id (snd (append_history t ev st rn s ts now)) = tx_id t"
  "tx_reference (snd (append_history t ev st rn s ts now)) = tx_reference t"
  "tx_definition_identity (snd (append_history t ev st rn s ts now)) = tx_definition_identity t"
  "tx_state (snd (append_history t ev st rn s ts now)) = tx_state t"
  "tx_metadata (snd (append_history t ev st rn s ts now)) = tx_metadata t"
  "tx_artifacts (snd (append_history t ev st rn s ts now)) = tx_artifacts t"
  "he_sequence (fst (append_history t ev st rn s ts now)) = int (length (tx_history t)) + 1"
  "he_event (fst (append_history t ev st rn s ts now)) = ev"
  by (simp_all add: append_history_def Let_def)

section \<open>Validation\<close>

fun validate_all :: "('a \<Rightarrow> pyexc + unit) \<Rightarrow> 'a list \<Rightarrow> pyexc + unit" where
  "validate_all f [] = Inr ()"
| "validate_all f (x # xs) = (case f x of Inl e \<Rightarrow> Inl e | Inr _ \<Rightarrow> validate_all f xs)"

lemma validate_all_ok: "validate_all f xs = Inr () \<longleftrightarrow> (\<forall>x \<in> set xs. f x = Inr ())"
  by (induction xs) (auto split: sum.splits)

definition validate_durable_data :: "transaction \<Rightarrow> pyexc + transaction" where
  "validate_durable_data t =
     (case validate_failure_code (tx_failure_code t) of
        Inl e \<Rightarrow> Inl e
      | Inr c \<Rightarrow>
     (case validate_definition_identity (PStr (tx_definition_identity t)) False of
        Inl e \<Rightarrow> Inl e
      | Inr d \<Rightarrow>
     (case validate_json_object (of_dict (tx_state t)) of
        Inl e \<Rightarrow> Inl e
      | Inr _ \<Rightarrow>
     (case validate_json_object (of_dict (tx_metadata t)) of
        Inl e \<Rightarrow> Inl e
      | Inr _ \<Rightarrow>
     (case validate_all (\<lambda>a. validate_json_object (of_dict (art_metadata a))) (tx_artifacts t) of
        Inl e \<Rightarrow> Inl e
      | Inr _ \<Rightarrow>
     (case validate_all (\<lambda>s. validate_json_object (of_dict (st_arguments s))) (tx_steps t) of
        Inl e \<Rightarrow> Inl e
      | Inr _ \<Rightarrow> Inr (t\<lparr>tx_failure_code := c, tx_definition_identity := d\<rparr>)))))))"

fun validate_step_wiring :: "string list \<Rightarrow> int list \<Rightarrow> step list \<Rightarrow> pyexc + unit" where
  "validate_step_wiring names orders [] = Inr ()"
| "validate_step_wiring names orders (s # ss) =
     (if blank (st_name s)
      then Inl (ExecutionValidationError ''step.name must be a non-empty str'')
      else if st_name s \<in> set names
      then Inl (ExecutionValidationError ''step.name must be unique within a transaction'')
      else if st_order s \<le> 0
      then Inl (ExecutionValidationError ''step.execution_order must be a positive int'')
      else if st_order s \<in> set orders
      then Inl (ExecutionValidationError ''step.execution_order must be unique within a transaction'')
      else validate_step_wiring (st_name s # names) (st_order s # orders) ss)"

definition validate_for_execution :: "transaction \<Rightarrow> pyexc + transaction" where
  "validate_for_execution t =
     (if blank (tx_reference t)
      then Inl (ExecutionValidationError ''transaction.reference must be a non-empty str'')
      else case validate_step_wiring [] [] (tx_steps t) of
        Inl e \<Rightarrow> Inl e
      | Inr _ \<Rightarrow> validate_durable_data t)"

text \<open>What the validators establish.\<close>

definition well_wired :: "step list \<Rightarrow> bool" where
  "well_wired ss \<longleftrightarrow> distinct (map st_name ss) \<and> distinct (map st_order ss) \<and>
     (\<forall>s \<in> set ss. \<not> blank (st_name s) \<and> 0 < st_order s)"

definition durable_safe :: "transaction \<Rightarrow> bool" where
  "durable_safe t \<longleftrightarrow>
     (tx_failure_code t = [] \<or> fullmatch_failure_code (tx_failure_code t)) \<and>
     validate_definition_identity (PStr (tx_definition_identity t)) False =
       Inr (tx_definition_identity t) \<and>
     safe_dict (tx_state t) \<and> safe_dict (tx_metadata t) \<and>
     (\<forall>a \<in> set (tx_artifacts t). safe_dict (art_metadata a)) \<and>
     (\<forall>s \<in> set (tx_steps t). safe_dict (st_arguments s))"

lemma validate_step_wiring_iff:
  "validate_step_wiring names orders ss = Inr () \<longleftrightarrow>
     well_wired ss \<and> set names \<inter> set (map st_name ss) = {} \<and> set orders \<inter> set (map st_order ss) = {}"
  by (induction ss arbitrary: names orders) (auto simp: well_wired_def)

lemma validate_failure_code_Inr:
  "validate_failure_code c = Inr d \<longleftrightarrow> d = c \<and> (c = [] \<or> fullmatch_failure_code c)"
  by (auto simp: validate_failure_code_def)

lemma validate_identity_Inr:
  "validate_definition_identity (PStr v) r = Inr d \<Longrightarrow> d = v"
  by (auto simp: validate_definition_identity_def split: if_splits)

lemma validate_json_object_Inr:
  "validate_json_object (of_dict d) = Inr u \<longleftrightarrow> safe_dict d"
  by (simp add: validate_json_object_of_dict)

lemma validate_durable_data_iff: "validate_durable_data t = Inr t' \<longleftrightarrow> t' = t \<and> durable_safe t"
proof
  assume "validate_durable_data t = Inr t'"
  then show "t' = t \<and> durable_safe t"
    by (auto simp: validate_durable_data_def durable_safe_def validate_all_ok
        validate_failure_code_Inr validate_json_object_Inr split: sum.splits
        dest!: validate_identity_Inr)
next
  assume "t' = t \<and> durable_safe t"
  then have t': "t' = t" and ok: "durable_safe t" by auto
  from ok have
    "validate_failure_code (tx_failure_code t) = Inr (tx_failure_code t)"
    "validate_definition_identity (PStr (tx_definition_identity t)) False = Inr (tx_definition_identity t)"
    "validate_json_object (of_dict (tx_state t)) = Inr ()"
    "validate_json_object (of_dict (tx_metadata t)) = Inr ()"
    "validate_all (\<lambda>a. validate_json_object (of_dict (art_metadata a))) (tx_artifacts t) = Inr ()"
    "validate_all (\<lambda>s. validate_json_object (of_dict (st_arguments s))) (tx_steps t) = Inr ()"
    by (auto simp: durable_safe_def validate_failure_code_Inr validate_json_object_Inr validate_all_ok)
  with t' show "validate_durable_data t = Inr t'" by (simp add: validate_durable_data_def)
qed

lemma validate_for_execution_iff:
  "validate_for_execution t = Inr t' \<longleftrightarrow>
     t' = t \<and> \<not> blank (tx_reference t) \<and> well_wired (tx_steps t) \<and> durable_safe t"
  using validate_step_wiring_iff [of "[]" "[]" "tx_steps t"]
  by (auto simp: validate_for_execution_def validate_durable_data_iff split: sum.splits)

end
