(* ===== verification/Kernel.thy ===== *)
theory Kernel
  imports Transactions
begin

text \<open>
  Execution-transition facts (\<open>rpacore/transition.py\<close>) and their emitter (\<open>rpacore/_kernel.py\<close>).

  \<open>_checkpoint_state_json\<close>, the canonical JSON text of the selected durable state, is held as the
  value that text decodes to: the same tree with the keys of every dictionary sorted.

  The state of one engine run is an \<open>est\<close>: the transaction object, a counter of the readings taken
  from the outside (clock, uuid4, screenshots), the sleeps requested, and the world the callbacks
  act on. An \<open>env\<close> holds what the run is given from outside the framework: the steps' \<open>execute\<close>
  methods, the checkpoint and transition callbacks, the clock.
\<close>

section \<open>Canonical durable values\<close>

definition key_text :: "pyval \<Rightarrow> string" where
  "key_text k = (case k of PStr s \<Rightarrow> s | _ \<Rightarrow> [])"

fun canonical :: "pyval \<Rightarrow> pyval" where
  "canonical (PList xs) = PList (map canonical xs)"
| "canonical (PDict kvs) =
     PDict (sort_key (\<lambda>(k, v). key_text k) (map (\<lambda>(k, v). (k, canonical v)) kvs))"
| "canonical v = v"

lemma sort_key_sorted: "sorted (map f xs) \<Longrightarrow> sort_key f xs = xs"
  by (induction xs) (auto simp: insort_is_Cons)

lemma sort_key_case_fst:
  "sort_key (\<lambda>(k, v). f k) (map (\<lambda>(k, v). (k, g v)) xs) = map (\<lambda>(k, v). (k, g v)) (sort_key (\<lambda>(k, v). f k) xs)"
proof -
  have "(\<lambda>x. (case (case x of (k, v) \<Rightarrow> (k, g v)) of (k, v) \<Rightarrow> f k)) = (\<lambda>(k, v). f k)"
    by (auto simp: fun_eq_iff)
  then show ?thesis
    using map_sort_key [of "\<lambda>(k, v). (k, g v)" "\<lambda>(k, v). f k" xs] by simp
qed

lemma json_safe_canonical [simp]: "json_safe (canonical v) = json_safe v"
proof (induction v rule: canonical.induct)
  case (1 xs)
  then show ?case by (auto simp: list_all_iff)
next
  case (2 kvs)
  then show ?case by (fastforce simp: list_all_iff)
qed auto

lemma canonical_idem: "canonical (canonical v) = canonical v"
proof (induction v rule: canonical.induct)
  case (1 xs)
  then show ?case by simp
next
  case (2 kvs)
  let ?key = "\<lambda>(k, v). key_text k"
  let ?ys = "sort_key ?key (map (\<lambda>(k, v). (k, canonical v)) kvs)"
  have "\<forall>(k, v) \<in> set ?ys. canonical v = v" using 2 by auto
  then have "map (\<lambda>(k, v). (k, canonical v)) ?ys = ?ys"
    by (intro map_idI) auto
  moreover have "sort_key ?key ?ys = ?ys" by (simp add: sort_key_sorted)
  ultimately show ?case by simp
qed auto

section \<open>Transitions\<close>

definition execution_transition_schema_version :: int where
  "execution_transition_schema_version = 2"

record transition =
  tr_schema_version :: int
  tr_transition_id :: string
  tr_sequence :: int
  tr_occurred_at :: iso_text
  tr_event :: string
  tr_transaction_id :: string
  tr_reference :: string
  tr_definition_identity :: string
  tr_transaction_status :: string
  tr_execution_pass :: int
  tr_step_name :: string
  tr_step_order :: "int option"
  tr_step_status :: string
  tr_outcome_category :: string
  tr_failure_code :: string
  tr_retry_recommended :: "bool option"
  tr_checkpoint_json :: pyval

text \<open>The constructor: the last two fields of its argument record are the ones it checks.\<close>

definition execution_transition :: "transition \<Rightarrow> pyexc + transition" where
  "execution_transition raw =
     (if tr_schema_version raw \<noteq> execution_transition_schema_version
      then Inl (ValueErr ''schema_version must be 2'')
      else case validate_json_object (tr_checkpoint_json raw) of
        Inl e \<Rightarrow> Inl e
      | Inr _ \<Rightarrow> Inr (raw\<lparr>tr_checkpoint_json := canonical (tr_checkpoint_json raw)\<rparr>))"

definition pint_opt :: "int option \<Rightarrow> pyval" where
  "pint_opt x = (case x of None \<Rightarrow> PNone | Some i \<Rightarrow> PInt i)"

text \<open>\<open>show_iso\<close> spells the stored timestamp out.\<close>

definition transition_to_record :: "(iso_text \<Rightarrow> string) \<Rightarrow> transition \<Rightarrow> pydict" where
  "transition_to_record show_iso tr =
     [(''schema_version'', PInt (tr_schema_version tr)),
      (''transition_id'', PStr (tr_transition_id tr)),
      (''sequence'', PInt (tr_sequence tr)),
      (''occurred_at'', PStr (show_iso (tr_occurred_at tr))),
      (''event'', PStr (tr_event tr)),
      (''transaction_id'', PStr (tr_transaction_id tr)),
      (''transaction_reference'', PStr (tr_reference tr)),
      (''definition_identity'', PStr (tr_definition_identity tr)),
      (''transaction_status'', PStr (tr_transaction_status tr)),
      (''execution_pass'', PInt (tr_execution_pass tr)),
      (''step_name'', PStr (tr_step_name tr)),
      (''step_execution_order'', pint_opt (tr_step_order tr)),
      (''step_status'', PStr (tr_step_status tr)),
      (''outcome_category'', PStr (tr_outcome_category tr)),
      (''failure_code'', PStr (tr_failure_code tr)),
      (''retry_recommended'',
         (case tr_retry_recommended tr of None \<Rightarrow> PNone | Some b \<Rightarrow> PBool b)),
      (''checkpoint_state'', tr_checkpoint_json tr)]"

section \<open>Run state and environment\<close>

text \<open>
  What one call of a step's \<open>execute(ctx)\<close> leaves: the durable state, metadata and artifacts of
  the transaction, the step's own status, and the exception it raised, if any.
\<close>

record step_effect =
  eff_state :: pydict
  eff_metadata :: pydict
  eff_artifacts :: "artifact list"
  eff_status :: status
  eff_raised :: "pyexc option"

record 'w est =
  es_tx :: transaction
  es_tick :: nat
  es_slept :: "rat list"
  es_world :: 'w

record 'w env =
  env_execute :: "nat \<Rightarrow> transaction \<Rightarrow> step_effect"
  env_checkpoint :: "('w \<Rightarrow> transaction \<Rightarrow> (pyexc + unit) \<times> 'w) option"
  env_sink :: "('w \<Rightarrow> transition \<Rightarrow> (pyexc + unit) \<times> 'w) option"
  env_fields :: "string list"
  env_clock :: "nat \<Rightarrow> datetime"
  env_uuid :: "nat \<Rightarrow> string"
  env_screenshot :: "nat \<Rightarrow> pyexc + string"

definition upd_tx :: "(transaction \<Rightarrow> transaction) \<Rightarrow> ('w est, pyexc, unit) effect" where
  "upd_tx f = upd_st (\<lambda>s. s\<lparr>es_tx := f (es_tx s)\<rparr>)"

definition get_tx :: "('w est, pyexc, transaction) effect" where
  "get_tx = (\<lambda>s. (Inr (es_tx s), s))"

text \<open>One reading from outside: \<open>datetime.now\<close>, \<open>uuid4\<close> or \<open>capture_screenshot\<close>.\<close>

definition read_outside :: "(nat \<Rightarrow> 'a) \<Rightarrow> ('w est, pyexc, 'a) effect" where
  "read_outside f = (\<lambda>s. (Inr (f (es_tick s)), s\<lparr>es_tick := Suc (es_tick s)\<rparr>))"

definition call_world :: "('w \<Rightarrow> (pyexc + unit) \<times> 'w) \<Rightarrow> ('w est, pyexc, unit) effect" where
  "call_world f = (\<lambda>s. case f (es_world s) of (r, w) \<Rightarrow> (r, s\<lparr>es_world := w\<rparr>))"

section \<open>The emitter\<close>

definition emitter_init :: "bool \<Rightarrow> string list \<Rightarrow> pyexc + string list" where
  "emitter_init has_sink names =
     (if \<exists>f \<in> set names. f = []
      then Inl (ValueErr ''transition_state_fields must contain non-empty strings'')
      else if \<not> distinct names
      then Inl (ValueErr ''transition_state_fields must not contain duplicates'')
      else if names \<noteq> [] \<and> \<not> has_sink
      then Inl (ValueErr ''transition_state_fields requires transition_sink'')
      else Inr names)"

definition retry_recommended :: "history_event \<Rightarrow> outcome_category \<Rightarrow> bool option" where
  "retry_recommended event outcome =
     (if event = TRANSACTION_COMPLETED
      then (if outcome = OC_SYSTEM_FAILED then Some True
            else if outcome \<in> {OC_SUCCESSFUL, OC_BUSINESS_FAILED, OC_VALIDATION_FAILED}
            then Some False else None)
      else None)"

definition selected_state :: "string list \<Rightarrow> pydict \<Rightarrow> pydict" where
  "selected_state names st =
     concat (map (\<lambda>f. case dict_get st f of None \<Rightarrow> [] | Some v \<Rightarrow> [(f, v)]) names)"

definition build_transition ::
  "string list \<Rightarrow> transaction \<Rightarrow> history_entry \<Rightarrow> step option \<Rightarrow> bool \<Rightarrow> pyexc + transition" where
  "build_transition names t entry s include_state =
     execution_transition
       \<lparr>tr_schema_version = execution_transition_schema_version,
        tr_transition_id = tx_id t @ '':'' @ show_int (he_sequence entry),
        tr_sequence = he_sequence entry,
        tr_occurred_at = isoformat (he_timestamp entry),
        tr_event = event_value (he_event entry),
        tr_transaction_id = tx_id t,
        tr_reference = tx_reference t,
        tr_definition_identity = tx_definition_identity t,
        tr_transaction_status = status_value (tx_status t),
        tr_execution_pass = he_retry_number entry,
        tr_step_name = he_step_name entry,
        tr_step_order = he_step_order entry,
        tr_step_status = (case s of None \<Rightarrow> [] | Some x \<Rightarrow> status_value (st_status x)),
        tr_outcome_category = outcome_value (tx_outcome t),
        tr_failure_code = tx_failure_code t,
        tr_retry_recommended = retry_recommended (he_event entry) (tx_outcome t),
        tr_checkpoint_json = of_dict (if include_state then selected_state names (tx_state t) else [])\<rparr>"

text \<open>
  \<open>append\<close>: the history entry is recorded first, so it stays even when the fact cannot be built or
  the sink raises. The step is given by its place in \<open>tx_steps\<close>.
\<close>

definition record_history ::
  "'w env \<Rightarrow> history_event \<Rightarrow> nat option \<Rightarrow> ('w est, pyexc, history_entry) effect" where
  "record_history E event i =
     bnd (read_outside (env_clock E)) (\<lambda>now s.
       case append_history (es_tx s) event None None
              (map_option (\<lambda>k. tx_steps (es_tx s) ! k) i) None now of
         (entry, t) \<Rightarrow> (Inr entry, s\<lparr>es_tx := t\<rparr>))"

definition publish ::
  "'w env \<Rightarrow> nat option \<Rightarrow> bool \<Rightarrow> history_entry \<Rightarrow> ('w est, pyexc, unit) effect" where
  "publish E i include_state entry =
     (case env_sink E of
        None \<Rightarrow> ret ()
      | Some sink \<Rightarrow>
          bnd get_tx (\<lambda>t.
          bnd (lift_res (build_transition (env_fields E) t entry
                 (map_option (\<lambda>k. tx_steps t ! k) i) include_state)) (\<lambda>tr.
          call_world (\<lambda>w. sink w tr))))"

definition emit_event ::
  "'w env \<Rightarrow> history_event \<Rightarrow> nat option \<Rightarrow> bool \<Rightarrow> ('w est, pyexc, unit) effect" where
  "emit_event E event i include_state =
     bnd (record_history E event i) (publish E i include_state)"

section \<open>What a transition discloses\<close>

lemma set_selected_state:
  "(k, v) \<in> set (selected_state names st) \<longleftrightarrow> k \<in> set names \<and> dict_get st k = Some v"
  by (auto simp: selected_state_def split: option.splits)

lemma execution_transition_Inr:
  "execution_transition raw = Inr tr \<longleftrightarrow>
     tr_schema_version raw = 2 \<and> (\<exists>kvs. tr_checkpoint_json raw = PDict kvs) \<and>
     json_safe (tr_checkpoint_json raw) \<and>
     tr = raw\<lparr>tr_checkpoint_json := canonical (tr_checkpoint_json raw)\<rparr>"
  by (auto simp: execution_transition_def execution_transition_schema_version_def
      validate_json_object_def validate_json_safe_def split: pyval.splits)

lemma build_transition_checkpoint:
  assumes "build_transition names t entry s inc = Inr tr"
  shows "tr_checkpoint_json tr =
    canonical (of_dict (if inc then selected_state names (tx_state t) else []))"
  using assms by (auto simp: build_transition_def execution_transition_Inr)

end
