(* ===== verification/Engine.thy ===== *)
theory Engine
  imports Kernel
begin

text \<open>
  The engine (\<open>rpacore/engine.py\<close>): one run of a transaction's steps with retry passes.

  Every method that changes state is an effect on the run state \<open>est\<close>; the log calls, which change
  nothing the framework reads, are left out. \<open>set(id(step))\<close> is a list of places in \<open>tx_steps\<close>.
\<close>

section \<open>Construction\<close>

record engine =
  eng_max_retries :: int
  eng_retry_delay :: rat
  eng_retry_backoff :: rat
  eng_screenshot_dir :: string

text \<open>An \<open>int\<close> or \<open>float\<close> argument that is not a \<open>bool\<close>.\<close>

definition number_of :: "pyval \<Rightarrow> pyfloat option" where
  "number_of v = (case v of PInt i \<Rightarrow> Some (FinF (of_int i)) | PFloat f \<Rightarrow> Some f | _ \<Rightarrow> None)"

text \<open>\<open>x < bound or not math.isfinite(x)\<close>; a NaN compares false and is not finite.\<close>

definition below_or_not_finite :: "pyfloat \<Rightarrow> rat \<Rightarrow> bool" where
  "below_or_not_finite f bound = (case f of FinF x \<Rightarrow> x < bound | _ \<Rightarrow> True)"

definition fin_value :: "pyfloat \<Rightarrow> rat" where
  "fin_value f = (case f of FinF x \<Rightarrow> x | _ \<Rightarrow> 0)"

definition engine_init :: "pyval \<Rightarrow> pyval \<Rightarrow> pyval \<Rightarrow> string \<Rightarrow> pyexc + engine" where
  "engine_init max_retries retry_delay retry_backoff screenshot_dir =
     (case max_retries of
        PInt n \<Rightarrow>
          (if n < 0 then Inl (ValueErr ''max_retries must be >= 0'')
           else case number_of retry_delay of
             None \<Rightarrow> Inl (TypeErr ''retry_delay must be a number >= 0'')
           | Some d \<Rightarrow>
               (if below_or_not_finite d 0 then Inl (ValueErr ''retry_delay must be >= 0'')
                else case number_of retry_backoff of
                  None \<Rightarrow> Inl (TypeErr ''retry_backoff must be a number >= 1'')
                | Some b \<Rightarrow>
                    (if below_or_not_finite b 1 then Inl (ValueErr ''retry_backoff must be >= 1'')
                     else Inr \<lparr>eng_max_retries = n, eng_retry_delay = fin_value d,
                            eng_retry_backoff = fin_value b, eng_screenshot_dir = screenshot_dir\<rparr>)))
      | _ \<Rightarrow> Inl (TypeErr ''max_retries must be an int >= 0''))"

section \<open>Selections of failed steps\<close>

definition last_exc :: "step \<Rightarrow> step_exc option" where
  "last_exc s = (if st_exceptions s = [] then None else Some (last (st_exceptions s)))"

definition retryable_failed_steps :: "transaction \<Rightarrow> nat list" where
  "retryable_failed_steps t =
     filter (\<lambda>i. case last_exc (tx_steps t ! i) of None \<Rightarrow> False | Some e \<Rightarrow> \<not> is_business e)
       (failed_indices t)"

definition business_failed_steps :: "transaction \<Rightarrow> nat list" where
  "business_failed_steps t =
     filter (\<lambda>i. case last_exc (tx_steps t ! i) of None \<Rightarrow> False | Some e \<Rightarrow> is_business e)
       (failed_indices t)"

definition last_event_resumed :: "transaction \<Rightarrow> bool" where
  "last_event_resumed t \<longleftrightarrow>
     tx_history t \<noteq> [] \<and> he_event (last (tx_history t)) = TRANSACTION_RESUMED"

definition initial_blocked_steps :: "transaction \<Rightarrow> nat list option" where
  "initial_blocked_steps t = (if last_event_resumed t then Some (business_failed_steps t) else None)"

definition reset_skipped_steps :: "transaction \<Rightarrow> transaction" where
  "reset_skipped_steps t =
     (if last_event_resumed t then t
      else t\<lparr>tx_steps := map (\<lambda>s. if st_status s = SKIPPED then s\<lparr>st_status := PENDING\<rparr> else s)
               (tx_steps t)\<rparr>)"

text \<open>
  The exception recorded by the last durable step failure. Later steps win in the dictionary of
  steps; the entries are searched from the newest, and within a step the newest exception of the
  entry's retry pass is the one returned.
\<close>

definition step_at :: "transaction \<Rightarrow> string \<Rightarrow> int \<Rightarrow> step option" where
  "step_at t name order =
     map_of (rev (map (\<lambda>s. ((st_name s, st_order s), s)) (tx_steps t))) (name, order)"

fun failure_of_entries :: "transaction \<Rightarrow> history_entry list \<Rightarrow> step_exc option" where
  "failure_of_entries t [] = None"
| "failure_of_entries t (entry # rest) =
     (if he_event entry \<noteq> STEP_FAILED then failure_of_entries t rest
      else case he_step_order entry of
        None \<Rightarrow> failure_of_entries t rest
      | Some order \<Rightarrow>
          (case step_at t (he_step_name entry) order of
             None \<Rightarrow> failure_of_entries t rest
           | Some s \<Rightarrow>
               (case find (\<lambda>e. exc_retry_number e = he_retry_number entry) (rev (st_exceptions s)) of
                  Some e \<Rightarrow> Some e
                | None \<Rightarrow> failure_of_entries t rest)))"

definition last_failed_exception :: "transaction \<Rightarrow> step_exc option" where
  "last_failed_exception t = failure_of_entries t (rev (tx_history t))"

section \<open>Checkpoints\<close>

definition checkpoint :: "'w env \<Rightarrow> ('w est, pyexc, unit) effect" where
  "checkpoint E =
     (case env_checkpoint E of
        None \<Rightarrow> ret ()
      | Some save \<Rightarrow>
          bnd get_tx (\<lambda>t.
          thn (lift_res (validate_json_object (of_dict (tx_state t))))
              (call_world (\<lambda>w. save w t))))"

section \<open>One step of a pass\<close>

definition set_step :: "nat \<Rightarrow> (step \<Rightarrow> step) \<Rightarrow> transaction \<Rightarrow> transaction" where
  "set_step i f t = t\<lparr>tx_steps := (tx_steps t)[i := f (tx_steps t ! i)]\<rparr>"

definition set_status :: "nat \<Rightarrow> status \<Rightarrow> ('w est, pyexc, unit) effect" where
  "set_status i x = upd_tx (set_step i (\<lambda>s. s\<lparr>st_status := x\<rparr>))"

definition call_execute :: "'w env \<Rightarrow> nat \<Rightarrow> ('w est, pyexc, pyexc option) effect" where
  "call_execute E i = (\<lambda>s.
     let eff = env_execute E i (es_tx s);
         t = set_step i (\<lambda>x. x\<lparr>st_status := eff_status eff\<rparr>) (es_tx s)
     in (Inr (eff_raised eff),
         s\<lparr>es_tx := t\<lparr>tx_state := eff_state eff, tx_metadata := eff_metadata eff,
                     tx_artifacts := eff_artifacts eff\<rparr>\<rparr>))"

definition register_screenshot_artifact :: "'w env \<Rightarrow> nat \<Rightarrow> string \<Rightarrow> ('w est, pyexc, unit) effect" where
  "register_screenshot_artifact E i path =
     (if path = [] then ret ()
      else bnd (read_outside (env_uuid E)) (\<lambda>uuid.
           bnd (read_outside (env_clock E)) (\<lambda>now.
           upd_tx (\<lambda>t. t\<lparr>tx_artifacts := tx_artifacts t @
             [\<lparr>art_name = st_name (tx_steps t ! i) @ '' screenshot'', art_path = path,
               art_kind = ''screenshot'', art_id = uuid, art_created_at = now,
               art_metadata = [(''step_name'', PStr (st_name (tx_steps t ! i))),
                               (''step_execution_order'', PInt (st_order (tx_steps t ! i)))]\<rparr>]\<rparr>))))"

definition attach_screenshot :: "engine \<Rightarrow> 'w env \<Rightarrow> nat \<Rightarrow> ('w est, pyexc, unit) effect" where
  "attach_screenshot C E i =
     (if eng_screenshot_dir C = [] then ret ()
      else bnd (bnd (read_outside (env_screenshot E)) lift_res) (\<lambda>path.
           thn (upd_tx (set_step i (\<lambda>s. s\<lparr>st_exceptions :=
                  butlast (st_exceptions s) @ [(last (st_exceptions s))\<lparr>exc_screenshot_path := path\<rparr>]\<rparr>)))
               (register_screenshot_artifact E i path)))"

text \<open>The common part of the three failure handlers: \<open>x\<close> is the exception to record.\<close>

definition record_failure ::
  "engine \<Rightarrow> 'w env \<Rightarrow> nat \<Rightarrow> step_exc \<Rightarrow> ('w est, pyexc, unit) effect" where
  "record_failure C E i x =
     thn (upd_tx (\<lambda>t. set_step i (\<lambda>s. s\<lparr>st_status := FAILED,
            st_exceptions := st_exceptions s @ [x\<lparr>exc_retry_number := tx_retry_count t\<rparr>]\<rparr>) t))
    (thn (emit_event E STEP_FAILED (Some i) True)
    (thn (attach_screenshot C E i)
         (checkpoint E)))"

fun skip_pending_after ::
  "'w env \<Rightarrow> nat \<Rightarrow> bool \<Rightarrow> nat list \<Rightarrow> ('w est, pyexc, unit) effect" where
  "skip_pending_after E failed should_skip [] = ret ()"
| "skip_pending_after E failed should_skip (j # js) =
     (if j = failed then skip_pending_after E failed True js
      else bnd get_tx (\<lambda>t.
        if should_skip \<and> st_status (tx_steps t ! j) = PENDING
        then thn (set_status j SKIPPED)
            (thn (emit_event E STEP_SKIPPED (Some j) True)
                 (skip_pending_after E failed should_skip js))
        else skip_pending_after E failed should_skip js))"

definition skip_downstream_pending_steps :: "'w env \<Rightarrow> nat \<Rightarrow> ('w est, pyexc, unit) effect" where
  "skip_downstream_pending_steps E i =
     thn (bnd get_tx (\<lambda>t. skip_pending_after E i False (ordered_indices t)))
         (checkpoint E)"

definition unexpected_exception :: "'w env \<Rightarrow> nat \<Rightarrow> pyexc \<Rightarrow> ('w est, pyexc, step_exc) effect" where
  "unexpected_exception E i e =
     bnd get_tx (\<lambda>t.
     bnd (read_outside (env_clock E)) (\<lambda>now.
     lift_res (system_exception (exc_str e) (st_name (tx_steps t ! i)) (tx_retry_count t)
                 None now [] ''rpacore.system.unexpected'')))"

text \<open>
  The \<open>except\<close> clauses and the \<open>else\<close> of the \<open>try\<close> around \<open>step.execute(ctx)\<close>, by the exception it
  raised; the returned flag says that the pass breaks off here.
\<close>

definition handle_outcome ::
  "engine \<Rightarrow> 'w env \<Rightarrow> nat \<Rightarrow> pyexc option \<Rightarrow> ('w est, pyexc, bool) effect" where
  "handle_outcome C E i raised =
     (case raised of
        None \<Rightarrow>
          bnd get_tx (\<lambda>t.
            thn (if st_status (tx_steps t ! i) \<noteq> SKIPPED
                 then thn (set_status i SUCCESSFUL) (emit_event E STEP_SUCCEEDED (Some i) True)
                 else emit_event E STEP_SKIPPED (Some i) True)
           (thn (checkpoint E) (ret False)))
      | Some (StepExc x) \<Rightarrow>
          (if is_business x
           then thn (record_failure C E i x)
                  (if halts_remaining_steps x
                   then thn (skip_downstream_pending_steps E i) (ret True)
                   else ret False)
           else thn (record_failure C E i x) (ret True))
      | Some MemoryErr \<Rightarrow>
          thn (set_status i FAILED)
         (thn (emit_event E STEP_INTERRUPTED (Some i) True)
         (thn (checkpoint E) (raise_exc MemoryErr)))
      | Some e \<Rightarrow>
          (if is_exception e
           then bnd (unexpected_exception E i e) (\<lambda>x. thn (record_failure C E i x) (ret True))
           else raise_exc e))"

definition pass_skips :: "nat list option \<Rightarrow> nat \<Rightarrow> transaction \<Rightarrow> bool" where
  "pass_skips blocked i t \<longleftrightarrow>
     st_status (tx_steps t ! i) \<in> {SUCCESSFUL, SKIPPED} \<or>
     (case blocked of None \<Rightarrow> False | Some b \<Rightarrow> i \<in> set b)"

definition pass_step ::
  "engine \<Rightarrow> 'w env \<Rightarrow> nat list option \<Rightarrow> nat \<Rightarrow> ('w est, pyexc, bool) effect" where
  "pass_step C E blocked i =
     bnd get_tx (\<lambda>t.
       if pass_skips blocked i t then ret False
       else thn (set_status i IN_PROGRESS)
           (thn (emit_event E STEP_STARTED (Some i) True)
           (thn (checkpoint E)
           (bnd (call_execute E i) (handle_outcome C E i)))))"

fun pass_loop ::
  "engine \<Rightarrow> 'w env \<Rightarrow> nat list option \<Rightarrow> nat list \<Rightarrow> ('w est, pyexc, unit) effect" where
  "pass_loop C E blocked [] = ret ()"
| "pass_loop C E blocked (i # is) =
     bnd (pass_step C E blocked i) (\<lambda>stop. if stop then ret () else pass_loop C E blocked is)"

definition execute_pass ::
  "engine \<Rightarrow> 'w env \<Rightarrow> nat list option \<Rightarrow> ('w est, pyexc, unit) effect" where
  "execute_pass C E blocked = bnd get_tx (\<lambda>t. pass_loop C E blocked (ordered_indices t))"

section \<open>Retry passes\<close>

definition sleep_before_retry :: "engine \<Rightarrow> int \<Rightarrow> ('w est, pyexc, unit) effect" where
  "sleep_before_retry C completed_retry_passes =
     (if eng_retry_delay C = 0 then ret ()
      else upd_st (\<lambda>s. s\<lparr>es_slept := es_slept s @
        [eng_retry_delay C * eng_retry_backoff C ^ nat completed_retry_passes]\<rparr>))"

definition reset_steps :: "nat list \<Rightarrow> transaction \<Rightarrow> transaction" where
  "reset_steps js t = fold (\<lambda>j. set_step j (\<lambda>s. s\<lparr>st_status := PENDING\<rparr>)) js t"

definition retry_pass :: "engine \<Rightarrow> 'w env \<Rightarrow> nat list \<Rightarrow> ('w est, pyexc, unit) effect" where
  "retry_pass C E retryable =
     thn (upd_tx (reset_steps retryable))
    (thn (bnd get_tx (\<lambda>t. sleep_before_retry C (tx_retry_count t)))
    (thn (upd_tx (\<lambda>t. t\<lparr>tx_retry_count := tx_retry_count t + 1\<rparr>))
    (thn (emit_event E RETRY_SCHEDULED None True)
    (thn (bnd get_tx (\<lambda>t. execute_pass C E (Some (business_failed_steps t))))
         (checkpoint E)))))"

section \<open>What a pass leaves alone\<close>

text \<open>
  A run only ever appends to the history, with consecutive numbers, and keeps the identity of the
  transaction and the wiring of its steps; a single pass also keeps the retry counter.
\<close>

definition numbered_from :: "nat \<Rightarrow> history_entry list \<Rightarrow> bool" where
  "numbered_from n es \<longleftrightarrow> (\<forall>k < length es. he_sequence (es ! k) = int (n + k) + 1)"

definition same_wiring :: "transaction \<Rightarrow> transaction \<Rightarrow> bool" where
  "same_wiring s t \<longleftrightarrow>
     tx_id t = tx_id s \<and> tx_reference t = tx_reference s \<and>
     tx_definition_identity t = tx_definition_identity s \<and> tx_created_at t = tx_created_at s \<and>
     map st_name (tx_steps t) = map st_name (tx_steps s) \<and>
     map st_order (tx_steps t) = map st_order (tx_steps s) \<and>
     map st_arguments (tx_steps t) = map st_arguments (tx_steps s)"

definition tx_extends :: "transaction \<Rightarrow> transaction \<Rightarrow> bool" where
  "tx_extends s t \<longleftrightarrow> same_wiring s t \<and>
     (\<exists>new. tx_history t = tx_history s @ new \<and> numbered_from (length (tx_history s)) new)"

definition pass_frame :: "'w est \<Rightarrow> 'w est \<Rightarrow> bool" where
  "pass_frame s t \<longleftrightarrow> tx_extends (es_tx s) (es_tx t) \<and>
     tx_retry_count (es_tx t) = tx_retry_count (es_tx s)"

definition run_frame :: "'w est \<Rightarrow> 'w est \<Rightarrow> bool" where
  "run_frame s t \<longleftrightarrow> tx_extends (es_tx s) (es_tx t) \<and>
     tx_retry_count (es_tx s) \<le> tx_retry_count (es_tx t)"

lemma numbered_from_append:
  "numbered_from n (xs @ ys) \<longleftrightarrow> numbered_from n xs \<and> numbered_from (n + length xs) ys"
proof
  assume all: "numbered_from n (xs @ ys)"
  have "numbered_from n xs"
    unfolding numbered_from_def
  proof (intro allI impI)
    fix k assume "k < length xs"
    with all [unfolded numbered_from_def, rule_format, of k]
    show "he_sequence (xs ! k) = int (n + k) + 1" by (simp add: nth_append)
  qed
  moreover have "numbered_from (n + length xs) ys"
    unfolding numbered_from_def
  proof (intro allI impI)
    fix k assume "k < length ys"
    with all [unfolded numbered_from_def, rule_format, of "length xs + k"]
    show "he_sequence (ys ! k) = int (n + length xs + k) + 1" by (simp add: nth_append)
  qed
  ultimately show "numbered_from n xs \<and> numbered_from (n + length xs) ys" ..
next
  assume "numbered_from n xs \<and> numbered_from (n + length xs) ys"
  then show "numbered_from n (xs @ ys)"
    by (auto simp: numbered_from_def nth_append)
qed

lemma same_wiring_refl [simp]: "same_wiring t t"
  by (simp add: same_wiring_def)

lemma same_wiring_trans: "same_wiring s t \<Longrightarrow> same_wiring t u \<Longrightarrow> same_wiring s u"
  by (simp add: same_wiring_def)

lemma tx_extends_refl [simp]: "tx_extends t t"
  by (auto simp: tx_extends_def numbered_from_def)

lemma tx_extends_trans:
  assumes "tx_extends s t" and "tx_extends t u"
  shows "tx_extends s u"
proof -
  from assms(1) obtain a where a: "tx_history t = tx_history s @ a"
    "numbered_from (length (tx_history s)) a" by (auto simp: tx_extends_def)
  from assms(2) obtain b where b: "tx_history u = tx_history t @ b"
    "numbered_from (length (tx_history t)) b" by (auto simp: tx_extends_def)
  have "tx_history u = tx_history s @ (a @ b)" using a b by simp
  moreover have "numbered_from (length (tx_history s)) (a @ b)"
    using a b by (simp add: numbered_from_append)
  moreover have "same_wiring s u"
    using assms by (auto simp: tx_extends_def intro: same_wiring_trans)
  ultimately show ?thesis unfolding tx_extends_def by blast
qed

interpretation pass: step_relation "pass_frame :: 'w est \<Rightarrow> 'w est \<Rightarrow> bool"
  by unfold_locales (auto simp: pass_frame_def intro: tx_extends_trans)

interpretation run: step_relation "run_frame :: 'w est \<Rightarrow> 'w est \<Rightarrow> bool"
  by unfold_locales (auto simp: run_frame_def intro: tx_extends_trans)

lemma pass_run_frame: "keeps pass_frame m \<Longrightarrow> keeps run_frame m"
  by (simp add: keeps_def pass_frame_def run_frame_def)

lemma tx_extends_same_history:
  "same_wiring s t \<Longrightarrow> tx_history t = tx_history s \<Longrightarrow> tx_extends s t"
  by (auto simp: tx_extends_def numbered_from_def)

lemma upd_tx_pass:
  assumes "\<And>t. same_wiring t (f t)" "\<And>t. tx_history (f t) = tx_history t"
    "\<And>t. tx_retry_count (f t) = tx_retry_count t"
  shows "keeps pass_frame (upd_tx f)"
  unfolding upd_tx_def
  by (rule pass.keeps_upd) (auto simp: pass_frame_def assms intro: tx_extends_same_history)

lemma map_list_update_same:
  "i < length xs \<Longrightarrow> g (f (xs ! i)) = g (xs ! i) \<Longrightarrow> map g (xs[i := f (xs ! i)]) = map g xs"
  by (metis length_map list_update_id map_update nth_map)

lemma set_step_wiring:
  assumes "\<And>s. st_name (f s) = st_name s" "\<And>s. st_order (f s) = st_order s"
    "\<And>s. st_arguments (f s) = st_arguments s"
  shows "same_wiring t (set_step i f t)"
proof (cases "i < length (tx_steps t)")
  case True
  then show ?thesis by (simp add: same_wiring_def set_step_def map_list_update_same assms)
next
  case False
  then show ?thesis by (simp add: same_wiring_def set_step_def list_update_beyond)
qed

lemma set_step_simps [simp]:
  "tx_history (set_step i f t) = tx_history t"
  "tx_retry_count (set_step i f t) = tx_retry_count t"
  "tx_status (set_step i f t) = tx_status t"
  "tx_outcome (set_step i f t) = tx_outcome t"
  "tx_started_at (set_step i f t) = tx_started_at t"
  "tx_finished_at (set_step i f t) = tx_finished_at t"
  "length (tx_steps (set_step i f t)) = length (tx_steps t)"
  by (simp_all add: set_step_def)

lemma pass_get_tx [keeps_intros]: "keeps pass_frame get_tx"
  by (simp add: keeps_def get_tx_def pass.R_refl)

lemma pass_read_outside [keeps_intros]: "keeps pass_frame (read_outside f)"
  by (simp add: keeps_def read_outside_def pass_frame_def)

lemma pass_call_world [keeps_intros]: "keeps pass_frame (call_world f)"
  by (auto simp: keeps_def call_world_def pass_frame_def split: prod.splits)

lemma pass_set_status [keeps_intros]: "keeps pass_frame (set_status i x)"
  unfolding set_status_def by (rule upd_tx_pass) (auto intro: set_step_wiring)

lemma pass_record_history [keeps_intros]: "keeps pass_frame (record_history E ev i)"
  by (rule keepsI)
    (auto simp: record_history_def bnd_def read_outside_def pass_frame_def tx_extends_def
      same_wiring_def append_history_def numbered_from_def Let_def)

lemma pass_publish [keeps_intros]: "keeps pass_frame (publish E i inc entry)"
  unfolding publish_def by (cases "env_sink E") (auto intro!: keeps_intros)

lemma pass_emit_event [keeps_intros]: "keeps pass_frame (emit_event E ev i inc)"
  unfolding emit_event_def by (auto intro!: keeps_intros)

lemma pass_checkpoint [keeps_intros]: "keeps pass_frame (checkpoint E)"
  unfolding checkpoint_def by (cases "env_checkpoint E") (auto intro!: keeps_intros)

lemma pass_call_execute [keeps_intros]:
  fixes E :: "'a env"
  shows "keeps pass_frame (call_execute E i)"
proof (rule keepsI)
  fix s :: "'a est"
  have "same_wiring (es_tx s) (set_step i (\<lambda>x. x\<lparr>st_status := eff_status (env_execute E i (es_tx s))\<rparr>) (es_tx s))"
    by (rule set_step_wiring) simp_all
  then show "pass_frame s (snd (call_execute E i s))"
    by (auto simp: call_execute_def pass_frame_def Let_def same_wiring_def
        intro!: tx_extends_same_history)
qed

lemma pass_register [keeps_intros]: "keeps pass_frame (register_screenshot_artifact E i p)"
  unfolding register_screenshot_artifact_def
  by (auto intro!: keeps_intros upd_tx_pass simp: same_wiring_def)

lemma pass_attach [keeps_intros]: "keeps pass_frame (attach_screenshot C E i)"
  unfolding attach_screenshot_def
  by (auto intro!: keeps_intros upd_tx_pass set_step_wiring)

lemma pass_record_failure [keeps_intros]: "keeps pass_frame (record_failure C E i x)"
  unfolding record_failure_def
  by (auto intro!: keeps_intros upd_tx_pass set_step_wiring)

lemma pass_skip_after [keeps_intros]: "keeps pass_frame (skip_pending_after E f b js)"
  by (induction E f b js rule: skip_pending_after.induct) (auto intro!: keeps_intros)

lemma pass_skip_downstream [keeps_intros]: "keeps pass_frame (skip_downstream_pending_steps E i)"
  unfolding skip_downstream_pending_steps_def by (auto intro!: keeps_intros)

lemma pass_unexpected [keeps_intros]: "keeps pass_frame (unexpected_exception E i e)"
  unfolding unexpected_exception_def by (auto intro!: keeps_intros)

lemma pass_handle_outcome [keeps_intros]: "keeps pass_frame (handle_outcome C E i r)"
  unfolding handle_outcome_def
  by (auto intro!: keeps_intros split: option.splits pyexc.splits)

lemma pass_pass_step [keeps_intros]: "keeps pass_frame (pass_step C E b i)"
  unfolding pass_step_def by (auto intro!: keeps_intros)

lemma pass_pass_loop [keeps_intros]: "keeps pass_frame (pass_loop C E b is)"
  by (induction C E b "is" rule: pass_loop.induct) (auto intro!: keeps_intros)

lemma pass_execute_pass [keeps_intros]: "keeps pass_frame (execute_pass C E b)"
  unfolding execute_pass_def by (auto intro!: keeps_intros)

lemma pass_sleep [keeps_intros]: "keeps pass_frame (sleep_before_retry C n)"
  unfolding sleep_before_retry_def
  by (auto intro!: keeps_intros pass.keeps_upd simp: pass_frame_def)

lemma reset_steps_simps [simp]:
  "tx_history (reset_steps js t) = tx_history t"
  "tx_retry_count (reset_steps js t) = tx_retry_count t"
  "length (tx_steps (reset_steps js t)) = length (tx_steps t)"
  by (induction js arbitrary: t) (auto simp: reset_steps_def)

lemma reset_steps_wiring: "same_wiring t (reset_steps js t)"
proof (induction js arbitrary: t)
  case (Cons j js)
  have "same_wiring t (set_step j (\<lambda>s. s\<lparr>st_status := PENDING\<rparr>) t)"
    by (rule set_step_wiring) simp_all
  with Cons show ?case by (auto simp: reset_steps_def intro: same_wiring_trans)
qed (simp add: reset_steps_def)

text \<open>A retry pass counts one retry and otherwise only extends.\<close>

lemma retry_pass_count:
  fixes E :: "'a env"
  assumes "retry_pass C E js s = (r, t)"
  shows "tx_retry_count (es_tx t) = tx_retry_count (es_tx s) + 1 \<and> tx_extends (es_tx s) (es_tx t)"
proof -
  let ?head = "thn (upd_tx (reset_steps js)) (bnd get_tx (\<lambda>t. sleep_before_retry C (tx_retry_count t)))
    :: ('a est, pyexc, unit) effect"
  let ?tail = "thn (emit_event E RETRY_SCHEDULED None True)
    (thn (bnd get_tx (\<lambda>t. execute_pass C E (Some (business_failed_steps t)))) (checkpoint E))"
  have head: "keeps pass_frame ?head"
    by (auto intro!: keeps_intros upd_tx_pass reset_steps_wiring)
  have tail: "keeps pass_frame ?tail" by (auto intro!: keeps_intros)
  have "fst (?head s) = Inr ()"
    by (simp add: thn_def bnd_def upd_tx_def upd_st_def get_tx_def sleep_before_retry_def ret_def)
  then obtain u where u: "?head s = (Inr (), u)" by (cases "?head s") simp
  let ?v = "u\<lparr>es_tx := (es_tx u)\<lparr>tx_retry_count := tx_retry_count (es_tx u) + 1\<rparr>\<rparr>"
  have "retry_pass C E js s = ?tail ?v"
    using u unfolding retry_pass_def
    by (auto simp: thn_def bnd_def upd_tx_def upd_st_def split: prod.splits sum.splits)
  then have "pass_frame ?v t" using assms keepsD [OF tail] by metis
  moreover have "pass_frame s u" using keepsD [OF head u] .
  moreover have "tx_extends (es_tx u) (es_tx ?v)"
    by (rule tx_extends_same_history) (auto simp: same_wiring_def)
  ultimately show ?thesis by (auto simp: pass_frame_def intro: tx_extends_trans)
qed

section \<open>The retry loop and the run\<close>

text \<open>
  \<open>while transaction.retry_count < self.max_retries\<close>: each pass counts one retry, so the distance
  to \<open>max_retries\<close> shrinks.
\<close>

function retry_loop :: "engine \<Rightarrow> 'w env \<Rightarrow> 'w est \<Rightarrow> (pyexc + unit) \<times> 'w est" where
  "retry_loop C E s =
     (if tx_retry_count (es_tx s) < eng_max_retries C
      then (let retryable = retryable_failed_steps (es_tx s)
            in if retryable = [] then (Inr (), s)
               else case retry_pass C E retryable s of
                 (Inl e, t) \<Rightarrow> (Inl e, t)
               | (Inr _, t) \<Rightarrow> retry_loop C E t)
      else (Inr (), s))"
  by pat_completeness auto
termination
  by (relation "measure (\<lambda>(C, E, s). nat (eng_max_retries C - tx_retry_count (es_tx s)))")
    (auto dest!: retry_pass_count [OF sym])

declare retry_loop.simps [simp del]

text \<open>For evaluation: the same loop, counting the passes left.\<close>

fun retry_fuel :: "nat \<Rightarrow> engine \<Rightarrow> 'w env \<Rightarrow> ('w est, pyexc, unit) effect" where
  "retry_fuel 0 C E = ret ()"
| "retry_fuel (Suc n) C E = bnd get_tx (\<lambda>t.
     if retryable_failed_steps t = [] then ret ()
     else thn (retry_pass C E (retryable_failed_steps t)) (retry_fuel n C E))"

lemma retry_loop_code [code]:
  "retry_loop C E s = retry_fuel (nat (eng_max_retries C - tx_retry_count (es_tx s))) C E s"
proof (induction "nat (eng_max_retries C - tx_retry_count (es_tx s))" arbitrary: s)
  case 0
  then show ?case by (simp add: retry_loop.simps [of C E s] ret_def)
next
  case (Suc n)
  let ?js = "retryable_failed_steps (es_tx s)"
  have less: "tx_retry_count (es_tx s) < eng_max_retries C" using Suc.hyps(2) by linarith
  obtain q u where q: "retry_pass C E ?js s = (q, u)" by (cases "retry_pass C E ?js s")
  have "n = nat (eng_max_retries C - tx_retry_count (es_tx u))"
    using retry_pass_count [OF q] Suc.hyps(2) by linarith
  from Suc.hyps(1) [OF this] this have "retry_loop C E u = retry_fuel n C E u" by simp
  with less q show ?case
    by (cases q) (auto simp: retry_loop.simps [of C E s] Let_def bnd_def thn_def get_tx_def ret_def
        simp flip: Suc.hyps(2))
qed

definition fail_validation :: "'w env \<Rightarrow> pyexc \<Rightarrow> ('w est, pyexc, unit) effect" where
  "fail_validation E e =
     (if is_execution_validation_error e
      then thn (upd_tx (\<lambda>t. t\<lparr>tx_status := FAILED, tx_outcome := OC_VALIDATION_FAILED,
             tx_disposition := RD_NOT_REQUESTED, tx_failure_code := ''rpacore.validation.execution''\<rparr>))
          (bnd (read_outside (env_clock E)) (\<lambda>now.
           thn (upd_tx (\<lambda>t. t\<lparr>tx_finished_at := Some now\<rparr>))
          (thn (emit_event E TRANSACTION_COMPLETED None False)
               (raise_exc e))))
      else raise_exc e)"

definition set_started_at :: "'w env \<Rightarrow> ('w est, pyexc, unit) effect" where
  "set_started_at E = bnd get_tx (\<lambda>t.
     if tx_started_at t = None
     then bnd (read_outside (env_clock E)) (\<lambda>now. upd_tx (\<lambda>t. t\<lparr>tx_started_at := Some now\<rparr>))
     else ret ())"

definition start_run :: "'w env \<Rightarrow> ('w est, pyexc, unit) effect" where
  "start_run E =
     thn (upd_tx reset_skipped_steps)
    (thn (upd_tx (\<lambda>t. t\<lparr>tx_status := IN_PROGRESS, tx_outcome := OC_UNKNOWN,
            tx_disposition := RD_UNKNOWN, tx_failure_code := []\<rparr>))
    (thn (set_started_at E)
    (thn (upd_tx (\<lambda>t. t\<lparr>tx_finished_at := None\<rparr>))
    (thn (emit_event E TRANSACTION_STARTED None True)
         (checkpoint E)))))"

text \<open>The handler of a \<open>MemoryError\<close> that leaves a pass: the transaction is closed as interrupted.\<close>

definition set_finished_if_none :: "'w env \<Rightarrow> ('w est, pyexc, unit) effect" where
  "set_finished_if_none E = bnd get_tx (\<lambda>t.
     if tx_finished_at t = None
     then bnd (read_outside (env_clock E)) (\<lambda>now. upd_tx (\<lambda>t. t\<lparr>tx_finished_at := Some now\<rparr>))
     else ret ())"

definition interrupted :: "'w env \<Rightarrow> pyexc \<Rightarrow> ('w est, pyexc, unit) effect" where
  "interrupted E e =
     (if e = MemoryErr
      then thn (upd_tx (\<lambda>t. t\<lparr>tx_status := FAILED, tx_outcome := OC_INTERRUPTED,
             tx_disposition := RD_UNKNOWN, tx_failure_code := []\<rparr>))
          (thn (set_finished_if_none E)
          (thn (emit_event E TRANSACTION_COMPLETED None True)
          (thn (catch_exc (checkpoint E)
                 (\<lambda>e'. if e' = MemoryErr \<or> \<not> is_exception e' then raise_exc e' else ret ()))
               (raise_exc MemoryErr))))
      else raise_exc e)"

definition classify :: "transaction \<Rightarrow> transaction" where
  "classify t =
     (if list_all (\<lambda>s. st_status s \<in> {SUCCESSFUL, SKIPPED}) (tx_steps t)
      then t\<lparr>tx_status := SUCCESSFUL, tx_outcome := OC_SUCCESSFUL,
             tx_disposition := RD_NOT_APPLICABLE, tx_failure_code := []\<rparr>
      else (let terminal = last_failed_exception t;
                business = (case terminal of None \<Rightarrow> False | Some e \<Rightarrow> is_business e)
            in t\<lparr>tx_status := FAILED,
                 tx_outcome := (if business then OC_BUSINESS_FAILED else OC_SYSTEM_FAILED),
                 tx_disposition := (if business then RD_NOT_REQUESTED else RD_RETRY_EXHAUSTED),
                 tx_failure_code := (case terminal of None \<Rightarrow> [] | Some e \<Rightarrow> exc_code e)\<rparr>))"

definition finish_run :: "'w env \<Rightarrow> ('w est, pyexc, unit) effect" where
  "finish_run E =
     thn (upd_tx classify)
    (bnd (read_outside (env_clock E)) (\<lambda>now.
     thn (upd_tx (\<lambda>t. t\<lparr>tx_finished_at := Some now\<rparr>))
    (thn (emit_event E TRANSACTION_COMPLETED None True)
         (checkpoint E))))"

text \<open>\<open>_run\<close>: a validation error other than \<open>ExecutionValidationError\<close> leaves at once.\<close>

definition run_validated :: "engine \<Rightarrow> 'w env \<Rightarrow> ('w est, pyexc, unit) effect" where
  "run_validated C E = bnd get_tx (\<lambda>t.
     thn (start_run E)
    (thn (catch_exc (thn (execute_pass C E (initial_blocked_steps t)) (retry_loop C E))
                    (interrupted E))
         (finish_run E)))"

definition run_transaction :: "engine \<Rightarrow> 'w env \<Rightarrow> ('w est, pyexc, unit) effect" where
  "run_transaction C E = (\<lambda>s.
     case validate_for_execution (es_tx s) of
       Inl e \<Rightarrow> fail_validation E e s
     | Inr t \<Rightarrow> run_validated C E (s\<lparr>es_tx := t\<rparr>))"

text \<open>
  The public \<open>run\<close>: the emitter's constructor and the binding of the log context check their
  arguments first.
\<close>

definition engine_run :: "engine \<Rightarrow> 'w env \<Rightarrow> ('w est, pyexc, unit) effect" where
  "engine_run C E =
     bnd (lift_res (emitter_init (env_sink E \<noteq> None) (env_fields E))) (\<lambda>_.
     bnd get_tx (\<lambda>t.
       if tx_id t = [] then raise_exc (ValueErr ''log context must not be empty'')
       else run_transaction C E))"

section \<open>The frame of a run\<close>

lemma retry_loop_frame:
  "retry_loop C E s = (r, t) \<Longrightarrow> run_frame s t"
proof (induction C E s arbitrary: r t rule: retry_loop.induct)
  case (1 C E s)
  let ?js = "retryable_failed_steps (es_tx s)"
  show ?case
  proof (cases "tx_retry_count (es_tx s) < eng_max_retries C \<and> ?js \<noteq> []")
    case False
    with "1.prems" show ?thesis
      by (auto simp: retry_loop.simps [of C E s] Let_def run.R_refl split: if_splits)
  next
    case True
    obtain q u where q: "retry_pass C E ?js s = (q, u)" by (cases "retry_pass C E ?js s")
    have su: "run_frame s u" using retry_pass_count [OF q] by (simp add: run_frame_def)
    show ?thesis
    proof (cases q)
      case (Inl e)
      with "1.prems" True q su show ?thesis
        by (simp add: retry_loop.simps [of C E s] Let_def)
    next
      case (Inr x)
      with "1.prems" True q have "retry_loop C E u = (r, t)"
        by (simp add: retry_loop.simps [of C E s] Let_def)
      with "1.IH" True q Inr have "run_frame u t" by auto
      with su show ?thesis by (rule run.R_trans)
    qed
  qed
qed

lemma run_retry_loop [keeps_intros]: "keeps run_frame (retry_loop C E)"
  by (rule keepsI) (metis prod.collapse retry_loop_frame)

lemma reset_skipped_wiring [simp]:
  "same_wiring t (reset_skipped_steps t)" "tx_history (reset_skipped_steps t) = tx_history t"
  "tx_retry_count (reset_skipped_steps t) = tx_retry_count t"
  by (auto simp: reset_skipped_steps_def same_wiring_def)

lemma classify_wiring [simp]:
  "same_wiring t (classify t)" "tx_history (classify t) = tx_history t"
  "tx_retry_count (classify t) = tx_retry_count t" "tx_steps (classify t) = tx_steps t"
  by (auto simp: classify_def same_wiring_def Let_def)

lemma pass_start_run [keeps_intros]: "keeps pass_frame (start_run E)"
  unfolding start_run_def set_started_at_def
  by (auto intro!: keeps_intros upd_tx_pass simp: same_wiring_def reset_skipped_steps_def)

lemma pass_finish_run [keeps_intros]: "keeps pass_frame (finish_run E)"
  unfolding finish_run_def
  by (auto intro!: keeps_intros upd_tx_pass simp: same_wiring_def classify_def Let_def)

lemma pass_interrupted [keeps_intros]: "keeps pass_frame (interrupted E e)"
  unfolding interrupted_def set_finished_if_none_def
  by (auto intro!: keeps_intros upd_tx_pass simp: same_wiring_def)

lemma pass_fail_validation [keeps_intros]: "keeps pass_frame (fail_validation E e)"
  unfolding fail_validation_def
  by (auto intro!: keeps_intros upd_tx_pass simp: same_wiring_def)

lemma run_get_tx [keeps_intros]: "keeps run_frame get_tx"
  by (rule pass_run_frame) (rule keeps_intros)

lemma run_run_validated [keeps_intros]: "keeps run_frame (run_validated C E)"
  unfolding run_validated_def
  by (auto intro!: keeps_intros intro: pass_run_frame keeps_intros)

lemma run_engine_run [keeps_intros]: "keeps run_frame (engine_run C E)"
proof -
  have "keeps run_frame (run_transaction C E)"
  proof (rule keepsI)
    fix s :: "'a est"
    show "run_frame s (snd (run_transaction C E s))"
    proof (cases "validate_for_execution (es_tx s)")
      case (Inl e)
      then show ?thesis
        using pass_run_frame [OF pass_fail_validation [of E e]]
        by (simp add: run_transaction_def keeps_def)
    next
      case (Inr t)
      then have "t = es_tx s" by (simp add: validate_for_execution_iff)
      then show ?thesis
        using Inr run_run_validated [of C E] by (simp add: run_transaction_def keeps_def)
    qed
  qed
  then show ?thesis unfolding engine_run_def by (auto intro!: keeps_intros)
qed

end
