(* ===== verification/EngineProps.thy ===== *)
theory EngineProps
  imports Engine "HOL-Library.Sublist" "HOL-Library.Multiset"
begin

text \<open>
  What a run of the engine does to single steps: which steps it leaves alone, in which order it
  starts them, how often, and what it waits between passes.
\<close>

section \<open>Steps a run does not touch\<close>

definition new_history :: "transaction \<Rightarrow> transaction \<Rightarrow> history_entry list" where
  "new_history s t = drop (length (tx_history s)) (tx_history t)"

text \<open>
  \<open>held P n j\<close>: of \<open>n\<close> steps, the one at place \<open>j\<close>, when it satisfies \<open>P\<close>, is left exactly as it is, and no new
  history entry is about it.
\<close>

definition held :: "(step \<Rightarrow> bool) \<Rightarrow> nat \<Rightarrow> nat \<Rightarrow> 'w est \<Rightarrow> 'w est \<Rightarrow> bool" where
  "held P n j s t \<longleftrightarrow> tx_extends (es_tx s) (es_tx t) \<and>
     (length (tx_steps (es_tx s)) = n \<and> j < n \<and> distinct (map st_order (tx_steps (es_tx s))) \<and>
      P (tx_steps (es_tx s) ! j) \<longrightarrow>
        tx_steps (es_tx t) ! j = tx_steps (es_tx s) ! j \<and>
        (\<forall>e \<in> set (new_history (es_tx s) (es_tx t)).
           he_step_order e \<noteq> Some (st_order (tx_steps (es_tx s) ! j))))"

lemma new_history_trans:
  assumes "tx_extends s t" "tx_extends t u"
  shows "new_history s u = new_history s t @ new_history t u"
  using assms by (auto simp: tx_extends_def new_history_def)

lemma same_wiring_length: "same_wiring s t \<Longrightarrow> length (tx_steps t) = length (tx_steps s)"
  by (metis same_wiring_def length_map)

lemma held_refl: "held P n j s s"
  by (simp add: held_def new_history_def)

lemma held_trans:
  assumes "held P n j s t" "held P n j t u"
  shows "held P n j s u"
proof -
  have st: "tx_extends (es_tx s) (es_tx t)" and tu: "tx_extends (es_tx t) (es_tx u)"
    using assms by (auto simp: held_def)
  then have "length (tx_steps (es_tx t)) = length (tx_steps (es_tx s))"
    and "map st_order (tx_steps (es_tx t)) = map st_order (tx_steps (es_tx s))"
    by (auto simp: tx_extends_def same_wiring_length) (simp add: same_wiring_def)
  then show ?thesis
    using assms st tu unfolding held_def
    by (auto simp: new_history_trans [OF st tu] intro: tx_extends_trans)
qed

interpretation held: step_relation "held P n j :: 'w est \<Rightarrow> 'w est \<Rightarrow> bool"
  by unfold_locales (auto intro: held_refl held_trans)

lemma held_same:
  assumes "tx_extends (es_tx s) (es_tx t)" "tx_history (es_tx t) = tx_history (es_tx s)"
    "j < length (tx_steps (es_tx s)) \<Longrightarrow> P (tx_steps (es_tx s) ! j) \<Longrightarrow>
       tx_steps (es_tx t) ! j = tx_steps (es_tx s) ! j"
  shows "held P n j s t"
  using assms by (auto simp: held_def new_history_def)

lemma held_upd_tx:
  assumes "\<And>t. same_wiring t (f t)" "\<And>t. tx_history (f t) = tx_history t"
    "\<And>t. j < length (tx_steps t) \<Longrightarrow> P (tx_steps t ! j) \<Longrightarrow> tx_steps (f t) ! j = tx_steps t ! j"
  shows "keeps (held P n j) (upd_tx f)"
  unfolding upd_tx_def
  by (rule held.keeps_upd) (auto intro!: held_same tx_extends_same_history simp: assms)

lemma nth_set_step [simp]: "i \<noteq> j \<Longrightarrow> tx_steps (set_step i f t) ! j = tx_steps t ! j"
  by (simp add: set_step_def)

lemma held_get_tx [keeps_intros]: "keeps (held P n j) get_tx"
  by (simp add: keeps_def get_tx_def held_refl)

lemma held_read_outside [keeps_intros]: "keeps (held P n j) (read_outside f)"
  by (rule keepsI) (auto simp: read_outside_def intro: held_same)

lemma held_call_world [keeps_intros]: "keeps (held P n j) (call_world f)"
  by (rule keepsI) (auto simp: call_world_def intro: held_same split: prod.splits)

lemma held_set_status [keeps_intros]: "i \<noteq> j \<Longrightarrow> keeps (held P n j) (set_status i x)"
  unfolding set_status_def by (rule held_upd_tx) (auto intro: set_step_wiring)

lemma record_history_simps:
  "record_history E ev i s =
     (Inr (fst (append_history (es_tx s) ev None None
              (map_option (\<lambda>k. tx_steps (es_tx s) ! k) i) None (env_clock E (es_tick s)))),
      s\<lparr>es_tick := Suc (es_tick s),
        es_tx := snd (append_history (es_tx s) ev None None
              (map_option (\<lambda>k. tx_steps (es_tx s) ! k) i) None (env_clock E (es_tick s)))\<rparr>)"
  by (simp add: record_history_def bnd_def read_outside_def split: prod.splits)

lemma he_step_order_append [simp]:
  "he_step_order (fst (append_history t ev st rn s ts now)) = map_option st_order s"
  by (simp add: append_history_def Let_def)

definition elsewhere :: "nat \<Rightarrow> nat \<Rightarrow> nat option \<Rightarrow> bool" where
  "elsewhere n j i \<longleftrightarrow> (case i of None \<Rightarrow> True | Some k \<Rightarrow> k < n \<and> k \<noteq> j)"

lemma elsewhere_simps [simp]:
  "elsewhere n j None" "elsewhere n j (Some k) \<longleftrightarrow> k < n \<and> k \<noteq> j"
  by (simp_all add: elsewhere_def)

lemma held_record_history [keeps_intros]:
  fixes E :: "'w env"
  assumes "elsewhere n j i"
  shows "keeps (held P n j) (record_history E ev i)"
proof (rule keepsI)
  fix s :: "'w est"
  have "tx_extends (es_tx s) (es_tx (snd (record_history E ev i s)))"
    using pass_record_history [of E ev i] by (auto simp: keeps_def pass_frame_def)
  then show "held P n j s (snd (record_history E ev i s))"
    using assms
    by (auto simp: held_def record_history_simps new_history_def elsewhere_def distinct_conv_nth
        split: option.splits)
qed

lemma held_publish [keeps_intros]: "keeps (held P n j) (publish E i inc entry)"
  unfolding publish_def by (cases "env_sink E") (auto intro!: keeps_intros)

lemma held_emit_event [keeps_intros]:
  "elsewhere n j i \<Longrightarrow> keeps (held P n j) (emit_event E ev i inc)"
  unfolding emit_event_def by (auto intro!: keeps_intros)

lemma held_checkpoint [keeps_intros]: "keeps (held P n j) (checkpoint E)"
  unfolding checkpoint_def by (cases "env_checkpoint E") (auto intro!: keeps_intros)

lemma held_call_execute [keeps_intros]:
  fixes E :: "'w env"
  assumes "i \<noteq> j"
  shows "keeps (held P n j) (call_execute E i)"
proof (rule keepsI)
  fix s :: "'w est"
  have "tx_extends (es_tx s) (es_tx (snd (call_execute E i s)))"
    using pass_call_execute [of E i] by (auto simp: keeps_def pass_frame_def)
  then show "held P n j s (snd (call_execute E i s))"
    by (rule held_same) (auto simp: call_execute_def Let_def assms)
qed

lemma held_register [keeps_intros]: "keeps (held P n j) (register_screenshot_artifact E i p)"
  unfolding register_screenshot_artifact_def
  by (auto intro!: keeps_intros held_upd_tx simp: same_wiring_def)

lemma held_attach [keeps_intros]: "i \<noteq> j \<Longrightarrow> keeps (held P n j) (attach_screenshot C E i)"
  unfolding attach_screenshot_def
  by (auto intro!: keeps_intros held_upd_tx set_step_wiring)

lemma held_record_failure [keeps_intros]:
  "i \<noteq> j \<Longrightarrow> i < n \<Longrightarrow> keeps (held P n j) (record_failure C E i x)"
  unfolding record_failure_def
  by (auto intro!: keeps_intros held_upd_tx set_step_wiring)

lemma held_unexpected [keeps_intros]: "keeps (held P n j) (unexpected_exception E i e)"
  unfolding unexpected_exception_def by (auto intro!: keeps_intros)

text \<open>A step that does not satisfy \<open>P\<close> now is not held at all.\<close>

lemma heldI:
  assumes "tx_extends (es_tx s) (es_tx t)"
    "length (tx_steps (es_tx s)) = n \<Longrightarrow> j < n \<Longrightarrow> P (tx_steps (es_tx s) ! j) \<Longrightarrow> held P n j s t"
  shows "held P n j s t"
  using assms by (auto simp: held_def)

lemma pass_extends: "keeps pass_frame m \<Longrightarrow> tx_extends (es_tx s) (es_tx (snd (m s)))"
  by (simp add: keeps_def pass_frame_def)

lemma held_bnd_get_tx:
  assumes "keeps pass_frame (bnd get_tx f)"
    "\<And>s. length (tx_steps (es_tx s)) = n \<Longrightarrow> j < n \<Longrightarrow> P (tx_steps (es_tx s) ! j) \<Longrightarrow>
       held P n j s (snd (f (es_tx s) s))"
  shows "keeps (held P n j) (bnd get_tx f)"
proof (rule keepsI)
  fix s
  show "held P n j s (snd (bnd get_tx f s))"
    by (rule heldI [OF pass_extends [OF assms(1)]]) (simp add: bnd_def get_tx_def assms(2))
qed

lemma keeps_snd: "keeps R m \<Longrightarrow> R s (snd (m s))"
  by (simp add: keeps_def)

text \<open>A pending step may be skipped by a halting failure of another step; other steps are kept.\<close>

lemma held_skip_after:
  fixes E :: "'w env"
  assumes "\<And>s. P s \<Longrightarrow> st_status s \<noteq> PENDING" "list_all (\<lambda>k. k < n) js"
  shows "keeps (held P n j) (skip_pending_after E f b js)"
  using assms(2)
proof (induction js arbitrary: b)
  case (Cons k js)
  then have tail: "keeps (held P n j) (skip_pending_after E f b' js)" for b' by simp
  show ?case
  proof (cases "k = f")
    case False
    have "keeps (held P n j) (bnd get_tx (\<lambda>t. if b \<and> st_status (tx_steps t ! k) = PENDING
       then thn (set_status k SKIPPED) (thn (emit_event E STEP_SKIPPED (Some k) True)
              (skip_pending_after E f b js))
       else skip_pending_after E f b js))" (is "keeps _ (bnd get_tx ?body)")
    proof (rule held_bnd_get_tx)
      show "keeps pass_frame (bnd get_tx ?body)" by (auto intro!: keeps_intros)
    next
      fix s :: "'w est"
      assume "P (tx_steps (es_tx s) ! j)"
      then have "k = j \<Longrightarrow> ?body (es_tx s) = skip_pending_after E f b js"
        using assms(1) by auto
      moreover have "k \<noteq> j \<Longrightarrow> keeps (held P n j) (?body (es_tx s))"
        using Cons.prems tail by (auto intro!: keeps_intros)
      ultimately have "keeps (held P n j) (?body (es_tx s))"
        using tail by (cases "k = j") auto
      then show "held P n j s (snd (?body (es_tx s) s))" by (rule keeps_snd)
    qed
    with False show ?thesis by simp
  qed (simp add: tail)
qed (auto intro!: keeps_intros)

lemma held_skip_downstream:
  assumes "\<And>s. P s \<Longrightarrow> st_status s \<noteq> PENDING"
  shows "keeps (held P n j) (skip_downstream_pending_steps E i)"
  unfolding skip_downstream_pending_steps_def
proof (rule held.keeps_thn)
  show "keeps (held P n j) (bnd get_tx (\<lambda>t. skip_pending_after E i False (ordered_indices t)))"
  proof (rule held_bnd_get_tx, goal_cases)
    case 1
    show ?case by (auto intro!: keeps_intros)
  next
    case (2 s)
    show ?case
      by (rule keeps_snd, rule held_skip_after) (use assms 2 in \<open>auto simp: list_all_iff\<close>)
  qed
qed (rule keeps_intros)

lemma held_handle_outcome:
  assumes "\<And>s. P s \<Longrightarrow> st_status s \<noteq> PENDING" "i \<noteq> j" "i < n"
  shows "keeps (held P n j) (handle_outcome C E i r)"
  unfolding handle_outcome_def
  using assms by (auto intro!: keeps_intros held_skip_downstream split: option.splits pyexc.splits)

text \<open>
  A pass holds every step it skips: \<open>blocked_ok\<close> says that a step with \<open>P\<close> is one of those.
\<close>

definition blocked_ok :: "(step \<Rightarrow> bool) \<Rightarrow> nat \<Rightarrow> nat list option \<Rightarrow> bool" where
  "blocked_ok P j blocked \<longleftrightarrow> (\<forall>s. P s \<longrightarrow>
     st_status s \<in> {SUCCESSFUL, SKIPPED} \<or> (case blocked of None \<Rightarrow> False | Some b \<Rightarrow> j \<in> set b))"

lemma held_pass_step:
  fixes E :: "'w env"
  assumes "\<And>s. P s \<Longrightarrow> st_status s \<noteq> PENDING" "i < n" "blocked_ok P j blocked"
  shows "keeps (held P n j) (pass_step C E blocked i)"
  unfolding pass_step_def
proof (rule held_bnd_get_tx, goal_cases)
  case 1
  show ?case by (auto intro!: keeps_intros)
next
  case (2 s)
  then have "i = j \<Longrightarrow> pass_skips blocked i (es_tx s)"
    using assms(3) by (auto simp: pass_skips_def blocked_ok_def split: option.splits)
  then have "keeps (held P n j) (if pass_skips blocked i (es_tx s) then ret False
     else thn (set_status i IN_PROGRESS) (thn (emit_event E STEP_STARTED (Some i) True)
       (thn (checkpoint E) (bnd (call_execute E i) (handle_outcome C E i)))))"
    using assms by (auto intro!: keeps_intros held_handle_outcome)
  then show ?case by (rule keeps_snd)
qed

lemma held_pass_loop:
  assumes "\<And>s. P s \<Longrightarrow> st_status s \<noteq> PENDING" "blocked_ok P j blocked" "list_all (\<lambda>k. k < n) is"
  shows "keeps (held P n j) (pass_loop C E blocked is)"
  using assms(3)
proof (induction "is")
  case (Cons i "is")
  then show ?case by (auto intro!: keeps_intros held_pass_step assms)
qed (auto intro!: keeps_intros)

lemma held_execute_pass:
  assumes "\<And>s. P s \<Longrightarrow> st_status s \<noteq> PENDING" "blocked_ok P j blocked"
  shows "keeps (held P n j) (execute_pass C E blocked)"
  unfolding execute_pass_def
proof (rule held_bnd_get_tx, goal_cases)
  case 1
  show ?case by (auto intro!: keeps_intros)
next
  case (2 s)
  show ?case
    by (rule keeps_snd, rule held_pass_loop) (use assms 2 in \<open>auto simp: list_all_iff\<close>)
qed

text \<open>The two kinds of step a later pass must not run again.\<close>

definition step_done :: "step \<Rightarrow> bool" where
  "step_done s \<longleftrightarrow> st_status s = SUCCESSFUL"

definition step_rejected :: "step \<Rightarrow> bool" where
  "step_rejected s \<longleftrightarrow> st_status s = FAILED \<and>
     (case last_exc s of None \<Rightarrow> False | Some e \<Rightarrow> is_business e)"

definition settled_kind :: "(step \<Rightarrow> bool) \<Rightarrow> bool" where
  "settled_kind P \<longleftrightarrow> P = step_done \<or> P = step_rejected"

lemma settled_not_pending: "settled_kind P \<Longrightarrow> P s \<Longrightarrow> st_status s \<noteq> PENDING"
  by (auto simp: settled_kind_def step_done_def step_rejected_def)

lemma settled_not_skipped: "settled_kind P \<Longrightarrow> P s \<Longrightarrow> st_status s \<noteq> SKIPPED"
  by (auto simp: settled_kind_def step_done_def step_rejected_def)

lemma settled_blocked:
  "settled_kind P \<Longrightarrow> j < length (tx_steps t) \<Longrightarrow> P (tx_steps t ! j) \<Longrightarrow>
   blocked_ok P j (Some (business_failed_steps t))"
  by (auto simp: settled_kind_def step_done_def step_rejected_def blocked_ok_def
      business_failed_steps_def failed_indices_def split: option.splits)

lemma settled_not_retryable:
  "settled_kind P \<Longrightarrow> P (tx_steps t ! j) \<Longrightarrow> j \<notin> set (retryable_failed_steps t)"
  by (auto simp: settled_kind_def step_done_def step_rejected_def
      retryable_failed_steps_def failed_indices_def split: option.splits)

lemma nth_reset_steps: "j \<notin> set js \<Longrightarrow> tx_steps (reset_steps js t) ! j = tx_steps t ! j"
  by (induction js arbitrary: t) (auto simp: reset_steps_def)

lemma held_retry_pass:
  fixes E :: "'w env"
  assumes P: "settled_kind P" and j: "j \<notin> set js"
  shows "keeps (held P n j) (retry_pass C E js)"
proof -
  note pend = settled_not_pending [OF P]
  have reset: "keeps (held P n j) (upd_tx (reset_steps js) :: ('w est, pyexc, unit) effect)"
    by (rule held_upd_tx) (auto simp: reset_steps_wiring nth_reset_steps [OF j])
  have sleep: "keeps (held P n j) (sleep_before_retry C k :: ('w est, pyexc, unit) effect)" for k
    unfolding sleep_before_retry_def
    by (auto intro!: keeps_intros held.keeps_upd held_same)
  have count: "keeps (held P n j)
      (upd_tx (\<lambda>t. t\<lparr>tx_retry_count := tx_retry_count t + 1\<rparr>) :: ('w est, pyexc, unit) effect)"
    by (rule held_upd_tx) (auto simp: same_wiring_def)
  have again: "keeps (held P n j) (bnd get_tx (\<lambda>t. execute_pass C E (Some (business_failed_steps t))))"
  proof (rule held_bnd_get_tx, goal_cases)
    case 1
    show ?case by (auto intro!: keeps_intros)
  next
    case (2 s)
    show ?case
      by (rule keeps_snd, rule held_execute_pass) (use P pend 2 in \<open>auto intro: settled_blocked\<close>)
  qed
  show ?thesis
    unfolding retry_pass_def
    by (intro held.keeps_thn held.keeps_bnd reset sleep count again held_get_tx held_emit_event
        held_checkpoint) simp
qed

lemma held_retry_loop:
  fixes E :: "'w env"
  assumes P: "settled_kind P"
  shows "held P n j s (snd (retry_loop C E s))"
proof (induction C E s rule: retry_loop.induct)
  case (1 C E s)
  let ?js = "retryable_failed_steps (es_tx s)"
  show ?case
  proof (cases "tx_retry_count (es_tx s) < eng_max_retries C \<and> ?js \<noteq> []")
    case False
    then show ?thesis by (auto simp: retry_loop.simps [of C E s] Let_def held_refl)
  next
    case True
    obtain q u where q: "retry_pass C E ?js s = (q, u)" by (cases "retry_pass C E ?js s")
    have su: "held P n j s u"
    proof (rule heldI)
      show "tx_extends (es_tx s) (es_tx u)" using retry_pass_count [OF q] by simp
      assume "P (tx_steps (es_tx s) ! j)"
      then show "held P n j s u"
        using keepsD [OF held_retry_pass q] P settled_not_retryable by blast
    qed
    with "1.IH" True q show ?thesis
      by (auto simp: retry_loop.simps [of C E s] Let_def intro: held_trans split: sum.splits)
  qed
qed

lemma held_retry_loop_keeps: "settled_kind P \<Longrightarrow> keeps (held P n j) (retry_loop C E)"
  by (rule keepsI) (rule held_retry_loop)

lemma held_start_run: "settled_kind P \<Longrightarrow> keeps (held P n j) (start_run E)"
  unfolding start_run_def set_started_at_def
  by (auto intro!: keeps_intros held_upd_tx simp: same_wiring_def reset_skipped_steps_def
      settled_not_skipped nth_map
      dest: settled_not_skipped)

lemma held_finish_run: "keeps (held P n j) (finish_run E)"
  unfolding finish_run_def
  by (auto intro!: keeps_intros held_upd_tx simp: same_wiring_def classify_def Let_def)

lemma held_interrupted: "keeps (held P n j) (interrupted E e)"
  unfolding interrupted_def set_finished_if_none_def
  by (auto intro!: keeps_intros held_upd_tx simp: same_wiring_def)

lemma held_fail_validation: "keeps (held P n j) (fail_validation E e)"
  unfolding fail_validation_def
  by (auto intro!: keeps_intros held_upd_tx simp: same_wiring_def)

lemma run_frame_engine: "run_frame s (snd (engine_run C E s))"
  using run_engine_run by (rule keeps_snd)

lemma held_engine_run:
  fixes E :: "'w env"
  assumes P: "settled_kind P" and ok: "blocked_ok P j (initial_blocked_steps (es_tx s))"
  shows "held P n j s (snd (engine_run C E s))"
proof -
  note pend = settled_not_pending [OF P]
  have valid: "held P n j s (snd (run_validated C E s))"
  proof -
    have "keeps (held P n j) (thn (start_run E)
        (thn (catch_exc (thn (execute_pass C E (initial_blocked_steps (es_tx s))) (retry_loop C E))
                        (interrupted E)) (finish_run E)))"
      by (intro held.keeps_thn held.keeps_catch held_start_run held_execute_pass
          held_retry_loop_keeps held_interrupted held_finish_run P ok) (rule pend)
    then show ?thesis
      using keeps_snd by (fastforce simp: run_validated_def bnd_def get_tx_def)
  qed
  have "held P n j s (snd (run_transaction C E s))"
  proof (cases "validate_for_execution (es_tx s)")
    case (Inl e)
    then show ?thesis
      using keeps_snd [OF held_fail_validation] by (simp add: run_transaction_def)
  next
    case (Inr t)
    then have "t = es_tx s" by (simp add: validate_for_execution_iff)
    then show ?thesis using Inr valid by (simp add: run_transaction_def)
  qed
  then show ?thesis
    by (auto simp: engine_run_def bnd_def lift_res_def get_tx_def raise_exc_def held_refl
        split: sum.splits)
qed

lemma blocked_ok_done: "blocked_ok step_done j b"
  by (simp add: blocked_ok_def step_done_def)

lemma heldD:
  assumes "held P n j s t" "length (tx_steps (es_tx s)) = n" "j < n"
    "distinct (map st_order (tx_steps (es_tx s)))" "P (tx_steps (es_tx s) ! j)"
  shows "tx_steps (es_tx t) ! j = tx_steps (es_tx s) ! j \<and>
    (\<forall>e \<in> set (new_history (es_tx s) (es_tx t)).
       he_step_order e \<noteq> Some (st_order (tx_steps (es_tx s) ! j)))"
  using assms by (simp add: held_def)

section \<open>Which events an operation may record\<close>

definition only_events :: "history_event set \<Rightarrow> 'w est \<Rightarrow> 'w est \<Rightarrow> bool" where
  "only_events Ev s t \<longleftrightarrow> tx_extends (es_tx s) (es_tx t) \<and>
     he_event ` set (new_history (es_tx s) (es_tx t)) \<subseteq> Ev"

lemma only_events_trans: "only_events Ev s t \<Longrightarrow> only_events Ev t u \<Longrightarrow> only_events Ev s u"
  using tx_extends_trans [of "es_tx s" "es_tx t" "es_tx u"]
    new_history_trans [of "es_tx s" "es_tx t" "es_tx u"]
  by (auto simp: only_events_def)

lemma only_events_refl: "only_events Ev s s"
  by (simp add: only_events_def new_history_def)

interpretation events: step_relation "only_events Ev :: 'w est \<Rightarrow> 'w est \<Rightarrow> bool"
  by unfold_locales (rule only_events_refl, rule only_events_trans)

lemma events_same:
  assumes "tx_extends (es_tx s) (es_tx t)" "tx_history (es_tx t) = tx_history (es_tx s)"
  shows "only_events Ev s t"
  using assms by (simp add: only_events_def new_history_def)

lemma events_upd_tx:
  assumes "\<And>t. same_wiring t (f t)" "\<And>t. tx_history (f t) = tx_history t"
  shows "keeps (only_events Ev) (upd_tx f)"
  unfolding upd_tx_def
  by (rule events.keeps_upd) (auto intro!: events_same tx_extends_same_history simp: assms)

lemma events_get_tx [keeps_intros]: "keeps (only_events Ev) get_tx"
  by (simp add: keeps_def get_tx_def events.R_refl)

lemma events_read_outside [keeps_intros]: "keeps (only_events Ev) (read_outside f)"
  by (rule keepsI) (auto simp: read_outside_def intro: events_same)

lemma events_call_world [keeps_intros]: "keeps (only_events Ev) (call_world f)"
  by (rule keepsI) (auto simp: call_world_def intro: events_same split: prod.splits)

lemma events_set_status [keeps_intros]: "keeps (only_events Ev) (set_status i x)"
  unfolding set_status_def by (rule events_upd_tx) (auto intro: set_step_wiring)

lemma events_record_history [keeps_intros]:
  fixes E :: "'w env"
  assumes "ev \<in> Ev"
  shows "keeps (only_events Ev) (record_history E ev i)"
proof (rule keepsI)
  fix s :: "'w est"
  have "tx_extends (es_tx s) (es_tx (snd (record_history E ev i s)))"
    using pass_extends [OF pass_record_history] .
  then show "only_events Ev s (snd (record_history E ev i s))"
    using assms by (auto simp: only_events_def record_history_simps new_history_def)
qed

lemma events_publish [keeps_intros]: "keeps (only_events Ev) (publish E i inc entry)"
  unfolding publish_def by (cases "env_sink E") (auto intro!: keeps_intros)

lemma events_emit_event [keeps_intros]: "ev \<in> Ev \<Longrightarrow> keeps (only_events Ev) (emit_event E ev i inc)"
  unfolding emit_event_def by (auto intro!: keeps_intros)

lemma events_checkpoint [keeps_intros]: "keeps (only_events Ev) (checkpoint E)"
  unfolding checkpoint_def by (cases "env_checkpoint E") (auto intro!: keeps_intros)

lemma events_call_execute [keeps_intros]:
  fixes E :: "'w env"
  shows "keeps (only_events Ev) (call_execute E i)"
proof (rule keepsI)
  fix s :: "'w est"
  have "tx_extends (es_tx s) (es_tx (snd (call_execute E i s)))"
    using pass_extends [OF pass_call_execute] .
  then show "only_events Ev s (snd (call_execute E i s))"
    by (rule events_same) (simp add: call_execute_def Let_def)
qed

lemma events_attach [keeps_intros]: "keeps (only_events Ev) (attach_screenshot C E i)"
  unfolding attach_screenshot_def register_screenshot_artifact_def
  by (auto intro!: keeps_intros events_upd_tx set_step_wiring simp: same_wiring_def)

lemma events_record_failure [keeps_intros]:
  "STEP_FAILED \<in> Ev \<Longrightarrow> keeps (only_events Ev) (record_failure C E i x)"
  unfolding record_failure_def
  by (auto intro!: keeps_intros events_upd_tx set_step_wiring)

lemma events_skip_after [keeps_intros]:
  "STEP_SKIPPED \<in> Ev \<Longrightarrow> keeps (only_events Ev) (skip_pending_after E f b js)"
  by (induction E f b js rule: skip_pending_after.induct) (auto intro!: keeps_intros)

lemma events_skip_downstream [keeps_intros]:
  "STEP_SKIPPED \<in> Ev \<Longrightarrow> keeps (only_events Ev) (skip_downstream_pending_steps E i)"
  unfolding skip_downstream_pending_steps_def by (auto intro!: keeps_intros)

lemma events_unexpected [keeps_intros]: "keeps (only_events Ev) (unexpected_exception E i e)"
  unfolding unexpected_exception_def by (auto intro!: keeps_intros)

lemma events_handle_outcome [keeps_intros]:
  assumes "STEP_FAILED \<in> Ev" "STEP_SKIPPED \<in> Ev" "STEP_SUCCEEDED \<in> Ev" "STEP_INTERRUPTED \<in> Ev"
  shows "keeps (only_events Ev) (handle_outcome C E i r)"
  unfolding handle_outcome_def
  using assms by (auto intro!: keeps_intros split: option.splits pyexc.splits)

text \<open>The steps started, in the order of the audit trail.\<close>

definition started :: "transaction \<Rightarrow> transaction \<Rightarrow> int option list" where
  "started s t = map he_step_order (filter (\<lambda>e. he_event e = STEP_STARTED) (new_history s t))"

lemma started_trans:
  "tx_extends s t \<Longrightarrow> tx_extends t u \<Longrightarrow> started s u = started s t @ started t u"
  using new_history_trans [of s t u] by (simp add: started_def)

lemma started_none:
  "only_events Ev s t \<Longrightarrow> STEP_STARTED \<notin> Ev \<Longrightarrow> started (es_tx s) (es_tx t) = []"
  by (auto simp: started_def only_events_def filter_empty_conv)

lemma started_same [simp]: "tx_history t = tx_history s \<Longrightarrow> started s t = []"
  by (simp add: started_def new_history_def)

lemma started_record_history:
  "started (es_tx s) (es_tx (snd (record_history E ev i s))) =
     (if ev = STEP_STARTED then [map_option (\<lambda>k. st_order (tx_steps (es_tx s) ! k)) i] else [])"
  by (simp add: started_def new_history_def record_history_simps o_def map_option.compositionality)

definition after_start :: "history_event set" where
  "after_start = UNIV - {STEP_STARTED}"

lemma pass_step_started:
  fixes E :: "'w env"
  assumes "i < length (tx_steps (es_tx s))"
  shows "started (es_tx s) (es_tx (snd (pass_step C E blocked i s))) \<in>
    {[], [Some (st_order (tx_steps (es_tx s) ! i))]}"
proof (cases "pass_skips blocked i (es_tx s)")
  case True
  then show ?thesis by (simp add: pass_step_def bnd_def get_tx_def ret_def)
next
  case False
  let ?rest = "\<lambda>entry. thn (publish E (Some i) True entry)
      (thn (checkpoint E) (bnd (call_execute E i) (handle_outcome C E i)))"
  obtain u where u: "set_status i IN_PROGRESS s = (Inr (), u)"
    and ux: "tx_extends (es_tx s) (es_tx u)" "tx_history (es_tx u) = tx_history (es_tx s)"
      "map st_order (tx_steps (es_tx u)) = map st_order (tx_steps (es_tx s))"
    using pass_extends [OF pass_set_status, of s i IN_PROGRESS]
    by (auto simp: set_status_def upd_tx_def upd_st_def tx_extends_def same_wiring_def)
  obtain entry v where v: "record_history E STEP_STARTED (Some i) u = (Inr entry, v)"
    by (simp add: record_history_simps)
  have uv: "tx_extends (es_tx u) (es_tx v)"
    using pass_extends [OF pass_record_history, of u E STEP_STARTED "Some i"] v by simp
  have "started (es_tx u) (es_tx v) = [Some (st_order (tx_steps (es_tx u) ! i))]"
    using started_record_history [of u E STEP_STARTED "Some i"] v by simp
  moreover have "st_order (tx_steps (es_tx u) ! i) = st_order (tx_steps (es_tx s) ! i)"
    using ux(3) assms by (metis length_map nth_map)
  moreover have rest: "keeps (only_events after_start) (?rest entry)"
    by (auto intro!: keeps_intros simp: after_start_def)
  then have "started (es_tx v) (es_tx (snd (?rest entry v))) = []"
    by (rule started_none [OF keeps_snd [where m = "?rest entry"]]) (simp add: after_start_def)
  moreover have "tx_extends (es_tx v) (es_tx (snd (?rest entry v)))"
    using keeps_snd [OF rest] by (simp add: only_events_def)
  moreover have "pass_step C E blocked i s = ?rest entry v"
    using False u v by (simp add: pass_step_def bnd_def get_tx_def thn_def emit_event_def)
  moreover note sv = tx_extends_trans [OF ux(1) uv]
  moreover have "started (es_tx s) (es_tx v) = started (es_tx u) (es_tx v)"
    using started_trans [OF ux(1) uv] ux(2) by simp
  moreover have "started (es_tx s) (es_tx (snd (?rest entry v))) =
      started (es_tx s) (es_tx v) @ started (es_tx v) (es_tx (snd (?rest entry v)))"
    by (rule started_trans) fact+
  ultimately show ?thesis by simp
qed

text \<open>
  A pass starts a sublist of the steps it is given, in the order given; \<open>execute_pass\<close> gives them
  sorted by execution order.
\<close>

lemma pass_loop_started:
  fixes E :: "'w env"
  assumes "list_all (\<lambda>i. i < length (tx_steps (es_tx s))) is"
  shows "subseq (started (es_tx s) (es_tx (snd (pass_loop C E blocked is s))))
    (map (\<lambda>i. Some (st_order (tx_steps (es_tx s) ! i))) is)"
  using assms
proof (induction "is" arbitrary: s)
  case Nil
  then show ?case by (simp add: ret_def)
next
  case (Cons i "is")
  obtain r u where step: "pass_step C E blocked i s = (r, u)" by (cases "pass_step C E blocked i s")
  have su: "tx_extends (es_tx s) (es_tx u)"
    using pass_extends [OF pass_pass_step, of s C E blocked i] step by simp
  have first: "started (es_tx s) (es_tx u) \<in> {[], [Some (st_order (tx_steps (es_tx s) ! i))]}"
    using pass_step_started [of i s C E blocked] Cons.prems step by simp
  have len: "length (tx_steps (es_tx u)) = length (tx_steps (es_tx s))"
    and ord: "map st_order (tx_steps (es_tx u)) = map st_order (tx_steps (es_tx s))"
    using su by (auto simp: tx_extends_def same_wiring_length) (simp add: same_wiring_def)
  have same: "map (\<lambda>i. Some (st_order (tx_steps (es_tx u) ! i))) is =
      map (\<lambda>i. Some (st_order (tx_steps (es_tx s) ! i))) is"
    using Cons.prems len ord by (auto simp: list_all_iff) (metis nth_map)
  show ?case
  proof (cases "r = Inr False")
    case True
    then have "pass_loop C E blocked (i # is) s = pass_loop C E blocked is u"
      using step by (simp add: bnd_def)
    moreover have "started (es_tx s) (es_tx (snd (pass_loop C E blocked is u))) =
        started (es_tx s) (es_tx u) @ started (es_tx u) (es_tx (snd (pass_loop C E blocked is u)))"
      by (rule started_trans [OF su pass_extends [OF pass_pass_loop]])
    moreover have "subseq (started (es_tx u) (es_tx (snd (pass_loop C E blocked is u))))
        (map (\<lambda>i. Some (st_order (tx_steps (es_tx s) ! i))) is)"
      using Cons.IH [of u] Cons.prems len same by simp
    ultimately show ?thesis using first by auto
  next
    case False
    then have "snd (pass_loop C E blocked (i # is) s) = u"
      using step by (cases r) (auto simp: bnd_def ret_def)
    then show ?thesis using first by auto
  qed
qed

lemma execute_pass_started:
  fixes E :: "'w env"
  shows "subseq (started (es_tx s) (es_tx (snd (execute_pass C E blocked s))))
    (map Some (map st_order (ordered_steps (es_tx s))))"
proof -
  have "map (\<lambda>i. Some (st_order (tx_steps (es_tx s) ! i))) (ordered_indices (es_tx s)) =
      map Some (map st_order (ordered_steps (es_tx s)))"
    by (simp add: o_def flip: ordered_indices_steps)
  then show ?thesis
    using pass_loop_started [of s "ordered_indices (es_tx s)" C E blocked]
    by (simp add: execute_pass_def bnd_def get_tx_def list_all_iff)
qed

section \<open>How often a step is started\<close>

text \<open>
  \<open>at_most order k m\<close>: \<open>m\<close> starts the step of the given order at most \<open>k\<close> times, and once more
  for each retry it counts.
\<close>

definition at_most :: "int \<Rightarrow> int \<Rightarrow> ('w est, pyexc, 'a) effect \<Rightarrow> bool" where
  "at_most order k m \<longleftrightarrow> (\<forall>s. distinct (map st_order (tx_steps (es_tx s))) \<longrightarrow>
     tx_extends (es_tx s) (es_tx (snd (m s))) \<and>
     int (count_list (started (es_tx s) (es_tx (snd (m s)))) (Some order)) \<le>
       k + (tx_retry_count (es_tx (snd (m s))) - tx_retry_count (es_tx s)))"

lemma at_mostD:
  "at_most order k m \<Longrightarrow> distinct (map st_order (tx_steps (es_tx s))) \<Longrightarrow> m s = (r, t) \<Longrightarrow>
   tx_extends (es_tx s) (es_tx t) \<and>
   int (count_list (started (es_tx s) (es_tx t)) (Some order)) \<le>
     k + (tx_retry_count (es_tx t) - tx_retry_count (es_tx s))"
  by (metis at_most_def snd_conv)

lemma at_most_then:
  fixes m :: "('w est, pyexc, 'a) effect" and n :: "('w est, pyexc, 'b) effect"
  assumes m: "at_most order a m" and n: "at_most order b n"
    and d: "distinct (map st_order (tx_steps (es_tx s)))" and mu: "m s = (r, u)" and nt: "n u = (q, t)"
  shows "tx_extends (es_tx s) (es_tx t) \<and>
    int (count_list (started (es_tx s) (es_tx t)) (Some order)) \<le>
      a + b + (tx_retry_count (es_tx t) - tx_retry_count (es_tx s))"
proof -
  note su = at_mostD [OF m d mu]
  have "map st_order (tx_steps (es_tx u)) = map st_order (tx_steps (es_tx s))"
    using su by (auto simp: tx_extends_def same_wiring_def)
  with at_mostD [OF n _ nt] d su started_trans [of "es_tx s" "es_tx u" "es_tx t"]
    tx_extends_trans [of "es_tx s" "es_tx u" "es_tx t"]
  show ?thesis by simp
qed

lemma at_most_bnd:
  fixes m :: "('w est, pyexc, 'a) effect"
  assumes m: "at_most order a m" and f: "\<And>x. at_most order b (f x)" and b: "0 \<le> b"
  shows "at_most order (a + b) (bnd m f)"
  unfolding at_most_def
proof (intro allI impI)
  fix s :: "'w est" assume d: "distinct (map st_order (tx_steps (es_tx s)))"
  obtain r u where mu: "m s = (r, u)" by (cases "m s")
  show "tx_extends (es_tx s) (es_tx (snd (bnd m f s))) \<and>
    int (count_list (started (es_tx s) (es_tx (snd (bnd m f s)))) (Some order)) \<le>
      a + b + (tx_retry_count (es_tx (snd (bnd m f s))) - tx_retry_count (es_tx s))"
    using at_mostD [OF m d mu] at_most_then [OF m f d mu surjective_pairing] mu b
    by (cases r) (auto simp: bnd_def)
qed

lemma at_most_thn:
  "at_most order a m \<Longrightarrow> at_most order b n \<Longrightarrow> 0 \<le> b \<Longrightarrow> at_most order (a + b) (thn m n)"
  by (simp add: thn_def at_most_bnd)

lemma at_most_catch:
  fixes m :: "('w est, pyexc, 'a) effect"
  assumes m: "at_most order a m" and h: "\<And>e. at_most order 0 (h e)"
  shows "at_most order a (catch_exc m h)"
  unfolding at_most_def
proof (intro allI impI)
  fix s :: "'w est" assume d: "distinct (map st_order (tx_steps (es_tx s)))"
  obtain r u where mu: "m s = (r, u)" by (cases "m s")
  show "tx_extends (es_tx s) (es_tx (snd (catch_exc m h s))) \<and>
    int (count_list (started (es_tx s) (es_tx (snd (catch_exc m h s)))) (Some order)) \<le>
      a + (tx_retry_count (es_tx (snd (catch_exc m h s))) - tx_retry_count (es_tx s))"
    using at_mostD [OF m d mu] at_most_then [OF m h d mu surjective_pairing] mu
    by (cases r) (auto simp: catch_exc_def)
qed

lemma at_most_none:
  assumes pass: "keeps pass_frame m" and ev: "keeps (only_events Ev) m" "STEP_STARTED \<notin> Ev"
  shows "at_most order 0 m"
  unfolding at_most_def
proof (intro allI impI)
  fix s
  show "tx_extends (es_tx s) (es_tx (snd (m s))) \<and>
    int (count_list (started (es_tx s) (es_tx (snd (m s)))) (Some order)) \<le>
      0 + (tx_retry_count (es_tx (snd (m s))) - tx_retry_count (es_tx s))"
    using keeps_snd [OF pass, of s] started_none [OF keeps_snd [OF ev(1), of s] ev(2)]
    by (simp add: pass_frame_def)
qed

lemma count_list_subseq: "subseq xs ys \<Longrightarrow> distinct ys \<Longrightarrow> count_list xs a \<le> 1"
proof -
  assume "subseq xs ys" "distinct ys"
  then have "distinct xs" by (metis distinct_map_filter subseq_conv_nths distinct_nthsI)
  then show ?thesis by (induction xs) auto
qed

lemma distinct_ordered: "distinct (map st_order (ordered_steps t)) = distinct (map st_order (tx_steps t))"
proof -
  have "mset (map st_order (ordered_steps t)) = mset (map st_order (tx_steps t))"
    by (simp add: ordered_steps_def mset_map)
  then show ?thesis by (rule mset_eq_imp_distinct_iff)
qed

lemma at_most_execute_pass:
  fixes E :: "'w env"
  shows "at_most order 1 (execute_pass C E blocked)"
  unfolding at_most_def
proof (intro allI impI)
  fix s :: "'w est" assume "distinct (map st_order (tx_steps (es_tx s)))"
  then have "distinct (map Some (map st_order (ordered_steps (es_tx s))))"
    using distinct_ordered [of "es_tx s"] by (simp add: distinct_map inj_on_def)
  then have "count_list (started (es_tx s) (es_tx (snd (execute_pass C E blocked s)))) (Some order) \<le> 1"
    by (rule count_list_subseq [OF execute_pass_started])
  then show "tx_extends (es_tx s) (es_tx (snd (execute_pass C E blocked s))) \<and>
    int (count_list (started (es_tx s) (es_tx (snd (execute_pass C E blocked s)))) (Some order)) \<le>
      1 + (tx_retry_count (es_tx (snd (execute_pass C E blocked s))) - tx_retry_count (es_tx s))"
    using keeps_snd [OF pass_execute_pass, of s C E blocked] by (simp add: pass_frame_def)
qed

lemma events_sleep [keeps_intros]: "keeps (only_events Ev) (sleep_before_retry C k)"
  unfolding sleep_before_retry_def by (auto intro!: keeps_intros events.keeps_upd events_same)

lemma at_most_get_tx: "(\<And>t. at_most order k (f t)) \<Longrightarrow> at_most order k (bnd get_tx f)"
  by (simp add: at_most_def bnd_def get_tx_def)

lemma at_most_count:
  "at_most order (-1) (upd_tx (\<lambda>t. t\<lparr>tx_retry_count := tx_retry_count t + 1\<rparr>))"
  by (auto simp: at_most_def upd_tx_def upd_st_def same_wiring_def intro: tx_extends_same_history)

lemma at_most_retry_pass: "at_most order 0 (retry_pass C E js)"
proof -
  have quiet: "at_most order 0 (upd_tx (reset_steps js))"
    "at_most order 0 (bnd get_tx (\<lambda>t. sleep_before_retry C (tx_retry_count t)))"
    "at_most order 0 (emit_event E RETRY_SCHEDULED None True)" "at_most order 0 (checkpoint E)"
    by (auto intro!: at_most_none [of _ after_start] keeps_intros events_upd_tx upd_tx_pass
        reset_steps_wiring simp: after_start_def same_wiring_def)
  have pass: "at_most order 1 (bnd get_tx (\<lambda>t. execute_pass C E (Some (business_failed_steps t))))"
    by (intro at_most_get_tx at_most_execute_pass)
  have "at_most order (0 + (0 + (-1 + (0 + (1 + 0))))) (retry_pass C E js)"
    unfolding retry_pass_def by (intro at_most_thn quiet pass at_most_count) simp_all
  then show ?thesis by simp
qed

lemma at_most_retry_loop:
  fixes E :: "'w env"
  shows "at_most order 0 (retry_loop C E)"
  unfolding at_most_def
proof (rule allI)
  fix s :: "'w est"
  show "distinct (map st_order (tx_steps (es_tx s))) \<longrightarrow>
    tx_extends (es_tx s) (es_tx (snd (retry_loop C E s))) \<and>
    int (count_list (started (es_tx s) (es_tx (snd (retry_loop C E s)))) (Some order)) \<le>
      0 + (tx_retry_count (es_tx (snd (retry_loop C E s))) - tx_retry_count (es_tx s))"
  proof (induction C E s rule: retry_loop.induct)
    case (1 C E s)
    let ?js = "retryable_failed_steps (es_tx s)"
    show ?case
    proof (cases "tx_retry_count (es_tx s) < eng_max_retries C \<and> ?js \<noteq> []")
      case False
      then show ?thesis by (auto simp: retry_loop.simps [of C E s] Let_def)
    next
      case True
      obtain q u where q: "retry_pass C E ?js s = (q, u)" by (cases "retry_pass C E ?js s")
      show ?thesis
      proof (intro impI)
        assume d: "distinct (map st_order (tx_steps (es_tx s)))"
        note su = at_mostD [OF at_most_retry_pass [of order] d q]
        have du: "distinct (map st_order (tx_steps (es_tx u)))"
          using su d by (simp add: tx_extends_def same_wiring_def)
        show "tx_extends (es_tx s) (es_tx (snd (retry_loop C E s))) \<and>
          int (count_list (started (es_tx s) (es_tx (snd (retry_loop C E s)))) (Some order)) \<le>
            0 + (tx_retry_count (es_tx (snd (retry_loop C E s))) - tx_retry_count (es_tx s))"
        proof (cases q)
          case (Inl e)
          with True q su show ?thesis by (simp add: retry_loop.simps [of C E s] Let_def)
        next
          case (Inr x)
          then have rest: "retry_loop C E s = retry_loop C E u"
            using True q by (simp add: retry_loop.simps [of C E s] Let_def)
          have ut: "tx_extends (es_tx u) (es_tx (snd (retry_loop C E u)))"
            "int (count_list (started (es_tx u) (es_tx (snd (retry_loop C E u)))) (Some order)) \<le>
              0 + (tx_retry_count (es_tx (snd (retry_loop C E u))) - tx_retry_count (es_tx u))"
            using "1.IH" True q Inr du by auto
          show ?thesis
            using su ut started_trans [OF conjunct1 [OF su] ut(1)]
              tx_extends_trans [OF conjunct1 [OF su] ut(1)] by (simp add: rest)
        qed
      qed
    qed
  qed
qed

lemma retry_loop_bound:
  "retry_loop C E s = (r, t) \<Longrightarrow>
     tx_retry_count (es_tx t) \<le> max (tx_retry_count (es_tx s)) (eng_max_retries C)"
proof (induction C E s arbitrary: r t rule: retry_loop.induct)
  case (1 C E s)
  then show ?case
    by (auto simp: retry_loop.simps [of C E s] Let_def split: if_splits prod.splits sum.splits
        dest!: retry_pass_count)
qed

lemma retry_loop_exhausts:
  "retry_loop C E s = (Inr x, t) \<Longrightarrow>
     eng_max_retries C \<le> tx_retry_count (es_tx t) \<or> retryable_failed_steps (es_tx t) = []"
proof (induction C E s arbitrary: t rule: retry_loop.induct)
  case (1 C E s)
  then show ?case
    by (auto simp: retry_loop.simps [of C E s] Let_def split: if_splits prod.splits sum.splits)
qed

section \<open>The whole run\<close>

lemma events_start_run: "TRANSACTION_STARTED \<in> Ev \<Longrightarrow> keeps (only_events Ev) (start_run E)"
  unfolding start_run_def set_started_at_def
  by (auto intro!: keeps_intros events_upd_tx simp: same_wiring_def reset_skipped_steps_def)

lemma events_finish_run: "TRANSACTION_COMPLETED \<in> Ev \<Longrightarrow> keeps (only_events Ev) (finish_run E)"
  unfolding finish_run_def
  by (auto intro!: keeps_intros events_upd_tx simp: same_wiring_def classify_def Let_def)

lemma events_interrupted: "TRANSACTION_COMPLETED \<in> Ev \<Longrightarrow> keeps (only_events Ev) (interrupted E e)"
  unfolding interrupted_def set_finished_if_none_def
  by (auto intro!: keeps_intros events_upd_tx simp: same_wiring_def)

lemma events_fail_validation:
  "TRANSACTION_COMPLETED \<in> Ev \<Longrightarrow> keeps (only_events Ev) (fail_validation E e)"
  unfolding fail_validation_def
  by (auto intro!: keeps_intros events_upd_tx simp: same_wiring_def)

lemma at_most_run_validated: "at_most order 1 (run_validated C E)"
proof -
  have quiet: "at_most order 0 (start_run E)" "at_most order 0 (finish_run E)"
    "at_most order 0 (interrupted E e)" for e
    by (auto intro!: at_most_none [of _ after_start] keeps_intros events_start_run events_finish_run
        events_interrupted simp: after_start_def)
  have "at_most order (0 + ((1 + 0) + 0)) (thn (start_run E)
      (thn (catch_exc (thn (execute_pass C E (initial_blocked_steps t)) (retry_loop C E))
                      (interrupted E)) (finish_run E)))" for t
    by (intro at_most_thn at_most_catch quiet at_most_execute_pass at_most_retry_loop) simp_all
  then show ?thesis unfolding run_validated_def by (intro at_most_get_tx) simp
qed

lemma engine_run_split:
  obtains m where "engine_run C E s = (Inl (ValueErr m), s)"
  | "engine_run C E s = run_transaction C E s"
  by (cases "emitter_init (env_sink E \<noteq> None) (env_fields E)")
    (cases "tx_id (es_tx s) = []";
      auto simp: engine_run_def bnd_def lift_res_def get_tx_def raise_exc_def emitter_init_def
        split: if_splits)+

lemma run_transaction_valid:
  "validate_for_execution (es_tx s) = Inr u \<Longrightarrow> run_transaction C E s = run_validated C E s"
proof -
  assume valid: "validate_for_execution (es_tx s) = Inr u"
  then have "u = es_tx s" by (simp add: validate_for_execution_iff)
  with valid show ?thesis by (simp add: run_transaction_def)
qed

lemma engine_run_starts:
  "int (count_list (started (es_tx s) (es_tx (snd (engine_run C E s)))) (Some order)) \<le>
     1 + (tx_retry_count (es_tx (snd (engine_run C E s))) - tx_retry_count (es_tx s))"
proof (rule engine_run_split [of C E s])
  assume run: "engine_run C E s = run_transaction C E s"
  show ?thesis
  proof (cases "validate_for_execution (es_tx s)")
    case (Inl e)
    have "keeps (only_events after_start) (fail_validation E e)"
      by (rule events_fail_validation) (simp add: after_start_def)
    from started_none [OF keeps_snd [OF this, of s]] show ?thesis
      using Inl keeps_snd [OF pass_fail_validation, of s E e]
      by (simp add: run run_transaction_def pass_frame_def after_start_def)
  next
    case (Inr u)
    then have "distinct (map st_order (tx_steps (es_tx s)))"
      by (auto simp: validate_for_execution_iff well_wired_def)
    from at_mostD [OF at_most_run_validated this surjective_pairing] show ?thesis
      using Inr by (simp add: run run_transaction_valid)
  qed
qed simp

section \<open>How a run ends\<close>

lemma publish_tx: "publish E i inc entry s = (r, t) \<Longrightarrow> es_tx t = es_tx s"
  by (auto simp: publish_def ret_def bnd_def get_tx_def lift_res_def call_world_def
      split: option.splits sum.splits prod.splits)

lemma checkpoint_tx: "checkpoint E s = (r, t) \<Longrightarrow> es_tx t = es_tx s"
  by (auto simp: checkpoint_def ret_def bnd_def thn_def get_tx_def lift_res_def call_world_def
      split: option.splits sum.splits prod.splits)

lemma emit_event_tx:
  assumes "emit_event E ev i inc s = (r, t)"
  shows "\<exists>entry. es_tx t = (es_tx s)\<lparr>tx_history := tx_history (es_tx s) @ [entry]\<rparr> \<and>
    he_event entry = ev \<and> he_status entry = tx_status (es_tx s) \<and>
    he_retry_number entry = tx_retry_count (es_tx s)"
proof -
  have "publish E i inc (fst (append_history (es_tx s) ev None None
        (map_option (\<lambda>k. tx_steps (es_tx s) ! k) i) None (env_clock E (es_tick s))))
      (s\<lparr>es_tick := Suc (es_tick s),
         es_tx := snd (append_history (es_tx s) ev None None
              (map_option (\<lambda>k. tx_steps (es_tx s) ! k) i) None (env_clock E (es_tick s)))\<rparr>) = (r, t)"
    using assms by (simp add: emit_event_def bnd_def record_history_simps)
  from publish_tx [OF this] show ?thesis
    by (auto simp: append_history_def Let_def)
qed

lemma last_failed_append:
  "he_event entry \<noteq> STEP_FAILED \<Longrightarrow> tx_steps t' = tx_steps t \<Longrightarrow>
   tx_history t' = tx_history t @ [entry] \<Longrightarrow> last_failed_exception t' = last_failed_exception t"
proof -
  assume t': "tx_steps t' = tx_steps t" "tx_history t' = tx_history t @ [entry]"
    and ev: "he_event entry \<noteq> STEP_FAILED"
  have "failure_of_entries t' es = failure_of_entries t es" for es
    by (induction es) (auto simp: step_at_def t' split: option.splits)
  then show ?thesis using ev t' by (simp add: last_failed_exception_def)
qed

text \<open>The classification a returned run carries.\<close>

definition classified :: "transaction \<Rightarrow> bool" where
  "classified t \<longleftrightarrow>
     (if \<forall>s \<in> set (tx_steps t). st_status s = SUCCESSFUL \<or> st_status s = SKIPPED
      then tx_status t = SUCCESSFUL \<and> tx_outcome t = OC_SUCCESSFUL \<and>
           tx_disposition t = RD_NOT_APPLICABLE \<and> tx_failure_code t = []
      else tx_status t = FAILED \<and>
        (case last_failed_exception t of
           None \<Rightarrow> tx_outcome t = OC_SYSTEM_FAILED \<and> tx_disposition t = RD_RETRY_EXHAUSTED \<and>
                   tx_failure_code t = []
         | Some e \<Rightarrow> tx_failure_code t = exc_code e \<and>
             (if is_business e
              then tx_outcome t = OC_BUSINESS_FAILED \<and> tx_disposition t = RD_NOT_REQUESTED
              else tx_outcome t = OC_SYSTEM_FAILED \<and> tx_disposition t = RD_RETRY_EXHAUSTED)))"

definition closed_by :: "transaction \<Rightarrow> bool" where
  "closed_by t \<longleftrightarrow> tx_finished_at t \<noteq> None \<and> tx_history t \<noteq> [] \<and>
     he_event (last (tx_history t)) = TRANSACTION_COMPLETED \<and>
     he_status (last (tx_history t)) = tx_status t"

lemma finish_run_classified:
  assumes "finish_run E s = (Inr x, t)"
  shows "classified (es_tx t) \<and> closed_by (es_tx t) \<and> tx_steps (es_tx t) = tx_steps (es_tx s) \<and>
    tx_retry_count (es_tx t) = tx_retry_count (es_tx s)"
proof -
  from assms obtain u v where
    emit: "emit_event E TRANSACTION_COMPLETED None True
      (s\<lparr>es_tick := Suc (es_tick s), es_tx := (classify (es_tx s))\<lparr>tx_finished_at :=
         Some (env_clock E (es_tick s))\<rparr>\<rparr>) = (u, v)"
    and ck: "checkpoint E v = (Inr x, t)"
    by (auto simp: finish_run_def thn_def bnd_Inr upd_tx_def upd_st_def read_outside_def)
  obtain entry where v: "es_tx v = (classify (es_tx s))\<lparr>tx_finished_at :=
      Some (env_clock E (es_tick s)), tx_history := tx_history (es_tx s) @ [entry]\<rparr>"
    and entry: "he_event entry = TRANSACTION_COMPLETED"
      "he_status entry = tx_status (classify (es_tx s))"
    using emit_event_tx [OF emit] by auto
  have t: "es_tx t = es_tx v" by (rule checkpoint_tx [OF ck])
  have "last_failed_exception (es_tx t) = last_failed_exception (es_tx s)"
    by (rule last_failed_append [of entry]) (simp_all add: t v entry)
  then show ?thesis
    by (auto simp: t v entry classified_def closed_by_def classify_def list_all_iff Let_def
        split: option.splits)
qed

lemma run_validated_Inr:
  assumes "run_validated C E s = (Inr x, t)"
  obtains u v w where "start_run E s = (Inr (), u)"
    "execute_pass C E (initial_blocked_steps (es_tx s)) u = (Inr (), v)"
    "retry_loop C E v = (Inr (), w)" "finish_run E w = (Inr x, t)"
proof -
  obtain u v where start: "start_run E s = (Inr (), u)"
    and body: "catch_exc (thn (execute_pass C E (initial_blocked_steps (es_tx s))) (retry_loop C E))
      (interrupted E) u = (Inr (), v)"
    and fin: "finish_run E v = (Inr x, t)"
    using assms by (auto simp: run_validated_def thn_def bnd_Inr get_tx_def)
  have "fst (interrupted E e u') \<noteq> Inr ()" for e u'
    by (auto simp: interrupted_def effect_defs split: prod.splits sum.splits)
  then have "thn (execute_pass C E (initial_blocked_steps (es_tx s))) (retry_loop C E) u = (Inr (), v)"
    using body by (auto simp: catch_exc_def split: prod.splits sum.splits) (metis fst_conv)
  with start fin that show thesis by (auto simp: thn_Inr)
qed

lemma engine_run_Inr:
  assumes "engine_run C E s = (Inr x, t)"
  obtains u v w where "start_run E s = (Inr (), u)"
    "execute_pass C E (initial_blocked_steps (es_tx s)) u = (Inr (), v)"
    "retry_loop C E v = (Inr (), w)" "finish_run E w = (Inr x, t)"
proof (rule engine_run_split [of C E s])
  assume run: "engine_run C E s = run_transaction C E s"
  show thesis
  proof (cases "validate_for_execution (es_tx s)")
    case (Inl e)
    have "fst (fail_validation E e s) \<noteq> Inr x"
      by (auto simp: fail_validation_def effect_defs split: prod.splits sum.splits)
    with Inl assms run show thesis by (simp add: run_transaction_def)
  next
    case (Inr u)
    with assms run that show thesis by (auto simp: run_transaction_valid elim: run_validated_Inr)
  qed
qed (use assms in simp)

end
