(* ===== verification/EngineRuns.thy ===== *)
theory EngineRuns
  imports EngineProps
begin

text \<open>
  What a run does to the world outside: the transitions it hands to the sink and the time it sleeps;
  and how a \<open>MemoryError\<close> closes it. A relation that the primitive operations of the engine keep is
  kept by a whole run; the locale \<open>engine_relation\<close> proves this once.
\<close>

section \<open>Relations kept by a run\<close>

definition count_retry :: "engine \<Rightarrow> ('w est, pyexc, unit) effect" where
  "count_retry C = thn (bnd get_tx (\<lambda>t. sleep_before_retry C (tx_retry_count t)))
     (upd_tx (\<lambda>t. t\<lparr>tx_retry_count := tx_retry_count t + 1\<rparr>))"

locale engine_relation = step_relation R
  for R :: "'w est \<Rightarrow> 'w est \<Rightarrow> bool" and E :: "'w env" and C :: engine +
  assumes R_upd: "\<And>f. (\<And>t. same_wiring t (f t)) \<Longrightarrow> (\<And>t. tx_history (f t) = tx_history t) \<Longrightarrow>
      (\<And>t. tx_retry_count (f t) = tx_retry_count t) \<Longrightarrow> keeps R (upd_tx f)"
    and R_read: "\<And>g. keeps R (read_outside g :: ('w est, pyexc, datetime) effect)"
    and R_uuid: "\<And>g. keeps R (read_outside g :: ('w est, pyexc, string) effect)"
    and R_shot: "\<And>g. keeps R (read_outside g :: ('w est, pyexc, pyexc + string) effect)"
    and R_emit: "\<And>ev i inc. keeps R (emit_event E ev i inc)"
    and R_checkpoint: "keeps R (checkpoint E)"
    and R_execute: "\<And>i. keeps R (call_execute E i)"
    and R_count: "keeps R (count_retry C)"
begin

lemma R_get_tx: "keeps R get_tx"
  by (simp add: keeps_def get_tx_def R_refl)

lemmas basics = R_get_tx R_read R_uuid R_shot R_emit R_checkpoint R_execute R_count
  keeps_ret keeps_raise keeps_lift keeps_bnd keeps_thn keeps_catch

lemma R_set_status: "keeps R (set_status i x)"
  unfolding set_status_def by (rule R_upd) (auto intro: set_step_wiring)

lemma R_attach: "keeps R (attach_screenshot C E i)"
  unfolding attach_screenshot_def register_screenshot_artifact_def
  by (auto intro!: basics R_upd set_step_wiring simp: same_wiring_def)

lemma R_record_failure: "keeps R (record_failure C E i x)"
  unfolding record_failure_def by (auto intro!: basics R_upd R_attach set_step_wiring)

lemma R_skip_after: "keeps R (skip_pending_after E f b js)"
proof (induction js arbitrary: b)
  case (Cons j js)
  then show ?case by (cases "j = f") (auto intro!: basics R_set_status)
qed (auto intro: basics)

lemma R_handle_outcome: "keeps R (handle_outcome C E i r)"
  unfolding handle_outcome_def skip_downstream_pending_steps_def unexpected_exception_def
  by (auto intro!: basics R_set_status R_record_failure R_skip_after split: option.splits pyexc.splits)

lemma R_pass_step: "keeps R (pass_step C E b i)"
  unfolding pass_step_def by (auto intro!: basics R_set_status R_handle_outcome)

lemma R_pass_loop: "keeps R (pass_loop C E b is)"
  by (induction "is") (auto intro!: basics R_pass_step)

lemma R_execute_pass: "keeps R (execute_pass C E b)"
  unfolding execute_pass_def by (intro basics R_pass_loop)

lemma retry_pass_alt:
  "retry_pass C E js = thn (upd_tx (reset_steps js)) (thn (count_retry C)
     (thn (emit_event E RETRY_SCHEDULED None True)
     (thn (bnd get_tx (\<lambda>t. execute_pass C E (Some (business_failed_steps t)))) (checkpoint E))))"
  by (simp add: retry_pass_def count_retry_def thn_def bnd_assoc)

lemma R_retry_pass: "keeps R (retry_pass C E js)"
  unfolding retry_pass_alt
  by (auto intro!: basics R_upd R_execute_pass reset_steps_wiring)

lemma R_retry_loop: "R s (snd (retry_loop C E s))"
proof (induction "nat (eng_max_retries C - tx_retry_count (es_tx s))" arbitrary: s rule: less_induct)
  case less
  let ?js = "retryable_failed_steps (es_tx s)"
  show ?case
  proof (cases "tx_retry_count (es_tx s) < eng_max_retries C \<and> ?js \<noteq> []")
    case False
    then show ?thesis by (auto simp: retry_loop.simps [of C E s] Let_def R_refl)
  next
    case True
    obtain q u where q: "retry_pass C E ?js s = (q, u)" by (cases "retry_pass C E ?js s")
    have su: "R s u" by (rule keepsD [OF R_retry_pass q])
    have "nat (eng_max_retries C - tx_retry_count (es_tx u)) <
        nat (eng_max_retries C - tx_retry_count (es_tx s))"
      using retry_pass_count [OF q] True by linarith
    from R_trans [OF su less [OF this]] su True q show ?thesis
      by (cases q) (auto simp: retry_loop.simps [of C E s] Let_def)
  qed
qed

lemma R_start_run: "keeps R (start_run E)"
  unfolding start_run_def set_started_at_def
  by (auto intro!: basics R_upd simp: same_wiring_def reset_skipped_steps_def)

lemma R_finish_run: "keeps R (finish_run E)"
  unfolding finish_run_def
  by (auto intro!: basics R_upd simp: same_wiring_def classify_def Let_def)

lemma R_interrupted: "keeps R (interrupted E e)"
  unfolding interrupted_def set_finished_if_none_def
  by (auto intro!: basics R_upd simp: same_wiring_def)

lemma R_fail_validation: "keeps R (fail_validation E e)"
  unfolding fail_validation_def
  by (auto intro!: basics R_upd simp: same_wiring_def)

lemma R_run_validated: "keeps R (run_validated C E)"
  unfolding run_validated_def
  by (intro basics R_start_run R_execute_pass R_interrupted R_finish_run keepsI) (rule R_retry_loop)

lemma R_engine_run: "R s (snd (engine_run C E s))"
proof (rule engine_run_split [of C E s])
  assume run: "engine_run C E s = run_transaction C E s"
  show ?thesis
  proof (cases "validate_for_execution (es_tx s)")
    case (Inl e)
    then show ?thesis using keeps_snd [OF R_fail_validation] by (simp add: run run_transaction_def)
  next
    case (Inr u)
    then show ?thesis using keeps_snd [OF R_run_validated] by (simp add: run run_transaction_valid)
  qed
qed (simp add: R_refl)

end

text \<open>A returned run ended with a checkpoint of the transaction as it is returned.\<close>

context engine_relation
begin

lemma last_checkpoint:
  assumes "engine_run C E s = (Inr (), t)"
  shows "\<exists>z. R s z \<and> checkpoint E z = (Inr (), t)"
  using assms
proof (rule engine_run_Inr)
  fix u v w
  assume run: "start_run E s = (Inr (), u)" "execute_pass C E (initial_blocked_steps (es_tx s)) u = (Inr (), v)"
    "retry_loop C E v = (Inr (), w)" "finish_run E w = (Inr (), t)"
  have "R v w" using R_retry_loop [of v] run(3) by (metis snd_conv)
  then have sw: "R s w"
    using keepsD [OF R_start_run run(1)] keepsD [OF R_execute_pass run(2)] R_trans by blast
  let ?emit = "thn (upd_tx classify)
    (bnd (read_outside (env_clock E)) (\<lambda>now.
     thn (upd_tx (\<lambda>t. t\<lparr>tx_finished_at := Some now\<rparr>)) (emit_event E TRANSACTION_COMPLETED None True)))"
  have "thn ?emit (checkpoint E) w = (Inr (), t)"
    using run(4) by (simp add: finish_run_def thn_def bnd_assoc)
  then obtain z where z: "?emit w = (Inr (), z)" "checkpoint E z = (Inr (), t)" by (auto simp: thn_Inr)
  have "keeps R ?emit"
    by (intro basics R_upd) (auto simp: same_wiring_def classify_def Let_def)
  from keepsD [OF this z(1)] sw z(2) show ?thesis using R_trans by blast
qed

end

lemma checkpoint_saves:
  assumes "checkpoint X s = (Inr (), t)" "env_checkpoint X = Some save"
  shows "save (es_world s) (es_tx t) = (Inr (), es_world t)"
  using assms by (auto simp: checkpoint_def bnd_Inr thn_Inr get_tx_def lift_res_def call_world_def split: prod.splits)

section \<open>Relations of the world\<close>

text \<open>A relation that the sink and the checkpoint keep is kept on the world of a run.\<close>

locale world_relation = step_relation R
  for R :: "'w \<Rightarrow> 'w \<Rightarrow> bool" and E :: "'w env" +
  assumes R_sink: "env_sink E = Some sink \<Longrightarrow> R w (snd (sink w tr))"
    and R_save: "env_checkpoint E = Some save \<Longrightarrow> R w (snd (save w t))"

sublocale world_relation \<subseteq> world: step_relation "\<lambda>s t :: 'w est. R (es_world s) (es_world t)"
  by unfold_locales (auto intro: R_refl R_trans)

context world_relation
begin

lemma same_world:
  "(\<And>s. es_world (snd (m s)) = es_world s) \<Longrightarrow> keeps (\<lambda>s t. R (es_world s) (es_world t)) m"
  by (simp add: keeps_def R_refl)

lemma R_world: "(\<And>w. R w (snd (f w))) \<Longrightarrow> keeps (\<lambda>s t. R (es_world s) (es_world t)) (call_world f)"
  by (rule keepsI) (auto simp: call_world_def split: prod.splits, metis snd_conv)

lemma R_get_tx: "keeps (\<lambda>s t. R (es_world s) (es_world t)) (get_tx :: ('w est, pyexc, transaction) effect)"
  by (rule same_world) (simp add: get_tx_def)

lemma R_emit: "keeps (\<lambda>s t. R (es_world s) (es_world t)) (emit_event E ev i inc)"
proof -
  have "keeps (\<lambda>s t. R (es_world s) (es_world t)) (record_history E ev i)"
    by (rule same_world) (simp add: record_history_def bnd_def read_outside_def append_history_def Let_def)
  then show ?thesis
    by (auto simp: emit_event_def publish_def intro!: world.keeps_bnd world.keeps_ret world.keeps_lift
        R_world R_sink R_get_tx split: option.splits)
qed

lemma R_checkpoint: "keeps (\<lambda>s t. R (es_world s) (es_world t)) (checkpoint E)"
  by (auto simp: checkpoint_def intro!: world.keeps_ret world.keeps_bnd world.keeps_thn world.keeps_lift
      R_world R_save R_get_tx split: option.splits)

end

sublocale world_relation \<subseteq> run: engine_relation "\<lambda>s t. R (es_world s) (es_world t)" E C for C :: engine
proof unfold_locales
  show "keeps (\<lambda>s t. R (es_world s) (es_world t)) (upd_tx f :: ('w est, pyexc, unit) effect)" for f
    by (rule same_world) (simp add: upd_tx_def upd_st_def)
  show "keeps (\<lambda>s t. R (es_world s) (es_world t)) (read_outside g :: ('w est, pyexc, datetime) effect)" for g
    by (rule same_world) (simp add: read_outside_def)
  show "keeps (\<lambda>s t. R (es_world s) (es_world t)) (read_outside g :: ('w est, pyexc, string) effect)" for g
    by (rule same_world) (simp add: read_outside_def)
  show "keeps (\<lambda>s t. R (es_world s) (es_world t)) (read_outside g :: ('w est, pyexc, pyexc + string) effect)" for g
    by (rule same_world) (simp add: read_outside_def)
  show "keeps (\<lambda>s t. R (es_world s) (es_world t)) (call_execute E i)" for i
    by (rule same_world) (simp add: call_execute_def Let_def)
  show "keeps (\<lambda>s t. R (es_world s) (es_world t)) (count_retry C :: ('w est, pyexc, unit) effect)"
    by (rule same_world)
      (simp add: count_retry_def sleep_before_retry_def upd_tx_def upd_st_def get_tx_def bnd_def thn_def ret_def)
qed (rule R_emit, rule R_checkpoint)

section \<open>Backoff between passes\<close>

text \<open>The pauses made while the retry counter goes from \<open>m\<close> to \<open>n\<close>.\<close>

definition pauses :: "engine \<Rightarrow> int \<Rightarrow> int \<Rightarrow> rat list" where
  "pauses C m n = (if eng_retry_delay C = 0 then []
     else map (\<lambda>k. eng_retry_delay C * eng_retry_backoff C ^ nat k) [m..n - 1])"

definition slept_for :: "engine \<Rightarrow> 'w est \<Rightarrow> 'w est \<Rightarrow> bool" where
  "slept_for C s t \<longleftrightarrow> tx_retry_count (es_tx s) \<le> tx_retry_count (es_tx t) \<and>
     es_slept t = es_slept s @ pauses C (tx_retry_count (es_tx s)) (tx_retry_count (es_tx t))"

lemma upto_append: "m \<le> n \<Longrightarrow> n \<le> k \<Longrightarrow> [m..k - 1] = [m..n - 1] @ [n..k - 1]"
  using upto_split1 [of m n "k - 1"] by (cases "n = k") auto

lemma pauses_append: "m \<le> n \<Longrightarrow> n \<le> k \<Longrightarrow> pauses C m k = pauses C m n @ pauses C n k"
  using upto_append [of m n k] by (simp add: pauses_def)

lemma pauses_simps [simp]: "pauses C n n = []"
  "pauses C n (n + 1) =
     (if eng_retry_delay C = 0 then [] else [eng_retry_delay C * eng_retry_backoff C ^ nat n])"
  by (simp_all add: pauses_def)

lemma slept_same: "es_slept t = es_slept s \<Longrightarrow>
  tx_retry_count (es_tx t) = tx_retry_count (es_tx s) \<Longrightarrow> slept_for C s t"
  by (simp add: slept_for_def)

lemma emit_event_rest: "es_slept (snd (emit_event E ev i inc s)) = es_slept s \<and>
  tx_retry_count (es_tx (snd (emit_event E ev i inc s))) = tx_retry_count (es_tx s)"
  using keeps_snd [OF pass_emit_event, of s E ev i inc]
  by (auto simp: pass_frame_def)
    (auto simp: emit_event_def bnd_def record_history_simps publish_def ret_def get_tx_def
      lift_res_def call_world_def split: option.splits sum.splits prod.splits)

lemma checkpoint_rest: "es_slept (snd (checkpoint E s)) = es_slept s"
  by (auto simp: checkpoint_def thn_def bnd_def ret_def get_tx_def lift_res_def call_world_def
      split: option.splits sum.splits prod.splits)

interpretation slept: engine_relation "slept_for C" E C
proof unfold_locales
  show "slept_for C s u" if "slept_for C s t" "slept_for C t u" for s t u
    using that pauses_append [of "tx_retry_count (es_tx s)" "tx_retry_count (es_tx t)"
        "tx_retry_count (es_tx u)" C] by (simp add: slept_for_def)
  show "keeps (slept_for C) (upd_tx f)"
    if "\<And>t. same_wiring t (f t)" "\<And>t. tx_history (f t) = tx_history t"
      "\<And>t. tx_retry_count (f t) = tx_retry_count t" for f
    by (rule keepsI) (simp add: upd_tx_def upd_st_def slept_same that)
  show "keeps (slept_for C) (emit_event E ev i inc)" for ev i inc
    by (rule keepsI) (auto intro: slept_same simp: emit_event_rest)
  show "keeps (slept_for C) (checkpoint E)"
  proof (rule keepsI)
    fix s :: "'a est"
    have "es_tx (snd (checkpoint E s)) = es_tx s" by (rule checkpoint_tx [OF surjective_pairing])
    then show "slept_for C s (snd (checkpoint E s))" by (simp add: slept_same checkpoint_rest)
  qed
  show "keeps (slept_for C) (count_retry C)"
    by (rule keepsI) (auto simp: count_retry_def thn_def bnd_def get_tx_def sleep_before_retry_def
        ret_def upd_tx_def upd_st_def slept_for_def)
qed (auto intro!: keepsI slept_same simp: read_outside_def call_execute_def Let_def)

section \<open>The transitions handed to the sink\<close>

text \<open>
  A sink that keeps what it is given: the world is the list of transitions, and the checkpoint
  callback leaves it alone.
\<close>

definition collecting_sink :: "transition list \<Rightarrow> transition \<Rightarrow> (pyexc + unit) \<times> transition list" where
  "collecting_sink w tr = (Inr (), w @ [tr])"

definition collecting :: "transition list env \<Rightarrow> bool" where
  "collecting E \<longleftrightarrow> env_sink E = Some collecting_sink \<and>
     (case env_checkpoint E of None \<Rightarrow> True | Some save \<Rightarrow> \<forall>w t. snd (save w t) = w)"

text \<open>A transition repeats the history entry it announces, and shows only the selected fields.\<close>

definition announces :: "transition \<Rightarrow> history_entry \<Rightarrow> bool" where
  "announces tr h \<longleftrightarrow> tr_sequence tr = he_sequence h \<and> tr_event tr = event_value (he_event h) \<and>
     tr_execution_pass tr = he_retry_number h \<and> tr_step_name tr = he_step_name h \<and>
     tr_step_order tr = he_step_order h \<and> tr_transaction_status tr = status_value (he_status h) \<and>
     tr_occurred_at tr = isoformat (he_timestamp h)"

definition discloses :: "string list \<Rightarrow> transition \<Rightarrow> bool" where
  "discloses names tr \<longleftrightarrow> (case tr_checkpoint_json tr of
     PDict kvs \<Rightarrow> fst ` set kvs \<subseteq> PStr ` set names | _ \<Rightarrow> False)"

text \<open>
  \<open>mirrored\<close>: the new transitions announce, in order, new history entries of the transaction; every
  one when no state field was selected, since building a transition then cannot fail.
\<close>

definition mirrored :: "string list \<Rightarrow> transition list est \<Rightarrow> transition list est \<Rightarrow> bool" where
  "mirrored names s t \<longleftrightarrow> tx_extends (es_tx s) (es_tx t) \<and>
     (\<exists>trs es. es_world t = es_world s @ trs \<and> subseq es (new_history (es_tx s) (es_tx t)) \<and>
        (names = [] \<longrightarrow> es = new_history (es_tx s) (es_tx t)) \<and>
        list_all2 announces trs es \<and> list_all (discloses names) trs)"

lemma mirrored_same:
  "tx_extends (es_tx s) (es_tx t) \<Longrightarrow> tx_history (es_tx t) = tx_history (es_tx s) \<Longrightarrow>
   es_world t = es_world s \<Longrightarrow> mirrored names s t"
  by (auto simp: mirrored_def new_history_def)

lemma mirrored_trans:
  assumes "mirrored names s t" "mirrored names t u"
  shows "mirrored names s u"
proof -
  from assms(1) obtain a es where a: "tx_extends (es_tx s) (es_tx t)" "es_world t = es_world s @ a"
    "subseq es (new_history (es_tx s) (es_tx t))" "names = [] \<longrightarrow> es = new_history (es_tx s) (es_tx t)"
    "list_all2 announces a es" "list_all (discloses names) a" by (auto simp: mirrored_def)
  from assms(2) obtain b fs where b: "tx_extends (es_tx t) (es_tx u)" "es_world u = es_world t @ b"
    "subseq fs (new_history (es_tx t) (es_tx u))" "names = [] \<longrightarrow> fs = new_history (es_tx t) (es_tx u)"
    "list_all2 announces b fs" "list_all (discloses names) b" by (auto simp: mirrored_def)
  have new: "new_history (es_tx s) (es_tx u) =
      new_history (es_tx s) (es_tx t) @ new_history (es_tx t) (es_tx u)"
    by (rule new_history_trans [OF a(1) b(1)])
  have "es_world u = es_world s @ (a @ b)" using a b by simp
  moreover have "subseq (es @ fs) (new_history (es_tx s) (es_tx u))"
    unfolding new using a(3) b(3) by (rule list_emb_append_mono)
  moreover have "list_all2 announces (a @ b) (es @ fs)" using a(5) b(5) by (rule list_all2_appendI)
  moreover have "list_all (discloses names) (a @ b)" using a(6) b(6) by simp
  moreover have "names = [] \<longrightarrow> es @ fs = new_history (es_tx s) (es_tx u)" using a(4) b(4) new by simp
  ultimately show ?thesis
    unfolding mirrored_def using tx_extends_trans [OF a(1) b(1)] by blast
qed

lemma canonical_keys:
  "\<exists>kvs. canonical (of_dict d) = PDict kvs \<and> fst ` set kvs = PStr ` fst ` set d"
  by (force simp: of_dict_def image_iff)

lemma build_transition_facts:
  assumes "build_transition names t entry st inc = Inr tr" "he_status entry = tx_status t"
  shows "announces tr entry \<and> discloses names tr"
proof -
  have "fst ` set (if inc then selected_state names (tx_state t) else []) \<subseteq> set names"
    using set_selected_state [of _ _ names "tx_state t"] by auto
  moreover obtain kvs where "tr_checkpoint_json tr = PDict kvs"
    "fst ` set kvs = PStr ` fst ` set (if inc then selected_state names (tx_state t) else [])"
    using build_transition_checkpoint [OF assms(1)] canonical_keys by metis
  ultimately have "discloses names tr" by (auto simp: discloses_def)
  moreover have "announces tr entry"
    using assms by (auto simp: announces_def build_transition_def execution_transition_Inr)
  ultimately show ?thesis by simp
qed

lemma build_transition_empty:
  "\<exists>tr. build_transition [] t entry st inc = Inr tr"
proof -
  have "of_dict (if inc then selected_state [] (tx_state t) else []) = PDict []"
    by (simp add: of_dict_def selected_state_def)
  then show ?thesis
    by (simp add: build_transition_def execution_transition_def validate_json_object_def
        validate_json_safe_def execution_transition_schema_version_def)
qed

lemma mirrored_emit:
  assumes "collecting E"
  shows "keeps (mirrored (env_fields E)) (emit_event E ev i inc)"
proof (rule keepsI)
  fix s :: "transition list est"
  let ?r = "append_history (es_tx s) ev None None (map_option (\<lambda>k. tx_steps (es_tx s) ! k) i) None
    (env_clock E (es_tick s))"
  let ?b = "build_transition (env_fields E) (snd ?r) (fst ?r)
    (map_option (\<lambda>k. tx_steps (snd ?r) ! k) i) inc"
  have tx: "tx_extends (es_tx s) (snd ?r)"
    using pass_extends [OF pass_record_history, of s E ev i] by (simp add: record_history_simps)
  have status: "he_status (fst ?r) = tx_status (snd ?r)" by (simp add: append_history_def Let_def)
  have new: "new_history (es_tx s) (snd ?r) = [fst ?r]" by (simp add: new_history_def)
  have run: "emit_event E ev i inc s = (case ?b of
      Inl e \<Rightarrow> (Inl e, s\<lparr>es_tick := Suc (es_tick s), es_tx := snd ?r\<rparr>)
    | Inr tr \<Rightarrow> (Inr (), s\<lparr>es_tick := Suc (es_tick s), es_tx := snd ?r,
                     es_world := es_world s @ [tr]\<rparr>))"
    using assms by (auto simp: emit_event_def bnd_def record_history_simps publish_def get_tx_def
        lift_res_def call_world_def collecting_def collecting_sink_def split: sum.splits)
  show "mirrored (env_fields E) s (snd (emit_event E ev i inc s))"
  proof (cases ?b)
    case (Inl e)
    then have "env_fields E \<noteq> []" using build_transition_empty by (metis sum.distinct(1))
    with Inl run tx show ?thesis by (auto simp: mirrored_def)
  next
    case (Inr tr)
    with run tx new build_transition_facts [OF Inr status] show ?thesis
      by (auto simp: mirrored_def intro!: exI [of _ "[tr]"] exI [of _ "[fst ?r]"])
  qed
qed

lemma mirrored_checkpoint: "collecting E \<Longrightarrow> keeps (mirrored (env_fields E)) (checkpoint E)"
proof (rule keepsI)
  fix s :: "transition list est"
  assume "collecting E"
  then have "es_world (snd (checkpoint E s)) = es_world s"
    by (auto simp: collecting_def checkpoint_def thn_def bnd_def ret_def get_tx_def lift_res_def
        call_world_def split: option.splits sum.splits prod.splits) (metis snd_conv)
  moreover have "es_tx (snd (checkpoint E s)) = es_tx s" by (rule checkpoint_tx [OF surjective_pairing])
  ultimately show "mirrored (env_fields E) s (snd (checkpoint E s))" by (simp add: mirrored_same)
qed

definition mirrored_by :: "transition list env \<Rightarrow> transition list est \<Rightarrow> transition list est \<Rightarrow> bool" where
  "mirrored_by E s t \<longleftrightarrow> (collecting E \<longrightarrow> mirrored (env_fields E) s t)"

lemma mirrored_by_same:
  "same_wiring (es_tx s) (es_tx t) \<Longrightarrow> tx_history (es_tx t) = tx_history (es_tx s) \<Longrightarrow>
   es_world t = es_world s \<Longrightarrow> mirrored_by E s t"
  by (simp add: mirrored_by_def mirrored_same tx_extends_same_history)

interpretation mirrored: engine_relation "mirrored_by E" E C
proof unfold_locales
  show "mirrored_by E s s" for s by (simp add: mirrored_by_same)
  show "mirrored_by E s u" if "mirrored_by E s t" "mirrored_by E t u" for s t u
    using that mirrored_trans by (auto simp: mirrored_by_def)
  show "keeps (mirrored_by E) (emit_event E ev i inc)" for ev i inc
    using mirrored_emit by (auto simp: keeps_def mirrored_by_def)
  show "keeps (mirrored_by E) (checkpoint E)"
    using mirrored_checkpoint by (auto simp: keeps_def mirrored_by_def)
  show "keeps (mirrored_by E) (call_execute E i)" for i
  proof (rule keepsI)
    fix s :: "transition list est"
    have "same_wiring (es_tx s) (es_tx (snd (call_execute E i s)))"
      using pass_extends [OF pass_call_execute, of s E i] by (simp add: tx_extends_def)
    then show "mirrored_by E s (snd (call_execute E i s))"
      by (rule mirrored_by_same) (simp_all add: call_execute_def Let_def)
  qed
qed (auto intro!: keepsI mirrored_by_same simp: read_outside_def upd_tx_def upd_st_def
    count_retry_def thn_def bnd_def get_tx_def sleep_before_retry_def ret_def same_wiring_def)

section \<open>MemoryError\<close>

text \<open>
  The callbacks of a run that never raise \<open>MemoryError\<close> themselves; then a run that raises it was
  interrupted inside a pass.
\<close>

definition no_memory :: "('s, pyexc, 'a) effect \<Rightarrow> bool" where
  "no_memory m \<longleftrightarrow> (\<forall>s. fst (m s) \<noteq> Inl MemoryErr)"

definition calm_callbacks :: "'w env \<Rightarrow> bool" where
  "calm_callbacks E \<longleftrightarrow>
     (\<forall>save w t. env_checkpoint E = Some save \<longrightarrow> fst (save w t) \<noteq> Inl MemoryErr) \<and>
     (\<forall>sink w tr. env_sink E = Some sink \<longrightarrow> fst (sink w tr) \<noteq> Inl MemoryErr)"

lemma no_memory_bnd: "no_memory m \<Longrightarrow> (\<And>x. no_memory (f x)) \<Longrightarrow> no_memory (bnd m f)"
  by (auto simp: no_memory_def bnd_def split: prod.splits sum.splits) (metis fst_conv)+

lemma no_memory_thn: "no_memory m \<Longrightarrow> no_memory n \<Longrightarrow> no_memory (thn m n)"
  by (simp add: thn_def no_memory_bnd)

lemma no_memory_basic: "no_memory (ret x)" "no_memory (upd_tx f)" "no_memory get_tx"
  "no_memory (read_outside g)" "no_memory (record_history E ev i)"
  by (auto simp: no_memory_def ret_def upd_tx_def upd_st_def get_tx_def read_outside_def
      record_history_simps)

lemma validate_no_memory: "validate_json_object v \<noteq> Inl MemoryErr"
  by (auto simp: validate_json_object_def validate_json_safe_def split: pyval.splits)

lemma no_memory_publish: "calm_callbacks E \<Longrightarrow> no_memory (publish E i inc entry)"
  using validate_no_memory
  by (auto simp: publish_def no_memory_def ret_def bnd_def get_tx_def lift_res_def call_world_def
      calm_callbacks_def build_transition_def execution_transition_def
      split: option.splits sum.splits prod.splits if_splits) (metis fst_conv)+

lemma no_memory_emit: "calm_callbacks E \<Longrightarrow> no_memory (emit_event E ev i inc)"
  unfolding emit_event_def by (intro no_memory_bnd no_memory_basic no_memory_publish)

lemma no_memory_checkpoint: "calm_callbacks E \<Longrightarrow> no_memory (checkpoint E)"
  using validate_no_memory
  by (auto simp: checkpoint_def no_memory_def ret_def bnd_def thn_def get_tx_def lift_res_def
      call_world_def calm_callbacks_def split: option.splits sum.splits prod.splits)
    (metis fst_conv)+

lemma no_memory_start: "calm_callbacks E \<Longrightarrow> no_memory (start_run E)"
  unfolding start_run_def set_started_at_def
  by (auto intro!: no_memory_bnd no_memory_thn no_memory_basic no_memory_emit no_memory_checkpoint)

lemma no_memory_finish: "calm_callbacks E \<Longrightarrow> no_memory (finish_run E)"
  unfolding finish_run_def
  by (auto intro!: no_memory_bnd no_memory_thn no_memory_basic no_memory_emit no_memory_checkpoint)

definition closed_interrupted :: "transaction \<Rightarrow> bool" where
  "closed_interrupted t \<longleftrightarrow> closed_by t \<and> tx_status t = FAILED \<and> tx_outcome t = OC_INTERRUPTED \<and>
     tx_disposition t = RD_UNKNOWN \<and> tx_failure_code t = []"

lemma set_finished_if_none_run:
  "\<exists>tick stamp. stamp \<noteq> None \<and> set_finished_if_none E s =
     (Inr (), s\<lparr>es_tick := tick, es_tx := (es_tx s)\<lparr>tx_finished_at := stamp\<rparr>\<rparr>)"
proof (cases "tx_finished_at (es_tx s)")
  case None
  then show ?thesis
    by (auto simp: set_finished_if_none_def bnd_def get_tx_def read_outside_def upd_tx_def upd_st_def)
next
  case (Some x)
  then have "set_finished_if_none E s = (Inr (), s\<lparr>es_tick := es_tick s, es_tx := (es_tx s)\<lparr>tx_finished_at := Some x\<rparr>\<rparr>)"
    by (auto simp: set_finished_if_none_def bnd_def get_tx_def ret_def)
  then show ?thesis by blast
qed

lemma interrupted_closes:
  assumes E: "calm_callbacks E" and run: "interrupted E e s = (Inl MemoryErr, t)"
  shows "closed_interrupted (es_tx t)"
proof -
  have e: "e = MemoryErr" using run by (auto simp: interrupted_def raise_exc_def split: if_splits)
  obtain tick stamp where fin: "stamp \<noteq> None" "set_finished_if_none E
      (s\<lparr>es_tx := (es_tx s)\<lparr>tx_status := FAILED, tx_outcome := OC_INTERRUPTED,
         tx_disposition := RD_UNKNOWN, tx_failure_code := []\<rparr>\<rparr>) =
      (Inr (), s\<lparr>es_tick := tick, es_tx := (es_tx s)\<lparr>tx_status := FAILED, tx_outcome := OC_INTERRUPTED,
         tx_disposition := RD_UNKNOWN, tx_failure_code := [], tx_finished_at := stamp\<rparr>\<rparr>)"
    (is "_ = (_, ?u)")
    using set_finished_if_none_run [of E "s\<lparr>es_tx := (es_tx s)\<lparr>tx_status := FAILED,
       tx_outcome := OC_INTERRUPTED, tx_disposition := RD_UNKNOWN, tx_failure_code := []\<rparr>\<rparr>"]
    by auto
  obtain r v where emit: "emit_event E TRANSACTION_COMPLETED None True ?u = (r, v)"
    by (cases "emit_event E TRANSACTION_COMPLETED None True ?u")
  have r: "r \<noteq> Inl MemoryErr" using no_memory_emit [OF E] emit by (metis no_memory_def fst_conv)
  obtain entry where v: "es_tx v = (es_tx ?u)\<lparr>tx_history := tx_history (es_tx ?u) @ [entry]\<rparr>"
    "he_event entry = TRANSACTION_COMPLETED" "he_status entry = FAILED"
    using emit_event_tx [OF emit] by auto
  let ?save = "catch_exc (checkpoint E)
    (\<lambda>e'. if e' = MemoryErr \<or> \<not> is_exception e' then raise_exc e' else ret ())"
  have "interrupted E e s =
      thn (emit_event E TRANSACTION_COMPLETED None True) (thn ?save (raise_exc MemoryErr)) ?u"
    using e fin(2) by (simp add: interrupted_def thn_def bnd_def upd_tx_def upd_st_def)
  with run emit r have rest: "thn ?save (raise_exc MemoryErr) v = (Inl MemoryErr :: pyexc + unit, t)"
    by (cases r) (simp_all add: thn_def bnd_def)
  obtain q w where save: "checkpoint E v = (q, w)" by (cases "checkpoint E v")
  have "es_tx w = es_tx v" by (rule checkpoint_tx [OF save])
  moreover have "t = w"
    using rest save by (cases q) (auto simp: thn_def bnd_def catch_exc_def raise_exc_def ret_def split: if_splits)
  ultimately have t: "es_tx t = es_tx v" by simp
  show ?thesis using fin(1) by (auto simp: closed_interrupted_def closed_by_def t v)
qed

lemma memory_error_closes:
  assumes E: "calm_callbacks E" and valid: "validate_for_execution (es_tx s) = Inr u"
    and run: "engine_run C E s = (Inl MemoryErr, t)"
  shows "closed_interrupted (es_tx t)"
proof (rule engine_run_split [of C E s])
  fix m assume "engine_run C E s = (Inl (ValueErr m), s)"
  with run show ?thesis by simp
next
  assume "engine_run C E s = run_transaction C E s"
  then have run: "run_validated C E s = (Inl MemoryErr, t)"
    using run run_transaction_valid [OF valid] by simp
  let ?body = "thn (execute_pass C E (initial_blocked_steps (es_tx s))) (retry_loop C E)"
  from run obtain v where "catch_exc ?body (interrupted E) v = (Inl MemoryErr, t)"
    using no_memory_start [OF E] no_memory_finish [OF E]
    by (auto simp: run_validated_def bnd_def get_tx_def thn_Inl no_memory_def dest: arg_cong [of _ _ fst])
  then obtain e w where "interrupted E e w = (Inl MemoryErr, t)"
    by (auto simp: catch_exc_def split: prod.splits sum.splits)
  then show ?thesis by (rule interrupted_closes [OF E])
qed

section \<open>Validation failures\<close>

lemma fail_validation_run:
  assumes e: "is_execution_validation_error e" and run: "fail_validation E e s = (r, t)"
  shows "(\<exists>entry now. es_tx t = (es_tx s)\<lparr>tx_status := FAILED, tx_outcome := OC_VALIDATION_FAILED,
      tx_disposition := RD_NOT_REQUESTED, tx_failure_code := ''rpacore.validation.execution'',
      tx_finished_at := Some now, tx_history := tx_history (es_tx s) @ [entry]\<rparr> \<and>
      he_event entry = TRANSACTION_COMPLETED \<and> he_status entry = FAILED) \<and>
    (env_sink E = None \<longrightarrow> r = Inl e)"
proof -
  let ?u = "s\<lparr>es_tick := Suc (es_tick s), es_tx := (es_tx s)\<lparr>tx_status := FAILED,
      tx_outcome := OC_VALIDATION_FAILED, tx_disposition := RD_NOT_REQUESTED,
      tx_failure_code := ''rpacore.validation.execution'',
      tx_finished_at := Some (env_clock E (es_tick s))\<rparr>\<rparr>"
  obtain q v where emit: "emit_event E TRANSACTION_COMPLETED None False ?u = (q, v)"
    by (cases "emit_event E TRANSACTION_COMPLETED None False ?u")
  have "fail_validation E e s =
      thn (emit_event E TRANSACTION_COMPLETED None False) (raise_exc e) ?u"
    using e by (simp add: fail_validation_def thn_def bnd_def upd_tx_def upd_st_def read_outside_def)
  then have t: "t = v" and r: "r = (case q of Inl x \<Rightarrow> Inl x | Inr _ \<Rightarrow> Inl e)"
    using run emit by (cases q; simp add: thn_def bnd_def raise_exc_def)+
  obtain entry where v: "es_tx v = (es_tx ?u)\<lparr>tx_history := tx_history (es_tx ?u) @ [entry]\<rparr>"
    "he_event entry = TRANSACTION_COMPLETED" "he_status entry = FAILED"
    using emit_event_tx [OF emit] by auto
  have "q = Inr ()" if "env_sink E = None"
    using emit that by (auto simp: emit_event_def bnd_def record_history_simps publish_def ret_def)
  with v t r show ?thesis by auto
qed

section \<open>A halting business failure\<close>

lemma set_status_run: "set_status j x s = (Inr (), s\<lparr>es_tx := set_step j (\<lambda>y. y\<lparr>st_status := x\<rparr>) (es_tx s)\<rparr>)"
  by (simp add: set_status_def upd_tx_def upd_st_def)

lemma emit_event_steps: "emit_event E ev i inc s = (r, t) \<Longrightarrow> tx_steps (es_tx t) = tx_steps (es_tx s)"
  using emit_event_tx by fastforce

text \<open>What skipping makes of the step at place \<open>j\<close>.\<close>

definition skipped_if_pending :: "step \<Rightarrow> step" where
  "skipped_if_pending x = (if st_status x = PENDING then x\<lparr>st_status := SKIPPED\<rparr> else x)"

lemma skip_pending_after_run:
  assumes "skip_pending_after E f b js s = (Inr (), t)" "distinct js"
    "list_all (\<lambda>j. j < length (tx_steps (es_tx s))) js"
  shows "length (tx_steps (es_tx t)) = length (tx_steps (es_tx s)) \<and>
    (\<forall>j < length (tx_steps (es_tx s)). tx_steps (es_tx t) ! j =
      (if j \<in> set (if b then filter (\<lambda>k. k \<noteq> f) js else tl (dropWhile (\<lambda>k. k \<noteq> f) js))
       then skipped_if_pending (tx_steps (es_tx s) ! j) else tx_steps (es_tx s) ! j))"
  using assms
proof (induction js arbitrary: b s)
  case Nil
  then show ?case by (simp add: ret_def)
next
  case (Cons k js)
  have ids: "filter (\<lambda>k. k \<noteq> f) js = js" if "k = f" using that Cons.prems(2) by (auto intro: filter_True)
  show ?case
  proof (cases "k = f")
    case True
    with Cons.IH [of True s] Cons.prems ids show ?thesis by simp
  next
    case other: False
    show ?thesis
    proof (cases "b \<and> st_status (tx_steps (es_tx s) ! k) = PENDING")
      case True
      let ?u = "s\<lparr>es_tx := set_step k (\<lambda>y. y\<lparr>st_status := SKIPPED\<rparr>) (es_tx s)\<rparr>"
      obtain v where emit: "emit_event E STEP_SKIPPED (Some k) True ?u = (Inr (), v)"
        and rest: "skip_pending_after E f b js v = (Inr (), t)"
        using Cons.prems(1) other True
        by (auto simp: bnd_def get_tx_def thn_def set_status_run split: prod.splits sum.splits)
      have steps: "tx_steps (es_tx v) =
          (tx_steps (es_tx s))[k := (tx_steps (es_tx s) ! k)\<lparr>st_status := SKIPPED\<rparr>]"
        using emit_event_steps [OF emit] by (simp add: set_step_def)
      from Cons.IH [OF rest] Cons.prems(2,3) True other show ?thesis
        by (auto simp: steps nth_list_update skipped_if_pending_def)
    next
      case False
      then have "skip_pending_after E f b js s = (Inr (), t)"
        using Cons.prems(1) other by (cases b) (simp_all add: bnd_def get_tx_def)
      from Cons.IH [OF this] Cons.prems(2,3) False other show ?thesis
        by (auto simp: skipped_if_pending_def)
    qed
  qed
qed

lemma after_in_sorted:
  assumes "sorted (map g xs)" "distinct xs" "inj_on g (set xs)" "f \<in> set xs"
  shows "set (tl (dropWhile (\<lambda>k. k \<noteq> f) xs)) = {k \<in> set xs. g f < g k}"
proof -
  from assms(4) obtain us vs where xs: "xs = us @ f # vs" and f: "f \<notin> set us"
    by (metis split_list_first)
  have "\<forall>x \<in> set us. x \<noteq> f" using f by blast
  then have "dropWhile (\<lambda>k. k \<noteq> f) xs = f # vs" by (simp add: xs dropWhile_append2)
  moreover have "k \<in> set vs \<longleftrightarrow> k \<in> set xs \<and> g f < g k" for k
  proof -
    have "g k \<noteq> g f" if "k \<in> set xs" "k \<noteq> f" using assms(3,4) that by (auto simp: inj_on_def)
    moreover have "g k \<le> g f" if "k \<in> set us" using assms(1) that by (auto simp: xs sorted_append)
    moreover have "g f \<le> g k" if "k \<in> set vs" using assms(1) that by (auto simp: xs sorted_append)
    ultimately show ?thesis using assms(2) by (force simp: xs)
  qed
  ultimately show ?thesis by auto
qed

lemma skip_downstream_run:
  assumes run: "skip_downstream_pending_steps E i s = (Inr (), t)"
    and i: "i < length (tx_steps (es_tx s))" and d: "distinct (map st_order (tx_steps (es_tx s)))"
    and j: "j < length (tx_steps (es_tx s))"
  shows "tx_steps (es_tx t) ! j =
    (if st_order (tx_steps (es_tx s) ! i) < st_order (tx_steps (es_tx s) ! j)
     then skipped_if_pending (tx_steps (es_tx s) ! j) else tx_steps (es_tx s) ! j)"
proof -
  obtain u where skip: "skip_pending_after E i False (ordered_indices (es_tx s)) s = (Inr (), u)"
    and ck: "checkpoint E u = (Inr (), t)"
    using run by (auto simp: skip_downstream_pending_steps_def thn_Inr bnd_Inr get_tx_def)
  have inj: "inj_on (\<lambda>k. st_order (tx_steps (es_tx s) ! k)) (set (ordered_indices (es_tx s)))"
    using d nth_eq_iff_index_eq [of "map st_order (tx_steps (es_tx s))"]
    by (auto simp: inj_on_def)
  have "set (tl (dropWhile (\<lambda>k. k \<noteq> i) (ordered_indices (es_tx s)))) =
      {k \<in> set (ordered_indices (es_tx s)).
        st_order (tx_steps (es_tx s) ! i) < st_order (tx_steps (es_tx s) ! k)}"
    by (rule after_in_sorted [OF sorted_ordered_indices distinct_ordered_indices inj]) (simp add: i)
  with skip_pending_after_run [OF skip] j checkpoint_tx [OF ck] show ?thesis
    by (simp add: list_all_iff)
qed

end
