(* ===== verification/EngineClaims.thy ===== *)
theory EngineClaims
  imports EngineRuns
begin

text \<open>
  The properties of the engine, with concrete runs of a small process as their witnesses.
\<close>

section \<open>A small process\<close>

definition demo_time :: datetime where
  "demo_time = DateTime 1000 (Some 0)"

definition demo_exc :: "bool \<Rightarrow> bool \<Rightarrow> string \<Rightarrow> step_exc" where
  "demo_exc business halts code = \<lparr>is_business = business, exc_message = ''failed'',
     exc_action = [], exc_retry_number = 0, exc_occurred_at = demo_time, exc_screenshot_path = [],
     halts_flag = halts, exc_code = code\<rparr>"

definition demo_tx :: "step list \<Rightarrow> transaction" where
  "demo_tx steps = \<lparr>tx_reference = ''R-1'', tx_id = ''t1'', tx_status = PENDING, tx_retry_count = 0,
     tx_created_at = Some demo_time, tx_started_at = None, tx_finished_at = None, tx_state = [],
     tx_metadata = [], tx_artifacts = [], tx_steps = steps, tx_history = [], tx_outcome = OC_UNKNOWN,
     tx_disposition = RD_UNKNOWN, tx_failure_code = [], tx_definition_identity = []\<rparr>"

definition demo_execute :: "pyexc option \<Rightarrow> nat \<Rightarrow> transaction \<Rightarrow> step_effect" where
  "demo_execute raised i t =
     \<lparr>eff_state = dict_set (tx_state t) (st_name (tx_steps t ! i)) (PInt (tx_retry_count t)),
      eff_metadata = tx_metadata t, eff_artifacts = tx_artifacts t,
      eff_status = st_status (tx_steps t ! i), eff_raised = raised\<rparr>"

definition demo_env :: "pyexc option \<Rightarrow> string list \<Rightarrow> transition list env" where
  "demo_env raised names = \<lparr>env_execute = demo_execute raised, env_checkpoint = None,
     env_sink = Some collecting_sink, env_fields = names,
     env_clock = (\<lambda>n. DateTime (1000 + int n) (Some 0)), env_uuid = (\<lambda>n. ''u''),
     env_screenshot = (\<lambda>n. Inr ''shot.png'')\<rparr>"

definition silent_env :: "pyexc option \<Rightarrow> transition list env" where
  "silent_env raised = (demo_env raised [])\<lparr>env_sink := None\<rparr>"

definition demo_engine :: engine where
  "demo_engine = \<lparr>eng_max_retries = 0, eng_retry_delay = 0, eng_retry_backoff = 1,
     eng_screenshot_dir = []\<rparr>"

definition demo_start :: "transaction \<Rightarrow> transition list est" where
  "demo_start t = \<lparr>es_tx = t, es_tick = 0, es_slept = [], es_world = []\<rparr>"

definition demo_step :: "string \<Rightarrow> int \<Rightarrow> status \<Rightarrow> step_exc list \<Rightarrow> step" where
  "demo_step name order st excs = (new_step name order None)\<lparr>st_status := st, st_exceptions := excs\<rparr>"

section \<open>Bounds on the retry counter\<close>

definition retries_within :: "engine \<Rightarrow> 'w est \<Rightarrow> 'w est \<Rightarrow> bool" where
  "retries_within C s t \<longleftrightarrow>
     tx_retry_count (es_tx t) \<le> max (tx_retry_count (es_tx s)) (eng_max_retries C)"

interpretation within: step_relation "retries_within C :: 'w est \<Rightarrow> 'w est \<Rightarrow> bool"
  by unfold_locales (auto simp: retries_within_def)

lemma within_pass: "keeps pass_frame m \<Longrightarrow> keeps (retries_within C) m"
  by (simp add: keeps_def pass_frame_def retries_within_def)

lemma within_loop: "keeps (retries_within C) (retry_loop C E)"
  by (rule keepsI) (metis retries_within_def retry_loop_bound surjective_pairing)

lemma within_run: "retries_within C s (snd (engine_run C E s))"
proof (rule engine_run_split [of C E s])
  assume run: "engine_run C E s = run_transaction C E s"
  show ?thesis
  proof (cases "validate_for_execution (es_tx s)")
    case (Inl e)
    then show ?thesis
      using keeps_snd [OF within_pass [OF pass_fail_validation]] by (simp add: run run_transaction_def)
  next
    case (Inr u)
    have "keeps (retries_within C) (run_validated C E)"
      unfolding run_validated_def
      by (intro within.keeps_bnd within.keeps_thn within.keeps_catch within_loop)
        (auto intro!: within_pass keeps_intros)
    from keeps_snd [OF this] Inr show ?thesis by (simp add: run run_transaction_valid)
  qed
qed (simp add: within.R_refl)

section \<open>Properties\<close>

text \<open>
  C1: a run that returns has classified the transaction by what its steps did: successful exactly
  when every step is successful or skipped, otherwise failed with the category, disposition and code
  of the last recorded step failure; it is finished, and its last history entry says so.
\<close>

theorem returned_run_is_classified:
  "case engine_run C E s of (Inl _, _) \<Rightarrow> True
   | (Inr _, t) \<Rightarrow> classified (es_tx t) \<and> closed_by (es_tx t)"
  by (auto split: prod.split sum.split elim!: engine_run_Inr dest!: finish_run_classified)

text \<open>
  C6: whatever the steps and the callbacks raise, a run only appends to the audit trail, numbering
  its entries on from those already there, and never changes the identity of the transaction, the
  wiring of its steps, or lowers the retry counter.
\<close>

theorem run_appends_history: "run_frame s (snd (engine_run C E s))"
  by (rule run_frame_engine)

text \<open>
  C4: the retry counter never passes \<open>max_retries\<close> by the run's doing, and a run that returns has
  either used the retries up or has no failed step left whose last exception is a system one.
\<close>

theorem retries_bounded_and_exhausted:
  "case engine_run C E s of (r, t) \<Rightarrow>
     tx_retry_count (es_tx t) \<le> max (tx_retry_count (es_tx s)) (eng_max_retries C) \<and>
     (case r of Inl _ \<Rightarrow> True
      | Inr _ \<Rightarrow> eng_max_retries C \<le> tx_retry_count (es_tx t) \<or> retryable_failed_steps (es_tx t) = [])"
proof -
  have "eng_max_retries C \<le> tx_retry_count (es_tx t) \<or> retryable_failed_steps (es_tx t) = []"
    if "engine_run C E s = (Inr x, t)" for x t
    using that
  proof (rule engine_run_Inr)
    fix v w assume loop: "retry_loop C E v = (Inr (), w)" and fin: "finish_run E w = (Inr x, t)"
    show ?thesis
      using retry_loop_exhausts [OF loop] finish_run_classified [OF fin]
      by (simp add: retryable_failed_steps_def failed_indices_def)
  qed
  with within_run [of C s E] show ?thesis
    by (auto simp: retries_within_def split: prod.split sum.split)
qed

text \<open>
  C3: a run starts each step at most once, and once more per retry it has counted; so a fresh
  transaction starts no step more than \<open>1 + max_retries\<close> times.
\<close>

theorem step_starts_bounded:
  "int (count_list (started (es_tx s) (es_tx (snd (engine_run C E s)))) (Some order)) \<le>
     1 + (tx_retry_count (es_tx (snd (engine_run C E s))) - tx_retry_count (es_tx s))"
  by (rule engine_run_starts)

text \<open>
  C2: a step that was successful before a run is left exactly as it was, and the run records no
  event about it, whether the run returns or raises.
\<close>

theorem completed_steps_stay:
  assumes "j < length (tx_steps (es_tx s))" and "distinct (map st_order (tx_steps (es_tx s)))"
    and "st_status (tx_steps (es_tx s) ! j) = SUCCESSFUL"
  shows "tx_steps (es_tx (snd (engine_run C E s))) ! j = tx_steps (es_tx s) ! j \<and>
    (\<forall>e \<in> set (new_history (es_tx s) (es_tx (snd (engine_run C E s)))).
       he_step_order e \<noteq> Some (st_order (tx_steps (es_tx s) ! j)))"
  by (rule heldD [OF held_engine_run [of step_done]])
    (use assms in \<open>auto simp: settled_kind_def blocked_ok_done step_done_def\<close>)

theorem completed_steps_stay_witness:
  "tx_steps (es_tx (snd (engine_run demo_engine (silent_env (Some MemoryErr))
     (demo_start (demo_tx [demo_step ''post'' 2 PENDING [], demo_step ''fetch'' 1 SUCCESSFUL []]))))) ! 1 =
   demo_step ''fetch'' 1 SUCCESSFUL []"
  using completed_steps_stay [of 1 "demo_start (demo_tx [demo_step ''post'' 2 PENDING [],
      demo_step ''fetch'' 1 SUCCESSFUL []])" demo_engine "silent_env (Some MemoryErr)"]
  by (simp add: demo_start_def demo_tx_def demo_step_def new_step_def)

text \<open>
  C5: the retry passes of a run never execute a step again whose last exception is a
  \<open>BusinessException\<close>: it stays failed, unchanged, without a new history entry.
\<close>

theorem business_failures_not_retried:
  assumes "j < length (tx_steps (es_tx s))" and "distinct (map st_order (tx_steps (es_tx s)))"
    and "st_status (tx_steps (es_tx s) ! j) = FAILED"
    and "last_exc (tx_steps (es_tx s) ! j) = Some e" and "is_business e"
  shows "tx_steps (es_tx (snd (retry_loop C E s))) ! j = tx_steps (es_tx s) ! j \<and>
    (\<forall>h \<in> set (new_history (es_tx s) (es_tx (snd (retry_loop C E s)))).
       he_step_order h \<noteq> Some (st_order (tx_steps (es_tx s) ! j)))"
  by (rule heldD [OF held_retry_loop [of step_rejected]])
    (use assms in \<open>auto simp: settled_kind_def step_rejected_def\<close>)

theorem business_failures_not_retried_witness:
  "st_status (tx_steps (es_tx (snd (retry_loop (demo_engine\<lparr>eng_max_retries := 5\<rparr>) (silent_env None)
     (demo_start (demo_tx [demo_step ''notify'' 3 FAILED [demo_exc True False ''demo.refused''],
        demo_step ''post'' 2 FAILED [demo_exc False True ''demo.down'']]))))) ! 0) = FAILED"
  using business_failures_not_retried [of 0 "demo_start (demo_tx [demo_step ''notify'' 3 FAILED
      [demo_exc True False ''demo.refused''], demo_step ''post'' 2 FAILED [demo_exc False True ''demo.down'']])"
      "demo_exc True False ''demo.refused''" "demo_engine\<lparr>eng_max_retries := 5\<rparr>" "silent_env None"]
  by (simp add: demo_start_def demo_tx_def demo_step_def new_step_def demo_exc_def last_exc_def)

text \<open>
  a resumed transaction (its last history entry is \<open>transaction_resumed\<close>) keeps its
  business-failed steps out of the first pass as well, so the whole run leaves them alone.
\<close>

theorem resumed_run_keeps_business_failures:
  assumes "last_event_resumed (es_tx s)" and "j < length (tx_steps (es_tx s))"
    and "distinct (map st_order (tx_steps (es_tx s)))"
    and "st_status (tx_steps (es_tx s) ! j) = FAILED"
    and "last_exc (tx_steps (es_tx s) ! j) = Some e" and "is_business e"
  shows "tx_steps (es_tx (snd (engine_run C E s))) ! j = tx_steps (es_tx s) ! j"
proof -
  have P: "step_rejected (tx_steps (es_tx s) ! j)" using assms by (simp add: step_rejected_def)
  have "blocked_ok step_rejected j (initial_blocked_steps (es_tx s))"
    using settled_blocked [of step_rejected j "es_tx s"] P assms
    by (simp add: initial_blocked_steps_def settled_kind_def)
  from heldD [OF held_engine_run [OF _ this]] P assms show ?thesis
    by (simp add: settled_kind_def)
qed

theorem resumed_run_keeps_business_failures_witness:
  "tx_steps (es_tx (snd (engine_run demo_engine (silent_env None) (demo_start
     ((demo_tx [demo_step ''notify'' 1 FAILED [demo_exc True False ''demo.refused'']])
        \<lparr>tx_history := [\<lparr>he_sequence = 1, he_timestamp = demo_time, he_event = TRANSACTION_RESUMED,
           he_status = PENDING, he_retry_number = 0, he_step_name = [], he_step_order = None\<rparr>]\<rparr>))))) ! 0 =
   demo_step ''notify'' 1 FAILED [demo_exc True False ''demo.refused'']"
  using resumed_run_keeps_business_failures [of "demo_start
     ((demo_tx [demo_step ''notify'' 1 FAILED [demo_exc True False ''demo.refused'']])
        \<lparr>tx_history := [\<lparr>he_sequence = 1, he_timestamp = demo_time, he_event = TRANSACTION_RESUMED,
           he_status = PENDING, he_retry_number = 0, he_step_name = [], he_step_order = None\<rparr>]\<rparr>)" 0
      "demo_exc True False ''demo.refused''" demo_engine "silent_env None"]
  by (simp add: demo_start_def demo_tx_def demo_step_def new_step_def demo_exc_def last_exc_def
      last_event_resumed_def)

text \<open>
  a pass starts the steps in the order of their \<open>execution_order\<close>: the orders of the
  \<open>step_started\<close> entries it appends are a subsequence of the sorted orders of the steps.
\<close>

theorem pass_follows_execution_order:
  "subseq (started (es_tx s) (es_tx (snd (execute_pass C E blocked s))))
     (map Some (map st_order (ordered_steps (es_tx s)))) \<and>
   sorted (map st_order (ordered_steps (es_tx s)))"
  using execute_pass_started by (simp add: ordered_steps_def)

text \<open>
  A transaction that fails its validation runs nothing: steps, state, metadata and artifacts are
  untouched, exactly one entry is appended, the transaction is failed as a validation failure, and
  without a sink the validation error itself is raised.
\<close>

theorem invalid_transaction_runs_nothing:
  assumes "validate_for_execution (es_tx s) = Inl e" and "is_execution_validation_error e"
    and "run_transaction C E s = (r, t)"
  shows "tx_steps (es_tx t) = tx_steps (es_tx s) \<and> tx_state (es_tx t) = tx_state (es_tx s) \<and>
    tx_metadata (es_tx t) = tx_metadata (es_tx s) \<and> tx_artifacts (es_tx t) = tx_artifacts (es_tx s) \<and>
    length (new_history (es_tx s) (es_tx t)) = 1 \<and> closed_by (es_tx t) \<and>
    tx_status (es_tx t) = FAILED \<and> tx_outcome (es_tx t) = OC_VALIDATION_FAILED \<and>
    tx_failure_code (es_tx t) = ''rpacore.validation.execution'' \<and>
    (env_sink E = None \<longrightarrow> r = Inl e)"
proof -
  have "fail_validation E e s = (r, t)" using assms(1,3) by (simp add: run_transaction_def)
  from fail_validation_run [OF assms(2) this] show ?thesis
    by (auto simp: new_history_def closed_by_def)
qed

theorem invalid_transaction_runs_nothing_witness:
  "tx_outcome (es_tx (snd (run_transaction demo_engine (silent_env None)
     (demo_start (demo_tx [demo_step ''post'' 0 PENDING []]))))) = OC_VALIDATION_FAILED"
  using invalid_transaction_runs_nothing [of "demo_start (demo_tx [demo_step ''post'' 0 PENDING []])"
      "ExecutionValidationError ''step.execution_order must be a positive int''" demo_engine
      "silent_env None", OF _ _ surjective_pairing]
  by (simp add: demo_start_def demo_tx_def demo_step_def new_step_def validate_for_execution_def
      blank_def strip_def is_space_def code_point_def)

text \<open>
  When a halting business failure of a step skips the rest, a step is skipped exactly when it is
  pending and comes later in execution order; all others keep their status.
\<close>

theorem halting_failure_skips_later_pending:
  assumes "skip_downstream_pending_steps E i s = (Inr (), t)"
    and "i < length (tx_steps (es_tx s))" and "distinct (map st_order (tx_steps (es_tx s)))"
    and "j < length (tx_steps (es_tx s))"
  shows "tx_steps (es_tx t) ! j =
    (if st_order (tx_steps (es_tx s) ! i) < st_order (tx_steps (es_tx s) ! j)
     then skipped_if_pending (tx_steps (es_tx s) ! j) else tx_steps (es_tx s) ! j)"
  by (rule skip_downstream_run [OF assms])

theorem halting_failure_skips_later_pending_witness:
  "fst (skip_downstream_pending_steps (silent_env None) 0
     (demo_start (demo_tx [demo_step ''a'' 1 FAILED [], demo_step ''b'' 2 PENDING []]))) = Inr () \<and>
   st_status (tx_steps (es_tx (snd (skip_downstream_pending_steps (silent_env None) 0
     (demo_start (demo_tx [demo_step ''a'' 1 FAILED [], demo_step ''b'' 2 PENDING []]))))) ! 1) = SKIPPED"
proof -
  let ?s = "demo_start (demo_tx [demo_step ''a'' 1 FAILED [], demo_step ''b'' 2 PENDING []])"
  have ok: "fst (skip_downstream_pending_steps (silent_env None) 0 ?s) = Inr ()" by code_simp
  then have run: "skip_downstream_pending_steps (silent_env None) 0 ?s =
      (Inr (), snd (skip_downstream_pending_steps (silent_env None) 0 ?s))"
    by (metis prod.collapse)
  have "st_status (tx_steps (es_tx (snd (skip_downstream_pending_steps (silent_env None) 0 ?s))) ! 1) = SKIPPED"
    using halting_failure_skips_later_pending [OF run, of 1]
    by (simp add: demo_start_def demo_tx_def demo_step_def new_step_def skipped_if_pending_def)
  with ok show ?thesis by simp
qed

text \<open>
  a \<open>MemoryError\<close> that leaves a run whose callbacks raise none themselves has closed the
  transaction first: failed, interrupted, finished, with a closing history entry.
\<close>

theorem memory_error_closes_run:
  assumes "calm_callbacks E" and "validate_for_execution (es_tx s) = Inr u"
    and "engine_run C E s = (Inl MemoryErr, t)"
  shows "closed_interrupted (es_tx t)"
  by (rule memory_error_closes [OF assms])

theorem memory_error_closes_run_witness:
  "closed_interrupted (es_tx (snd (engine_run demo_engine (silent_env (Some MemoryErr))
     (demo_start (demo_tx [demo_step ''post'' 1 PENDING []])))))"
proof -
  let ?s = "demo_start (demo_tx [demo_step ''post'' 1 PENDING []])"
  have "fst (engine_run demo_engine (silent_env (Some MemoryErr)) ?s) = Inl MemoryErr" by code_simp
  then have run: "engine_run demo_engine (silent_env (Some MemoryErr)) ?s =
      (Inl MemoryErr, snd (engine_run demo_engine (silent_env (Some MemoryErr)) ?s))"
    by (metis prod.collapse)
  have "calm_callbacks (silent_env (Some MemoryErr))"
    by (simp add: calm_callbacks_def silent_env_def demo_env_def)
  moreover have "validate_for_execution (es_tx ?s) = Inr (es_tx ?s)" by code_simp
  ultimately show ?thesis using run by (rule memory_error_closes_run)
qed

text \<open>
  C7: with a sink that keeps what it receives, the transitions of a run announce in order history
  entries it appended, all of them when no state field is selected, and none shows a state key that
  was not selected.
\<close>

theorem transitions_mirror_history:
  assumes "collecting E"
  shows "mirrored (env_fields E) s (snd (engine_run C E s))"
  using mirrored.R_engine_run [of E s C] assms by (simp add: mirrored_by_def)

theorem transitions_mirror_history_witness:
  "mirrored [''post''] (demo_start (demo_tx [demo_step ''post'' 1 PENDING []]))
     (snd (engine_run demo_engine (demo_env None [''post''])
       (demo_start (demo_tx [demo_step ''post'' 1 PENDING []]))))"
  using transitions_mirror_history [of "demo_env None [''post'']"
      "demo_start (demo_tx [demo_step ''post'' 1 PENDING []])" demo_engine]
  by (simp add: collecting_def demo_env_def)

text \<open>
  a run sleeps once before each retry pass it starts, \<open>retry_delay * retry_backoff ** n\<close> seconds
  before the pass that follows \<open>n\<close> retries, and never when the delay is zero.
\<close>

theorem retry_pauses: "slept_for C s (snd (engine_run C E s))"
  by (rule slept.R_engine_run)

end
