(* ===== verification/QueueRetry.thy ===== *)
theory QueueRetry
  imports Outcomes Times
begin

text \<open>
  Delivery delays of the queue (\<open>rpacore/_queue_retry.py\<close>).

  Floating-point numbers are exact rationals, so \<open>math.log\<close> and \<open>math.exp\<close> are the real functions;
  \<open>overflows\<close> says for which power Python raises \<open>OverflowError\<close>, and the result is shown not to
  depend on it. The code equation computes with rationals only. An availability text is \<open>Due us\<close>
  when it is the canonical UTC text of an instant, in microseconds, and \<open>NonCanonical s\<close> otherwise.
\<close>

section \<open>Configuration\<close>

definition max_retry_delay :: rat where
  "max_retry_delay = 86400"

text \<open>\<open>float(value)\<close> of an \<open>int\<close>: from this magnitude on it raises \<open>OverflowError\<close>.\<close>

definition int_overflows_float :: "int \<Rightarrow> bool" where
  "int_overflows_float i \<longleftrightarrow> 2 ^ 1024 - 2 ^ 970 \<le> \<bar>i\<bar>"

definition policy_number :: "pydict \<Rightarrow> string \<Rightarrow> rat \<Rightarrow> rat \<Rightarrow> pyexc + rat" where
  "policy_number config key dflt minimum =
     (let number = (\<lambda>x. if x < minimum then Inl (ValueErr (''queue.'' @ key))
                        else if key = ''retry_delay'' \<and> max_retry_delay < x
                        then Inl (ValueErr ''queue.retry_delay'') else Inr x)
      in case dict_get config key of
           None \<Rightarrow> number dflt
         | Some (PInt i) \<Rightarrow>
             if int_overflows_float i then Inl (ValueErr (''queue.'' @ key)) else number (of_int i)
         | Some (PFloat (FinF x)) \<Rightarrow> number x
         | Some (PFloat _) \<Rightarrow> Inl (ValueErr (''queue.'' @ key))
         | Some _ \<Rightarrow> Inl (TypeErr (''queue.'' @ key)))"

definition retry_policy :: "pydict \<Rightarrow> pyexc + rat \<times> rat" where
  "retry_policy config =
     (case policy_number config ''retry_delay'' 1 0 of
        Inl e \<Rightarrow> Inl e
      | Inr delay \<Rightarrow>
          (case policy_number config ''retry_backoff'' 2 1 of
             Inl e \<Rightarrow> Inl e
           | Inr backoff \<Rightarrow> Inr (delay, backoff)))"

section \<open>Availability texts\<close>

datatype avail = Due int | NonCanonical string

definition available_at_text :: "datetime option \<Rightarrow> pyexc + avail option" where
  "available_at_text value =
     (case value of
        None \<Rightarrow> Inr None
      | Some d \<Rightarrow>
          (if is_aware d then Inr (Some (Due (instant d)))
           else Inl (ValueErr ''queue.available_at'')))"

definition parse_available_at :: "avail option \<Rightarrow> pyexc + datetime option" where
  "parse_available_at raw =
     (case raw of
        None \<Rightarrow> Inr None
      | Some (Due us) \<Rightarrow> Inr (Some (utc_datetime us))
      | Some (NonCanonical _) \<Rightarrow>
          Inl (ValueErr ''queue.available_at must use canonical UTC microseconds''))"

section \<open>The delay before a retry\<close>

definition retry_seconds :: "(rat \<Rightarrow> int \<Rightarrow> bool) \<Rightarrow> int \<Rightarrow> rat \<Rightarrow> rat \<Rightarrow> real" where
  "retry_seconds overflows retry_count delay backoff =
     (let log_seconds = ln (real_of_rat delay) + real_of_int (retry_count - 1) * ln (real_of_rat backoff)
      in if ln (real_of_rat max_retry_delay) \<le> log_seconds then real_of_rat max_retry_delay
         else if overflows backoff (retry_count - 1) then exp log_seconds
         else real_of_rat delay * real_of_rat backoff powi (retry_count - 1))"

definition wait_us :: "(rat \<Rightarrow> int \<Rightarrow> bool) \<Rightarrow> int \<Rightarrow> rat \<Rightarrow> rat \<Rightarrow> int" where
  "wait_us overflows retry_count delay backoff =
     max 1 \<lceil>retry_seconds overflows retry_count delay backoff * 1000000\<rceil>"

definition retry_available_at ::
  "(rat \<Rightarrow> int \<Rightarrow> bool) \<Rightarrow> int \<Rightarrow> int \<Rightarrow> rat \<Rightarrow> rat \<Rightarrow> avail option" where
  "retry_available_at overflows now retry_count delay backoff =
     (if delay = 0 then None
      else Some (Due (now + wait_us overflows retry_count delay backoff)))"

section \<open>Exact value and bounds\<close>

lemma real_of_rat_powi: "real_of_rat (x powi n) = real_of_rat x powi n"
  by (auto simp: power_int_def of_rat_power of_rat_inverse)

lemma retry_seconds_exact:
  assumes "0 < delay" "1 \<le> backoff"
  shows "retry_seconds overflows n delay backoff =
    real_of_rat (min max_retry_delay (delay * backoff powi (n - 1)))"
proof -
  let ?d = "real_of_rat delay" and ?b = "real_of_rat backoff" and ?m = "real_of_rat max_retry_delay"
  have d: "0 < ?d" and b: "0 < ?b" using assms by auto
  have m: "0 < ?m" by (simp add: max_retry_delay_def)
  have pos: "0 < ?b powi (n - 1)" using b by simp
  have log: "ln ?d + real_of_int (n - 1) * ln ?b = ln (?d * ?b powi (n - 1))"
  proof -
    have "ln (?b powi (n - 1)) = real_of_int (n - 1) * ln ?b"
      using b by (metis ln_powr less_numeral_extra(3) less_eq_real_def powr_real_of_int')
    then show ?thesis using ln_mult_pos [of ?d "?b powi (n - 1)"] d pos by linarith
  qed
  have expd: "exp (ln (?d * ?b powi (n - 1))) = ?d * ?b powi (n - 1)"
    using d pos by simp
  have "ln ?m \<le> ln (?d * ?b powi (n - 1)) \<longleftrightarrow> ?m \<le> ?d * ?b powi (n - 1)"
    using d pos m by simp
  then have "retry_seconds overflows n delay backoff = min ?m (?d * ?b powi (n - 1))"
    unfolding retry_seconds_def Let_def log expd by (auto simp: min_def)
  also have "\<dots> = min ?m (real_of_rat (delay * backoff powi (n - 1)))"
    by (simp add: of_rat_mult real_of_rat_powi)
  also have "\<dots> = real_of_rat (min max_retry_delay (delay * backoff powi (n - 1)))"
    by (simp add: min_def of_rat_less_eq)
  finally show ?thesis .
qed

lemma ceiling_real_of_rat: "\<lceil>real_of_rat x\<rceil> = \<lceil>x\<rceil>"
proof (rule ceiling_unique)
  have "of_int \<lceil>x\<rceil> - 1 < x" "x \<le> of_int \<lceil>x\<rceil>" by linarith+
  then have "real_of_rat (of_int \<lceil>x\<rceil> - 1) < real_of_rat x" "real_of_rat x \<le> real_of_rat (of_int \<lceil>x\<rceil>)"
    by (simp_all only: of_rat_less of_rat_less_eq)
  then show "real_of_int \<lceil>x\<rceil> - 1 < real_of_rat x" "real_of_rat x \<le> real_of_int \<lceil>x\<rceil>"
    by (simp_all add: of_rat_diff)
qed

text \<open>The same wait, computed with rationals.\<close>

definition wait_us_exact :: "int \<Rightarrow> rat \<Rightarrow> rat \<Rightarrow> int" where
  "wait_us_exact n delay backoff =
     max 1 \<lceil>min max_retry_delay (delay * backoff powi (n - 1)) * 1000000\<rceil>"

lemma wait_us_exact:
  assumes "0 < delay" "1 \<le> backoff"
  shows "wait_us overflows n delay backoff = wait_us_exact n delay backoff"
proof -
  have "retry_seconds overflows n delay backoff * 1000000 =
      real_of_rat (min max_retry_delay (delay * backoff powi (n - 1)) * 1000000)"
    using retry_seconds_exact [OF assms] by (simp add: of_rat_mult)
  then show ?thesis by (simp only: wait_us_def wait_us_exact_def ceiling_real_of_rat)
qed

text \<open>
  The code equation; a delay or a backoff that no policy admits is not computed.
\<close>

definition wait_us_outside :: "(rat \<Rightarrow> int \<Rightarrow> bool) \<Rightarrow> int \<Rightarrow> rat \<Rightarrow> rat \<Rightarrow> int" where
  [code del]: "wait_us_outside = wait_us"

lemma wait_us_code [code]:
  "wait_us overflows n delay backoff =
     (if 0 < delay \<and> 1 \<le> backoff then wait_us_exact n delay backoff
      else wait_us_outside overflows n delay backoff)"
  by (simp add: wait_us_exact wait_us_outside_def)

lemma wait_us_exact_bounds: "1 \<le> wait_us_exact n delay backoff"
  "wait_us_exact n delay backoff \<le> 86400000000"
proof -
  have "min max_retry_delay (delay * backoff powi (n - 1)) * 1000000 \<le> of_int 86400000000"
    by (simp add: max_retry_delay_def)
  then have "\<lceil>min max_retry_delay (delay * backoff powi (n - 1)) * 1000000\<rceil> \<le> 86400000000"
    by (simp only: ceiling_le_iff)
  then show "wait_us_exact n delay backoff \<le> 86400000000" by (simp add: wait_us_exact_def)
qed (simp add: wait_us_exact_def)

lemma wait_us_exact_mono:
  assumes "0 < delay" "1 \<le> backoff" "m \<le> n"
  shows "wait_us_exact m delay backoff \<le> wait_us_exact n delay backoff"
proof -
  have "backoff powi (m - 1) \<le> backoff powi (n - 1)"
    using assms by (intro power_int_increasing) auto
  then have "min max_retry_delay (delay * backoff powi (m - 1)) \<le>
      min max_retry_delay (delay * backoff powi (n - 1))"
    using assms by (intro min.mono mult_left_mono) auto
  then show ?thesis
    unfolding wait_us_exact_def by (intro max.mono ceiling_mono mult_right_mono) auto
qed

lemma policy_number_bounds:
  "policy_number config key dflt minimum = Inr x \<Longrightarrow>
     minimum \<le> x \<and> (key = ''retry_delay'' \<longrightarrow> x \<le> max_retry_delay)"
  by (auto simp: policy_number_def Let_def split: option.splits pyval.splits pyfloat.splits if_splits)

lemma retry_policy_bounds:
  "retry_policy config = Inr (delay, backoff) \<Longrightarrow>
     0 \<le> delay \<and> delay \<le> max_retry_delay \<and> 1 \<le> backoff"
  by (auto simp: retry_policy_def split: sum.splits dest!: policy_number_bounds)

end
