(* ===== verification/Storage.thy ===== *)
theory Storage
  imports Kernel
begin

text \<open>
  What the two SQLite stores share: the JSON and timestamp columns and the decoding of row lists.
  A stored JSON text is \<open>JsonText v\<close> when it decodes to \<open>v\<close>, and \<open>BrokenText\<close> when it does not
  decode; a text written by \<open>json.dumps\<close> keeps the order of the items of its dictionaries.
\<close>

text \<open>Sequencing of results without a state.\<close>

definition rbnd :: "'e + 'a \<Rightarrow> ('a \<Rightarrow> 'e + 'b) \<Rightarrow> 'e + 'b" where
  "rbnd r f = (case r of Inl e \<Rightarrow> Inl e | Inr a \<Rightarrow> f a)"

lemma rbnd_simps [simp]: "rbnd (Inl e) f = Inl e" "rbnd (Inr a) f = f a"
  by (simp_all add: rbnd_def)

lemma rbnd_Inr: "rbnd r f = Inr b \<longleftrightarrow> (\<exists>a. r = Inr a \<and> f a = Inr b)"
  by (auto simp: rbnd_def split: sum.splits)

datatype json_text = JsonText pyval | BrokenText

definition json_loads :: "json_text \<Rightarrow> pyexc + pyval" where
  "json_loads raw = (case raw of BrokenText \<Rightarrow> Inl JSONDecodeError | JsonText v \<Rightarrow> Inr v)"

text \<open>A decoded object as a dictionary with string keys; \<open>None\<close> for any other value.\<close>

definition dict_of :: "pyval \<Rightarrow> pydict option" where
  "dict_of v = (case v of PDict kvs \<Rightarrow> Some (map (\<lambda>(k, x). (key_text k, x)) kvs) | _ \<Rightarrow> None)"

lemma dict_of_of_dict [simp]: "dict_of (of_dict d) = Some d"
  by (induction d) (auto simp: dict_of_def of_dict_def key_text_def)

text \<open>\<open>json.loads\<close> followed by \<open>validate_json_object\<close>.\<close>

definition load_object :: "json_text \<Rightarrow> pyexc + pydict" where
  "load_object raw =
     (case json_loads raw of
        Inl e \<Rightarrow> Inl e
      | Inr v \<Rightarrow>
          (case validate_json_object v of
             Inl e \<Rightarrow> Inl e
           | Inr _ \<Rightarrow> (case dict_of v of Some d \<Rightarrow> Inr d | None \<Rightarrow> Inl JSONDecodeError)))"

lemma load_object_of_dict:
  "load_object (JsonText (of_dict d)) =
     (if safe_dict d then Inr d else Inl (JsonStateError ''expected JSON value''))"
  by (simp add: load_object_def json_loads_def validate_json_object_of_dict)

lemma load_object_error: "load_object raw = Inl e \<Longrightarrow> e = JSONDecodeError \<or> is_json_state_error e"
  by (auto simp: load_object_def json_loads_def validate_json_object_def validate_json_safe_def
      split: json_text.splits pyval.splits if_splits option.splits)

definition parse_iso :: "iso_text \<Rightarrow> pyexc + datetime" where
  "parse_iso t = (case fromisoformat t of
     None \<Rightarrow> Inl (ValueErr ''Invalid isoformat string'') | Some d \<Rightarrow> Inr d)"

fun decode_rows :: "('a \<Rightarrow> pyexc + 'b) \<Rightarrow> 'a list \<Rightarrow> pyexc + 'b list" where
  "decode_rows f [] = Inr []"
| "decode_rows f (r # rs) =
     (case f r of
        Inl e \<Rightarrow> Inl e
      | Inr x \<Rightarrow> (case decode_rows f rs of Inl e \<Rightarrow> Inl e | Inr xs \<Rightarrow> Inr (x # xs)))"

lemma parse_iso_isoformat [simp]: "parse_iso (isoformat d) = Inr d"
  by (simp add: parse_iso_def)

lemma decode_rows_map:
  "(\<And>x. x \<in> set xs \<Longrightarrow> f (g x) = Inr (h x)) \<Longrightarrow> decode_rows f (map g xs) = Inr (map h xs)"
  by (induction xs) auto

lemma decode_rows_append:
  "decode_rows f (xs @ ys) = rbnd (decode_rows f xs) (\<lambda>as. rbnd (decode_rows f ys) (\<lambda>bs. Inr (as @ bs)))"
  by (induction xs) (auto simp: rbnd_def split: sum.splits)

lemma decode_rows_Inr: "decode_rows f xs = Inr ys \<longleftrightarrow> list_all2 (\<lambda>x y. f x = Inr y) xs ys"
proof (induction xs arbitrary: ys)
  case (Cons x xs)
  show ?case
    by (cases "f x"; cases "decode_rows f xs"; cases ys) (auto simp flip: Cons.IH)
qed auto

text \<open>In a list sorted by distinct keys, what comes after a key is the rest of the list.\<close>

lemma filter_after_nth:
  assumes "sorted_wrt (\<lambda>r s. k r < k s) xs" "j < length xs"
  shows "filter (\<lambda>r. (k (xs ! j) :: 'b :: linorder) < k r) xs = drop (Suc j) xs"
proof -
  have "filter (\<lambda>r. k (xs ! j) < k r) (take (Suc j) xs) = []"
    using sorted_wrt_nth_less [OF assms(1)] assms(2)
    by (fastforce simp: filter_empty_conv in_set_conv_nth less_Suc_eq_le le_less)
  moreover have "filter (\<lambda>r. k (xs ! j) < k r) (drop (Suc j) xs) = drop (Suc j) xs"
    using sorted_wrt_nth_less [OF assms(1)] assms(2) by (auto simp: filter_id_conv in_set_conv_nth)
  ultimately show ?thesis
    by (metis append_take_drop_id filter_append self_append_conv2)
qed

end
