(* ===== verification/Queue.thy ===== *)
theory Queue
  imports QueueRetry Storage "HOL-Library.Product_Lexorder"
begin

text \<open>
  The SQLite work queue (\<open>rpacore/queue.py\<close>, with the decoders of \<open>rpacore/_queue_read.py\<close>).

  A database is its four tables and the three \<open>AUTOINCREMENT\<close> counters, at the current schema
  version. Every database transaction of an operation is one effect on it, atomic and rolled back
  when it raises; the readings of the clock and the new claim token are arguments. \<open>next_item\<close> runs
  several transactions one after the other; in between, other workers may change the database. A
  stored payload is \<open>JsonText v\<close> when it decodes to \<open>v\<close>, and \<open>BrokenText\<close> when it does not decode.
\<close>

section \<open>Records and tables\<close>

datatype queue_status = QS_PENDING | QS_IN_PROGRESS | QS_SUCCESSFUL | QS_FAILED

datatype attempt_outcome =
  AO_SUCCESSFUL | AO_RETRY_SCHEDULED | AO_FAILED | AO_LEASE_EXPIRED | AO_ADMIN_OVERRIDE

record queue_item =
  qi_reference :: string
  qi_payload :: pydict
  qi_id :: string
  qi_status :: queue_status
  qi_retry_count :: int
  qi_created_at :: datetime
  qi_claimed_by :: string
  qi_claimed_at :: "datetime option"
  qi_claim_token :: string
  qi_transaction_id :: string
  qi_available_at :: "datetime option"

record item_row =
  qr_id :: string
  qr_reference :: string
  qr_payload :: json_text
  qr_status :: queue_status
  qr_retry_count :: int
  qr_created_at :: iso_text
  qr_claimed_by :: string
  qr_claimed_at :: "iso_text option"
  qr_claim_token :: string
  qr_transaction_id :: string
  qr_available_at :: "avail option"

record queue_attempt =
  qa_sequence :: int
  qa_item_id :: string
  qa_claim_token :: string
  qa_claimed_by :: string
  qa_started_at :: iso_text
  qa_finished_at :: "iso_text option"
  qa_outcome :: "attempt_outcome option"

record queue_admin_event =
  qe_sequence :: int
  qe_item_id :: string
  qe_action :: string
  qe_reason :: string
  qe_previous_status :: queue_status
  qe_new_status :: queue_status
  qe_created_at :: iso_text

record queue_poison_event =
  qp_sequence :: int
  qp_item_id :: string
  qp_error_type :: string
  qp_created_at :: iso_text

record qdb =
  q_items :: "item_row list"
  q_attempts :: "queue_attempt list"
  q_admin :: "queue_admin_event list"
  q_poison :: "queue_poison_event list"
  q_attempt_seq :: int
  q_admin_seq :: int
  q_poison_seq :: int

record queue_cfg =
  qc_lease_timeout :: int
  qc_max_retries :: int
  qc_retry_delay :: rat
  qc_retry_backoff :: rat
  qc_overflows :: "rat \<Rightarrow> int \<Rightarrow> bool"

section \<open>Row codecs\<close>

definition load_payload :: "json_text \<Rightarrow> pyexc + pydict" where
  "load_payload raw = load_object raw"

definition row_to_item :: "item_row \<Rightarrow> pydict option \<Rightarrow> pyexc + queue_item" where
  "row_to_item row payload =
     (case (case qr_claimed_at row of
              None \<Rightarrow> Inr None
            | Some t \<Rightarrow> if t = empty_text then Inr None else map_sum id Some (parse_iso t)) of
        Inl e \<Rightarrow> Inl e
      | Inr claimed_at \<Rightarrow>
     (case (case payload of None \<Rightarrow> load_payload (qr_payload row) | Some p \<Rightarrow> Inr p) of
        Inl e \<Rightarrow> Inl e
      | Inr p \<Rightarrow>
     (case parse_available_at (qr_available_at row) of
        Inl e \<Rightarrow> Inl e
      | Inr available_at \<Rightarrow>
     (case parse_iso (qr_created_at row) of
        Inl e \<Rightarrow> Inl e
      | Inr created_at \<Rightarrow>
          Inr \<lparr>qi_reference = qr_reference row, qi_payload = p, qi_id = qr_id row,
               qi_status = qr_status row, qi_retry_count = qr_retry_count row,
               qi_created_at = created_at, qi_claimed_by = qr_claimed_by row,
               qi_claimed_at = claimed_at, qi_claim_token = qr_claim_token row,
               qi_transaction_id = qr_transaction_id row, qi_available_at = available_at\<rparr>))))"

text \<open>The row an item is inserted as; \<open>due\<close> is its availability text.\<close>

definition item_to_row :: "queue_item \<Rightarrow> avail option \<Rightarrow> item_row" where
  "item_to_row item due =
     \<lparr>qr_id = qi_id item, qr_reference = qi_reference item,
      qr_payload = JsonText (of_dict (qi_payload item)), qr_status = qi_status item,
      qr_retry_count = qi_retry_count item, qr_created_at = isoformat (qi_created_at item),
      qr_claimed_by = qi_claimed_by item,
      qr_claimed_at = map_option isoformat (qi_claimed_at item),
      qr_claim_token = qi_claim_token item, qr_transaction_id = qi_transaction_id item,
      qr_available_at = due\<rparr>"

section \<open>Statements\<close>

definition items_where :: "(item_row \<Rightarrow> bool) \<Rightarrow> (qdb, pyexc, item_row list) effect" where
  "items_where P = (\<lambda>db. (Inr (filter P (q_items db)), db))"

text \<open>\<open>UPDATE queue_items SET f WHERE P\<close>; the result is the row count.\<close>

definition update_items :: "(item_row \<Rightarrow> bool) \<Rightarrow> (item_row \<Rightarrow> item_row) \<Rightarrow> (qdb, pyexc, nat) effect" where
  "update_items P f = (\<lambda>db.
     (Inr (length (filter P (q_items db))),
      db\<lparr>q_items := map (\<lambda>r. if P r then f r else r) (q_items db)\<rparr>))"

definition insert_item :: "queue_item \<Rightarrow> (qdb, pyexc, unit) effect" where
  "insert_item item =
     thn (lift_res (validate_json_object (of_dict (qi_payload item))))
    (bnd (lift_res (available_at_text (qi_available_at item))) (\<lambda>due db.
       if qi_id item \<in> qr_id ` set (q_items db)
       then (Inl (IntegrityError ''UNIQUE constraint failed: queue_items.id''), db)
       else (Inr (), db\<lparr>q_items := q_items db @ [item_to_row item due]\<rparr>)))"

definition open_attempt ::
  "string \<Rightarrow> string \<Rightarrow> string \<Rightarrow> int \<Rightarrow> (qdb, pyexc, unit) effect" where
  "open_attempt item_id claim_token claimed_by started_at = (\<lambda>db.
     if \<exists>a \<in> set (q_attempts db). qa_item_id a = item_id \<and> qa_claim_token a = claim_token
     then (Inl (IntegrityError ''UNIQUE constraint failed: queue_attempts''), db)
     else (Inr (), db\<lparr>q_attempt_seq := q_attempt_seq db + 1,
        q_attempts := q_attempts db @
          [\<lparr>qa_sequence = q_attempt_seq db + 1, qa_item_id = item_id, qa_claim_token = claim_token,
            qa_claimed_by = claimed_by, qa_started_at = isoformat (utc_datetime started_at),
            qa_finished_at = None, qa_outcome = None\<rparr>]\<rparr>))"

definition attempt_open :: "string \<Rightarrow> string \<Rightarrow> queue_attempt \<Rightarrow> bool" where
  "attempt_open item_id claim_token a \<longleftrightarrow>
     qa_item_id a = item_id \<and> qa_claim_token a = claim_token \<and> qa_outcome a = None"

definition close_attempt ::
  "string \<Rightarrow> string \<Rightarrow> attempt_outcome \<Rightarrow> int \<Rightarrow> (qdb, pyexc, unit) effect" where
  "close_attempt item_id claim_token outcome finished_at = upd_st (\<lambda>db.
     db\<lparr>q_attempts := map (\<lambda>a. if attempt_open item_id claim_token a
       then a\<lparr>qa_outcome := Some outcome, qa_finished_at := Some (isoformat (utc_datetime finished_at))\<rparr>
       else a) (q_attempts db)\<rparr>)"

definition record_poison_event :: "string \<Rightarrow> string \<Rightarrow> int \<Rightarrow> (qdb, pyexc, unit) effect" where
  "record_poison_event item_id error_type created_at = upd_st (\<lambda>db.
     db\<lparr>q_poison_seq := q_poison_seq db + 1,
        q_poison := q_poison db @
          [\<lparr>qp_sequence = q_poison_seq db + 1, qp_item_id = item_id, qp_error_type = error_type,
            qp_created_at = isoformat (utc_datetime created_at)\<rparr>]\<rparr>)"

section \<open>Adding and reading items\<close>

text \<open>The shared selection rule: \<open>None\<close> means all statuses, the empty list none.\<close>

definition status_filter :: "queue_status list option \<Rightarrow> item_row \<Rightarrow> bool" where
  "status_filter statuses r = (case statuses of None \<Rightarrow> True | Some ss \<Rightarrow> qr_status r \<in> set ss)"

definition get_item :: "string \<Rightarrow> (qdb, pyexc, queue_item option) effect" where
  "get_item item_id =
     bnd (items_where (\<lambda>r. qr_id r = item_id)) (\<lambda>rows.
       case rows of [] \<Rightarrow> ret None | row # _ \<Rightarrow> lift_res (map_sum id Some (row_to_item row None)))"

definition add :: "queue_item \<Rightarrow> (qdb, pyexc, unit) effect" where
  "add item = atomically (insert_item item)"

definition item_order :: "item_row \<Rightarrow> string \<times> string" where
  "item_order r = (iso_string (qr_created_at r), qr_id r)"

text \<open>\<open>LIMIT\<close> and \<open>OFFSET\<close>: the arguments are checked, a missing limit means all rows.\<close>

definition limit_offset :: "int option \<Rightarrow> int \<Rightarrow> 'a list \<Rightarrow> pyexc + 'a list" where
  "limit_offset limit offset rows =
     (case limit of
        Some n \<Rightarrow>
          (if n < 0 then Inl (ValueErr ''queue.list_items.limit'')
           else if offset < 0 then Inl (ValueErr ''queue.list_items.offset'')
           else Inr (take (nat n) (drop (nat offset) rows)))
      | None \<Rightarrow>
          (if offset < 0 then Inl (ValueErr ''queue.list_items.offset'')
           else Inr (drop (nat offset) rows)))"

definition list_items ::
  "queue_status list option \<Rightarrow> int option \<Rightarrow> int \<Rightarrow> (qdb, pyexc, queue_item list) effect" where
  "list_items statuses limit offset =
     bnd (items_where (status_filter statuses)) (\<lambda>rows.
     bnd (lift_res (limit_offset limit offset (sort_key item_order rows))) (\<lambda>page.
       lift_res (decode_rows (\<lambda>r. row_to_item r None) page)))"

definition has_reference :: "string \<Rightarrow> queue_status list option \<Rightarrow> (qdb, pyexc, bool) effect" where
  "has_reference reference statuses =
     bnd (items_where (\<lambda>r. qr_reference r = reference \<and> status_filter statuses r)) (\<lambda>rows.
       ret (rows \<noteq> []))"

definition add_once :: "queue_item \<Rightarrow> queue_status list option \<Rightarrow> (qdb, pyexc, bool) effect" where
  "add_once item active_statuses = atomically
     (bnd (items_where (\<lambda>r. qr_reference r = qi_reference item \<and> status_filter active_statuses r))
       (\<lambda>duplicates.
         if active_statuses \<noteq> Some [] \<and> duplicates \<noteq> [] then ret False
         else thn (insert_item item) (ret True)))"

section \<open>Claims\<close>

definition due_after :: "queue_cfg \<Rightarrow> int \<Rightarrow> int \<Rightarrow> avail option" where
  "due_after C now n = retry_available_at (qc_overflows C) now n (qc_retry_delay C) (qc_retry_backoff C)"

text \<open>
  An item in progress whose lease began more than \<open>lease_timeout\<close> whole seconds ago.
\<close>

definition stale_row :: "queue_cfg \<Rightarrow> int \<Rightarrow> item_row \<Rightarrow> bool" where
  "stale_row C now r \<longleftrightarrow> qr_status r = QS_IN_PROGRESS \<and>
     (case qr_claimed_at r of
        None \<Rightarrow> False
      | Some t \<Rightarrow> (case unix_seconds t of None \<Rightarrow> False
                  | Some s \<Rightarrow> qc_lease_timeout C < now div 1000000 - s))"

text \<open>
  The row of a claim that ends without success, after \<open>n\<close> retries: delivered \<open>again\<close> later, or failed.
\<close>

definition released_row :: "queue_cfg \<Rightarrow> int \<Rightarrow> bool \<Rightarrow> int \<Rightarrow> string \<Rightarrow> item_row \<Rightarrow> item_row" where
  "released_row C now again n claimed_by r =
     r\<lparr>qr_status := (if again then QS_PENDING else QS_FAILED), qr_retry_count := n,
       qr_claimed_by := (if again then [] else claimed_by), qr_claimed_at := None,
       qr_claim_token := [], qr_available_at := (if again then due_after C now n else None)\<rparr>"

definition same_claim :: "item_row \<Rightarrow> item_row \<Rightarrow> bool" where
  "same_claim stale r \<longleftrightarrow> qr_id r = qr_id stale \<and> qr_status r = QS_IN_PROGRESS \<and>
     qr_claim_token r = qr_claim_token stale"

definition reclaim_one :: "queue_cfg \<Rightarrow> int \<Rightarrow> item_row \<Rightarrow> (qdb, pyexc, unit) effect" where
  "reclaim_one C now stale =
     (let retry_count = qr_retry_count stale + 1; again = (retry_count \<le> qc_max_retries C)
      in bnd (update_items (same_claim stale)
                (released_row C now again retry_count (qr_claimed_by stale)))
          (\<lambda>rowcount.
            if rowcount = 1 \<and> qr_claim_token stale \<noteq> []
            then close_attempt (qr_id stale) (qr_claim_token stale) AO_LEASE_EXPIRED now
            else ret ()))"

definition reclaim_stale :: "queue_cfg \<Rightarrow> int \<Rightarrow> (qdb, pyexc, unit) effect" where
  "reclaim_stale C now = atomically
     (bnd (items_where (stale_row C now)) (\<lambda>rows. foreach rows (reclaim_one C now)))"

definition avail_due :: "int \<Rightarrow> avail option \<Rightarrow> bool" where
  "avail_due now a = (case a of
     None \<Rightarrow> True | Some (Due us) \<Rightarrow> us \<le> now | Some (NonCanonical s) \<Rightarrow> s \<le> iso_micro now)"

definition eligible :: "int \<Rightarrow> item_row \<Rightarrow> bool" where
  "eligible now r \<longleftrightarrow> qr_status r = QS_PENDING \<and> avail_due now (qr_available_at r)"

definition oldest_eligible :: "int \<Rightarrow> (qdb, pyexc, item_row option) effect" where
  "oldest_eligible now =
     bnd (items_where (eligible now)) (\<lambda>rows.
       ret (case sort_key item_order rows of [] \<Rightarrow> None | r # _ \<Rightarrow> Some r))"

text \<open>The guard of both updates: the row is still pending, with the deadline that was read.\<close>

definition still_eligible :: "item_row \<Rightarrow> int \<Rightarrow> item_row \<Rightarrow> bool" where
  "still_eligible row now r \<longleftrightarrow> qr_id r = qr_id row \<and> qr_status r = QS_PENDING \<and>
     qr_available_at r = qr_available_at row \<and> avail_due now (qr_available_at r)"

definition poison_error_type :: "pyexc \<Rightarrow> string" where
  "poison_error_type e = (if is_json_state_error e then ''JsonStateError'' else ''JSONDecodeError'')"

definition quarantined_row :: "item_row \<Rightarrow> item_row" where
  "quarantined_row r = r\<lparr>qr_status := QS_FAILED, qr_claimed_by := [], qr_claimed_at := None,
     qr_claim_token := [], qr_available_at := None\<rparr>"

definition quarantine :: "item_row \<Rightarrow> pyexc \<Rightarrow> int \<Rightarrow> int \<Rightarrow> (qdb, pyexc, unit) effect" where
  "quarantine row e now created_at = atomically
     (bnd (update_items (still_eligible row now) quarantined_row)
          (\<lambda>rowcount. if rowcount = 1
             then record_poison_event (qr_id row) (poison_error_type e) created_at else ret ()))"

definition claimed_row :: "string \<Rightarrow> int \<Rightarrow> string \<Rightarrow> item_row \<Rightarrow> item_row" where
  "claimed_row worker_id now claim_token r = r\<lparr>qr_status := QS_IN_PROGRESS,
     qr_claimed_by := worker_id, qr_claimed_at := Some (isoformat (utc_datetime now)),
     qr_claim_token := claim_token, qr_available_at := None\<rparr>"

definition claim_row ::
  "item_row \<Rightarrow> pydict \<Rightarrow> string \<Rightarrow> int \<Rightarrow> string \<Rightarrow> (qdb, pyexc, queue_item option) effect" where
  "claim_row row payload worker_id now claim_token = atomically
     (bnd (update_items (still_eligible row now) (claimed_row worker_id now claim_token))
          (\<lambda>rowcount.
            if rowcount \<noteq> 1 then ret None
            else thn (open_attempt (qr_id row) claim_token worker_id now)
                (bnd (items_where (\<lambda>r. qr_id r = qr_id row)) (\<lambda>updated.
                   lift_res (map_sum id Some (row_to_item (hd updated) (Some payload)))))))"

text \<open>
  The run of \<open>next_item\<close>: the database, and a counter of the readings taken. \<open>qn_other n\<close> is what
  the other workers commit before the transaction at reading \<open>n\<close>.
\<close>

record nst =
  qn_db :: qdb
  qn_tick :: nat

record qenv =
  qn_cfg :: queue_cfg
  qn_clock :: "nat \<Rightarrow> int"
  qn_uuid :: "nat \<Rightarrow> string"
  qn_hostname :: string
  qn_other :: "nat \<Rightarrow> qdb \<Rightarrow> qdb"

definition now_utc :: "qenv \<Rightarrow> (nst, pyexc, int) effect" where
  "now_utc K = (\<lambda>s. (Inr (qn_clock K (qn_tick s)), s\<lparr>qn_tick := Suc (qn_tick s)\<rparr>))"

definition uuid4_hex :: "qenv \<Rightarrow> (nst, pyexc, string) effect" where
  "uuid4_hex K = (\<lambda>s. (Inr (qn_uuid K (qn_tick s)), s\<lparr>qn_tick := Suc (qn_tick s)\<rparr>))"

definition in_db :: "qenv \<Rightarrow> (qdb, pyexc, 'a) effect \<Rightarrow> (nst, pyexc, 'a) effect" where
  "in_db K m = (\<lambda>s. case m (qn_other K (qn_tick s) (qn_db s)) of
     (r, db) \<Rightarrow> (r, s\<lparr>qn_db := db, qn_tick := Suc (qn_tick s)\<rparr>))"

text \<open>The \<open>while True\<close> loop; \<open>None\<close> says that the fuel ran out.\<close>

fun claim_loop :: "nat \<Rightarrow> qenv \<Rightarrow> string \<Rightarrow> (nst, pyexc, queue_item option option) effect" where
  "claim_loop 0 K worker_id = ret None"
| "claim_loop (Suc n) K worker_id =
     bnd (now_utc K) (\<lambda>now1.
     bnd (in_db K (oldest_eligible now1)) (\<lambda>found.
       case found of
         None \<Rightarrow> ret (Some None)
       | Some row \<Rightarrow>
           thn (lift_res (parse_available_at (qr_available_at row)))
           (case load_payload (qr_payload row) of
              Inl e \<Rightarrow>
                (if e = JSONDecodeError \<or> is_json_state_error e
                 then bnd (now_utc K) (\<lambda>now2. bnd (now_utc K) (\<lambda>now3.
                      thn (in_db K (quarantine row e now2 now3)) (claim_loop n K worker_id)))
                 else raise_exc e)
            | Inr payload \<Rightarrow>
                bnd (now_utc K) (\<lambda>now. bnd (uuid4_hex K) (\<lambda>token.
                bnd (in_db K (claim_row row payload worker_id now token)) (\<lambda>claimed.
                  case claimed of
                    None \<Rightarrow> claim_loop n K worker_id
                  | Some item \<Rightarrow> ret (Some (Some item))))))))"

definition next_item :: "nat \<Rightarrow> qenv \<Rightarrow> string \<Rightarrow> (nst, pyexc, queue_item option option) effect" where
  "next_item fuel K worker_id =
     (let worker = (if worker_id = [] then qn_hostname K else worker_id)
      in bnd (now_utc K) (\<lambda>now.
         thn (in_db K (reclaim_stale (qn_cfg K) now)) (claim_loop fuel K worker)))"

section \<open>Operations of the claim's owner\<close>

definition owns :: "string \<Rightarrow> string \<Rightarrow> string \<Rightarrow> item_row \<Rightarrow> bool" where
  "owns item_id claimed_by claim_token r \<longleftrightarrow> qr_id r = item_id \<and> qr_status r = QS_IN_PROGRESS \<and>
     qr_claimed_by r = claimed_by \<and> qr_claim_token r = claim_token \<and> claim_token \<noteq> []"

definition lease_lost :: "pyexc" where
  "lease_lost = QueueLeaseLostError ''Queue item is no longer claimed''"

definition bind_transaction ::
  "string \<Rightarrow> string \<Rightarrow> string \<Rightarrow> string \<Rightarrow> (qdb, pyexc, unit) effect" where
  "bind_transaction item_id transaction_id claimed_by claim_token = atomically
     (bnd (update_items (owns item_id claimed_by claim_token)
            (\<lambda>r. r\<lparr>qr_transaction_id := transaction_id\<rparr>))
          (\<lambda>rowcount. if rowcount \<noteq> 1 then raise_exc lease_lost else ret ()))"

definition renew_lease :: "int \<Rightarrow> string \<Rightarrow> string \<Rightarrow> string \<Rightarrow> (qdb, pyexc, unit) effect" where
  "renew_lease now item_id claimed_by claim_token = atomically
     (bnd (update_items (owns item_id claimed_by claim_token)
            (\<lambda>r. r\<lparr>qr_claimed_at := Some (isoformat (utc_datetime now))\<rparr>))
          (\<lambda>rowcount. if rowcount \<noteq> 1 then raise_exc lease_lost else ret ()))"

definition completed_row :: "item_row \<Rightarrow> item_row" where
  "completed_row r = r\<lparr>qr_status := QS_SUCCESSFUL, qr_claimed_at := None, qr_claim_token := [],
     qr_available_at := None\<rparr>"

definition complete :: "int \<Rightarrow> string \<Rightarrow> string \<Rightarrow> string \<Rightarrow> (qdb, pyexc, unit) effect" where
  "complete now item_id claimed_by claim_token = atomically
     (bnd (update_items (owns item_id claimed_by claim_token) completed_row)
          (\<lambda>rowcount. if rowcount \<noteq> 1 then raise_exc lease_lost
             else close_attempt item_id claim_token AO_SUCCESSFUL now))"

definition fail ::
  "queue_cfg \<Rightarrow> int \<Rightarrow> string \<Rightarrow> bool \<Rightarrow> string \<Rightarrow> string \<Rightarrow> (qdb, pyexc, attempt_outcome) effect" where
  "fail C now item_id retry claimed_by claim_token = atomically
     (bnd (items_where (owns item_id claimed_by claim_token)) (\<lambda>rows.
        case rows of
          [] \<Rightarrow> raise_exc lease_lost
        | row # _ \<Rightarrow>
            (let new_count = qr_retry_count row + 1;
                 again = (retry \<and> new_count \<le> qc_max_retries C);
                 outcome = (if again then AO_RETRY_SCHEDULED else AO_FAILED)
             in bnd (update_items (owns item_id claimed_by claim_token)
                      (released_row C now again new_count claimed_by))
                 (\<lambda>rowcount. if rowcount \<noteq> 1 then raise_exc lease_lost
                    else thn (close_attempt item_id claim_token outcome now) (ret outcome)))))"

section \<open>Administrative overrides\<close>

definition forced_row ::
  "queue_cfg \<Rightarrow> int \<Rightarrow> queue_status \<Rightarrow> int \<Rightarrow> item_row \<Rightarrow> item_row" where
  "forced_row C now new_status retry_count r =
     r\<lparr>qr_status := new_status, qr_retry_count := retry_count, qr_claimed_by := [],
       qr_claimed_at := None, qr_claim_token := [],
       qr_available_at := (if new_status = QS_PENDING then due_after C now retry_count else None)\<rparr>"

definition record_admin_event ::
  "string \<Rightarrow> string \<Rightarrow> string \<Rightarrow> queue_status \<Rightarrow> queue_status \<Rightarrow> int \<Rightarrow> (qdb, pyexc, unit) effect" where
  "record_admin_event item_id action reason previous_status new_status now = upd_st (\<lambda>db.
     db\<lparr>q_admin_seq := q_admin_seq db + 1, q_admin := q_admin db @
        [\<lparr>qe_sequence = q_admin_seq db + 1, qe_item_id = item_id, qe_action = action,
          qe_reason = reason, qe_previous_status = previous_status, qe_new_status = new_status,
          qe_created_at = isoformat (utc_datetime now)\<rparr>]\<rparr>)"

definition force_transition ::
  "queue_cfg \<Rightarrow> int \<Rightarrow> string \<Rightarrow> queue_status \<Rightarrow> string \<Rightarrow> bool \<Rightarrow> (qdb, pyexc, unit) effect" where
  "force_transition C now item_id requested_status reason retry =
     (if blank reason then raise_exc (ValueErr ''queue.admin.reason'')
      else atomically
        (bnd (items_where (\<lambda>r. qr_id r = item_id)) (\<lambda>rows.
           case rows of
             [] \<Rightarrow> raise_exc (KeyErr ''Queue item not found'')
           | row # _ \<Rightarrow>
               (let retry_count = (if requested_status = QS_FAILED then qr_retry_count row + 1
                                   else qr_retry_count row);
                    new_status = (if requested_status = QS_FAILED \<and> retry \<and> retry_count \<le> qc_max_retries C
                                  then QS_PENDING else requested_status);
                    action = (if requested_status = QS_SUCCESSFUL then ''force_complete'' else ''force_fail'')
                in thn (update_items (\<lambda>r. qr_id r = item_id) (forced_row C now new_status retry_count))
                  (thn (if qr_claim_token row \<noteq> []
                        then close_attempt item_id (qr_claim_token row) AO_ADMIN_OVERRIDE now else ret ())
                       (record_admin_event item_id action (strip reason) (qr_status row) new_status now))))))"

definition force_complete :: "queue_cfg \<Rightarrow> int \<Rightarrow> string \<Rightarrow> string \<Rightarrow> (qdb, pyexc, unit) effect" where
  "force_complete C now item_id reason = force_transition C now item_id QS_SUCCESSFUL reason False"

definition force_fail :: "queue_cfg \<Rightarrow> int \<Rightarrow> string \<Rightarrow> string \<Rightarrow> bool \<Rightarrow> (qdb, pyexc, unit) effect" where
  "force_fail C now item_id reason retry = force_transition C now item_id QS_FAILED reason retry"

section \<open>Reading the journals\<close>

text \<open>
  Rows are decoded when they are read: a timestamp that is no ISO text raises. The record keeps the
  text its \<open>datetime\<close> was read from.
\<close>

definition row_to_attempt :: "queue_attempt \<Rightarrow> pyexc + queue_attempt" where
  "row_to_attempt row =
     (case parse_iso (qa_started_at row) of
        Inl e \<Rightarrow> Inl e
      | Inr _ \<Rightarrow>
          (case qa_finished_at row of
             None \<Rightarrow> Inr row
           | Some t \<Rightarrow> if t = empty_text then Inr (row\<lparr>qa_finished_at := None\<rparr>)
               else map_sum id (\<lambda>_. row) (parse_iso t)))"

definition row_to_poison_event :: "queue_poison_event \<Rightarrow> pyexc + queue_poison_event" where
  "row_to_poison_event row = map_sum id (\<lambda>_. row) (parse_iso (qp_created_at row))"

definition row_to_admin_event :: "queue_admin_event \<Rightarrow> pyexc + queue_admin_event" where
  "row_to_admin_event row = map_sum id (\<lambda>_. row) (parse_iso (qe_created_at row))"

definition of_item :: "string option \<Rightarrow> string \<Rightarrow> bool" where
  "of_item item_id i \<longleftrightarrow> (case item_id of None \<Rightarrow> True | Some j \<Rightarrow> i = j)"

definition list_admin_events :: "string option \<Rightarrow> (qdb, pyexc, queue_admin_event list) effect" where
  "list_admin_events item_id = (\<lambda>db.
     (decode_rows row_to_admin_event
        (sort_key qe_sequence (filter (\<lambda>e. of_item item_id (qe_item_id e)) (q_admin db))), db))"

definition list_attempts :: "string option \<Rightarrow> (qdb, pyexc, queue_attempt list) effect" where
  "list_attempts item_id = (\<lambda>db.
     (decode_rows row_to_attempt
        (sort_key qa_sequence (filter (\<lambda>a. of_item item_id (qa_item_id a)) (q_attempts db))), db))"

definition list_poison_events :: "string option \<Rightarrow> (qdb, pyexc, queue_poison_event list) effect" where
  "list_poison_events item_id = (\<lambda>db.
     (decode_rows row_to_poison_event
        (sort_key qp_sequence (filter (\<lambda>e. of_item item_id (qp_item_id e)) (q_poison db))), db))"

definition empty_queue :: qdb where
  "empty_queue = \<lparr>q_items = [], q_attempts = [], q_admin = [], q_poison = [],
     q_attempt_seq = 0, q_admin_seq = 0, q_poison_seq = 0\<rparr>"

end
