(* ===== verification/QueueInv.thy ===== *)
theory QueueInv
  imports Queue
begin

text \<open>
  The invariant of the queue's tables and the steps that keep it. A \<open>qstep\<close> is one committed (or
  rolled back) database transaction of any worker or operator, so a sequence of them is any
  interleaving of their operations.
\<close>

section \<open>Rows by identifier\<close>

definition set_row :: "string \<Rightarrow> (item_row \<Rightarrow> item_row) \<Rightarrow> qdb \<Rightarrow> qdb" where
  "set_row item_id f db =
     db\<lparr>q_items := map (\<lambda>r. if qr_id r = item_id then f r else r) (q_items db)\<rparr>"

definition close_open :: "string \<Rightarrow> string \<Rightarrow> attempt_outcome \<Rightarrow> int \<Rightarrow> qdb \<Rightarrow> qdb" where
  "close_open item_id claim_token outcome now db = snd (close_attempt item_id claim_token outcome now db)"

lemma close_open_simps [simp]:
  "q_items (close_open i t oc now db) = q_items db"
  "q_attempt_seq (close_open i t oc now db) = q_attempt_seq db"
  "q_admin (close_open i t oc now db) = q_admin db"
  "q_poison (close_open i t oc now db) = q_poison db"
  "q_admin_seq (close_open i t oc now db) = q_admin_seq db"
  "q_poison_seq (close_open i t oc now db) = q_poison_seq db"
  by (simp_all add: close_open_def close_attempt_def upd_st_def)

lemma set_row_simps [simp]:
  "q_attempts (set_row i f db) = q_attempts db"
  "q_attempt_seq (set_row i f db) = q_attempt_seq db"
  "q_admin (set_row i f db) = q_admin db" "q_poison (set_row i f db) = q_poison db"
  "q_admin_seq (set_row i f db) = q_admin_seq db" "q_poison_seq (set_row i f db) = q_poison_seq db"
  by (simp_all add: set_row_def)

lemma close_attempt_run: "close_attempt i t oc now db = (Inr (), close_open i t oc now db)"
  by (simp add: close_open_def close_attempt_def upd_st_def)

text \<open>With distinct identifiers an update that names one touches at most that row.\<close>

lemma distinct_filter_singleton:
  assumes "distinct (map qr_id xs)" "r \<in> set xs" "P r" "\<And>x. P x \<Longrightarrow> qr_id x = qr_id r"
  shows "filter P xs = [r]"
  using assms(1,2)
proof (induction xs)
  case (Cons x xs)
  show ?case
  proof (cases "x = r")
    case True
    have "\<not> P y" if "y \<in> set xs" for y
    proof
      assume "P y"
      then have "qr_id y = qr_id x" using assms(4) True by simp
      moreover have "qr_id y \<in> qr_id ` set xs" using that by simp
      ultimately show False using Cons.prems(1) by simp
    qed
    with True assms(3) show ?thesis by (simp add: filter_empty_conv)
  next
    case False
    then have "r \<in> set xs" "qr_id x \<noteq> qr_id r" using Cons.prems by force+
    with Cons assms(4) show ?thesis by auto
  qed
qed simp

lemma update_items_run:
  assumes d: "distinct (map qr_id (q_items db))" and P: "\<And>x. P x \<Longrightarrow> qr_id x = i"
  shows "(\<exists>r \<in> set (q_items db). P r \<and> qr_id r = i \<and> update_items P f db = (Inr 1, set_row i f db)) \<or>
    ((\<forall>r \<in> set (q_items db). \<not> P r) \<and> update_items P f db = (Inr 0, db))"
proof (cases "\<exists>r \<in> set (q_items db). P r")
  case True
  then obtain r where r: "r \<in> set (q_items db)" "P r" by blast
  then have ir: "qr_id r = i" using P by simp
  have "filter P (q_items db) = [r]"
    by (rule distinct_filter_singleton [OF d r(1), of P, OF r(2)]) (simp add: P ir)
  moreover have "P x \<longleftrightarrow> qr_id x = i" if "x \<in> set (q_items db)" for x
    using r P d that by (auto simp: distinct_map inj_on_def)
  then have "map (\<lambda>r. if P r then f r else r) (q_items db) =
      map (\<lambda>r. if qr_id r = i then f r else r) (q_items db)" by simp
  ultimately show ?thesis using r P by (auto simp: update_items_def set_row_def)
next
  case False
  then have "filter P (q_items db) = []" "map (\<lambda>r. if P r then f r else r) (q_items db) = q_items db"
    by (auto simp: filter_empty_conv intro: map_idI)
  with False show ?thesis by (simp add: update_items_def)
qed

section \<open>The invariant\<close>

definition open_for :: "item_row \<Rightarrow> queue_attempt \<Rightarrow> bool" where
  "open_for r a \<longleftrightarrow> attempt_open (qr_id r) (qr_claim_token r) a"

text \<open>
  Identifiers are unique; a row carries a claim token exactly while it is in progress, and then
  there is an open attempt with that token; every open attempt belongs to the current claim of its
  item; attempts are unique per item and token, numbered consecutively, finished exactly when they
  have an outcome; a pending item has been retried at most \<open>max_retries\<close> times.
\<close>

definition rows_ok :: "queue_cfg \<Rightarrow> item_row list \<Rightarrow> bool" where
  "rows_ok C rows \<longleftrightarrow> distinct (map qr_id rows) \<and>
     (\<forall>r \<in> set rows. (qr_status r = QS_IN_PROGRESS \<longleftrightarrow> qr_claim_token r \<noteq> []) \<and>
        0 \<le> qr_retry_count r \<and> (qr_status r = QS_PENDING \<longrightarrow> qr_retry_count r \<le> qc_max_retries C))"

definition attempts_ok :: "int \<Rightarrow> queue_attempt list \<Rightarrow> bool" where
  "attempts_ok n as \<longleftrightarrow> 0 \<le> n \<and> map qa_sequence as = [1..n] \<and>
     distinct (map (\<lambda>a. (qa_item_id a, qa_claim_token a)) as) \<and>
     (\<forall>a \<in> set as. qa_claim_token a \<noteq> [] \<and> (qa_outcome a = None \<longleftrightarrow> qa_finished_at a = None))"

definition claims_ok :: "item_row list \<Rightarrow> queue_attempt list \<Rightarrow> bool" where
  "claims_ok rows as \<longleftrightarrow>
     (\<forall>r \<in> set rows. qr_claim_token r \<noteq> [] \<longrightarrow> (\<exists>a \<in> set as. open_for r a)) \<and>
     (\<forall>a \<in> set as. qa_outcome a = None \<longrightarrow> (\<exists>r \<in> set rows. open_for r a))"

definition qinv :: "queue_cfg \<Rightarrow> qdb \<Rightarrow> bool" where
  "qinv C db \<longleftrightarrow> rows_ok C (q_items db) \<and> attempts_ok (q_attempt_seq db) (q_attempts db) \<and>
     claims_ok (q_items db) (q_attempts db)"

lemma qinv_empty: "qinv C empty_queue"
  by (simp add: qinv_def empty_queue_def rows_ok_def attempts_ok_def claims_ok_def)

section \<open>The shapes of a change\<close>

lemma set_set_row:
  "set (q_items (set_row i f db)) = (\<lambda>r. if qr_id r = i then f r else r) ` set (q_items db)"
  by (simp add: set_row_def)

lemma map_id_set_row: "(\<And>r. qr_id (f r) = qr_id r) \<Longrightarrow>
  map qr_id (q_items (set_row i f db)) = map qr_id (q_items db)"
  by (simp add: set_row_def)

text \<open>Fields that carry no claim may change freely.\<close>

lemma claims_ok_image:
  assumes "\<And>r a. open_for (g r) a = open_for r a" "\<And>r. qr_claim_token (g r) = qr_claim_token r"
    "set rows' = g ` set rows"
  shows "claims_ok rows' as = claims_ok rows as"
  by (simp add: claims_ok_def assms)

lemma qinv_edit:
  assumes inv: "qinv C db" and f: "\<And>r. qr_id (f r) = qr_id r" "\<And>r. qr_claim_token (f r) = qr_claim_token r"
    and ok: "\<And>r. r \<in> set (q_items db) \<Longrightarrow> qr_id r = i \<Longrightarrow>
      (qr_status (f r) = QS_IN_PROGRESS \<longleftrightarrow> qr_status r = QS_IN_PROGRESS) \<and>
      (qr_status (f r) = QS_PENDING \<longrightarrow> qr_status r = QS_PENDING) \<and> qr_retry_count (f r) = qr_retry_count r"
  shows "qinv C (set_row i f db)"
proof -
  have "claims_ok (q_items (set_row i f db)) (q_attempts db) = claims_ok (q_items db) (q_attempts db)"
    by (rule claims_ok_image [OF _ _ set_set_row]) (simp_all add: open_for_def f)
  moreover have "rows_ok C (q_items (set_row i f db))"
    using inv ok by (auto simp: qinv_def rows_ok_def map_id_set_row f set_set_row)
  ultimately show ?thesis using inv by (simp add: qinv_def)
qed

text \<open>Releasing a claim: the row gives its token up and the attempt is closed.\<close>

lemma attempts_close:
  "q_attempts (close_open i t oc now db) = map (\<lambda>a. if attempt_open i t a
     then a\<lparr>qa_outcome := Some oc, qa_finished_at := Some (isoformat (utc_datetime now))\<rparr> else a)
     (q_attempts db)"
  by (simp add: close_open_def close_attempt_def upd_st_def)

lemma attempts_ok_close:
  assumes "attempts_ok n (q_attempts db)"
  shows "attempts_ok n (q_attempts (close_open i t oc now db))"
proof -
  have "map qa_sequence (q_attempts (close_open i t oc now db)) = map qa_sequence (q_attempts db)"
    "map (\<lambda>a. (qa_item_id a, qa_claim_token a)) (q_attempts (close_open i t oc now db)) =
     map (\<lambda>a. (qa_item_id a, qa_claim_token a)) (q_attempts db)"
    by (auto simp: attempts_close)
  moreover have "\<forall>a \<in> set (q_attempts (close_open i t oc now db)).
      qa_claim_token a \<noteq> [] \<and> (qa_outcome a = None \<longleftrightarrow> qa_finished_at a = None)"
    using assms by (auto simp: attempts_close attempts_ok_def)
  ultimately show ?thesis using assms by (simp add: attempts_ok_def)
qed

lemma close_open_empty:
  "qinv C db \<Longrightarrow> close_open i [] oc now db = db"
proof -
  assume "qinv C db"
  then have "q_attempts (close_open i [] oc now db) = q_attempts db"
    by (auto simp: attempts_close qinv_def attempts_ok_def attempt_open_def intro!: map_idI)
  then show ?thesis by (simp add: close_open_def close_attempt_def upd_st_def)
qed

lemma qinv_release:
  assumes inv: "qinv C db" and r: "r \<in> set (q_items db)"
    and f: "qr_id (f r) = qr_id r" "qr_claim_token (f r) = []" "qr_status (f r) \<noteq> QS_IN_PROGRESS"
      "0 \<le> qr_retry_count (f r)"
      "qr_status (f r) = QS_PENDING \<longrightarrow> qr_retry_count (f r) \<le> qc_max_retries C"
  shows "qinv C (set_row (qr_id r) f (close_open (qr_id r) (qr_claim_token r) oc now db))"
proof -
  let ?db = "set_row (qr_id r) f (close_open (qr_id r) (qr_claim_token r) oc now db)"
  have d: "distinct (map qr_id (q_items db))" using inv by (simp add: qinv_def rows_ok_def)
  have same: "x = r" if "x \<in> set (q_items db)" "qr_id x = qr_id r" for x
    using d r that by (auto simp: distinct_map inj_on_def)
  have ids: "map qr_id (q_items ?db) = map qr_id (q_items db)"
    using f(1) same by (auto simp: set_row_def)
  have rows: "set (q_items ?db) = insert (f r) {x \<in> set (q_items db). qr_id x \<noteq> qr_id r}"
    using r same by (auto simp: set_set_row image_iff)
  have "rows_ok C (q_items ?db)"
    using inv f ids rows by (auto simp: qinv_def rows_ok_def)
  moreover have "attempts_ok (q_attempt_seq ?db) (q_attempts ?db)"
    using inv attempts_ok_close by (simp add: qinv_def)
  moreover have "claims_ok (q_items ?db) (q_attempts ?db)"
    unfolding claims_ok_def
  proof (intro conjI ballI impI)
    fix x assume "x \<in> set (q_items ?db)" "qr_claim_token x \<noteq> []"
    then have x: "x \<in> set (q_items db)" "qr_id x \<noteq> qr_id r" using rows f(2) by auto
    then obtain a where "a \<in> set (q_attempts db)" "open_for x a"
      using inv \<open>qr_claim_token x \<noteq> []\<close> by (auto simp: qinv_def claims_ok_def)
    with x show "\<exists>a \<in> set (q_attempts ?db). open_for x a"
      by (auto simp: attempts_close open_for_def attempt_open_def intro!: bexI [of _ a])
  next
    fix a assume a: "a \<in> set (q_attempts ?db)" "qa_outcome a = None"
    then have "a \<in> set (q_attempts db)" "\<not> attempt_open (qr_id r) (qr_claim_token r) a"
      by (auto simp: attempts_close)
    moreover from this obtain x where x: "x \<in> set (q_items db)" "open_for x a"
      using inv a by (auto simp: qinv_def claims_ok_def)
    ultimately have "qr_id x \<noteq> qr_id r" using same by (auto simp: open_for_def)
    with x rows show "\<exists>x \<in> set (q_items ?db). open_for x a" by auto
  qed
  ultimately show ?thesis by (simp add: qinv_def)
qed

text \<open>Taking a claim on an unclaimed row.\<close>

lemma qinv_claim:
  assumes inv: "qinv C db" and r: "r \<in> set (q_items db)" "qr_claim_token r = []"
    and t: "t \<noteq> []" "(qr_id r, t) \<notin> (\<lambda>a. (qa_item_id a, qa_claim_token a)) ` set (q_attempts db)"
    and f: "qr_id (f r) = qr_id r" "qr_claim_token (f r) = t" "qr_status (f r) = QS_IN_PROGRESS"
      "qr_retry_count (f r) = qr_retry_count r"
    and run: "open_attempt (qr_id r) t by now (set_row (qr_id r) f db) = (q, db')"
  shows "qinv C db' \<and> q = Inr () \<and> q_items db' = q_items (set_row (qr_id r) f db)"
proof -
  let ?a = "\<lparr>qa_sequence = q_attempt_seq db + 1, qa_item_id = qr_id r, qa_claim_token = t,
    qa_claimed_by = by, qa_started_at = isoformat (utc_datetime now), qa_finished_at = None,
    qa_outcome = None\<rparr>"
  have fresh: "\<not> (\<exists>a \<in> set (q_attempts db). qa_item_id a = qr_id r \<and> qa_claim_token a = t)"
    using t(2) by force
  have db': "q = Inr ()" "db' = (set_row (qr_id r) f db)\<lparr>q_attempt_seq := q_attempt_seq db + 1,
      q_attempts := q_attempts db @ [?a]\<rparr>"
    using run fresh by (auto simp: open_attempt_def)
  have d: "distinct (map qr_id (q_items db))" using inv by (simp add: qinv_def rows_ok_def)
  have same: "x = r" if "x \<in> set (q_items db)" "qr_id x = qr_id r" for x
    using d r that by (auto simp: distinct_map inj_on_def)
  have ids: "map qr_id (q_items (set_row (qr_id r) f db)) = map qr_id (q_items db)"
    using f(1) same by (auto simp: set_row_def)
  have rows: "set (q_items (set_row (qr_id r) f db)) =
      insert (f r) {x \<in> set (q_items db). qr_id x \<noteq> qr_id r}"
    using r same by (auto simp: set_set_row image_iff)
  have "rows_ok C (q_items db')"
    using inv f ids rows t r by (auto simp: qinv_def rows_ok_def db')
  moreover have "attempts_ok (q_attempt_seq db') (q_attempts db')"
  proof -
    have "[1..q_attempt_seq db + 1] = [1..q_attempt_seq db] @ [q_attempt_seq db + 1]"
      using inv by (simp add: qinv_def attempts_ok_def upto_rec2)
    then show ?thesis using inv t by (auto simp: qinv_def attempts_ok_def db')
  qed
  moreover have "claims_ok (q_items db') (q_attempts db')"
    unfolding claims_ok_def
  proof (intro conjI ballI impI)
    fix x assume x: "x \<in> set (q_items db')" "qr_claim_token x \<noteq> []"
    show "\<exists>a \<in> set (q_attempts db'). open_for x a"
    proof (cases "x = f r")
      case True
      then show ?thesis by (simp add: db' open_for_def attempt_open_def f)
    next
      case False
      then show ?thesis using x inv rows by (auto simp: db' qinv_def claims_ok_def)
    qed
  next
    fix a assume a: "a \<in> set (q_attempts db')" "qa_outcome a = None"
    show "\<exists>x \<in> set (q_items db'). open_for x a"
    proof (cases "a = ?a")
      case True
      then show ?thesis using rows f by (auto simp: db' open_for_def attempt_open_def)
    next
      case False
      then have "a \<in> set (q_attempts db)" using a by (auto simp: db')
      then obtain x where x: "x \<in> set (q_items db)" "open_for x a" and "qa_claim_token a \<noteq> []"
        using inv a unfolding qinv_def claims_ok_def attempts_ok_def by blast
      then have "qr_id x \<noteq> qr_id r" using same r(2) by (auto simp: open_for_def attempt_open_def)
      with x rows show ?thesis by (auto simp: db')
    qed
  qed
  ultimately show ?thesis using db' by (simp add: qinv_def)
qed

section \<open>What each operation does\<close>

definition ids_ok :: "qdb \<Rightarrow> bool" where
  "ids_ok db \<longleftrightarrow> distinct (map qr_id (q_items db))"

lemma qinv_ids: "qinv C db \<Longrightarrow> ids_ok db"
  by (simp add: qinv_def rows_ok_def ids_ok_def)

lemma close_set_row:
  "close_open i t oc now (set_row j f db) = set_row j f (close_open i t oc now db)"
  by (simp add: close_open_def close_attempt_def upd_st_def set_row_def)

text \<open>Nobody owns an item under a token that is not current.\<close>

definition owned :: "string \<Rightarrow> string \<Rightarrow> string \<Rightarrow> qdb \<Rightarrow> bool" where
  "owned i by t db \<longleftrightarrow> (\<exists>r \<in> set (q_items db). owns i by t r)"

lemma update_owned:
  assumes "ids_ok db"
  shows "update_items (owns i by t) f db =
    (if owned i by t db then (Inr 1, set_row i f db) else (Inr 0, db))"
  using update_items_run [of db "owns i by t" i f] assms
  by (auto simp: ids_ok_def owned_def owns_def)

lemma complete_run:
  assumes "ids_ok db"
  shows "complete now i by t db =
    (if owned i by t db then (Inr (), set_row i completed_row (close_open i t AO_SUCCESSFUL now db))
     else (Inl lease_lost, db))"
  by (simp add: complete_def atomically_def bnd_def update_owned [OF assms] raise_exc_def
      close_attempt_run close_set_row)

lemma bind_transaction_run:
  assumes "ids_ok db"
  shows "bind_transaction i tx by t db =
    (if owned i by t db then (Inr (), set_row i (\<lambda>r. r\<lparr>qr_transaction_id := tx\<rparr>) db)
     else (Inl lease_lost, db))"
  by (simp add: bind_transaction_def atomically_def bnd_def update_owned [OF assms] raise_exc_def ret_def)

lemma renew_lease_run:
  assumes "ids_ok db"
  shows "renew_lease now i by t db =
    (if owned i by t db
     then (Inr (), set_row i (\<lambda>r. r\<lparr>qr_claimed_at := Some (isoformat (utc_datetime now))\<rparr>) db)
     else (Inl lease_lost, db))"
  by (simp add: renew_lease_def atomically_def bnd_def update_owned [OF assms] raise_exc_def ret_def)

lemma filter_owned:
  assumes "ids_ok db" "r \<in> set (q_items db)" "owns i by t r"
  shows "filter (owns i by t) (q_items db) = [r]"
  using assms by (intro distinct_filter_singleton) (auto simp: ids_ok_def owns_def)

text \<open>Is the item delivered again after its next retry?\<close>

definition again_after :: "queue_cfg \<Rightarrow> bool \<Rightarrow> item_row \<Rightarrow> bool" where
  "again_after C retry r \<longleftrightarrow> retry \<and> qr_retry_count r + 1 \<le> qc_max_retries C"

definition failed_outcome :: "queue_cfg \<Rightarrow> bool \<Rightarrow> item_row \<Rightarrow> attempt_outcome" where
  "failed_outcome C retry r = (if again_after C retry r then AO_RETRY_SCHEDULED else AO_FAILED)"

lemma fail_run_owned:
  assumes ids: "ids_ok db" and r: "r \<in> set (q_items db)" "owns i by t r"
  shows "fail C now i retry by t db = (Inr (failed_outcome C retry r),
    set_row i (released_row C now (again_after C retry r) (qr_retry_count r + 1) by)
      (close_open i t (failed_outcome C retry r) now db))"
proof -
  have owned: "owned i by t db" using r by (auto simp: owned_def)
  show ?thesis
    using filter_owned [OF ids r] owned
    by (simp add: fail_def atomically_def bnd_def items_where_def Let_def update_owned [OF ids]
        again_after_def failed_outcome_def thn_def close_attempt_run close_set_row ret_def)
qed

lemma fail_run_lost:
  assumes "\<not> owned i by t db"
  shows "fail C now i retry by t db = (Inl lease_lost, db)"
proof -
  have "filter (owns i by t) (q_items db) = []" using assms by (auto simp: owned_def filter_empty_conv)
  then show ?thesis by (simp add: fail_def atomically_def bnd_def items_where_def raise_exc_def)
qed

lemma update_same_claim:
  assumes "ids_ok db"
  shows "update_items (same_claim x) f db =
    (if \<exists>r \<in> set (q_items db). same_claim x r then (Inr 1, set_row (qr_id x) f db) else (Inr 0, db))"
  using update_items_run [of db "same_claim x" "qr_id x" f] assms
  by (auto simp: ids_ok_def same_claim_def)

lemma reclaim_one_run:
  assumes ids: "ids_ok db"
  shows "reclaim_one C now x db =
    (if \<exists>r \<in> set (q_items db). same_claim x r
     then (Inr (), set_row (qr_id x)
         (released_row C now (again_after C True x) (qr_retry_count x + 1) (qr_claimed_by x))
         (if qr_claim_token x = [] then db else close_open (qr_id x) (qr_claim_token x) AO_LEASE_EXPIRED now db))
     else (Inr (), db))"
  by (simp add: reclaim_one_def Let_def again_after_def bnd_def update_same_claim [OF ids]
      close_attempt_run close_set_row ret_def)

lemma still_eligible_run:
  assumes "ids_ok db"
  shows "update_items (still_eligible row now) f db =
    (if \<exists>r \<in> set (q_items db). still_eligible row now r then (Inr 1, set_row (qr_id row) f db)
     else (Inr 0, db))"
  using update_items_run [of db "still_eligible row now" "qr_id row" f] assms
  by (auto simp: ids_ok_def still_eligible_def)

lemma quarantine_run:
  assumes "ids_ok db"
  shows "quarantine row e now at_us db =
    (if \<exists>r \<in> set (q_items db). still_eligible row now r
     then (Inr (), snd (record_poison_event (qr_id row) (poison_error_type e) at_us
                          (set_row (qr_id row) quarantined_row db)))
     else (Inr (), db))"
  by (simp add: quarantine_def atomically_def bnd_def still_eligible_run [OF assms]
      record_poison_event_def upd_st_def ret_def)

text \<open>A claim either changes nothing, or takes the row and opens its attempt.\<close>

lemma claim_row_run:
  assumes ids: "ids_ok db" and run: "claim_row row payload worker now token db = (q, db')"
  shows "(db' = db \<and> (\<forall>item. q \<noteq> Inr (Some item))) \<or>
    (\<exists>r item. r \<in> set (q_items db) \<and> still_eligible row now r \<and> q = Inr (Some item) \<and>
       open_attempt (qr_id r) token worker now (set_row (qr_id r) (claimed_row worker now token) db) = (Inr (), db') \<and>
       row_to_item (claimed_row worker now token r) (Some payload) = Inr item)"
proof (cases "\<exists>r \<in> set (q_items db). still_eligible row now r")
  case True
  then obtain r where r: "r \<in> set (q_items db)" "still_eligible row now r" by blast
  have i: "qr_id row = qr_id r" using r by (simp add: still_eligible_def)
  let ?u = "set_row (qr_id r) (claimed_row worker now token) db"
  obtain o1 v where att: "open_attempt (qr_id r) token worker now ?u = (o1, v)"
    by (cases "open_attempt (qr_id r) token worker now ?u")
  have items: "q_items v = q_items ?u" using att by (auto simp: open_attempt_def split: if_splits)
  have "filter (\<lambda>x. qr_id x = qr_id r) (q_items ?u) = [claimed_row worker now token r]"
  proof -
    have "filter (\<lambda>x. qr_id x = qr_id r) (q_items db) = [r]"
      by (rule distinct_filter_singleton) (use ids r in \<open>auto simp: ids_ok_def\<close>)
    moreover have "filter (\<lambda>x. qr_id x = qr_id r) (q_items ?u) =
        map (claimed_row worker now token) (filter (\<lambda>x. qr_id x = qr_id r) (q_items db))"
      by (simp add: set_row_def filter_map o_def claimed_row_def)
    ultimately show ?thesis by simp
  qed
  then have rows: "items_where (\<lambda>x. qr_id x = qr_id r) v = (Inr [claimed_row worker now token r], v)"
    by (simp add: items_where_def items)
  have upd: "update_items (still_eligible row now) (claimed_row worker now token) db = (Inr 1, ?u)"
    using True by (simp add: still_eligible_run [OF ids] i)
  show ?thesis
  proof (cases o1)
    case (Inl e)
    then have "claim_row row payload worker now token db = (Inl e, db)"
      by (simp add: claim_row_def atomically_def bnd_def thn_def upd i att)
    with run show ?thesis by auto
  next
    case (Inr x)
    then have claim: "claim_row row payload worker now token db =
        (case row_to_item (claimed_row worker now token r) (Some payload) of
           Inl e \<Rightarrow> (Inl e, db) | Inr item \<Rightarrow> (Inr (Some item), v))"
      by (simp add: claim_row_def atomically_def bnd_def thn_def upd i att rows lift_res_def split: sum.split)
    show ?thesis
    proof (cases "row_to_item (claimed_row worker now token r) (Some payload)")
      case (Inl e)
      with claim run show ?thesis by auto
    next
      case (Inr item)
      with claim run r att \<open>o1 = Inr x\<close> show ?thesis by auto
    qed
  qed
next
  case False
  then have "claim_row row payload worker now token db = (Inr None, db)"
    by (simp add: claim_row_def atomically_def bnd_def still_eligible_run [OF ids] ret_def)
  with run show ?thesis by auto
qed

text \<open>A forced transition: the row, its open attempt, the audit entry.\<close>

definition forced_status :: "queue_cfg \<Rightarrow> queue_status \<Rightarrow> bool \<Rightarrow> item_row \<Rightarrow> queue_status" where
  "forced_status C requested retry r =
     (if requested = QS_FAILED \<and> again_after C retry r then QS_PENDING else requested)"

definition forced_count :: "queue_status \<Rightarrow> item_row \<Rightarrow> int" where
  "forced_count requested r =
     (if requested = QS_FAILED then qr_retry_count r + 1 else qr_retry_count r)"

lemma force_run:
  assumes ids: "ids_ok db" and reason: "\<not> blank reason"
    and r: "r \<in> set (q_items db)" "qr_id r = i"
  shows "force_transition C now i requested reason retry db =
    (Inr (), snd (record_admin_event i
       (if requested = QS_SUCCESSFUL then ''force_complete'' else ''force_fail'') (strip reason)
       (qr_status r) (forced_status C requested retry r) now
       (set_row i (forced_row C now (forced_status C requested retry r) (forced_count requested r))
         (if qr_claim_token r = [] then db else close_open i (qr_claim_token r) AO_ADMIN_OVERRIDE now db))))"
proof -
  have "filter (\<lambda>x. qr_id x = i) (q_items db) = [r]"
    by (rule distinct_filter_singleton) (use ids r in \<open>auto simp: ids_ok_def\<close>)
  moreover have "update_items (\<lambda>x. qr_id x = i) f db = (Inr 1, set_row i f db)" for f
    using update_items_run [of db "\<lambda>x. qr_id x = i" i f] ids r by (auto simp: ids_ok_def)
  ultimately show ?thesis
    using reason
    by (simp add: force_transition_def atomically_def bnd_def items_where_def Let_def thn_def
        forced_status_def forced_count_def again_after_def record_admin_event_def upd_st_def
        close_attempt_run close_set_row ret_def)
qed

lemma force_missing:
  assumes "i \<notin> qr_id ` set (q_items db)"
  shows "snd (force_transition C now i requested reason retry db) = db"
proof -
  have "filter (\<lambda>x. qr_id x = i) (q_items db) = []" using assms by (auto simp: filter_empty_conv)
  then show ?thesis
    by (simp add: force_transition_def atomically_def bnd_def items_where_def raise_exc_def)
qed

section \<open>Every operation keeps the invariant\<close>

lemma qinv_admin: "qinv C (snd (record_admin_event i action reason st st' now db)) = qinv C db"
  by (simp add: record_admin_event_def upd_st_def qinv_def)

lemma qinv_poison: "qinv C (snd (record_poison_event i e now db)) = qinv C db"
  by (simp add: record_poison_event_def upd_st_def qinv_def)

lemma qinv_complete:
  assumes inv: "qinv C db"
  shows "qinv C (snd (complete now i by t db))"
proof (cases "owned i by t db")
  case True
  then obtain r where r: "r \<in> set (q_items db)" "owns i by t r" by (auto simp: owned_def)
  then have it: "i = qr_id r" "t = qr_claim_token r" by (simp_all add: owns_def)
  have "qinv C (set_row (qr_id r) completed_row (close_open (qr_id r) (qr_claim_token r) AO_SUCCESSFUL now db))"
    using inv r by (intro qinv_release) (auto simp: completed_row_def qinv_def rows_ok_def)
  with True show ?thesis by (simp add: complete_run [OF qinv_ids [OF inv]] it)
next
  case False
  with inv show ?thesis by (simp add: complete_run [OF qinv_ids [OF inv]])
qed

lemma qinv_bind: "qinv C db \<Longrightarrow> qinv C (snd (bind_transaction i tx by t db))"
  by (auto simp: bind_transaction_run [OF qinv_ids] intro: qinv_edit)

lemma qinv_renew: "qinv C db \<Longrightarrow> qinv C (snd (renew_lease now i by t db))"
  by (auto simp: renew_lease_run [OF qinv_ids] intro: qinv_edit)

lemma qinv_retry_nonneg: "qinv C db \<Longrightarrow> r \<in> set (q_items db) \<Longrightarrow> 0 \<le> qr_retry_count r"
  by (simp add: qinv_def rows_ok_def)

lemma qinv_released:
  assumes "qinv C db" "r \<in> set (q_items db)" "0 \<le> n" "again \<Longrightarrow> n \<le> qc_max_retries C"
  shows "qinv C (set_row (qr_id r) (released_row C now again n by)
    (close_open (qr_id r) (qr_claim_token r) oc now db))"
  using assms by (intro qinv_release) (auto simp: released_row_def)

lemma qinv_fail:
  assumes inv: "qinv C db"
  shows "qinv C (snd (fail C now i retry by t db))"
proof (cases "owned i by t db")
  case True
  then obtain r where r: "r \<in> set (q_items db)" "owns i by t r" by (auto simp: owned_def)
  then have it: "i = qr_id r" "t = qr_claim_token r" by (simp_all add: owns_def)
  have "qinv C (set_row (qr_id r) (released_row C now (again_after C retry r) (qr_retry_count r + 1) by)
      (close_open (qr_id r) (qr_claim_token r) (failed_outcome C retry r) now db))"
    using qinv_retry_nonneg [OF inv r(1)] by (intro qinv_released inv r(1)) (auto simp: again_after_def)
  then show ?thesis
    unfolding fail_run_owned [OF qinv_ids [OF inv] r] by (simp add: it)
qed (simp add: fail_run_lost inv)

lemma qinv_reclaim_one:
  assumes inv: "qinv C db" and x: "0 \<le> qr_retry_count x"
  shows "qinv C (snd (reclaim_one C now x db))"
proof (cases "\<exists>r \<in> set (q_items db). same_claim x r")
  case True
  then obtain r where r: "r \<in> set (q_items db)" "qr_id x = qr_id r" "qr_status r = QS_IN_PROGRESS"
    "qr_claim_token x = qr_claim_token r" by (auto simp: same_claim_def)
  then have "qr_claim_token x \<noteq> []" using inv by (auto simp: qinv_def rows_ok_def)
  with qinv_released [OF inv r(1)] r x True show ?thesis
    by (simp add: reclaim_one_run [OF qinv_ids [OF inv]] again_after_def)
next
  case False
  with inv show ?thesis by (simp add: reclaim_one_run [OF qinv_ids [OF inv]])
qed

lemma qinv_foreach_reclaim:
  assumes "qinv C db" "\<forall>x \<in> set xs. 0 \<le> qr_retry_count x"
  shows "\<exists>db'. foreach xs (reclaim_one C now) db = (Inr (), db') \<and> qinv C db'"
  using assms
proof (induction xs arbitrary: db)
  case (Cons x xs)
  have "fst (reclaim_one C now x db) = Inr ()"
    by (simp add: reclaim_one_run [OF qinv_ids [OF Cons.prems(1)]])
  then obtain db1 where one: "reclaim_one C now x db = (Inr (), db1)" by (metis prod.collapse)
  have "qinv C db1" using qinv_reclaim_one [of C db x now] Cons.prems one by simp
  with Cons one show ?case by (auto simp: thn_def bnd_def)
qed (simp add: ret_def)

lemma reclaim_stale_run:
  assumes "qinv C db"
  shows "\<exists>db'. reclaim_stale C now db = (Inr (), db') \<and>
    foreach (filter (stale_row C now) (q_items db)) (reclaim_one C now) db = (Inr (), db') \<and> qinv C db'"
proof -
  have "\<forall>x \<in> set (filter (stale_row C now) (q_items db)). 0 \<le> qr_retry_count x"
    using assms by (simp add: qinv_retry_nonneg)
  from qinv_foreach_reclaim [OF assms this, of now] show ?thesis
    by (auto simp: reclaim_stale_def atomically_def bnd_def items_where_def)
qed

lemma qinv_reclaim: "qinv C db \<Longrightarrow> qinv C (snd (reclaim_stale C now db))"
  using reclaim_stale_run [of C db now] by auto

lemma qinv_quarantine:
  assumes inv: "qinv C db"
  shows "qinv C (snd (quarantine row e now at_us db))"
proof (cases "\<exists>r \<in> set (q_items db). still_eligible row now r")
  case True
  then obtain r where r: "r \<in> set (q_items db)" "still_eligible row now r" by blast
  then have row: "qr_id row = qr_id r" and t: "qr_claim_token r = []"
    using inv by (auto simp: still_eligible_def qinv_def rows_ok_def)
  have "qinv C (set_row (qr_id r) quarantined_row (close_open (qr_id r) (qr_claim_token r) AO_FAILED now db))"
    using inv r by (intro qinv_release) (auto simp: quarantined_row_def qinv_retry_nonneg)
  then have "qinv C (set_row (qr_id r) quarantined_row db)" by (simp add: t close_open_empty [OF inv])
  then show ?thesis
    using True by (simp add: quarantine_run [OF qinv_ids [OF inv]] row qinv_poison)
next
  case False
  with inv show ?thesis by (simp add: quarantine_run [OF qinv_ids [OF inv]])
qed

text \<open>
  A claim token only has to be non-empty: a pair of item and token that was used before makes the
  insertion of the attempt fail, and the claim is rolled back.
\<close>

lemma qinv_claim_row:
  assumes inv: "qinv C db" and t: "t \<noteq> []"
  shows "qinv C (snd (claim_row row payload worker now t db))"
proof -
  obtain q db' where run: "claim_row row payload worker now t db = (q, db')"
    by (cases "claim_row row payload worker now t db")
  from claim_row_run [OF qinv_ids [OF inv] run] show ?thesis
  proof (elim disjE exE conjE)
    fix r item
    assume r: "r \<in> set (q_items db)" "still_eligible row now r"
      and att: "open_attempt (qr_id r) t worker now (set_row (qr_id r) (claimed_row worker now t) db) = (Inr (), db')"
    have "qr_claim_token r = []" using inv r by (auto simp: still_eligible_def qinv_def rows_ok_def)
    then have "qinv C db' \<and> (Inr () :: pyexc + unit) = Inr () \<and>
        q_items db' = q_items (set_row (qr_id r) (claimed_row worker now t) db)"
      using inv r t att
      by (intro qinv_claim [where t = t]) (auto simp: claimed_row_def open_attempt_def split: if_splits)
    with run show ?thesis by simp
  qed (use inv run in simp)
qed

lemma qinv_force:
  assumes inv: "qinv C db" and req: "requested = QS_SUCCESSFUL \<or> requested = QS_FAILED"
  shows "qinv C (snd (force_transition C now i requested reason retry db))"
proof (cases "blank reason \<or> i \<notin> qr_id ` set (q_items db)")
  case True
  then show ?thesis
    using inv force_missing [of i db C now requested reason retry]
    by (auto simp: force_transition_def raise_exc_def)
next
  case False
  then obtain r where r: "r \<in> set (q_items db)" "qr_id r = i" by auto
  let ?st = "forced_status C requested retry r" and ?n = "forced_count requested r"
  have "qinv C (set_row (qr_id r) (forced_row C now ?st ?n)
      (close_open (qr_id r) (qr_claim_token r) AO_ADMIN_OVERRIDE now db))"
    using inv r req qinv_retry_nonneg [OF inv r(1)]
    by (intro qinv_release)
      (auto simp: forced_row_def forced_status_def forced_count_def again_after_def)
  then have "qinv C (set_row i (forced_row C now ?st ?n)
      (if qr_claim_token r = [] then db else close_open i (qr_claim_token r) AO_ADMIN_OVERRIDE now db))"
    using r close_open_empty [OF inv] by auto
  then show ?thesis
    using False by (simp add: force_run [OF qinv_ids [OF inv] _ r] qinv_admin)
qed

text \<open>An item as it is first put into the queue.\<close>

definition fresh_item :: "queue_cfg \<Rightarrow> queue_item \<Rightarrow> bool" where
  "fresh_item C item \<longleftrightarrow> qi_status item = QS_PENDING \<and> qi_claim_token item = [] \<and>
     0 \<le> qi_retry_count item \<and> qi_retry_count item \<le> qc_max_retries C"

lemma insert_item_run:
  "insert_item item db =
     (case validate_json_object (of_dict (qi_payload item)) of Inl e \<Rightarrow> (Inl e, db)
      | Inr _ \<Rightarrow> (case available_at_text (qi_available_at item) of Inl e \<Rightarrow> (Inl e, db)
        | Inr due \<Rightarrow> if qi_id item \<in> qr_id ` set (q_items db)
            then (Inl (IntegrityError ''UNIQUE constraint failed: queue_items.id''), db)
            else (Inr (), db\<lparr>q_items := q_items db @ [item_to_row item due]\<rparr>)))"
  by (auto simp: insert_item_def thn_def bnd_def lift_res_def split: sum.split)

lemma qinv_insert: "qinv C db \<Longrightarrow> fresh_item C item \<Longrightarrow> qinv C (snd (insert_item item db))"
  by (auto simp: insert_item_run qinv_def rows_ok_def claims_ok_def item_to_row_def fresh_item_def
      split: sum.split)

lemma snd_atomically: "snd (atomically m s) = s \<or> snd (atomically m s) = snd (m s)"
  by (auto simp: atomically_def split: prod.split sum.split)

lemma qinv_add: "qinv C db \<Longrightarrow> fresh_item C item \<Longrightarrow> qinv C (snd (add item db))"
  using snd_atomically [of "insert_item item" db] qinv_insert by (auto simp: add_def)

lemma add_once_body:
  "snd (add_once item active db) = db \<or> snd (add_once item active db) = snd (insert_item item db)"
  by (auto simp: add_once_def atomically_def bnd_def items_where_def thn_def ret_def
      split: prod.splits sum.splits)

lemma qinv_add_once: "qinv C db \<Longrightarrow> fresh_item C item \<Longrightarrow> qinv C (snd (add_once item active db))"
  using add_once_body [of item active db] qinv_insert by auto

end
