(* ===== verification/QueueSteps.thy ===== *)
theory QueueSteps
  imports QueueInv
begin

text \<open>
  Interleavings of queue operations: the step relation of committed transactions, the journals that
  only grow, the safety of claim tokens, and \<open>next_item\<close> as a sequence of such steps.
\<close>

section \<open>Steps\<close>

text \<open>\<open>qstep C adm\<close>: one transaction of a worker, or of an operator when \<open>adm\<close> holds.\<close>

inductive qstep :: "queue_cfg \<Rightarrow> bool \<Rightarrow> qdb \<Rightarrow> qdb \<Rightarrow> bool" for C adm where
  s_add: "fresh_item C item \<Longrightarrow> qstep C adm db (snd (add item db))"
| s_add_once: "fresh_item C item \<Longrightarrow> qstep C adm db (snd (add_once item active db))"
| s_reclaim: "qstep C adm db (snd (reclaim_stale C now db))"
| s_quarantine: "qstep C adm db (snd (quarantine row e now at_us db))"
| s_claim: "t \<noteq> [] \<Longrightarrow> qstep C adm db (snd (claim_row row payload worker now t db))"
| s_bind: "qstep C adm db (snd (bind_transaction i tx worker t db))"
| s_renew: "qstep C adm db (snd (renew_lease now i worker t db))"
| s_complete: "qstep C adm db (snd (complete now i worker t db))"
| s_fail: "qstep C adm db (snd (fail C now i retry worker t db))"
| s_force: "adm \<Longrightarrow> requested = QS_SUCCESSFUL \<or> requested = QS_FAILED \<Longrightarrow>
    qstep C adm db (snd (force_transition C now i requested reason retry db))"

inductive_cases qstepE: "qstep C adm db db'"

definition qsteps :: "queue_cfg \<Rightarrow> bool \<Rightarrow> qdb \<Rightarrow> qdb \<Rightarrow> bool" where
  "qsteps C adm = (qstep C adm)\<^sup>*\<^sup>*"

lemma qstep_qinv: "qstep C adm db db' \<Longrightarrow> qinv C db \<Longrightarrow> qinv C db'"
  by (erule qstepE)
    (simp_all add: qinv_add qinv_add_once qinv_reclaim qinv_quarantine qinv_claim_row qinv_bind
      qinv_renew qinv_complete qinv_fail qinv_force)

lemma qsteps_qinv: "qsteps C adm db db' \<Longrightarrow> qinv C db \<Longrightarrow> qinv C db'"
  unfolding qsteps_def by (induction rule: rtranclp_induct) (auto intro: qstep_qinv)

lemma qsteps_refl [simp]: "qsteps C adm db db"
  by (simp add: qsteps_def)

lemma qsteps_trans: "qsteps C adm a b \<Longrightarrow> qsteps C adm b c \<Longrightarrow> qsteps C adm a c"
  by (simp add: qsteps_def)

lemma qsteps_one: "qstep C adm a b \<Longrightarrow> qsteps C adm a b"
  by (simp add: qsteps_def)

section \<open>Journals only grow\<close>

definition same_attempt :: "queue_attempt \<Rightarrow> queue_attempt \<Rightarrow> bool" where
  "same_attempt a b \<longleftrightarrow> qa_sequence b = qa_sequence a \<and> qa_item_id b = qa_item_id a \<and>
     qa_claim_token b = qa_claim_token a \<and> qa_claimed_by b = qa_claimed_by a \<and>
     qa_started_at b = qa_started_at a \<and> (qa_outcome a \<noteq> None \<longrightarrow> b = a)"

text \<open>
  Attempts keep their place and their identity, and never change again once they have an outcome;
  the operator's and the quarantine events are only appended to.
\<close>

definition journal :: "qdb \<Rightarrow> qdb \<Rightarrow> bool" where
  "journal db db' \<longleftrightarrow>
     length (q_attempts db) \<le> length (q_attempts db') \<and>
     (\<forall>k < length (q_attempts db). same_attempt (q_attempts db ! k) (q_attempts db' ! k)) \<and>
     (\<exists>new. q_admin db' = q_admin db @ new) \<and> (\<exists>new. q_poison db' = q_poison db @ new)"

lemma journal_refl [simp]: "journal db db"
  by (simp add: journal_def same_attempt_def)

lemma same_attempt_trans: "same_attempt a b \<Longrightarrow> same_attempt b c \<Longrightarrow> same_attempt a c"
  by (auto simp: same_attempt_def)

lemma journal_trans: "journal a b \<Longrightarrow> journal b c \<Longrightarrow> journal a c"
  unfolding journal_def by (auto intro: same_attempt_trans)

lemma journal_same: "q_attempts db' = q_attempts db \<Longrightarrow> q_admin db' = q_admin db \<Longrightarrow>
  q_poison db' = q_poison db \<Longrightarrow> journal db db'"
  by (simp add: journal_def same_attempt_def)

text \<open>
  A relation that every statement of the queue keeps, and therefore every step and every interleaving.
\<close>

locale journal_relation = step_relation R for R :: "qdb \<Rightarrow> qdb \<Rightarrow> bool" +
  assumes kept_items [keeps_intros]: "keeps R (items_where P)"
    and kept_update [keeps_intros]: "keeps R (update_items P f)"
    and kept_insert [keeps_intros]: "keeps R (insert_item item)"
    and kept_open [keeps_intros]: "keeps R (open_attempt i t worker now)"
    and kept_close [keeps_intros]: "keeps R (close_attempt i t oc now)"
    and kept_poison [keeps_intros]: "keeps R (record_poison_event i e now)"
    and kept_admin [keeps_intros]: "keeps R (record_admin_event i action reason st st' now)"
begin

lemma qstep_kept: "qstep C adm db db' \<Longrightarrow> R db db'"
proof (erule qstepE)
  show "R db db'" if "db' = snd (add item db)" for item
    unfolding that add_def by (rule keepsD [OF _ surjective_pairing]) (auto intro!: keeps_intros)
  show "R db db'" if "db' = snd (add_once item active db)" for item active
    unfolding that add_once_def by (rule keepsD [OF _ surjective_pairing]) (auto intro!: keeps_intros)
  show "R db db'" if "db' = snd (reclaim_stale C now db)" for now
    unfolding that reclaim_stale_def reclaim_one_def Let_def
    by (rule keepsD [OF _ surjective_pairing]) (auto intro!: keeps_intros)
  show "R db db'" if "db' = snd (quarantine row e now at_us db)" for row e now at_us
    unfolding that quarantine_def by (rule keepsD [OF _ surjective_pairing]) (auto intro!: keeps_intros)
  show "R db db'" if "db' = snd (claim_row row payload worker now t db)" for row payload worker now t
    unfolding that claim_row_def by (rule keepsD [OF _ surjective_pairing]) (auto intro!: keeps_intros)
  show "R db db'" if "db' = snd (bind_transaction i tx worker t db)" for i tx worker t
    unfolding that bind_transaction_def
    by (rule keepsD [OF _ surjective_pairing]) (auto intro!: keeps_intros)
  show "R db db'" if "db' = snd (renew_lease now i worker t db)" for i now worker t
    unfolding that renew_lease_def by (rule keepsD [OF _ surjective_pairing]) (auto intro!: keeps_intros)
  show "R db db'" if "db' = snd (complete now i worker t db)" for i now worker t
    unfolding that complete_def by (rule keepsD [OF _ surjective_pairing]) (auto intro!: keeps_intros)
  show "R db db'" if "db' = snd (fail C now i retry worker t db)" for i now retry worker t
    unfolding that fail_def Let_def
    by (rule keepsD [OF _ surjective_pairing]) (auto intro!: keeps_intros split: list.split)
  show "R db db'" if "db' = snd (force_transition C now i requested reason retry db)"
    for i now requested reason retry
    unfolding that force_transition_def Let_def
    by (rule keepsD [OF _ surjective_pairing]) (auto intro!: keeps_intros split: list.split)
qed

lemma qsteps_kept: "qsteps C adm db db' \<Longrightarrow> R db db'"
  unfolding qsteps_def by (induction rule: rtranclp_induct) (auto intro: qstep_kept R_refl R_trans)

end

lemma journal_items: "keeps journal (items_where P)"
  by (rule keepsI) (simp add: items_where_def)

lemma journal_update: "keeps journal (update_items P f)"
  by (rule keepsI) (simp add: update_items_def journal_same)

lemma journal_close: "keeps journal (close_attempt i t oc now)"
  by (rule keepsI)
    (auto simp: close_attempt_def upd_st_def journal_def same_attempt_def attempt_open_def)

lemma journal_open: "keeps journal (open_attempt i t worker now)"
  by (rule keepsI) (auto simp: open_attempt_def journal_def same_attempt_def nth_append)

lemma journal_poison: "keeps journal (record_poison_event i e now)"
  by (rule keepsI) (simp add: record_poison_event_def upd_st_def journal_def same_attempt_def)

lemma journal_admin: "keeps journal (record_admin_event i action reason st st' now)"
  by (rule keepsI) (simp add: record_admin_event_def upd_st_def journal_def same_attempt_def)

lemma journal_insert: "keeps journal (insert_item item)"
  by (rule keepsI) (simp add: insert_item_run journal_same split: sum.split)

interpretation journal: journal_relation journal
  by unfold_locales (auto intro: journal_trans journal_items journal_update journal_insert journal_open
      journal_close journal_poison journal_admin)

lemmas qstep_journal = journal.qstep_kept
lemmas qsteps_journal = journal.qsteps_kept

text \<open>Poison events are numbered one after the other.\<close>

definition poison_numbered :: "qdb \<Rightarrow> bool" where
  "poison_numbered db \<longleftrightarrow> 0 \<le> q_poison_seq db \<and> map qp_sequence (q_poison db) = [1..q_poison_seq db]"

definition numbering_kept :: "qdb \<Rightarrow> qdb \<Rightarrow> bool" where
  "numbering_kept db db' \<longleftrightarrow> (poison_numbered db \<longrightarrow> poison_numbered db')"

lemma numbering_same:
  "q_poison db' = q_poison db \<Longrightarrow> q_poison_seq db' = q_poison_seq db \<Longrightarrow> numbering_kept db db'"
  by (simp add: numbering_kept_def poison_numbered_def)

interpretation numbering: journal_relation numbering_kept
proof
  show "keeps numbering_kept (record_poison_event i e now)" for i e now
    by (rule keepsI)
      (auto simp: record_poison_event_def upd_st_def numbering_kept_def poison_numbered_def upto_rec2)
  show "keeps numbering_kept (insert_item item)" for item
    by (rule keepsI) (simp add: insert_item_run numbering_same split: sum.split)
qed (auto intro!: keepsI numbering_same simp: numbering_kept_def items_where_def update_items_def
    open_attempt_def close_attempt_def record_admin_event_def upd_st_def)

section \<open>Claim tokens\<close>

text \<open>Whoever owns an item holds the token of its one open attempt.\<close>

lemma owned_open:
  assumes inv: "qinv C db" and "owned i worker t db"
  shows "\<exists>a \<in> set (q_attempts db). attempt_open i t a"
  using assms by (auto simp: owned_def owns_def qinv_def claims_ok_def open_for_def)

lemma closed_not_owned:
  assumes inv: "qinv C db" and a: "a \<in> set (q_attempts db)" "qa_outcome a \<noteq> None"
  shows "\<not> owned (qa_item_id a) worker (qa_claim_token a) db"
proof
  assume "owned (qa_item_id a) worker (qa_claim_token a) db"
  from owned_open [OF inv this] obtain b where b: "b \<in> set (q_attempts db)"
    "attempt_open (qa_item_id a) (qa_claim_token a) b" by blast
  have "distinct (map (\<lambda>a. (qa_item_id a, qa_claim_token a)) (q_attempts db))"
    using inv by (simp add: qinv_def attempts_ok_def)
  with a b have "b = a" by (auto simp: attempt_open_def distinct_map inj_on_def)
  with a b show False by (simp add: attempt_open_def)
qed

lemma closed_stays:
  assumes "journal db db'" and a: "a \<in> set (q_attempts db)" "qa_outcome a \<noteq> None"
  shows "a \<in> set (q_attempts db')"
proof -
  from a(1) obtain k where k: "k < length (q_attempts db)" "q_attempts db ! k = a"
    by (auto simp: in_set_conv_nth)
  with assms have "q_attempts db' ! k = a" "k < length (q_attempts db')"
    by (auto simp: journal_def same_attempt_def)
  then show ?thesis by auto
qed

text \<open>Two claims of one item never overlap: one open attempt at most.\<close>

lemma one_open_attempt:
  assumes inv: "qinv C db" and a: "a \<in> set (q_attempts db)" "qa_outcome a = None"
    and b: "b \<in> set (q_attempts db)" "qa_outcome b = None" and same: "qa_item_id a = qa_item_id b"
  shows "a = b"
proof -
  obtain r r' where r: "r \<in> set (q_items db)" "open_for r a" and r': "r' \<in> set (q_items db)" "open_for r' b"
    using inv a b unfolding qinv_def claims_ok_def by blast
  have "distinct (map qr_id (q_items db))" using inv by (simp add: qinv_def rows_ok_def)
  with r r' same have "r = r'" by (auto simp: open_for_def attempt_open_def distinct_map inj_on_def)
  then have "(qa_item_id a, qa_claim_token a) = (qa_item_id b, qa_claim_token b)"
    using r r' by (auto simp: open_for_def attempt_open_def)
  moreover have "distinct (map (\<lambda>a. (qa_item_id a, qa_claim_token a)) (q_attempts db))"
    using inv by (simp add: qinv_def attempts_ok_def)
  ultimately show ?thesis using a b by (auto simp: distinct_map inj_on_def)
qed

section \<open>Items that are done stay done\<close>

text \<open>
  Rows are never deleted and keep their identity; a row that is successful or failed is left exactly
  as it is by every step that is not an operator's.
\<close>

definition row_done :: "item_row \<Rightarrow> bool" where
  "row_done r \<longleftrightarrow> qr_status r = QS_SUCCESSFUL \<or> qr_status r = QS_FAILED"

definition same_item :: "item_row \<Rightarrow> item_row \<Rightarrow> bool" where
  "same_item r r' \<longleftrightarrow> qr_id r' = qr_id r \<and> qr_reference r' = qr_reference r \<and>
     qr_payload r' = qr_payload r \<and> qr_created_at r' = qr_created_at r"

definition rows_kept :: "bool \<Rightarrow> qdb \<Rightarrow> qdb \<Rightarrow> bool" where
  "rows_kept adm db db' \<longleftrightarrow> length (q_items db) \<le> length (q_items db') \<and>
     (\<forall>k < length (q_items db). same_item (q_items db ! k) (q_items db' ! k) \<and>
        (\<not> adm \<and> row_done (q_items db ! k) \<longrightarrow> q_items db' ! k = q_items db ! k))"

lemma rows_kept_trans: "rows_kept adm a b \<Longrightarrow> rows_kept adm b c \<Longrightarrow> rows_kept adm a c"
  unfolding rows_kept_def same_item_def by auto

interpretation rows: step_relation "rows_kept adm"
  by unfold_locales (auto intro: rows_kept_trans simp: rows_kept_def same_item_def)

lemma rows_same: "q_items db' = q_items db \<Longrightarrow> rows_kept adm db db'"
  by (simp add: rows_kept_def same_item_def)

lemma rows_items [keeps_intros]: "keeps (rows_kept adm) (items_where P)"
  by (rule keepsI) (simp add: items_where_def rows_same)

lemma rows_update:
  "(\<And>r. same_item r (f r)) \<Longrightarrow> (\<And>r. \<not> adm \<Longrightarrow> P r \<Longrightarrow> \<not> row_done r) \<Longrightarrow>
   keeps (rows_kept adm) (update_items P f)"
  by (rule keepsI) (auto simp: update_items_def rows_kept_def same_item_def)

lemma rows_other [keeps_intros]:
  "keeps (rows_kept adm) (close_attempt i t oc now)" "keeps (rows_kept adm) (open_attempt i t worker now)"
  "keeps (rows_kept adm) (record_poison_event i e now)"
  "keeps (rows_kept adm) (record_admin_event i action reason st st' now)"
  by (rule keepsI, simp add: close_attempt_def open_attempt_def record_poison_event_def
      record_admin_event_def upd_st_def rows_same)+

lemma rows_insert [keeps_intros]: "keeps (rows_kept adm) (insert_item item)"
  by (rule keepsI) (auto simp: insert_item_run rows_kept_def same_item_def nth_append split: sum.split)

lemmas row_changes = released_row_def quarantined_row_def claimed_row_def completed_row_def
  forced_row_def same_item_def row_done_def owns_def same_claim_def still_eligible_def

lemma qstep_rows: "qstep C adm db db' \<Longrightarrow> rows_kept adm db db'"
proof (erule qstepE)
  show "rows_kept adm db db'" if "db' = snd (add item db)" for item
    unfolding that add_def by (rule keepsD [OF _ surjective_pairing]) (auto intro!: keeps_intros)
  show "rows_kept adm db db'" if "db' = snd (add_once item active db)" for item active
    unfolding that add_once_def by (rule keepsD [OF _ surjective_pairing]) (auto intro!: keeps_intros)
  show "rows_kept adm db db'" if "db' = snd (reclaim_stale C now db)" for now
    unfolding that reclaim_stale_def reclaim_one_def Let_def
    by (rule keepsD [OF _ surjective_pairing]) (auto intro!: keeps_intros rows_update simp: row_changes)
  show "rows_kept adm db db'" if "db' = snd (quarantine row e now at_us db)" for row e now at_us
    unfolding that quarantine_def
    by (rule keepsD [OF _ surjective_pairing]) (auto intro!: keeps_intros rows_update simp: row_changes)
  show "rows_kept adm db db'" if "db' = snd (claim_row row payload worker now t db)" for row payload worker now t
    unfolding that claim_row_def
    by (rule keepsD [OF _ surjective_pairing]) (auto intro!: keeps_intros rows_update simp: row_changes)
  show "rows_kept adm db db'" if "db' = snd (bind_transaction i tx worker t db)" for i tx worker t
    unfolding that bind_transaction_def
    by (rule keepsD [OF _ surjective_pairing]) (auto intro!: keeps_intros rows_update simp: row_changes)
  show "rows_kept adm db db'" if "db' = snd (renew_lease now i worker t db)" for i now worker t
    unfolding that renew_lease_def
    by (rule keepsD [OF _ surjective_pairing]) (auto intro!: keeps_intros rows_update simp: row_changes)
  show "rows_kept adm db db'" if "db' = snd (complete now i worker t db)" for i now worker t
    unfolding that complete_def
    by (rule keepsD [OF _ surjective_pairing]) (auto intro!: keeps_intros rows_update simp: row_changes)
  show "rows_kept adm db db'" if "db' = snd (fail C now i retry worker t db)" for i now retry worker t
    unfolding that fail_def Let_def
    by (rule keepsD [OF _ surjective_pairing])
      (auto intro!: keeps_intros rows_update simp: row_changes split: list.split)
  show "rows_kept adm db db'" if adm and "db' = snd (force_transition C now i requested reason retry db)"
    for i now requested reason retry
    unfolding that(2) force_transition_def Let_def
    by (rule keepsD [OF _ surjective_pairing])
      (use that(1) in \<open>auto intro!: keeps_intros rows_update simp: row_changes split: list.split\<close>)
qed

lemma qsteps_rows: "qsteps C adm db db' \<Longrightarrow> rows_kept adm db db'"
  unfolding qsteps_def
  by (induction rule: rtranclp_induct) (auto intro: qstep_rows rows_kept_trans rows.R_refl)

lemma done_row_stays:
  assumes "qsteps C False db db'" "r \<in> set (q_items db)" "row_done r"
  shows "r \<in> set (q_items db')"
proof -
  obtain k where k: "k < length (q_items db)" "q_items db ! k = r"
    using assms(2) by (auto simp: in_set_conv_nth)
  with qsteps_rows [OF assms(1)] assms(3) have "q_items db' ! k = r" "k < length (q_items db')"
    by (auto simp: rows_kept_def)
  then show ?thesis by auto
qed

section \<open>next_item as a sequence of steps\<close>

definition nst_steps :: "queue_cfg \<Rightarrow> bool \<Rightarrow> nst \<Rightarrow> nst \<Rightarrow> bool" where
  "nst_steps C adm s t \<longleftrightarrow> qsteps C adm (qn_db s) (qn_db t)"

interpretation nst: step_relation "nst_steps C adm"
  by unfold_locales (auto simp: nst_steps_def intro: qsteps_trans)

text \<open>The other workers take steps of their own, and \<open>uuid4\<close> is never empty.\<close>

definition fair_env :: "bool \<Rightarrow> qenv \<Rightarrow> bool" where
  "fair_env adm K \<longleftrightarrow> (\<forall>n. qn_uuid K n \<noteq> []) \<and> (\<forall>n db. qsteps (qn_cfg K) adm db (qn_other K n db))"

lemma nst_now [keeps_intros]: "keeps (nst_steps C adm) (now_utc K)"
  by (rule keepsI) (simp add: now_utc_def nst_steps_def)

lemma nst_in_db:
  assumes K: "fair_env adm K" and m: "\<And>db. qsteps (qn_cfg K) adm db (snd (m db))"
  shows "keeps (nst_steps (qn_cfg K) adm) (in_db K m)"
proof (rule keepsI)
  fix s :: nst
  have "qsteps (qn_cfg K) adm (qn_db s) (qn_other K (qn_tick s) (qn_db s))"
    using K by (simp add: fair_env_def)
  then have "qsteps (qn_cfg K) adm (qn_db s) (snd (m (qn_other K (qn_tick s) (qn_db s))))"
    using m by (rule qsteps_trans)
  then show "nst_steps (qn_cfg K) adm s (snd (in_db K m s))"
    by (simp add: nst_steps_def in_db_def case_prod_beta)
qed

lemma uuid_bnd:
  assumes K: "fair_env adm K" and f: "\<And>t. t \<noteq> [] \<Longrightarrow> keeps (nst_steps C adm) (f t)"
  shows "keeps (nst_steps C adm) (bnd (uuid4_hex K) f)"
proof (rule keepsI)
  fix s :: nst
  have "keeps (nst_steps C adm) (f (qn_uuid K (qn_tick s)))" using K by (intro f) (simp add: fair_env_def)
  then have "nst_steps C adm (s\<lparr>qn_tick := Suc (qn_tick s)\<rparr>)
      (snd (f (qn_uuid K (qn_tick s)) (s\<lparr>qn_tick := Suc (qn_tick s)\<rparr>)))"
    by (simp add: keeps_def)
  then show "nst_steps C adm s (snd (bnd (uuid4_hex K) f s))"
    by (simp add: bnd_def uuid4_hex_def nst_steps_def)
qed

lemma claim_loop_steps:
  assumes K: "fair_env adm K"
  shows "keeps (nst_steps (qn_cfg K) adm) (claim_loop n K worker)"
proof (induction n)
  case 0
  then show ?case by (auto intro!: keeps_intros)
next
  case (Suc n)
  have oldest: "keeps (nst_steps (qn_cfg K) adm) (in_db K (oldest_eligible now))" for now
    by (rule nst_in_db [OF K]) (simp add: oldest_eligible_def bnd_def items_where_def ret_def)
  have quar: "keeps (nst_steps (qn_cfg K) adm) (in_db K (quarantine row e now at_us))" for row e now at_us
    by (rule nst_in_db [OF K]) (intro qsteps_one s_quarantine)
  have claim: "keeps (nst_steps (qn_cfg K) adm) (in_db K (claim_row row payload worker now t))"
    if "t \<noteq> []" for row payload now t
    by (rule nst_in_db [OF K]) (intro qsteps_one s_claim that)
  show ?case
    using Suc
    by (auto intro!: keeps_intros oldest quar claim uuid_bnd [OF K] split: option.split sum.split)
qed

lemma next_item_steps:
  assumes K: "fair_env adm K"
  shows "keeps (nst_steps (qn_cfg K) adm) (next_item n K worker)"
proof -
  have "keeps (nst_steps (qn_cfg K) adm) (in_db K (reclaim_stale (qn_cfg K) now))" for now
    by (rule nst_in_db [OF K]) (intro qsteps_one s_reclaim)
  then show ?thesis
    unfolding next_item_def Let_def by (auto intro!: keeps_intros claim_loop_steps [OF K])
qed

section \<open>next_item without interference\<close>

text \<open>No other worker commits in between, and the clock never goes back.\<close>

definition quiet_env :: "qenv \<Rightarrow> bool" where
  "quiet_env K \<longleftrightarrow> (\<forall>n db. qn_other K n db = db) \<and> mono (qn_clock K)"

definition undecodable :: "item_row \<Rightarrow> bool" where
  "undecodable r \<longleftrightarrow> (case load_payload (qr_payload r) of Inl _ \<Rightarrow> True | Inr _ \<Rightarrow> False)"

lemma load_payload_error:
  "load_payload raw = Inl e \<Longrightarrow> e = JSONDecodeError \<or> is_json_state_error e"
  by (auto simp: load_payload_def dest: load_object_error)

lemma oldest_eligible_run:
  "oldest_eligible now db = (Inr (case sort_key item_order (filter (eligible now) (q_items db)) of
     [] \<Rightarrow> None | r # _ \<Rightarrow> Some r), db)"
  by (simp add: oldest_eligible_def bnd_def items_where_def ret_def)

lemma oldest_cases:
  obtains "oldest_eligible now db = (Inr None, db)" "\<forall>x \<in> set (q_items db). \<not> eligible now x"
  | r where "oldest_eligible now db = (Inr (Some r), db)" "r \<in> set (q_items db)" "eligible now r"
      "\<forall>x \<in> set (q_items db). eligible now x \<longrightarrow> item_order r \<le> item_order x"
proof (cases "sort_key item_order (filter (eligible now) (q_items db))")
  case Nil
  then have "filter (eligible now) (q_items db) = []" by (metis length_0_conv length_sort)
  then show thesis using that(1) by (simp add: oldest_eligible_run filter_empty_conv)
next
  case (Cons r rs)
  have "set (r # rs) = set (filter (eligible now) (q_items db))"
    using Cons by (metis set_sort)
  then have mem: "x \<in> set (r # rs) \<longleftrightarrow> x \<in> set (q_items db) \<and> eligible now x" for x by auto
  have "sorted (map item_order (r # rs))" using Cons by (metis sorted_sort_key)
  then have least: "item_order r \<le> item_order x" if "x \<in> set (r # rs)" for x using that by auto
  show thesis
  proof (rule that(2))
    show "oldest_eligible now db = (Inr (Some r), db)" using Cons by (simp add: oldest_eligible_run)
    show "r \<in> set (q_items db)" "eligible now r" using mem [of r] by auto
    show "\<forall>x \<in> set (q_items db). eligible now x \<longrightarrow> item_order r \<le> item_order x"
      using least mem by blast
  qed
qed

lemma quiet_later: "quiet_env K \<Longrightarrow> m \<le> n \<Longrightarrow> qn_clock K m \<le> qn_clock K n"
  by (simp add: quiet_env_def monoD)

lemma due_later:
  "avail_due now1 a \<Longrightarrow> now1 \<le> now2 \<Longrightarrow> parse_available_at a = Inr d \<Longrightarrow> avail_due now2 a"
  by (auto simp: avail_due_def parse_available_at_def split: option.splits avail.splits)

lemma claim_row_some:
  assumes "ids_ok db" "r \<in> set (q_items db)" "still_eligible r now r"
  shows "fst (claim_row r payload worker now t db) \<noteq> Inr None"
proof -
  have upd: "update_items (still_eligible r now) (claimed_row worker now t) db =
      (Inr 1, set_row (qr_id r) (claimed_row worker now t) db)"
    using still_eligible_run [OF assms(1)] assms(2,3) by auto
  have "thn (open_attempt (qr_id r) t worker now) (bnd (items_where (\<lambda>x. qr_id x = qr_id r))
      (\<lambda>updated. lift_res (map_sum id Some (row_to_item (hd updated) (Some payload))))) u \<noteq> (Inr None, v)"
    for u v
  proof
    assume "thn (open_attempt (qr_id r) t worker now) (bnd (items_where (\<lambda>x. qr_id x = qr_id r))
      (\<lambda>updated. lift_res (map_sum id Some (row_to_item (hd updated) (Some payload))))) u = (Inr None, v)"
    then obtain z where "map_sum id Some (z :: pyexc + queue_item) = Inr None"
      by (auto simp: thn_Inr bnd_Inr lift_res_def)
    then show False by (cases z) auto
  qed
  then have "claim_row r payload worker now t db \<noteq> (Inr None, v)" for v
    by (simp add: claim_row_def atomically_Inr bnd_Inr upd)
  then show ?thesis by (metis prod.collapse)
qed

text \<open>One round of the loop: nothing due, a quarantine, or a claim.\<close>

lemma claim_loop_round:
  fixes s :: nst
  assumes K: "quiet_env K" and ids: "ids_ok (qn_db s)"
  obtains (none) "fst (claim_loop (Suc n) K worker s) = Inr (Some None)"
      "\<forall>x \<in> set (q_items (qn_db s)). \<not> eligible (qn_clock K (qn_tick s)) x"
  | (bad) r e tick now2 now3 where "r \<in> set (q_items (qn_db s))" "eligible (qn_clock K (qn_tick s)) r"
      "undecodable r" "still_eligible r now2 r" "qn_tick s \<le> tick"
      "claim_loop (Suc n) K worker s = claim_loop n K worker
         (s\<lparr>qn_db := snd (quarantine r e now2 now3 (qn_db s)), qn_tick := tick\<rparr>)"
  | (claim) r where "r \<in> set (q_items (qn_db s))" "eligible (qn_clock K (qn_tick s)) r"
      "\<forall>x \<in> set (q_items (qn_db s)). eligible (qn_clock K (qn_tick s)) x \<longrightarrow> item_order r \<le> item_order x"
      "fst (claim_loop (Suc n) K worker s) \<noteq> Inr None"
      "\<And>item. fst (claim_loop (Suc n) K worker s) = Inr (Some item) \<Longrightarrow> \<exists>x. item = Some x \<and> qi_id x = qr_id r"
proof -
  let ?now1 = "qn_clock K (qn_tick s)"
  have other: "qn_other K m db = db" for m db using K by (simp add: quiet_env_def)
  show thesis
  proof (rule oldest_cases [of ?now1 "qn_db s"])
    assume "oldest_eligible ?now1 (qn_db s) = (Inr None, qn_db s)"
      and "\<forall>x \<in> set (q_items (qn_db s)). \<not> eligible ?now1 x"
    then show thesis
      using none by (simp add: bnd_def now_utc_def in_db_def other ret_def)
  next
    fix r
    assume old: "oldest_eligible ?now1 (qn_db s) = (Inr (Some r), qn_db s)"
      and r: "r \<in> set (q_items (qn_db s))" "eligible ?now1 r"
        "\<forall>x \<in> set (q_items (qn_db s)). eligible ?now1 x \<longrightarrow> item_order r \<le> item_order x"
    let ?u = "s\<lparr>qn_tick := Suc (Suc (qn_tick s))\<rparr>"
    let ?rest = "case load_payload (qr_payload r) of
        Inl e \<Rightarrow>
          (if e = JSONDecodeError \<or> is_json_state_error e
           then bnd (now_utc K) (\<lambda>now2. bnd (now_utc K) (\<lambda>now3.
                thn (in_db K (quarantine r e now2 now3)) (claim_loop n K worker)))
           else raise_exc e)
      | Inr payload \<Rightarrow>
          bnd (now_utc K) (\<lambda>now. bnd (uuid4_hex K) (\<lambda>token.
          bnd (in_db K (claim_row r payload worker now token)) (\<lambda>claimed.
            case claimed of
              None \<Rightarrow> claim_loop n K worker
            | Some item \<Rightarrow> ret (Some (Some item)))))"
    have step: "claim_loop (Suc n) K worker s =
        thn (lift_res (parse_available_at (qr_available_at r))) ?rest ?u"
      by (simp add: bnd_def now_utc_def in_db_def other old)
    have later: "still_eligible r (qn_clock K m) r"
      if "parse_available_at (qr_available_at r) = Inr d" "qn_tick s \<le> m" for d m
      using due_later [OF _ quiet_later [OF K that(2)] that(1)] r(2)
      by (simp add: still_eligible_def eligible_def)
    show thesis
    proof (cases "parse_available_at (qr_available_at r)")
      case (Inl e)
      then have "fst (claim_loop (Suc n) K worker s) = Inl e"
        unfolding step by (simp add: thn_def bnd_def lift_res_def)
      then show thesis using claim [OF r] by simp
    next
      case parsed: (Inr d)
      then have step2: "claim_loop (Suc n) K worker s = ?rest ?u"
        unfolding step by (simp add: thn_def bnd_def lift_res_def)
      show thesis
      proof (cases "load_payload (qr_payload r)")
        case (Inl e)
        have run: "claim_loop (Suc n) K worker s = claim_loop n K worker
            (s\<lparr>qn_db := snd (quarantine r e (qn_clock K (Suc (Suc (qn_tick s))))
                (qn_clock K (Suc (Suc (Suc (qn_tick s))))) (qn_db s)),
             qn_tick := Suc (Suc (Suc (Suc (Suc (qn_tick s)))))\<rparr>)"
          unfolding step2 using Inl load_payload_error [OF Inl]
          by (simp add: bnd_def now_utc_def thn_def in_db_def other quarantine_run [OF ids])
        show thesis
          by (rule bad [OF r(1,2) _ later [OF parsed, of "Suc (Suc (qn_tick s))"] _ run])
            (simp_all add: undecodable_def Inl)
      next
        case (Inr payload)
        let ?now = "qn_clock K (Suc (Suc (qn_tick s)))" and ?t = "qn_uuid K (Suc (Suc (Suc (qn_tick s))))"
        obtain q db' where cr: "claim_row r payload worker ?now ?t (qn_db s) = (q, db')"
          by (cases "claim_row r payload worker ?now ?t (qn_db s)")
        have q: "q \<noteq> Inr None"
          using claim_row_some [OF ids r(1) later [OF parsed, of "Suc (Suc (qn_tick s))"], of payload worker ?t] cr
          by simp
        have run: "fst (claim_loop (Suc n) K worker s) =
            (case q of Inl e \<Rightarrow> Inl e | Inr claimed \<Rightarrow> Inr (Some claimed))"
          unfolding step2 using Inr cr q
          by (auto simp: bnd_def now_utc_def uuid4_hex_def in_db_def other ret_def
              split: sum.split option.split)
        have id: "qi_id item = qr_id r" if "q = Inr (Some item)" for item
        proof -
          from claim_row_run [OF ids cr] that obtain r' where
            "still_eligible r ?now r'" "row_to_item (claimed_row worker ?now ?t r') (Some payload) = Inr item"
            by auto
          then show ?thesis
            by (auto simp: row_to_item_def still_eligible_def claimed_row_def split: sum.splits)
        qed
        show thesis
          by (rule claim [OF r]) (use run q id in \<open>auto split: sum.splits\<close>)
      qed
    qed
  qed
qed

definition pending_count :: "qdb \<Rightarrow> nat" where
  "pending_count db = length (filter (\<lambda>r. qr_status r = QS_PENDING) (q_items db))"

lemma filter_map_less:
  assumes "x \<in> set xs" "P x" "\<not> P (f x)" "\<And>y. P (f y) \<Longrightarrow> P y"
  shows "length (filter P (map f xs)) < length (filter P xs)"
proof -
  have le: "length (filter P (map f ys)) \<le> length (filter P ys)" for ys
    using assms(4) by (induction ys) (auto intro: le_SucI)
  show ?thesis
    using assms(1)
  proof (induction xs)
    case (Cons y ys)
    then show ?case
      using assms(2-4) le [of ys] by (cases "y = x") (auto simp: less_Suc_eq_le)
  qed simp
qed

lemma quarantine_effect:
  fixes e :: pyexc and now3 :: int
  assumes ids: "ids_ok db" and r: "r \<in> set (q_items db)" "still_eligible r now2 r"
  defines "db' \<equiv> snd (quarantine r e now2 now3 db)"
  shows "ids_ok db' \<and> pending_count db' < pending_count db \<and>
    (\<forall>x \<in> set (q_items db). x = r \<or> x \<in> set (q_items db')) \<and>
    (\<forall>x \<in> set (q_items db'). qr_status x = QS_PENDING \<longrightarrow> x \<in> set (q_items db))"
proof -
  have items: "q_items db' = q_items (set_row (qr_id r) quarantined_row db)"
    unfolding db'_def using quarantine_run [OF ids, of r e now2 now3] r
    by (auto simp: record_poison_event_def upd_st_def)
  have same: "x = r" if "x \<in> set (q_items db)" "qr_id x = qr_id r" for x
    using ids r that by (auto simp: ids_ok_def distinct_map inj_on_def)
  have "ids_ok db'"
    using ids map_id_set_row [of quarantined_row "qr_id r" db]
    by (simp add: ids_ok_def items quarantined_row_def)
  moreover have "pending_count db' < pending_count db"
  proof -
    have "length (filter (\<lambda>x. qr_status x = QS_PENDING)
        (map (\<lambda>x. if qr_id x = qr_id r then quarantined_row x else x) (q_items db))) <
      length (filter (\<lambda>x. qr_status x = QS_PENDING) (q_items db))"
    proof (rule filter_map_less [OF r(1)])
      show "qr_status y = QS_PENDING"
        if "qr_status (if qr_id y = qr_id r then quarantined_row y else y) = QS_PENDING" for y
        using that by (cases "qr_id y = qr_id r") (simp_all add: quarantined_row_def)
    qed (use r(2) in \<open>simp_all add: still_eligible_def quarantined_row_def\<close>)
    then show ?thesis unfolding pending_count_def items by (simp add: set_row_def)
  qed
  moreover have "x = r \<or> x \<in> set (q_items db')" if "x \<in> set (q_items db)" for x
  proof (cases "qr_id x = qr_id r")
    case True
    then show ?thesis using same that by simp
  next
    case False
    have "(\<lambda>y. if qr_id y = qr_id r then quarantined_row y else y) x \<in>
        (\<lambda>y. if qr_id y = qr_id r then quarantined_row y else y) ` set (q_items db)"
      using that by (rule imageI)
    with False show ?thesis by (simp add: items set_set_row)
  qed
  moreover have "x \<in> set (q_items db)" if "x \<in> set (q_items db')" "qr_status x = QS_PENDING" for x
    using that by (auto simp: items set_set_row quarantined_row_def split: if_splits)
  ultimately show ?thesis by blast
qed

text \<open>The readings of the clock are numbered, and every round of the loop takes one.\<close>

interpretation ticks: step_relation "\<lambda>s t :: nst. qn_tick s \<le> qn_tick t"
  by unfold_locales auto

lemma ticks_readings:
  "keeps (\<lambda>s t. qn_tick s \<le> qn_tick t) (now_utc K)" "keeps (\<lambda>s t. qn_tick s \<le> qn_tick t) (uuid4_hex K)"
  "keeps (\<lambda>s t. qn_tick s \<le> qn_tick t) (in_db K m)"
  by (auto simp: keeps_def now_utc_def uuid4_hex_def in_db_def split: prod.split)

lemma claim_loop_ticks: "keeps (\<lambda>s t. qn_tick s \<le> qn_tick t) (claim_loop n K worker)"
  by (induction n) (auto simp: ticks.keeps_ret ticks.keeps_raise ticks.keeps_lift ticks_readings
      intro!: ticks.keeps_bnd ticks.keeps_thn split: option.split sum.split)

lemma claim_loop_reads: "qn_tick s < qn_tick (snd (claim_loop (Suc n) K worker s))"
proof -
  have first: "qn_tick s < qn_tick (snd (bnd (now_utc K) g s))"
    if "\<And>a. keeps (\<lambda>s t. qn_tick s \<le> qn_tick t) (g a)" for g :: "int \<Rightarrow> (nst, pyexc, 'a) effect"
  proof -
    have "qn_tick (s\<lparr>qn_tick := Suc (qn_tick s)\<rparr>) \<le>
        qn_tick (snd (g (qn_clock K (qn_tick s)) (s\<lparr>qn_tick := Suc (qn_tick s)\<rparr>)))"
      using that unfolding keeps_def by blast
    then show ?thesis by (simp add: bnd_def now_utc_def)
  qed
  show ?thesis
    unfolding claim_loop.simps
    by (rule first) (auto simp: ticks.keeps_ret ticks.keeps_raise ticks.keeps_lift ticks_readings claim_loop_ticks
      intro!: ticks.keeps_bnd ticks.keeps_thn split: option.split sum.split)
qed

text \<open>What a claim of \<open>next_item\<close> at the time \<open>now\<close> promises of the rows it found.\<close>

definition oldest_claim :: "int \<Rightarrow> qdb \<Rightarrow> queue_item \<Rightarrow> bool" where
  "oldest_claim now db item \<longleftrightarrow> (\<exists>r. r \<in> set (q_items db) \<and> eligible now r \<and> qi_id item = qr_id r \<and>
     (\<forall>x \<in> set (q_items db). eligible now x \<and> item_order x < item_order r \<longrightarrow> undecodable x))"

definition nothing_due :: "int \<Rightarrow> qdb \<Rightarrow> bool" where
  "nothing_due now db \<longleftrightarrow> (\<forall>x \<in> set (q_items db). eligible now x \<longrightarrow> undecodable x)"

lemma claim_loop_result:
  fixes s :: nst
  assumes K: "quiet_env K"
  shows "ids_ok (qn_db s) \<Longrightarrow>
    (pending_count (qn_db s) < n \<longrightarrow> fst (claim_loop n K worker s) \<noteq> Inr None) \<and>
    (\<forall>item. fst (claim_loop n K worker s) = Inr (Some (Some item)) \<longrightarrow>
       (\<exists>t \<in> {qn_tick s..<qn_tick (snd (claim_loop n K worker s))}. oldest_claim (qn_clock K t) (qn_db s) item)) \<and>
    (fst (claim_loop n K worker s) = Inr (Some None) \<longrightarrow>
       (\<exists>t \<in> {qn_tick s..<qn_tick (snd (claim_loop n K worker s))}. nothing_due (qn_clock K t) (qn_db s)))"
proof (induction n arbitrary: s)
  case 0
  then show ?case by (simp add: ret_def)
next
  case (Suc n)
  have here: "qn_tick s \<in> {qn_tick s..<qn_tick (snd (claim_loop (Suc n) K worker s))}"
    using claim_loop_reads [of s n K worker] by simp
  show ?case
  proof (rule claim_loop_round [OF K Suc.prems, of n worker])
    assume "fst (claim_loop (Suc n) K worker s) = Inr (Some None)"
      "\<forall>x \<in> set (q_items (qn_db s)). \<not> eligible (qn_clock K (qn_tick s)) x"
    then show ?thesis using here unfolding nothing_due_def by fastforce
  next
    fix r e tick now2 now3
    assume r: "r \<in> set (q_items (qn_db s))" "undecodable r" "still_eligible r now2 r" "qn_tick s \<le> tick"
      and run: "claim_loop (Suc n) K worker s = claim_loop n K worker
         (s\<lparr>qn_db := snd (quarantine r e now2 now3 (qn_db s)), qn_tick := tick\<rparr>)"
    let ?db = "snd (quarantine r e now2 now3 (qn_db s))"
    have q: "ids_ok ?db" "pending_count ?db < pending_count (qn_db s)"
      "\<And>x. x \<in> set (q_items (qn_db s)) \<Longrightarrow> x = r \<or> x \<in> set (q_items ?db)"
      "\<And>x. x \<in> set (q_items ?db) \<Longrightarrow> qr_status x = QS_PENDING \<Longrightarrow> x \<in> set (q_items (qn_db s))"
      using quarantine_effect [OF Suc.prems r(1,3), of e now3] by blast+
    have "oldest_claim now (qn_db s) item" if claim: "oldest_claim now ?db item" for now item
    proof -
      from claim obtain y where y: "y \<in> set (q_items ?db)" "eligible now y" "qi_id item = qr_id y"
        "\<forall>x \<in> set (q_items ?db). eligible now x \<and> item_order x < item_order y \<longrightarrow> undecodable x"
        unfolding oldest_claim_def by blast
      then have "y \<in> set (q_items (qn_db s))" using q(4) by (simp add: eligible_def)
      with y q(3) r(2) show ?thesis unfolding oldest_claim_def by blast
    qed
    moreover have "nothing_due now (qn_db s)" if "nothing_due now ?db" for now
      using that q(3) r(2) unfolding nothing_due_def by blast
    moreover have sub: "\<exists>t \<in> {qn_tick s..<m}. P t" if "\<exists>t \<in> {tick..<m}. P t" for m P using that r(4) by fastforce
    let ?s = "s\<lparr>qn_db := ?db, qn_tick := tick\<rparr>"
    have ih: "pending_count ?db < n \<longrightarrow> fst (claim_loop n K worker ?s) \<noteq> Inr None"
      "\<And>item. fst (claim_loop n K worker ?s) = Inr (Some (Some item)) \<Longrightarrow>
         \<exists>t \<in> {tick..<qn_tick (snd (claim_loop n K worker ?s))}. oldest_claim (qn_clock K t) ?db item"
      "fst (claim_loop n K worker ?s) = Inr (Some None) \<Longrightarrow>
         \<exists>t \<in> {tick..<qn_tick (snd (claim_loop n K worker ?s))}. nothing_due (qn_clock K t) ?db"
      using Suc.IH [of ?s] q(1) by simp_all
    ultimately have "\<And>item. fst (claim_loop n K worker ?s) = Inr (Some (Some item)) \<Longrightarrow>
         \<exists>t \<in> {tick..<qn_tick (snd (claim_loop n K worker ?s))}. oldest_claim (qn_clock K t) (qn_db s) item"
      "fst (claim_loop n K worker ?s) = Inr (Some None) \<Longrightarrow>
         \<exists>t \<in> {tick..<qn_tick (snd (claim_loop n K worker ?s))}. nothing_due (qn_clock K t) (qn_db s)" by blast+
    with ih(1) q(2) sub show ?thesis unfolding run by (intro conjI allI impI) auto
  next
    fix r
    assume r: "r \<in> set (q_items (qn_db s))" "eligible (qn_clock K (qn_tick s)) r"
      "\<forall>x \<in> set (q_items (qn_db s)). eligible (qn_clock K (qn_tick s)) x \<longrightarrow> item_order r \<le> item_order x"
      and run: "fst (claim_loop (Suc n) K worker s) \<noteq> Inr None"
        "\<And>item. fst (claim_loop (Suc n) K worker s) = Inr (Some item) \<Longrightarrow> \<exists>x. item = Some x \<and> qi_id x = qr_id r"
    have "oldest_claim (qn_clock K (qn_tick s)) (qn_db s) item"
      if "fst (claim_loop (Suc n) K worker s) = Inr (Some (Some item))" for item
      using run(2) [OF that] r unfolding oldest_claim_def by (auto simp: not_less [symmetric])
    with run here show ?thesis by blast
  qed
qed

lemma next_item_result:
  fixes s :: nst
  assumes K: "quiet_env K" and inv: "qinv (qn_cfg K) (qn_db s)"
  defines "db \<equiv> snd (reclaim_stale (qn_cfg K) (qn_clock K (qn_tick s)) (qn_db s))"
  shows "(length (q_items (qn_db s)) < n \<longrightarrow> fst (next_item n K worker s) \<noteq> Inr None) \<and>
    (\<forall>item. fst (next_item n K worker s) = Inr (Some (Some item)) \<longrightarrow>
       (\<exists>t \<in> {qn_tick s<..<qn_tick (snd (next_item n K worker s))}. oldest_claim (qn_clock K t) db item)) \<and>
    (fst (next_item n K worker s) = Inr (Some None) \<longrightarrow>
       (\<exists>t \<in> {qn_tick s<..<qn_tick (snd (next_item n K worker s))}. nothing_due (qn_clock K t) db))"
proof -
  have other: "qn_other K m d = d" for m d using K by (simp add: quiet_env_def)
  obtain db1 where rc: "reclaim_stale (qn_cfg K) (qn_clock K (qn_tick s)) (qn_db s) = (Inr (), db1)"
    and inv1: "qinv (qn_cfg K) db1"
    using reclaim_stale_run [OF inv] by blast
  have db: "db = db1" by (simp add: db_def rc)
  let ?w = "if worker = [] then qn_hostname K else worker"
  have run: "next_item n K worker s = claim_loop n K ?w (s\<lparr>qn_db := db1, qn_tick := Suc (Suc (qn_tick s))\<rparr>)"
    by (simp add: next_item_def Let_def bnd_def thn_def now_utc_def in_db_def other rc)
  have "length (q_items db1) = length (q_items (qn_db s))"
  proof -
    have "keeps (\<lambda>a b. length (q_items b) = length (q_items a)) (reclaim_stale (qn_cfg K) now)" for now
    proof (rule keepsI)
      fix d
      have f: "length (q_items (snd (foreach xs (reclaim_one (qn_cfg K) now) d))) = length (q_items d)" for xs
        by (induction xs arbitrary: d)
          (auto simp: ret_def thn_def bnd_def reclaim_one_def Let_def update_items_def
            close_attempt_def upd_st_def split: prod.splits sum.splits if_splits)
      show "length (q_items (snd (reclaim_stale (qn_cfg K) now d))) = length (q_items d)"
        using snd_atomically [of "bnd (items_where (stale_row (qn_cfg K) now)) (\<lambda>rows. foreach rows (reclaim_one (qn_cfg K) now))" d] f
        by (auto simp: reclaim_stale_def bnd_def items_where_def)
    qed
    from keepsD [OF this rc] show ?thesis .
  qed
  moreover have "pending_count db1 \<le> length (q_items db1)" by (simp add: pending_count_def)
  moreover have "{Suc (Suc (qn_tick s))..<m} \<subseteq> {qn_tick s<..<m}" for m by auto
  ultimately show ?thesis
    using claim_loop_result [OF K, of "s\<lparr>qn_db := db1, qn_tick := Suc (Suc (qn_tick s))\<rparr>" n ?w] qinv_ids [OF inv1]
    unfolding run db by fastforce
qed

end
