(* ===== verification/QueueClaims.thy ===== *)
theory QueueClaims
  imports QueueSteps
begin

text \<open>The properties of the queue, with a small database as their witness.\<close>

section \<open>A small queue\<close>

definition demo_cfg :: queue_cfg where
  "demo_cfg = \<lparr>qc_lease_timeout = 30, qc_max_retries = 1, qc_retry_delay = 0, qc_retry_backoff = 2,
     qc_overflows = (\<lambda>_ _. False)\<rparr>"

definition demo_item :: "string \<Rightarrow> queue_item" where
  "demo_item i = \<lparr>qi_reference = ''R'', qi_payload = [], qi_id = i, qi_status = QS_PENDING,
     qi_retry_count = 0, qi_created_at = utc_datetime 0, qi_claimed_by = [], qi_claimed_at = None,
     qi_claim_token = [], qi_transaction_id = [], qi_available_at = None\<rparr>"

definition demo_row :: item_row where
  "demo_row = item_to_row (demo_item ''a'') None"

definition demo_added :: qdb where
  "demo_added = empty_queue\<lparr>q_items := [demo_row]\<rparr>"

definition demo_attempt :: queue_attempt where
  "demo_attempt = \<lparr>qa_sequence = 1, qa_item_id = ''a'', qa_claim_token = ''t'', qa_claimed_by = ''w'',
     qa_started_at = isoformat (utc_datetime 5), qa_finished_at = None, qa_outcome = None\<rparr>"

definition demo_claimed :: qdb where
  "demo_claimed = empty_queue\<lparr>q_items := [claimed_row ''w'' 5 ''t'' demo_row],
     q_attempts := [demo_attempt], q_attempt_seq := 1\<rparr>"

definition demo_completed :: qdb where
  "demo_completed = empty_queue\<lparr>q_items := [completed_row (claimed_row ''w'' 5 ''t'' demo_row)],
     q_attempts := [demo_attempt\<lparr>qa_outcome := Some AO_SUCCESSFUL,
       qa_finished_at := Some (isoformat (utc_datetime 9))\<rparr>], q_attempt_seq := 1\<rparr>"

lemmas demo_defs = demo_cfg_def demo_item_def demo_row_def demo_added_def demo_attempt_def
  demo_claimed_def demo_completed_def item_to_row_def claimed_row_def completed_row_def empty_queue_def

lemma qinv_demo_claimed: "qinv demo_cfg demo_claimed"
  by (simp add: qinv_def rows_ok_def attempts_ok_def claims_ok_def open_for_def attempt_open_def demo_defs)

lemma qinv_demo_completed: "qinv demo_cfg demo_completed"
  by (simp add: qinv_def rows_ok_def attempts_ok_def claims_ok_def open_for_def attempt_open_def demo_defs)

lemma demo_add: "add (demo_item ''a'') empty_queue = (Inr (), demo_added)"
  by (simp add: add_def atomically_def insert_item_run validate_json_object_of_dict safe_dict_def
      available_at_text_def demo_defs)

lemma qinv_demo_added: "qinv demo_cfg demo_added"
  by (simp add: qinv_def rows_ok_def attempts_ok_def claims_ok_def demo_defs)

definition demo_qenv :: qenv where
  "demo_qenv = \<lparr>qn_cfg = demo_cfg, qn_clock = (\<lambda>_. 7), qn_uuid = (\<lambda>_. ''u''), qn_hostname = ''h'',
     qn_other = (\<lambda>_ db. db)\<rparr>"

section \<open>Reclaiming\<close>

lemma map_replace_one:
  assumes "distinct (map qr_id rows)" "x \<in> set rows"
  shows "map (\<lambda>r. if qr_id r = qr_id x then f r else r) rows = map (\<lambda>r. if r = x then f x else r) rows"
  using assms by (auto simp: distinct_map inj_on_def)

lemma foreach_reclaim_items:
  assumes "qinv C db" "\<forall>x \<in> set xs. 0 \<le> qr_retry_count x \<and> qr_status x = QS_IN_PROGRESS"
    "set xs \<subseteq> set (q_items db)" "distinct xs" "foreach xs (reclaim_one C now) db = (q, db')"
  shows "q_items db' = map (\<lambda>r. if r \<in> set xs
    then released_row C now (again_after C True r) (qr_retry_count r + 1) (qr_claimed_by r) r else r) (q_items db)"
  using assms
proof (induction xs arbitrary: db)
  case Nil
  then show ?case by (simp add: ret_def)
next
  case (Cons x xs)
  let ?f = "\<lambda>r. released_row C now (again_after C True r) (qr_retry_count r + 1) (qr_claimed_by r) r"
  have ids: "ids_ok db" by (rule qinv_ids [OF Cons.prems(1)])
  obtain db1 where one: "reclaim_one C now x db = (Inr (), db1)"
    using reclaim_one_run [OF ids, of C now x] by (metis (full_types))
  have x: "x \<in> set (q_items db)" "same_claim x x" using Cons.prems by (auto simp: same_claim_def)
  have items1: "q_items db1 = map (\<lambda>r. if r = x then ?f x else r) (q_items db)"
  proof -
    have "q_items db1 = map (\<lambda>r. if qr_id r = qr_id x then released_row C now (again_after C True x)
        (qr_retry_count x + 1) (qr_claimed_by x) r else r) (q_items db)"
      using one x reclaim_one_run [OF ids, of C now x] by (auto simp: set_row_def split: if_splits)
    then show ?thesis using map_replace_one [OF _ x(1)] ids by (simp add: ids_ok_def)
  qed
  have "foreach xs (reclaim_one C now) db1 = (q, db')"
    using Cons.prems(5) one by (simp add: thn_def bnd_def)
  moreover have "qinv C db1" using qinv_reclaim_one [OF Cons.prems(1), of x now] Cons.prems one by simp
  moreover have "set xs \<subseteq> set (q_items db1)" using Cons.prems by (auto simp: items1)
  ultimately have "q_items db' = map (\<lambda>r. if r \<in> set xs then ?f r else r) (q_items db1)"
    using Cons by simp
  moreover have "?f x \<notin> set xs" using Cons.prems(2) by (auto simp: released_row_def)
  ultimately show ?case using Cons.prems(4) by (auto simp: items1)
qed

lemma reclaim_items:
  assumes inv: "qinv C db"
  shows "q_items (snd (reclaim_stale C now db)) = map (\<lambda>r. if stale_row C now r
    then released_row C now (again_after C True r) (qr_retry_count r + 1) (qr_claimed_by r) r else r) (q_items db)"
proof -
  obtain db' where db': "reclaim_stale C now db = (Inr (), db')"
    and each: "foreach (filter (stale_row C now) (q_items db)) (reclaim_one C now) db = (Inr (), db')"
    using reclaim_stale_run [OF inv] by blast
  have d: "distinct (q_items db)"
    using qinv_ids [OF inv] by (auto simp: ids_ok_def distinct_map)
  have "q_items db' = map (\<lambda>r. if r \<in> set (filter (stale_row C now) (q_items db))
    then released_row C now (again_after C True r) (qr_retry_count r + 1) (qr_claimed_by r) r else r) (q_items db)"
    by (rule foreach_reclaim_items [OF inv _ _ _ each])
      (use d qinv_retry_nonneg [OF inv] in \<open>auto simp: stale_row_def\<close>)
  then show ?thesis by (simp add: db')
qed

lemma foreach_reclaim_attempts:
  assumes "qinv C db" "\<forall>x \<in> set xs. 0 \<le> qr_retry_count x \<and> qr_status x = QS_IN_PROGRESS \<and> qr_claim_token x \<noteq> []"
    "set xs \<subseteq> set (q_items db)" "distinct xs" "foreach xs (reclaim_one C now) db = (q, db')"
  shows "q_attempts db' = map (\<lambda>a. if \<exists>x \<in> set xs. open_for x a
    then a\<lparr>qa_outcome := Some AO_LEASE_EXPIRED, qa_finished_at := Some (isoformat (utc_datetime now))\<rparr>
    else a) (q_attempts db)"
  using assms
proof (induction xs arbitrary: db)
  case Nil
  then show ?case by (simp add: ret_def)
next
  case (Cons x xs)
  let ?f = "released_row C now (again_after C True x) (qr_retry_count x + 1) (qr_claimed_by x)"
  have ids: "ids_ok db" by (rule qinv_ids [OF Cons.prems(1)])
  have x: "x \<in> set (q_items db)" "same_claim x x" "qr_claim_token x \<noteq> []"
    using Cons.prems by (auto simp: same_claim_def)
  then have one: "reclaim_one C now x db =
      (Inr (), set_row (qr_id x) ?f (close_open (qr_id x) (qr_claim_token x) AO_LEASE_EXPIRED now db))"
    using reclaim_one_run [OF ids, of C now x] by auto
  let ?db1 = "set_row (qr_id x) ?f (close_open (qr_id x) (qr_claim_token x) AO_LEASE_EXPIRED now db)"
  have "foreach xs (reclaim_one C now) ?db1 = (q, db')"
    using Cons.prems(5) by (simp add: thn_def bnd_def one)
  moreover have "qinv C ?db1" using qinv_reclaim_one [OF Cons.prems(1), of x now] Cons.prems one by simp
  moreover have "set xs \<subseteq> set (q_items ?db1)"
  proof
    fix y assume y: "y \<in> set xs"
    then have "y \<in> set (q_items db)" "y \<noteq> x" using Cons.prems(3,4) by auto
    then have "qr_id y \<noteq> qr_id x" using x ids by (auto simp: ids_ok_def distinct_map inj_on_def)
    then show "y \<in> set (q_items ?db1)" using \<open>y \<in> set (q_items db)\<close>
      by (auto simp: set_set_row intro: image_eqI [of _ _ y])
  qed
  ultimately have "q_attempts db' = map (\<lambda>a. if \<exists>x \<in> set xs. open_for x a
      then a\<lparr>qa_outcome := Some AO_LEASE_EXPIRED, qa_finished_at := Some (isoformat (utc_datetime now))\<rparr>
      else a) (q_attempts ?db1)"
    using Cons.IH [of ?db1] Cons.prems(2,4) by simp
  then show ?case by (auto simp: attempts_close open_for_def attempt_open_def)
qed

lemma reclaim_attempts:
  assumes inv: "qinv C db"
  shows "q_attempts (snd (reclaim_stale C now db)) = map (\<lambda>a.
    if \<exists>r \<in> set (q_items db). stale_row C now r \<and> open_for r a
    then a\<lparr>qa_outcome := Some AO_LEASE_EXPIRED, qa_finished_at := Some (isoformat (utc_datetime now))\<rparr>
    else a) (q_attempts db)"
proof -
  obtain db' where db': "reclaim_stale C now db = (Inr (), db')"
    and each: "foreach (filter (stale_row C now) (q_items db)) (reclaim_one C now) db = (Inr (), db')"
    using reclaim_stale_run [OF inv] by blast
  have d: "distinct (q_items db)"
    using qinv_ids [OF inv] by (auto simp: ids_ok_def distinct_map)
  have tok: "qr_status r = QS_IN_PROGRESS \<Longrightarrow> r \<in> set (q_items db) \<Longrightarrow> qr_claim_token r \<noteq> []" for r
    using inv by (simp add: qinv_def rows_ok_def)
  have "q_attempts db' = map (\<lambda>a. if \<exists>x \<in> set (filter (stale_row C now) (q_items db)). open_for x a
      then a\<lparr>qa_outcome := Some AO_LEASE_EXPIRED, qa_finished_at := Some (isoformat (utc_datetime now))\<rparr>
      else a) (q_attempts db)"
    by (rule foreach_reclaim_attempts [OF inv _ _ _ each])
      (use d qinv_retry_nonneg [OF inv] tok in \<open>auto simp: stale_row_def\<close>)
  moreover have "(\<exists>x \<in> set (filter (stale_row C now) (q_items db)). open_for x a) \<longleftrightarrow>
      (\<exists>r \<in> set (q_items db). stale_row C now r \<and> open_for r a)" for a by auto
  ultimately show ?thesis by (simp only: db' snd_conv)
qed

section \<open>Properties\<close>

text \<open>
  C8: in every state that any interleaving of worker and operator transactions reaches from an empty
  queue, item identifiers are unique, an item has a claim token exactly while it is in progress, the
  open attempts are exactly the current claims, attempts are numbered consecutively, and a pending
  item has been retried at most \<open>max_retries\<close> times.
\<close>

theorem queue_invariant:
  assumes "qsteps C adm empty_queue db"
  shows "qinv C db"
  by (rule qsteps_qinv [OF assms qinv_empty])

theorem queue_invariant_witness: "qinv demo_cfg demo_added"
proof (rule queue_invariant [of demo_cfg False])
  have "qstep demo_cfg False empty_queue (snd (add (demo_item ''a'') empty_queue))"
    by (rule s_add) (simp add: fresh_item_def demo_defs)
  then show "qsteps demo_cfg False empty_queue demo_added"
    by (simp add: demo_add qsteps_one)
qed

text \<open>
  C9: once a claim has been closed (completed, failed, expired or overridden), its token gives no
  power any more, whatever happens later: every operation of its former owner raises
  \<open>QueueLeaseLostError\<close> and changes nothing.
\<close>

theorem closed_claim_is_powerless:
  assumes "qinv C db" and "a \<in> set (q_attempts db)" and "qa_outcome a \<noteq> None"
    and "qsteps C adm db db'"
  shows "complete now (qa_item_id a) worker (qa_claim_token a) db' = (Inl lease_lost, db') \<and>
    fail C now (qa_item_id a) retry worker (qa_claim_token a) db' = (Inl lease_lost, db') \<and>
    renew_lease now (qa_item_id a) worker (qa_claim_token a) db' = (Inl lease_lost, db') \<and>
    bind_transaction (qa_item_id a) tx worker (qa_claim_token a) db' = (Inl lease_lost, db')"
proof -
  have inv: "qinv C db'" by (rule qsteps_qinv [OF assms(4,1)])
  have "a \<in> set (q_attempts db')" by (rule closed_stays [OF qsteps_journal [OF assms(4)] assms(2,3)])
  then have "\<not> owned (qa_item_id a) worker (qa_claim_token a) db'"
    by (rule closed_not_owned [OF inv _ assms(3)])
  then show ?thesis
    by (simp add: complete_run [OF qinv_ids [OF inv]] fail_run_lost renew_lease_run [OF qinv_ids [OF inv]]
        bind_transaction_run [OF qinv_ids [OF inv]])
qed

theorem closed_claim_is_powerless_witness:
  "complete 10 ''a'' ''w'' ''t'' demo_completed = (Inl lease_lost, demo_completed)"
proof -
  let ?a = "demo_attempt\<lparr>qa_outcome := Some AO_SUCCESSFUL, qa_finished_at := Some (isoformat (utc_datetime 9))\<rparr>"
  have "?a \<in> set (q_attempts demo_completed)" by (simp add: demo_completed_def)
  from closed_claim_is_powerless [OF qinv_demo_completed this _ qsteps_refl [of _ False], of 10 "''w''" True]
  show ?thesis by (simp add: demo_attempt_def)
qed

text \<open>
  Claims of one item exclude each other: at most one of its attempts is open at any time.
\<close>

theorem claims_exclude_each_other:
  assumes "qinv C db" and "a \<in> set (q_attempts db)" and "b \<in> set (q_attempts db)"
    and "qa_outcome a = None" and "qa_outcome b = None" and "qa_item_id a = qa_item_id b"
  shows "a = b"
  using one_open_attempt assms by blast

theorem claims_exclude_each_other_witness: "demo_attempt = last (q_attempts demo_claimed)"
  by (rule claims_exclude_each_other [OF qinv_demo_claimed]) (simp_all add: demo_claimed_def demo_attempt_def)

text \<open>
  No transaction of any worker or operator rewrites the journals: attempts keep their place and
  identity and never change after they got an outcome, and the administrative and quarantine events
  are only appended to.
\<close>

theorem journals_append_only:
  assumes "qsteps C adm db db'"
  shows "journal db db'"
  by (rule qsteps_journal [OF assms])

theorem journals_append_only_witness: "journal demo_claimed demo_completed"
proof (rule journals_append_only [of demo_cfg False])
  have "owned ''a'' ''w'' ''t'' demo_claimed" by (simp add: owned_def owns_def demo_defs)
  then have "snd (complete 9 ''a'' ''w'' ''t'' demo_claimed) =
      set_row ''a'' completed_row (close_open ''a'' ''t'' AO_SUCCESSFUL 9 demo_claimed)"
    by (simp add: complete_run [OF qinv_ids [OF qinv_demo_claimed]])
  also have "\<dots> = demo_completed"
    by (simp add: set_row_def close_open_def close_attempt_def upd_st_def attempt_open_def demo_defs)
  finally have "snd (complete 9 ''a'' ''w'' ''t'' demo_claimed) = demo_completed" .
  then show "qsteps demo_cfg False demo_claimed demo_completed"
    by (metis qsteps_one s_complete)
qed

text \<open>
  an item that is successful or failed is left exactly as it is by every worker; only an
  operator's override changes it.
\<close>

theorem done_items_stay_done:
  assumes "qsteps C False db db'" and "r \<in> set (q_items db)"
    and "qr_status r = QS_SUCCESSFUL \<or> qr_status r = QS_FAILED"
  shows "r \<in> set (q_items db')"
  by (rule done_row_stays [OF assms(1,2)]) (use assms(3) in \<open>simp add: row_done_def\<close>)

theorem done_items_stay_done_witness:
  "completed_row (claimed_row ''w'' 5 ''t'' demo_row) \<in>
     set (q_items (snd (fail demo_cfg 10 ''a'' True ''w'' ''t'' demo_completed)))"
  by (rule done_items_stay_done [OF qsteps_one [OF s_fail]]) (simp_all add: demo_defs)

text \<open>
  \<open>next_item\<close>, with other workers committing their own transactions at any point in between, is
  itself a sequence of such transactions; so it keeps the invariant, rewrites no journal and undoes
  no finished item, whatever it returns or raises.
\<close>

theorem next_item_is_a_sequence_of_steps:
  assumes "fair_env adm K" and "qinv (qn_cfg K) (qn_db s)"
  shows "qsteps (qn_cfg K) adm (qn_db s) (qn_db (snd (next_item fuel K worker s))) \<and>
    qinv (qn_cfg K) (qn_db (snd (next_item fuel K worker s)))"
proof -
  have "nst_steps (qn_cfg K) adm s (snd (next_item fuel K worker s))"
    by (rule keepsD [OF next_item_steps [OF assms(1)] surjective_pairing])
  then have "qsteps (qn_cfg K) adm (qn_db s) (qn_db (snd (next_item fuel K worker s)))"
    by (simp add: nst_steps_def)
  then show ?thesis using qsteps_qinv assms(2) by blast
qed

theorem next_item_is_a_sequence_of_steps_witness:
  "qinv demo_cfg (qn_db (snd (next_item 3 demo_qenv ''w'' \<lparr>qn_db = demo_added, qn_tick = 0\<rparr>)))"
proof -
  have "fair_env False demo_qenv" by (simp add: fair_env_def demo_qenv_def)
  moreover have "qinv (qn_cfg demo_qenv) demo_added"
    using qinv_demo_added by (simp add: demo_qenv_def)
  ultimately show ?thesis
    using next_item_is_a_sequence_of_steps [of False demo_qenv "\<lparr>qn_db = demo_added, qn_tick = 0\<rparr>" 3 "''w''"]
    by (simp add: demo_qenv_def)
qed

text \<open>
  C10: alone on the database, \<open>next_item\<close> ends within as many rounds as there are items. What it claims is, at a
  reading of the clock taken in this call, due and the first by creation text and identifier of the
  items due then, those with an undecodable payload apart; and when it answers \<open>None\<close>, no other item was due at
  such a reading. The items are those after stale leases were reclaimed at the first reading.
\<close>

theorem next_item_takes_the_oldest:
  fixes s :: nst
  assumes "quiet_env K" and "qinv (qn_cfg K) (qn_db s)" and "length (q_items (qn_db s)) < fuel"
    and "snd (reclaim_stale (qn_cfg K) (qn_clock K (qn_tick s)) (qn_db s)) = db"
    and "next_item fuel K worker s = (r, s')"
  shows "r \<noteq> Inr None \<and>
    (\<forall>item. r = Inr (Some (Some item)) \<longrightarrow>
       (\<exists>n. qn_tick s < n \<and> n < qn_tick s' \<and> oldest_claim (qn_clock K n) db item)) \<and>
    (r = Inr (Some None) \<longrightarrow> (\<exists>n. qn_tick s < n \<and> n < qn_tick s' \<and> nothing_due (qn_clock K n) db))"
  using next_item_result [OF assms(1,2), of fuel worker] assms(3,4,5) by auto

theorem next_item_takes_the_oldest_witness:
  "fst (next_item 3 demo_qenv ''w'' \<lparr>qn_db = demo_added, qn_tick = 0\<rparr>) \<noteq> Inr None"
proof -
  let ?s = "\<lparr>qn_db = demo_added, qn_tick = 0\<rparr>"
  have "quiet_env demo_qenv" by (simp add: quiet_env_def demo_qenv_def mono_def)
  moreover have "qinv (qn_cfg demo_qenv) (qn_db ?s)" using qinv_demo_added by (simp add: demo_qenv_def)
  moreover have "length (q_items (qn_db ?s)) < 3" by (simp add: demo_added_def)
  ultimately show ?thesis using next_item_takes_the_oldest [OF _ _ _ refl surjective_pairing] by blast
qed

text \<open>
  Reclaiming returns every item whose lease began more than \<open>lease_timeout\<close> seconds ago, and no
  other: it is delivered again while it has retries left and fails otherwise, its retry is counted,
  and its open attempt, alone, is closed as \<open>lease_expired\<close>.
\<close>

theorem reclaim_is_exact:
  assumes "qinv C db"
  shows "fst (reclaim_stale C now db) = Inr () \<and>
    q_items (snd (reclaim_stale C now db)) = map (\<lambda>r. if stale_row C now r
      then released_row C now (qr_retry_count r + 1 \<le> qc_max_retries C) (qr_retry_count r + 1) (qr_claimed_by r) r
      else r) (q_items db) \<and>
    q_attempts (snd (reclaim_stale C now db)) = map (\<lambda>a.
      if \<exists>r \<in> set (q_items db). stale_row C now r \<and> open_for r a
      then a\<lparr>qa_outcome := Some AO_LEASE_EXPIRED, qa_finished_at := Some (isoformat (utc_datetime now))\<rparr>
      else a) (q_attempts db)"
  using reclaim_stale_run [OF assms, of now] reclaim_items [OF assms, of now] reclaim_attempts [OF assms, of now]
  by (auto simp: again_after_def)

theorem reclaim_is_exact_witness:
  "q_items (snd (reclaim_stale demo_cfg 40000000 demo_claimed)) =
     [(claimed_row ''w'' 5 ''t'' demo_row)\<lparr>qr_status := QS_PENDING, qr_retry_count := 1,
        qr_claimed_by := [], qr_claimed_at := None, qr_claim_token := [], qr_available_at := None\<rparr>]"
proof -
  have "stale_row demo_cfg 40000000 (claimed_row ''w'' 5 ''t'' demo_row)"
    by (simp add: stale_row_def unix_seconds_def demo_defs isoformat_def)
  moreover have "q_items demo_claimed = [claimed_row ''w'' 5 ''t'' demo_row]" by (simp add: demo_claimed_def)
  ultimately have "q_items (snd (reclaim_stale demo_cfg 40000000 demo_claimed)) =
      [released_row demo_cfg 40000000 (0 + 1 \<le> (1::int)) (0 + 1) ''w'' (claimed_row ''w'' 5 ''t'' demo_row)]"
    using conjunct1 [OF conjunct2 [OF reclaim_is_exact [OF qinv_demo_claimed, of 40000000]]]
    by (simp add: demo_cfg_def demo_row_def demo_item_def item_to_row_def claimed_row_def)
  then show ?thesis by (simp add: released_row_def due_after_def retry_available_at_def demo_cfg_def)
qed

text \<open>
  \<open>fail\<close> by the owner counts the retry, delivers the item again exactly when a retry was asked
  for and one is left, closes the attempt with the matching outcome and returns it; by anyone else
  it raises \<open>QueueLeaseLostError\<close> and changes nothing.
\<close>

theorem fail_effect:
  assumes "qinv C db" and "r \<in> set (q_items db)" and "qr_id r = i"
  shows "fail C now i retry worker t db =
    (if owns i worker t r
     then let again = (retry \<and> qr_retry_count r + 1 \<le> qc_max_retries C);
              outcome = (if again then AO_RETRY_SCHEDULED else AO_FAILED)
          in (Inr outcome, set_row i (released_row C now again (qr_retry_count r + 1) worker)
               (close_open i t outcome now db))
     else (Inl lease_lost, db))"
proof (cases "owns i worker t r")
  case True
  then show ?thesis
    using fail_run_owned [OF qinv_ids [OF assms(1)] assms(2) True, of C now retry]
    by (simp add: Let_def again_after_def failed_outcome_def)
next
  case False
  have "\<not> owned i worker t db"
    using False assms qinv_ids [OF assms(1)]
    by (auto simp: owned_def owns_def ids_ok_def distinct_map inj_on_def)
  then show ?thesis using False by (simp add: fail_run_lost)
qed

theorem fail_effect_witness:
  "fst (fail demo_cfg 10 ''a'' True ''w'' ''t'' demo_claimed) = Inr AO_RETRY_SCHEDULED"
  using fail_effect [OF qinv_demo_claimed, of "claimed_row ''w'' 5 ''t'' demo_row" "''a''" 10 True "''w''" "''t''"]
  by (simp add: owns_def demo_defs)

text \<open>
  An operator's override takes the item out of any state, counts a retry only for a forced
  failure, closes the open attempt as an override and writes the audit entry with the previous and
  the new status and the stripped reason.
\<close>

theorem override_is_audited:
  assumes "qinv C db" and "r \<in> set (q_items db)" and "qr_id r = i" and "\<not> blank reason"
    and "requested = QS_SUCCESSFUL \<or> requested = QS_FAILED"
    and "force_transition C now i requested reason retry db = (q, db')"
  shows "q = Inr () \<and>
    (\<exists>event. q_admin db' = q_admin db @ [event] \<and> qe_item_id event = i \<and> qe_reason event = strip reason \<and>
       qe_action event = (if requested = QS_SUCCESSFUL then ''force_complete'' else ''force_fail'') \<and>
       qe_previous_status event = qr_status r \<and>
       qe_new_status event = forced_status C requested retry r \<and>
       (\<exists>r' \<in> set (q_items db'). qr_id r' = i \<and> qr_status r' = qe_new_status event \<and>
          qr_retry_count r' = forced_count requested r \<and> qr_claim_token r' = [])) \<and>
    (\<forall>a \<in> set (q_attempts db'). qa_item_id a = i \<longrightarrow> qa_outcome a \<noteq> None)"
proof -
  have inv': "qinv C db'"
    using qinv_force [OF assms(1,5), of now i reason retry] assms(6) by simp
  note run = force_run [OF qinv_ids [OF assms(1)] assms(4,2,3), of C now requested retry]
  let ?row = "forced_row C now (forced_status C requested retry r) (forced_count requested r) r"
  have q: "q = Inr ()" and items: "q_items db' = q_items (set_row i
      (forced_row C now (forced_status C requested retry r) (forced_count requested r)) db)"
    and admin: "q_admin db' = q_admin db @ [\<lparr>qe_sequence = q_admin_seq db + 1, qe_item_id = i,
      qe_action = (if requested = QS_SUCCESSFUL then ''force_complete'' else ''force_fail''),
      qe_reason = strip reason, qe_previous_status = qr_status r,
      qe_new_status = forced_status C requested retry r, qe_created_at = isoformat (utc_datetime now)\<rparr>]"
    using run assms(6) by (auto simp: record_admin_event_def upd_st_def set_row_def)
  have row: "?row \<in> set (q_items db')"
    unfolding items set_set_row using assms(2,3) by (auto intro: image_eqI [of _ _ r])
  have free: "qr_id ?row = i" "qr_status ?row = forced_status C requested retry r"
    "qr_retry_count ?row = forced_count requested r" "qr_claim_token ?row = []"
    using assms(3) by (simp_all add: forced_row_def)
  have "qa_outcome a \<noteq> None" if a: "a \<in> set (q_attempts db')" "qa_item_id a = i" for a
  proof
    assume "qa_outcome a = None"
    with a inv' obtain x where x: "x \<in> set (q_items db')" "open_for x a"
      unfolding qinv_def claims_ok_def by blast
    then have "qr_id x = qr_id ?row" using a free by (simp add: open_for_def attempt_open_def)
    then have "x = ?row" using x row qinv_ids [OF inv'] by (auto simp: ids_ok_def distinct_map inj_on_def)
    then have "qa_claim_token a = []" using x free by (simp add: open_for_def attempt_open_def)
    then show False using inv' a by (auto simp: qinv_def attempts_ok_def)
  qed
  then show ?thesis using q admin row free by auto
qed

theorem override_is_audited_witness:
  "fst (force_transition demo_cfg 10 ''a'' QS_SUCCESSFUL ''lost'' False demo_claimed) = Inr ()"
proof -
  have "claimed_row ''w'' 5 ''t'' demo_row \<in> set (q_items demo_claimed)" by (simp add: demo_claimed_def)
  moreover have "qr_id (claimed_row ''w'' 5 ''t'' demo_row) = ''a''" by (simp add: demo_defs)
  moreover have "\<not> blank ''lost''" by code_simp
  ultimately show ?thesis
    using override_is_audited [OF qinv_demo_claimed, of _ "''a''" "''lost''" QS_SUCCESSFUL 10 False,
        OF _ _ _ _ surjective_pairing] by blast
qed

text \<open>
  \<open>add_once\<close> inserts the item exactly when no item with the same reference is in one of the
  active statuses; otherwise, or when it raises, the database is left as it was.
\<close>

theorem add_once_is_unique:
  "(case add_once item active db of
      (Inr True, db') \<Rightarrow> q_items db' = q_items db @ [item_to_row item (map_option (\<lambda>d. Due (instant d)) (qi_available_at item))] \<and>
        \<not> (active \<noteq> Some [] \<and>
          (\<exists>r \<in> set (q_items db). qr_reference r = qi_reference item \<and> status_filter active r))
    | (Inr False, db') \<Rightarrow> db' = db \<and>
        (\<exists>r \<in> set (q_items db). qr_reference r = qi_reference item \<and> status_filter active r)
    | (Inl e, db') \<Rightarrow> db' = db)"
proof -
  let ?dups = "filter (\<lambda>r. qr_reference r = qi_reference item \<and> status_filter active r) (q_items db)"
  have due: "available_at_text a = Inr t \<Longrightarrow> t = map_option (\<lambda>d. Due (instant d)) a" for a t
    by (auto simp: available_at_text_def split: option.splits if_splits)
  show ?thesis
    by (auto simp: add_once_def atomically_def bnd_def items_where_def thn_def ret_def insert_item_run
        filter_empty_conv dest: due split: prod.splits sum.splits bool.splits if_splits)
qed

text \<open>
  The delay before the \<open>n\<close>-th retry is \<open>delay * backoff ^ (n - 1)\<close> seconds capped at one day and
  rounded up to a whole microsecond, at least one; it never decreases from one retry to the next,
  and whether the power overflows a float makes no difference.
\<close>

theorem retry_delay_is_exact:
  assumes "retry_policy config = Inr (delay, backoff)" and "delay \<noteq> 0" and "m \<le> n"
  shows "retry_available_at overflows now n delay backoff =
      Some (Due (now + max 1 \<lceil>min 86400 (delay * backoff powi (n - 1)) * 1000000\<rceil>)) \<and>
    1 \<le> wait_us overflows n delay backoff \<and> wait_us overflows n delay backoff \<le> 86400000000 \<and>
    wait_us overflows m delay backoff \<le> wait_us overflows n delay backoff"
proof -
  have pos: "0 < delay" "1 \<le> backoff" using retry_policy_bounds [OF assms(1)] assms(2) by auto
  show ?thesis
    using wait_us_exact_bounds wait_us_exact_mono [OF pos assms(3)] assms(2)
    by (simp add: retry_available_at_def wait_us_exact [OF pos]) (simp add: wait_us_exact_def max_retry_delay_def)
qed

theorem retry_delay_is_exact_witness:
  "retry_available_at (\<lambda>_ _. True) 0 3 1 2 = Some (Due 4000000)"
proof -
  have "retry_policy [] = Inr (1, 2)"
    by (simp add: retry_policy_def policy_number_def max_retry_delay_def Let_def dict_get_def)
  from retry_delay_is_exact [OF this, of 1 3 "\<lambda>_ _. True" 0]
  show ?thesis by (simp add: power_int_def min_def)
qed

end
