(* ===== verification/Persistence.thy ===== *)
theory Persistence
  imports Storage
begin

text \<open>
  The transaction store (\<open>rpacore/persistence.py\<close>) and the decoding of its rows
  (\<open>rpacore/_transaction_read.py\<close>).

  A database is its six tables at the current schema version and the counter of \<open>exceptions.id\<close>.
  Text columns that the source converts back to an enumeration are kept as text. Deleting a step
  deletes its exceptions (\<open>ON DELETE CASCADE\<close>). A save is one effect on the database; its caller
  makes it atomic. \<open>now\<close> is the reading that stamps the exceptions raised here.
\<close>

section \<open>Tables\<close>

record tx_row =
  xr_id :: string
  xr_reference :: string
  xr_status :: string
  xr_retry_count :: int
  xr_outcome :: string
  xr_disposition :: string
  xr_failure_code :: string
  xr_created_at :: iso_text
  xr_created_at_utc :: iso_text
  xr_started_at :: "iso_text option"
  xr_finished_at :: "iso_text option"
  xr_state :: json_text
  xr_definition_identity :: string
  xr_revision :: int
  xr_queue_item_id :: string
  xr_claim_token :: string

record step_row =
  sr_id :: string
  sr_transaction_id :: string
  sr_name :: string
  sr_order :: int
  sr_status :: string
  sr_arguments :: json_text

record exc_row =
  er_id :: int
  er_step_id :: string
  er_type :: string
  er_message :: string
  er_action :: string
  er_retry_number :: int
  er_occurred_at :: iso_text
  er_screenshot_path :: string
  er_halts :: int
  er_code :: string

record history_row =
  hr_transaction_id :: string
  hr_sequence :: int
  hr_timestamp :: iso_text
  hr_event :: string
  hr_status :: string
  hr_retry_number :: int
  hr_step_name :: string
  hr_step_order :: "int option"

record metadata_row =
  mr_transaction_id :: string
  mr_key :: string
  mr_value :: json_text

record artifact_row =
  ar_transaction_id :: string
  ar_sequence :: int
  ar_id :: string
  ar_name :: string
  ar_path :: string
  ar_kind :: string
  ar_created_at :: iso_text
  ar_metadata :: json_text

record txdb =
  d_transactions :: "tx_row list"
  d_steps :: "step_row list"
  d_exceptions :: "exc_row list"
  d_history :: "history_row list"
  d_metadata :: "metadata_row list"
  d_artifacts :: "artifact_row list"
  d_exception_seq :: int

definition empty_txdb :: txdb where
  "empty_txdb = \<lparr>d_transactions = [], d_steps = [], d_exceptions = [], d_history = [],
     d_metadata = [], d_artifacts = [], d_exception_seq = 0\<rparr>"

definition find_tx :: "string \<Rightarrow> txdb \<Rightarrow> tx_row option" where
  "find_tx i db = find (\<lambda>r. xr_id r = i) (d_transactions db)"

section \<open>Values and columns\<close>

definition step_id :: "string \<Rightarrow> step \<Rightarrow> string" where
  "step_id transaction_id s =
     transaction_id @ '':'' @ st_name s @ '':'' @ show_int (st_order s)"

text \<open>\<open>SystemException(message, action=action)\<close>, built at \<open>now\<close>.\<close>

definition repair_error :: "datetime \<Rightarrow> string \<Rightarrow> string \<Rightarrow> pyexc" where
  "repair_error now message action =
     (case system_exception message action 0 None now [] [] of Inl e \<Rightarrow> e | Inr e \<Rightarrow> StepExc e)"

definition timestamp_to_storage :: "datetime option \<Rightarrow> iso_text option \<Rightarrow> pyexc + iso_text" where
  "timestamp_to_storage value legacy =
     (case value of
        None \<Rightarrow> Inr empty_text
      | Some d \<Rightarrow>
          (if is_aware d then Inr (isoformat (astimezone_utc d))
           else case legacy of
             None \<Rightarrow> Inl (ValueErr ''transaction timestamps must be timezone-aware'')
           | Some t \<Rightarrow>
               (case fromisoformat t of
                  Some l \<Rightarrow>
                    (if \<not> is_aware l \<and> datetime_eq d l then Inr t
                     else Inl (ValueErr ''transaction timestamps must be timezone-aware''))
                | None \<Rightarrow> Inl (ValueErr ''transaction timestamps must be timezone-aware''))))"

definition legacy_utc_timestamp :: "datetime \<Rightarrow> iso_text \<Rightarrow> pyexc + iso_text" where
  "legacy_utc_timestamp now value =
     (if value = empty_text then Inr empty_text
      else case fromisoformat value of
        None \<Rightarrow> Inl (repair_error now ''Persisted transaction timestamp is invalid''
                  ''repair transaction timestamps in the persistence database'')
      | Some d \<Rightarrow> Inr (if is_aware d then isoformat (astimezone_utc d) else empty_text))"

definition or_null :: "iso_text \<Rightarrow> iso_text option" where
  "or_null t = (if t = empty_text then None else Some t)"

definition metadata_to_storage :: "pydict \<Rightarrow> pyexc + (string \<times> json_text) list" where
  "metadata_to_storage metadata =
     rbnd (validate_json_object (of_dict metadata)) (\<lambda>_.
       Inr (map (\<lambda>(k, v). (k, JsonText (canonical v))) metadata))"

definition artifact_to_row :: "string \<Rightarrow> artifact \<Rightarrow> int \<Rightarrow> pyexc + artifact_row" where
  "artifact_to_row transaction_id a index =
     rbnd (validate_json_object (of_dict (art_metadata a))) (\<lambda>_.
       Inr \<lparr>ar_transaction_id = transaction_id, ar_sequence = index + 1, ar_id = art_id a,
            ar_name = art_name a, ar_path = art_path a, ar_kind = art_kind a,
            ar_created_at = isoformat (art_created_at a),
            ar_metadata = JsonText (canonical (of_dict (art_metadata a)))\<rparr>)"

text \<open>The validated and serialized columns, computed before the database is opened.\<close>

record serialized =
  sz_state :: json_text
  sz_metadata :: "(string \<times> json_text) list"
  sz_artifacts :: "artifact_row list"

definition serialized_transaction :: "transaction \<Rightarrow> pyexc + serialized" where
  "serialized_transaction t =
     rbnd (validate_for_execution t) (\<lambda>t.
     rbnd (metadata_to_storage (tx_metadata t)) (\<lambda>metadata.
     rbnd (decode_rows (\<lambda>(i, a). artifact_to_row (tx_id t) a (int i)) (enumerate 0 (tx_artifacts t)))
       (\<lambda>artifacts.
       Inr \<lparr>sz_state = JsonText (of_dict (tx_state t)), sz_metadata = metadata,
            sz_artifacts = artifacts\<rparr>)))"

section \<open>Writing a snapshot\<close>

text \<open>The fence of a queue checkpoint: expected revision, queue item and claim token.\<close>

type_synonym fence = "int \<times> string \<times> string"

definition tx_to_row ::
  "transaction \<Rightarrow> json_text \<Rightarrow> iso_text \<Rightarrow> iso_text \<Rightarrow> iso_text \<Rightarrow> iso_text \<Rightarrow> tx_row" where
  "tx_to_row t state created created_utc started finished =
     \<lparr>xr_id = tx_id t, xr_reference = tx_reference t, xr_status = status_value (tx_status t),
      xr_retry_count = tx_retry_count t, xr_outcome = outcome_value (tx_outcome t),
      xr_disposition = disposition_value (tx_disposition t), xr_failure_code = tx_failure_code t,
      xr_created_at = created, xr_created_at_utc = created_utc, xr_started_at = or_null started,
      xr_finished_at = or_null finished, xr_state = state,
      xr_definition_identity = tx_definition_identity t, xr_revision = 0,
      xr_queue_item_id = [], xr_claim_token = []\<rparr>"

text \<open>\<open>INSERT OR IGNORE\<close>, and the two \<open>UPDATE\<close> statements.\<close>

definition insert_tx :: "tx_row \<Rightarrow> (txdb, pyexc, unit) effect" where
  "insert_tx row = upd_st (\<lambda>db.
     if find_tx (xr_id row) db \<noteq> None then db
     else db\<lparr>d_transactions := d_transactions db @ [row]\<rparr>)"

definition updated_tx :: "tx_row \<Rightarrow> fence option \<Rightarrow> tx_row \<Rightarrow> tx_row" where
  "updated_tx new fence r =
     (let r' = r\<lparr>xr_reference := xr_reference new, xr_status := xr_status new,
            xr_retry_count := xr_retry_count new, xr_outcome := xr_outcome new,
            xr_disposition := xr_disposition new, xr_failure_code := xr_failure_code new,
            xr_created_at := (if xr_created_at r = empty_text then xr_created_at new else xr_created_at r),
            xr_created_at_utc :=
              (if xr_created_at_utc r = empty_text then xr_created_at_utc new else xr_created_at_utc r),
            xr_started_at := xr_started_at new, xr_finished_at := xr_finished_at new,
            xr_state := xr_state new, xr_revision := xr_revision r + 1\<rparr>
      in case fence of
           None \<Rightarrow> r'
         | Some (_, item, token) \<Rightarrow> r'\<lparr>xr_queue_item_id := item, xr_claim_token := token\<rparr>)"

definition fence_matches :: "string \<Rightarrow> fence option \<Rightarrow> tx_row \<Rightarrow> bool" where
  "fence_matches i fence r \<longleftrightarrow> xr_id r = i \<and>
     (case fence of None \<Rightarrow> True | Some (revision, _) \<Rightarrow> xr_revision r = revision)"

definition update_tx :: "tx_row \<Rightarrow> fence option \<Rightarrow> (txdb, pyexc, nat) effect" where
  "update_tx new fence = (\<lambda>db.
     (Inr (length (filter (fence_matches (xr_id new) fence) (d_transactions db))),
      db\<lparr>d_transactions := map (\<lambda>r. if fence_matches (xr_id new) fence r then updated_tx new fence r else r)
        (d_transactions db)\<rparr>))"

definition delete_steps :: "string \<Rightarrow> (txdb, pyexc, unit) effect" where
  "delete_steps i = upd_st (\<lambda>db.
     db\<lparr>d_steps := filter (\<lambda>s. sr_transaction_id s \<noteq> i) (d_steps db),
        d_exceptions := filter (\<lambda>e. \<not> (\<exists>s \<in> set (d_steps db).
          sr_transaction_id s = i \<and> sr_id s = er_step_id e)) (d_exceptions db)\<rparr>)"

definition step_to_row :: "string \<Rightarrow> step \<Rightarrow> step_row" where
  "step_to_row i s = \<lparr>sr_id = step_id i s, sr_transaction_id = i, sr_name = st_name s,
     sr_order = st_order s, sr_status = status_value (st_status s),
     sr_arguments = JsonText (of_dict (st_arguments s))\<rparr>"

definition exc_to_row :: "string \<Rightarrow> int \<Rightarrow> step_exc \<Rightarrow> exc_row" where
  "exc_to_row sid n e = \<lparr>er_id = n, er_step_id = sid,
     er_type = (if is_business e then ''business'' else ''system''), er_message = exc_message e,
     er_action = exc_action e, er_retry_number = exc_retry_number e,
     er_occurred_at = isoformat (exc_occurred_at e), er_screenshot_path = exc_screenshot_path e,
     er_halts = (if halts_remaining_steps e then 1 else 0), er_code = exc_code e\<rparr>"

definition insert_exception :: "string \<Rightarrow> step_exc \<Rightarrow> (txdb, pyexc, unit) effect" where
  "insert_exception sid e = upd_st (\<lambda>db.
     db\<lparr>d_exception_seq := d_exception_seq db + 1,
        d_exceptions := d_exceptions db @ [exc_to_row sid (d_exception_seq db + 1) e]\<rparr>)"

definition step_conflict :: "step_row \<Rightarrow> txdb \<Rightarrow> bool" where
  "step_conflict row db \<longleftrightarrow> (\<exists>s \<in> set (d_steps db). sr_id s = sr_id row \<or>
     sr_transaction_id s = sr_transaction_id row \<and> sr_name s = sr_name row \<and> sr_order s = sr_order row)"

definition insert_step :: "string \<Rightarrow> step \<Rightarrow> (txdb, pyexc, unit) effect" where
  "insert_step i s =
     thn (\<lambda>db. if step_conflict (step_to_row i s) db
            then (Inl (IntegrityError ''UNIQUE constraint failed: steps''), db)
            else (Inr (), db\<lparr>d_steps := d_steps db @ [step_to_row i s]\<rparr>))
         (foreach (st_exceptions s) (insert_exception (step_id i s)))"

definition history_to_row :: "string \<Rightarrow> history_entry \<Rightarrow> history_row" where
  "history_to_row i h = \<lparr>hr_transaction_id = i, hr_sequence = he_sequence h,
     hr_timestamp = isoformat (he_timestamp h), hr_event = event_value (he_event h),
     hr_status = status_value (he_status h), hr_retry_number = he_retry_number h,
     hr_step_name = he_step_name h, hr_step_order = he_step_order h\<rparr>"

text \<open>\<open>INSERT OR IGNORE\<close>: an entry with a stored sequence number is left as it is stored.\<close>

definition has_entry :: "string \<Rightarrow> int \<Rightarrow> history_row list \<Rightarrow> bool" where
  "has_entry i n rows \<longleftrightarrow> (\<exists>r \<in> set rows. hr_transaction_id r = i \<and> hr_sequence r = n)"

definition insert_history :: "string \<Rightarrow> history_entry \<Rightarrow> (txdb, pyexc, unit) effect" where
  "insert_history i h = upd_st (\<lambda>db.
     if has_entry i (he_sequence h) (d_history db) then db
     else db\<lparr>d_history := d_history db @ [history_to_row i h]\<rparr>)"

definition insert_metadata :: "string \<Rightarrow> string \<times> json_text \<Rightarrow> (txdb, pyexc, unit) effect" where
  "insert_metadata i item = (\<lambda>db.
     if \<exists>m \<in> set (d_metadata db). mr_transaction_id m = i \<and> mr_key m = fst item
     then (Inl (IntegrityError ''UNIQUE constraint failed: transaction_metadata''), db)
     else (Inr (), db\<lparr>d_metadata := d_metadata db @
            [\<lparr>mr_transaction_id = i, mr_key = fst item, mr_value = snd item\<rparr>]\<rparr>))"

definition replace_metadata :: "string \<Rightarrow> (string \<times> json_text) list \<Rightarrow> (txdb, pyexc, unit) effect" where
  "replace_metadata i items =
     thn (upd_st (\<lambda>db. db\<lparr>d_metadata := filter (\<lambda>m. mr_transaction_id m \<noteq> i) (d_metadata db)\<rparr>))
      (foreach items (insert_metadata i))"

definition insert_artifact :: "string \<Rightarrow> artifact_row \<Rightarrow> (txdb, pyexc, unit) effect" where
  "insert_artifact i row = (\<lambda>db.
     if \<exists>a \<in> set (d_artifacts db). ar_transaction_id a = i \<and>
          (ar_id a = ar_id row \<or> ar_sequence a = ar_sequence row)
     then (Inl (IntegrityError ''UNIQUE constraint failed: transaction_artifacts''), db)
     else (Inr (), db\<lparr>d_artifacts := d_artifacts db @ [row]\<rparr>))"

definition replace_artifacts :: "string \<Rightarrow> artifact_row list \<Rightarrow> (txdb, pyexc, unit) effect" where
  "replace_artifacts i rows =
     thn (upd_st (\<lambda>db. db\<lparr>d_artifacts := filter (\<lambda>a. ar_transaction_id a \<noteq> i) (d_artifacts db)\<rparr>))
      (foreach rows (insert_artifact i))"

definition naive :: "datetime option \<Rightarrow> bool" where
  "naive d = (case d of None \<Rightarrow> False | Some x \<Rightarrow> \<not> is_aware x)"

definition header_row ::
  "datetime \<Rightarrow> transaction \<Rightarrow> json_text \<Rightarrow> tx_row option \<Rightarrow> pyexc + tx_row" where
  "header_row now t state stored =
     (let legacy = (if naive (tx_created_at t) \<or> naive (tx_started_at t) \<or> naive (tx_finished_at t)
                    then stored else None)
      in rbnd (timestamp_to_storage (tx_created_at t) (map_option xr_created_at legacy)) (\<lambda>created.
         rbnd (legacy_utc_timestamp now created) (\<lambda>created_utc.
         rbnd (timestamp_to_storage (tx_started_at t) (Option.bind legacy xr_started_at)) (\<lambda>started.
         rbnd (timestamp_to_storage (tx_finished_at t) (Option.bind legacy xr_finished_at)) (\<lambda>finished.
           Inr (tx_to_row t state created created_utc started finished))))))"

definition write_transaction_rows ::
  "datetime \<Rightarrow> transaction \<Rightarrow> serialized \<Rightarrow> fence option \<Rightarrow> (txdb, pyexc, int) effect" where
  "write_transaction_rows now t sz fence =
     bnd get_st (\<lambda>db0.
       let stored = find_tx (tx_id t) db0
       in if (case stored of None \<Rightarrow> False
              | Some r \<Rightarrow> xr_definition_identity r \<noteq> tx_definition_identity t)
          then raise_exc (DefinitionIdentityError ''Persisted transaction definition identity is immutable'')
          else bnd (lift_res (header_row now t (sz_state sz) stored)) (\<lambda>row.
            thn (insert_tx row)
           (bnd (update_tx row fence) (\<lambda>rowcount.
            if fence \<noteq> None \<and> rowcount \<noteq> 1
            then raise_exc (TransactionFenceError ''Transaction revision is stale'')
            else thn (delete_steps (tx_id t))
                (thn (foreach (tx_steps t) (insert_step (tx_id t)))
                (thn (foreach (tx_history t) (insert_history (tx_id t)))
                (thn (replace_metadata (tx_id t) (sz_metadata sz))
                (thn (replace_artifacts (tx_id t) (sz_artifacts sz))
                (bnd get_st (\<lambda>db.
                   case find_tx (tx_id t) db of
                     None \<Rightarrow> raise_exc (RuntimeErr ''Transaction disappeared while saving'')
                   | Some r \<Rightarrow> ret (xr_revision r)))))))))))"

definition save_transaction :: "datetime \<Rightarrow> transaction \<Rightarrow> (txdb, pyexc, unit) effect" where
  "save_transaction now t =
     bnd (lift_res (serialized_transaction t)) (\<lambda>sz.
       atomically (bnd (write_transaction_rows now t sz None) (\<lambda>_. ret ())))"

section \<open>Reading a snapshot\<close>

record tx_rows =
  rw_header :: tx_row
  rw_steps :: "(step_row \<times> exc_row list) list"
  rw_history :: "history_row list"
  rw_metadata :: "metadata_row list"
  rw_artifacts :: "artifact_row list"

definition read_transaction_rows :: "txdb \<Rightarrow> string \<Rightarrow> pyexc + tx_rows" where
  "read_transaction_rows db i =
     (case find_tx i db of
        None \<Rightarrow> Inl (KeyErr ''Transaction not found'')
      | Some row \<Rightarrow> Inr
         \<lparr>rw_header = row,
          rw_steps = map (\<lambda>s. (s, sort_key er_id (filter (\<lambda>e. er_step_id e = sr_id s) (d_exceptions db))))
            (sort_key sr_order (filter (\<lambda>s. sr_transaction_id s = i) (d_steps db))),
          rw_history = sort_key hr_sequence (filter (\<lambda>h. hr_transaction_id h = i) (d_history db)),
          rw_metadata = sort_key mr_key (filter (\<lambda>m. mr_transaction_id m = i) (d_metadata db)),
          rw_artifacts = sort_key ar_sequence (filter (\<lambda>a. ar_transaction_id a = i) (d_artifacts db))\<rparr>)"

text \<open>\<open>try: \<dots> except (\<dots>) as exc: raise SystemException(\<dots>) from exc\<close>\<close>

definition repair_on ::
  "(pyexc \<Rightarrow> bool) \<Rightarrow> datetime \<Rightarrow> string \<Rightarrow> string \<Rightarrow> pyexc + 'a \<Rightarrow> pyexc + 'a" where
  "repair_on caught now message action r =
     (case r of
        Inl e \<Rightarrow> Inl (if caught e then repair_error now message action else e)
      | Inr a \<Rightarrow> Inr a)"

definition json_load_error :: "pyexc \<Rightarrow> bool" where
  "json_load_error e \<longleftrightarrow> e = JSONDecodeError \<or> is_json_state_error e"

definition load_transaction_state :: "datetime \<Rightarrow> tx_row \<Rightarrow> pyexc + pydict" where
  "load_transaction_state now row =
     repair_on json_load_error now ''Persisted transaction state is invalid''
       ''repair transaction state in the persistence database'' (load_object (xr_state row))"

definition load_step_arguments :: "datetime \<Rightarrow> step_row \<Rightarrow> pyexc + pydict" where
  "load_step_arguments now row =
     repair_on (\<lambda>e. e = JSONDecodeError \<or> is_type_error e) now ''Persisted step arguments are invalid''
       ''repair step arguments in the persistence database'' (load_object (sr_arguments row))"

definition enum_of :: "'a option \<Rightarrow> pyexc + 'a" where
  "enum_of x = (case x of None \<Rightarrow> Inl (ValueErr ''is not a valid enumeration value'') | Some a \<Rightarrow> Inr a)"

definition load_exception :: "exc_row \<Rightarrow> pyexc + step_exc" where
  "load_exception r =
     rbnd (parse_iso (er_occurred_at r)) (\<lambda>dt.
       if er_type r = ''business''
       then business_exception (er_message r) (er_action r) (er_retry_number r) (Some dt) dt
              (er_screenshot_path r) (er_halts r \<noteq> 0) (er_code r)
       else system_exception (er_message r) (er_action r) (er_retry_number r) (Some dt) dt
              (er_screenshot_path r) (er_code r))"

definition load_step :: "datetime \<Rightarrow> step_row \<times> exc_row list \<Rightarrow> pyexc + step" where
  "load_step now p = (case p of (row, exc_rows) \<Rightarrow>
     rbnd (load_step_arguments now row) (\<lambda>arguments.
     rbnd (enum_of (status_of (sr_status row))) (\<lambda>st.
     rbnd (decode_rows load_exception exc_rows) (\<lambda>exceptions.
       Inr ((new_step (sr_name row) (sr_order row) (Some arguments))
              \<lparr>st_status := st, st_exceptions := exceptions\<rparr>)))))"

definition load_metadata_row :: "datetime \<Rightarrow> metadata_row \<Rightarrow> pyexc + string \<times> pyval" where
  "load_metadata_row now row =
     repair_on json_load_error now ''Persisted transaction metadata is invalid''
       ''repair transaction metadata in the persistence database''
       (rbnd (json_loads (mr_value row)) (\<lambda>value.
        rbnd (validate_json_object (of_dict [(mr_key row, value)])) (\<lambda>_. Inr (mr_key row, value))))"

definition load_metadata :: "datetime \<Rightarrow> metadata_row list \<Rightarrow> pyexc + pydict" where
  "load_metadata now rows =
     rbnd (decode_rows (load_metadata_row now) rows) (\<lambda>items. Inr (dict_merge [] items))"

definition load_artifact :: "datetime \<Rightarrow> artifact_row \<Rightarrow> pyexc + artifact" where
  "load_artifact now row =
     rbnd (repair_on is_value_error now ''Persisted transaction artifact timestamp is invalid''
             ''repair transaction artifacts in the persistence database'' (parse_iso (ar_created_at row)))
       (\<lambda>created_at.
     rbnd (repair_on json_load_error now ''Persisted transaction artifact metadata is invalid''
             ''repair transaction artifact metadata in the persistence database''
             (load_object (ar_metadata row))) (\<lambda>metadata.
       Inr \<lparr>art_name = ar_name row, art_path = ar_path row, art_kind = ar_kind row, art_id = ar_id row,
            art_created_at = created_at, art_metadata = metadata\<rparr>))"

definition timestamp_from_storage :: "datetime \<Rightarrow> iso_text option \<Rightarrow> pyexc + datetime option" where
  "timestamp_from_storage now value =
     (case value of
        None \<Rightarrow> Inr None
      | Some t \<Rightarrow>
          (if t = empty_text then Inr None
           else repair_on is_value_error now ''Persisted transaction timestamp is invalid''
             ''repair transaction timestamps in the persistence database''
             (rbnd (parse_iso t) (\<lambda>d. Inr (Some d)))))"

definition load_history_row :: "datetime \<Rightarrow> history_row \<Rightarrow> pyexc + history_entry" where
  "load_history_row now row =
     repair_on (\<lambda>e. is_type_error e \<or> is_value_error e) now ''Persisted transaction history is invalid''
       ''repair transaction history in the persistence database''
       (rbnd (parse_iso (hr_timestamp row)) (\<lambda>timestamp.
        rbnd (enum_of (event_of (hr_event row))) (\<lambda>event.
        rbnd (enum_of (status_of (hr_status row))) (\<lambda>st.
          Inr \<lparr>he_sequence = hr_sequence row, he_timestamp = timestamp, he_event = event, he_status = st,
               he_retry_number = hr_retry_number row, he_step_name = hr_step_name row,
               he_step_order = hr_step_order row\<rparr>))))"

definition transaction_from_rows :: "datetime \<Rightarrow> tx_rows \<Rightarrow> pyexc + transaction" where
  "transaction_from_rows now rows =
     (let row = rw_header rows
      in rbnd (load_transaction_state now row) (\<lambda>state.
         rbnd (decode_rows (load_step now) (rw_steps rows)) (\<lambda>steps.
         rbnd (enum_of (status_of (xr_status row))) (\<lambda>tx_st.
         rbnd (decode_rows (load_history_row now) (rw_history rows)) (\<lambda>history.
         rbnd (load_metadata now (rw_metadata rows)) (\<lambda>metadata.
         rbnd (decode_rows (load_artifact now) (rw_artifacts rows)) (\<lambda>artifacts.
         rbnd (enum_of (outcome_of (xr_outcome row))) (\<lambda>outcome.
         rbnd (enum_of (disposition_of (xr_disposition row))) (\<lambda>disposition.
         rbnd (timestamp_from_storage now (Some (xr_created_at row))) (\<lambda>created.
         rbnd (timestamp_from_storage now (xr_started_at row)) (\<lambda>started.
         rbnd (timestamp_from_storage now (xr_finished_at row)) (\<lambda>finished.
           transaction_post_init
             \<lparr>tx_reference = xr_reference row, tx_id = xr_id row, tx_status = tx_st,
              tx_retry_count = xr_retry_count row, tx_created_at = created, tx_started_at = started,
              tx_finished_at = finished, tx_state = state, tx_metadata = metadata,
              tx_artifacts = artifacts, tx_steps = steps, tx_history = history, tx_outcome = outcome,
              tx_disposition = disposition, tx_failure_code = xr_failure_code row,
              tx_definition_identity = xr_definition_identity row\<rparr>))))))))))))"

definition load_transaction_with_revision ::
  "datetime \<Rightarrow> string \<Rightarrow> (txdb, pyexc, transaction \<times> int) effect" where
  "load_transaction_with_revision now i =
     bnd get_st (\<lambda>db.
     bnd (lift_res (read_transaction_rows db i)) (\<lambda>rows.
     bnd (lift_res (transaction_from_rows now rows)) (\<lambda>t. ret (t, xr_revision (rw_header rows)))))"

definition load_transaction :: "datetime \<Rightarrow> string \<Rightarrow> (txdb, pyexc, transaction) effect" where
  "load_transaction now i = bnd (load_transaction_with_revision now i) (\<lambda>(t, _). ret t)"

end
