(* ===== verification/PersistenceInv.thy ===== *)
theory PersistenceInv
  imports Persistence
begin

text \<open>
  What a successful write leaves in each table, the invariant of the store, and what no write
  changes: other transactions, identities, creation times and stored history.
\<close>

section \<open>Effects of the inserts\<close>

fun number_excs :: "string \<Rightarrow> int \<Rightarrow> step_exc list \<Rightarrow> exc_row list" where
  "number_excs sid n [] = []"
| "number_excs sid n (e # es) = exc_to_row sid (n + 1) e # number_excs sid (n + 1) es"

fun steps_excs :: "string \<Rightarrow> int \<Rightarrow> step list \<Rightarrow> exc_row list" where
  "steps_excs i n [] = []"
| "steps_excs i n (s # ss) =
     number_excs (step_id i s) n (st_exceptions s) @ steps_excs i (n + int (length (st_exceptions s))) ss"

fun add_history :: "string \<Rightarrow> history_row list \<Rightarrow> history_entry list \<Rightarrow> history_row list" where
  "add_history i rows [] = rows"
| "add_history i rows (h # hs) =
     add_history i (if has_entry i (he_sequence h) rows then rows
                    else rows @ [history_to_row i h]) hs"

lemma insert_exceptions_run:
  "foreach es (insert_exception sid) db =
     (Inr (), db\<lparr>d_exception_seq := d_exception_seq db + int (length es),
        d_exceptions := d_exceptions db @ number_excs sid (d_exception_seq db) es\<rparr>)"
  by (induction es arbitrary: db)
    (simp_all add: ret_def thn_def bnd_def insert_exception_def upd_st_def ac_simps)

lemma insert_history_run:
  "foreach hs (insert_history i) db = (Inr (), db\<lparr>d_history := add_history i (d_history db) hs\<rparr>)"
  by (induction hs arbitrary: db)
    (simp_all add: ret_def thn_def bnd_def insert_history_def upd_st_def)

text \<open>Total number of exceptions of the steps.\<close>

definition exc_count :: "step list \<Rightarrow> int" where
  "exc_count ss = int (sum_list (map (\<lambda>s. length (st_exceptions s)) ss))"

lemma exc_count_simps [simp]:
  "exc_count [] = 0" "exc_count (s # ss) = int (length (st_exceptions s)) + exc_count ss"
  by (simp_all add: exc_count_def)

lemma insert_steps_run:
  assumes "foreach ss (insert_step i) db = (Inr (), db')"
  shows "db' = db\<lparr>d_steps := d_steps db @ map (step_to_row i) ss,
      d_exceptions := d_exceptions db @ steps_excs i (d_exception_seq db) ss,
      d_exception_seq := d_exception_seq db + exc_count ss\<rparr> \<and>
    distinct (map (step_id i) ss) \<and> (\<forall>s \<in> set ss. step_id i s \<notin> sr_id ` set (d_steps db))"
  using assms
proof (induction ss arbitrary: db)
  case Nil
  then show ?case by (simp add: ret_def)
next
  case (Cons s ss)
  then obtain db1 where one: "insert_step i s db = (Inr (), db1)"
    and rest: "foreach ss (insert_step i) db1 = (Inr (), db')"
    by (auto simp: thn_Inr)
  from one have free: "\<not> step_conflict (step_to_row i s) db"
    and db1: "db1 = db\<lparr>d_steps := d_steps db @ [step_to_row i s],
      d_exceptions := d_exceptions db @ number_excs (step_id i s) (d_exception_seq db) (st_exceptions s),
      d_exception_seq := d_exception_seq db + int (length (st_exceptions s))\<rparr>"
    by (auto simp: insert_step_def thn_Inr insert_exceptions_run split: if_splits)
  from free have "step_id i s \<notin> sr_id ` set (d_steps db)"
    by (auto simp: step_conflict_def step_to_row_def)
  then show ?case using Cons.IH [OF rest] by (auto simp: db1 step_to_row_def add.assoc)
qed

lemma insert_metadata_Inr:
  "insert_metadata i item db = (Inr u, db') \<longleftrightarrow>
     (\<forall>m \<in> set (d_metadata db). mr_transaction_id m = i \<longrightarrow> mr_key m \<noteq> fst item) \<and>
     db' = db\<lparr>d_metadata := d_metadata db @
       [\<lparr>mr_transaction_id = i, mr_key = fst item, mr_value = snd item\<rparr>]\<rparr>"
  by (auto simp: insert_metadata_def)

lemma foreach_metadata_run:
  assumes "foreach items (insert_metadata i) db = (Inr (), db')"
  shows "db' = db\<lparr>d_metadata := d_metadata db @
      map (\<lambda>p. \<lparr>mr_transaction_id = i, mr_key = fst p, mr_value = snd p\<rparr>) items\<rparr> \<and> distinct (map fst items) \<and>
    (\<forall>m \<in> set (d_metadata db). mr_transaction_id m = i \<longrightarrow> mr_key m \<notin> fst ` set items)"
  using assms
proof (induction items arbitrary: db)
  case Nil
  then show ?case by (simp add: ret_def)
next
  case (Cons item items)
  then obtain db1 where one: "insert_metadata i item db = (Inr (), db1)"
    and rest: "foreach items (insert_metadata i) db1 = (Inr (), db')"
    by (auto simp: thn_Inr)
  from one have free: "\<forall>m \<in> set (d_metadata db). mr_transaction_id m = i \<longrightarrow> mr_key m \<noteq> fst item"
    and db1: "db1 = db\<lparr>d_metadata := d_metadata db @
       [\<lparr>mr_transaction_id = i, mr_key = fst item, mr_value = snd item\<rparr>]\<rparr>"
    unfolding insert_metadata_Inr by blast+
  show ?case using Cons.IH [OF rest] free by (auto simp: db1)
qed

lemma replace_metadata_run:
  assumes "replace_metadata i items db = (Inr (), db')"
  shows "db' = db\<lparr>d_metadata := filter (\<lambda>m. mr_transaction_id m \<noteq> i) (d_metadata db) @
      map (\<lambda>p. \<lparr>mr_transaction_id = i, mr_key = fst p, mr_value = snd p\<rparr>) items\<rparr> \<and> distinct (map fst items)"
  using assms foreach_metadata_run [of items i "db\<lparr>d_metadata := filter (\<lambda>m. mr_transaction_id m \<noteq> i) (d_metadata db)\<rparr>" db']
  by (simp add: replace_metadata_def thn_Inr upd_st_def)

lemma insert_artifact_Inr:
  "insert_artifact i row db = (Inr u, db') \<Longrightarrow> db' = db\<lparr>d_artifacts := d_artifacts db @ [row]\<rparr>"
  by (auto simp: insert_artifact_def split: if_splits)

lemma foreach_artifacts_run:
  "foreach rows (insert_artifact i) db = (Inr (), db') \<Longrightarrow> db' = db\<lparr>d_artifacts := d_artifacts db @ rows\<rparr>"
proof (induction rows arbitrary: db)
  case (Cons row rows)
  then have "foreach rows (insert_artifact i) (db\<lparr>d_artifacts := d_artifacts db @ [row]\<rparr>) = (Inr (), db')"
    by (auto simp: thn_Inr dest!: insert_artifact_Inr)
  from Cons.IH [OF this] show ?case by simp
qed (simp add: ret_def)

lemma replace_artifacts_run:
  assumes "replace_artifacts i rows db = (Inr (), db')"
  shows "db' = db\<lparr>d_artifacts := filter (\<lambda>a. ar_transaction_id a \<noteq> i) (d_artifacts db) @ rows\<rparr>"
  using assms foreach_artifacts_run [of rows i "db\<lparr>d_artifacts := filter (\<lambda>a. ar_transaction_id a \<noteq> i) (d_artifacts db)\<rparr>" db']
  by (simp add: replace_artifacts_def thn_Inr upd_st_def)

section \<open>The whole write\<close>

definition with_tx :: "tx_row \<Rightarrow> txdb \<Rightarrow> tx_row list" where
  "with_tx row db = (if find_tx (xr_id row) db \<noteq> None then d_transactions db else d_transactions db @ [row])"

definition kept_excs :: "string \<Rightarrow> txdb \<Rightarrow> exc_row list" where
  "kept_excs i db = filter (\<lambda>e. \<not> (\<exists>s \<in> set (d_steps db).
     sr_transaction_id s = i \<and> sr_id s = er_step_id e)) (d_exceptions db)"

definition written :: "transaction \<Rightarrow> serialized \<Rightarrow> fence option \<Rightarrow> tx_row \<Rightarrow> txdb \<Rightarrow> txdb" where
  "written t sz fence row db =
     (let i = tx_id t
      in \<lparr>d_transactions = map (\<lambda>r. if fence_matches i fence r then updated_tx row fence r else r) (with_tx row db),
          d_steps = filter (\<lambda>s. sr_transaction_id s \<noteq> i) (d_steps db) @ map (step_to_row i) (tx_steps t),
          d_exceptions = kept_excs i db @ steps_excs i (d_exception_seq db) (tx_steps t),
          d_history = add_history i (d_history db) (tx_history t),
          d_metadata = filter (\<lambda>m. mr_transaction_id m \<noteq> i) (d_metadata db) @
            map (\<lambda>p. \<lparr>mr_transaction_id = i, mr_key = fst p, mr_value = snd p\<rparr>) (sz_metadata sz),
          d_artifacts = filter (\<lambda>a. ar_transaction_id a \<noteq> i) (d_artifacts db) @ sz_artifacts sz,
          d_exception_seq = d_exception_seq db + exc_count (tx_steps t)\<rparr>)"

lemma header_row_id: "header_row now t state stored = Inr row \<Longrightarrow> xr_id row = tx_id t"
  by (auto simp: header_row_def Let_def rbnd_Inr tx_to_row_def)

lemma write_run:
  assumes "write_transaction_rows now t sz fence db = (Inr n, db')"
  obtains row where "header_row now t (sz_state sz) (find_tx (tx_id t) db) = Inr row"
    "\<And>r. find_tx (tx_id t) db = Some r \<Longrightarrow> xr_definition_identity r = tx_definition_identity t"
    "fence = None \<or> length (filter (fence_matches (tx_id t) fence) (with_tx row db)) = 1"
    "db' = written t sz fence row db" "distinct (map fst (sz_metadata sz))"
    "distinct (map (step_id (tx_id t)) (tx_steps t))"
    "\<forall>s \<in> set (tx_steps t). step_id (tx_id t) s \<notin>
       sr_id ` {s \<in> set (d_steps db). sr_transaction_id s \<noteq> tx_id t}"
    "map_option xr_revision (find_tx (tx_id t) db') = Some n"
proof -
  let ?i = "tx_id t"
  from assms obtain row where row: "header_row now t (sz_state sz) (find_tx ?i db) = Inr row"
    and ident: "\<And>r. find_tx ?i db = Some r \<Longrightarrow> xr_definition_identity r = tx_definition_identity t"
    by (auto simp: write_transaction_rows_def bnd_Inr get_st_def Let_def raise_exc_def lift_res_def
        split: if_splits option.splits)
  have noid: "\<not> (case find_tx ?i db of None \<Rightarrow> False
      | Some r \<Rightarrow> xr_definition_identity r \<noteq> tx_definition_identity t)"
    using ident by (auto split: option.splits)
  note id = header_row_id [OF row]
  let ?db1 = "db\<lparr>d_transactions := with_tx row db\<rparr>"
  have ins: "insert_tx row db = (Inr (), ?db1)"
    by (simp add: insert_tx_def upd_st_def with_tx_def)
  let ?db2 = "?db1\<lparr>d_transactions := map (\<lambda>r. if fence_matches ?i fence r then updated_tx row fence r else r)
      (with_tx row db)\<rparr>"
  have upd: "update_tx row fence ?db1 = (Inr (length (filter (fence_matches ?i fence) (with_tx row db))), ?db2)"
    by (simp add: update_tx_def id)
  from assms noid have count: "fence = None \<or> length (filter (fence_matches ?i fence) (with_tx row db)) = 1"
    by (auto simp: write_transaction_rows_def bnd_Inr thn_Inr get_st_def Let_def raise_exc_def lift_res_def
        row ins upd split: if_splits) (metis option.exhaust prod_cases3)+
  from assms noid count obtain db3 db4 db5 db6 where
    del: "delete_steps ?i ?db2 = (Inr (), db3)" and
    st: "foreach (tx_steps t) (insert_step ?i) db3 = (Inr (), db4)" and
    meta: "replace_metadata ?i (sz_metadata sz)
      (db4\<lparr>d_history := add_history ?i (d_history db4) (tx_history t)\<rparr>) = (Inr (), db5)" and
    arts: "replace_artifacts ?i (sz_artifacts sz) db5 = (Inr (), db')" and
    revn: "map_option xr_revision (find_tx ?i db') = Some n"
    by (auto simp: write_transaction_rows_def bnd_Inr thn_Inr get_st_def Let_def raise_exc_def lift_res_def
        row ins upd insert_history_run ret_def split: if_splits option.splits)
  have db3: "db3 = ?db2\<lparr>d_steps := filter (\<lambda>s. sr_transaction_id s \<noteq> ?i) (d_steps db),
      d_exceptions := kept_excs ?i db\<rparr>"
    using del by (simp add: delete_steps_def upd_st_def kept_excs_def)
  have step_facts: "db4 = db3\<lparr>d_steps := d_steps db3 @ map (step_to_row ?i) (tx_steps t),
      d_exceptions := d_exceptions db3 @ steps_excs ?i (d_exception_seq db3) (tx_steps t),
      d_exception_seq := d_exception_seq db3 + exc_count (tx_steps t)\<rparr>"
    "distinct (map (step_id ?i) (tx_steps t))" "\<forall>s \<in> set (tx_steps t). step_id ?i s \<notin> sr_id ` set (d_steps db3)"
    using insert_steps_run [OF st] by blast+
  have meta_facts: "db5 = db4\<lparr>d_history := add_history ?i (d_history db4) (tx_history t),
      d_metadata := filter (\<lambda>m. mr_transaction_id m \<noteq> ?i) (d_metadata db4) @
        map (\<lambda>p. \<lparr>mr_transaction_id = ?i, mr_key = fst p, mr_value = snd p\<rparr>) (sz_metadata sz)\<rparr>"
    "distinct (map fst (sz_metadata sz))"
    using replace_metadata_run [OF meta] by simp_all
  have "db' = written t sz fence row db"
    using replace_artifacts_run [OF arts] meta_facts(1) step_facts(1) db3
    by (simp add: written_def Let_def)
  moreover have "\<forall>s \<in> set (tx_steps t). step_id ?i s \<notin>
      sr_id ` {s \<in> set (d_steps db). sr_transaction_id s \<noteq> ?i}"
    using step_facts(3) by (simp add: db3)
  ultimately show thesis using that [OF row ident count] meta_facts(2) step_facts(2) revn by blast
qed

section \<open>History\<close>

lemma add_history_append: "add_history i rows (xs @ ys) = add_history i (add_history i rows xs) ys"
  by (induction i rows xs rule: add_history.induct) auto

lemma add_history_grows: "\<exists>new. add_history i rows hs = rows @ new \<and> (\<forall>r \<in> set new. hr_transaction_id r = i)"
proof (induction i rows hs rule: add_history.induct)
  case (2 i rows h hs)
  then obtain new where "add_history i rows (h # hs) =
      (if has_entry i (he_sequence h) rows then rows else rows @ [history_to_row i h]) @ new"
    "\<forall>r \<in> set new. hr_transaction_id r = i" by auto
  then show ?case
    by (cases "has_entry i (he_sequence h) rows") (auto simp: history_to_row_def)
qed simp

lemma add_history_known:
  "\<forall>h \<in> set hs. has_entry i (he_sequence h) rows \<Longrightarrow> add_history i rows hs = rows"
  by (induction i rows hs rule: add_history.induct) auto

lemma add_history_new:
  "distinct (map he_sequence hs) \<Longrightarrow> \<forall>h \<in> set hs. \<not> has_entry i (he_sequence h) rows \<Longrightarrow>
   add_history i rows hs = rows @ map (history_to_row i) hs"
proof (induction i rows hs rule: add_history.induct)
  case (2 i rows h hs)
  have "\<forall>x \<in> set hs. \<not> has_entry i (he_sequence x) (rows @ [history_to_row i h])"
    using "2.prems" by (auto simp: has_entry_def history_to_row_def)
  with 2 show ?case by simp
qed simp

lemma history_numbered_seq: "history_numbered hs \<Longrightarrow> map he_sequence hs = map (\<lambda>k. int k + 1) [0..<length hs]"
  by (auto simp: history_numbered_def intro: nth_equalityI)

lemma distinct_numbered: "history_numbered hs \<Longrightarrow> distinct (map he_sequence hs)"
  by (simp add: history_numbered_seq distinct_map inj_on_def)

text \<open>A history that extends the stored one is stored as it is.\<close>

lemma add_history_extends:
  assumes num: "history_numbered hs"
    and old: "filter (\<lambda>r. hr_transaction_id r = i) rows = map (history_to_row i) (take k hs)"
  shows "filter (\<lambda>r. hr_transaction_id r = i) (add_history i rows hs) = map (history_to_row i) hs"
proof -
  have entry: "has_entry i n rows \<longleftrightarrow> n \<in> he_sequence ` set (take k hs)" for n
  proof -
    have "has_entry i n rows \<longleftrightarrow> n \<in> hr_sequence ` set (filter (\<lambda>r. hr_transaction_id r = i) rows)"
      by (auto simp: has_entry_def)
    then show ?thesis by (simp add: old image_image history_to_row_def)
  qed
  have "distinct (map he_sequence (take k hs @ drop k hs))" using distinct_numbered [OF num] by simp
  then have d: "distinct (map he_sequence (drop k hs))"
    "he_sequence ` set (take k hs) \<inter> he_sequence ` set (drop k hs) = {}"
    by (simp_all only: map_append distinct_append set_map)
  have "add_history i rows (take k hs @ drop k hs) = rows @ map (history_to_row i) (drop k hs)"
    unfolding add_history_append
    using add_history_known [of "take k hs" i rows] add_history_new [OF d(1), of i rows] d(2)
    by (auto simp: entry)
  then have "add_history i rows hs = rows @ map (history_to_row i) (drop k hs)" by simp
  moreover have "filter (\<lambda>r. hr_transaction_id r = i) (map (history_to_row i) (drop k hs)) =
      map (history_to_row i) (drop k hs)"
    by (simp add: filter_map o_def history_to_row_def)
  ultimately show ?thesis
    by (metis append_take_drop_id filter_append map_append old)
qed

section \<open>Headers\<close>

lemma updated_tx_simps [simp]:
  "xr_id (updated_tx new fence r) = xr_id r"
  "xr_definition_identity (updated_tx new fence r) = xr_definition_identity r"
  "xr_revision (updated_tx new fence r) = xr_revision r + 1"
  "xr_created_at (updated_tx new fence r) =
     (if xr_created_at r = empty_text then xr_created_at new else xr_created_at r)"
  "xr_created_at_utc (updated_tx new fence r) =
     (if xr_created_at_utc r = empty_text then xr_created_at_utc new else xr_created_at_utc r)"
  by (simp_all add: updated_tx_def Let_def split: option.split)

lemma find_map_row:
  "(\<And>r. xr_id (f r) = xr_id r) \<Longrightarrow>
   find (\<lambda>r. xr_id r = i) (map f xs) = map_option f (find (\<lambda>r. xr_id r = i) xs)"
  by (induction xs) auto

lemma find_append: "find P (xs @ ys) = (case find P xs of None \<Rightarrow> find P ys | Some x \<Rightarrow> Some x)"
  by (induction xs) auto

lemma find_Some_iff_distinct:
  "distinct (map xr_id xs) \<Longrightarrow> find (\<lambda>r. xr_id r = i) xs = Some r \<longleftrightarrow> r \<in> set xs \<and> xr_id r = i"
  by (induction xs) (auto split: if_splits)

lemma find_None_row: "find (\<lambda>r. xr_id r = i) xs = None \<longleftrightarrow> i \<notin> xr_id ` set xs"
  by (auto simp: find_None_iff)

lemma find_with_tx:
  "xr_id row = i \<Longrightarrow>
   find (\<lambda>r. xr_id r = j) (with_tx row db) = (if j = i then Some (case find_tx i db of None \<Rightarrow> row | Some r \<Rightarrow> r)
     else find_tx j db)"
  by (auto simp: with_tx_def find_tx_def find_append split: option.splits)

lemma distinct_with_tx:
  "distinct (map xr_id (d_transactions db)) \<Longrightarrow> distinct (map xr_id (with_tx row db))"
  by (auto simp: with_tx_def find_tx_def find_None_row)

definition base_row :: "tx_row \<Rightarrow> txdb \<Rightarrow> tx_row" where
  "base_row row db = (case find_tx (xr_id row) db of None \<Rightarrow> row | Some r \<Rightarrow> r)"

lemma find_written:
  assumes d: "distinct (map xr_id (d_transactions db))" and id: "xr_id row = tx_id t"
    and fence: "fence = None \<or> length (filter (fence_matches (tx_id t) fence) (with_tx row db)) = 1"
  shows "find_tx j (written t sz fence row db) =
    (if j = tx_id t then Some (updated_tx row fence (base_row row db)) else find_tx j db)"
proof -
  let ?i = "tx_id t"
  let ?f = "\<lambda>r. if fence_matches ?i fence r then updated_tx row fence r else r"
  have found: "find (\<lambda>r. xr_id r = j) (map ?f (with_tx row db)) =
      map_option ?f (if j = ?i then Some (base_row row db) else find_tx j db)"
    using find_map_row [of ?f j "with_tx row db"] by (simp add: find_with_tx [OF id] base_row_def id)
  have "fence_matches ?i fence (base_row row db)"
  proof (cases fence)
    case None
    have "xr_id (base_row row db) = ?i"
      by (auto simp: base_row_def id find_tx_def find_Some_iff split: option.split)
    with None show ?thesis by (simp add: fence_matches_def)
  next
    case (Some f)
    then have "filter (fence_matches ?i fence) (with_tx row db) \<noteq> []" using fence by auto
    then obtain r where r: "r \<in> set (with_tx row db)" "fence_matches ?i fence r"
      by (auto simp: filter_empty_conv)
    then have "find (\<lambda>r. xr_id r = ?i) (with_tx row db) = Some r"
      using find_Some_iff_distinct [OF distinct_with_tx [OF d]] by (auto simp: fence_matches_def)
    then have "base_row row db = r" by (simp add: find_with_tx [OF id] base_row_def id)
    with r show ?thesis by simp
  qed
  moreover have "\<not> fence_matches ?i fence r" if "find_tx j db = Some r" "j \<noteq> ?i" for r
    using that by (auto simp: find_tx_def find_Some_iff fence_matches_def)
  moreover have "find_tx j (written t sz fence row db) = find (\<lambda>r. xr_id r = j) (map ?f (with_tx row db))"
    by (simp add: find_tx_def written_def Let_def)
  ultimately show ?thesis using found by (cases "find_tx j db") auto
qed

section \<open>The invariant of the store\<close>

text \<open>
  Primary keys are unique, those of the metadata too, children belong to a stored transaction or step,
  and a creation time is empty or a timestamp.
\<close>

definition metadata_key :: "metadata_row \<Rightarrow> string \<times> string" where
  "metadata_key m = (mr_transaction_id m, mr_key m)"

definition tinv :: "txdb \<Rightarrow> bool" where
  "tinv db \<longleftrightarrow> distinct (map xr_id (d_transactions db)) \<and> distinct (map sr_id (d_steps db)) \<and>
     (\<forall>e \<in> set (d_exceptions db). er_step_id e \<in> sr_id ` set (d_steps db)) \<and>
     (\<forall>r \<in> set (d_transactions db). xr_created_at r = empty_text \<or> fromisoformat (xr_created_at r) \<noteq> None) \<and>
     distinct (map metadata_key (d_metadata db)) \<and>
     sr_transaction_id ` set (d_steps db) \<union> hr_transaction_id ` set (d_history db) \<union>
       mr_transaction_id ` set (d_metadata db) \<union> ar_transaction_id ` set (d_artifacts db)
       \<subseteq> xr_id ` set (d_transactions db)"

lemma tinv_empty: "tinv empty_txdb"
  by (simp add: tinv_def empty_txdb_def)

lemma number_excs_step: "e \<in> set (number_excs sid n es) \<Longrightarrow> er_step_id e = sid"
  by (induction es arbitrary: n) (auto simp: exc_to_row_def)

lemma steps_excs_step: "e \<in> set (steps_excs i n ss) \<Longrightarrow> er_step_id e \<in> step_id i ` set ss"
  by (induction ss arbitrary: n) (auto dest: number_excs_step)

lemma kept_excs_step:
  assumes "tinv db" "e \<in> set (kept_excs i db)"
  shows "er_step_id e \<in> sr_id ` {s \<in> set (d_steps db). sr_transaction_id s \<noteq> i}"
  using assms by (force simp: tinv_def kept_excs_def)

lemma timestamp_to_storage_parses:
  "timestamp_to_storage v legacy = Inr t \<Longrightarrow> t = empty_text \<or> fromisoformat t \<noteq> None"
  by (auto simp: timestamp_to_storage_def split: option.splits if_splits)

lemma header_row_created:
  "header_row now t state stored = Inr row \<Longrightarrow>
   xr_created_at row = empty_text \<or> fromisoformat (xr_created_at row) \<noteq> None"
  by (auto simp: header_row_def Let_def rbnd_Inr tx_to_row_def dest: timestamp_to_storage_parses)

lemma set_with_tx: "set (d_transactions db) \<subseteq> set (with_tx row db)"
  "set (with_tx row db) \<subseteq> insert row (set (d_transactions db))"
  by (auto simp: with_tx_def)

lemma ids_with_tx: "xr_id ` set (with_tx row db) = insert (xr_id row) (xr_id ` set (d_transactions db))"
  by (auto simp: with_tx_def find_tx_def find_None_row)

lemma written_simps [simp]:
  "d_transactions (written t sz fence row db) =
     map (\<lambda>r. if fence_matches (tx_id t) fence r then updated_tx row fence r else r) (with_tx row db)"
  "d_steps (written t sz fence row db) =
     filter (\<lambda>s. sr_transaction_id s \<noteq> tx_id t) (d_steps db) @ map (step_to_row (tx_id t)) (tx_steps t)"
  "d_exceptions (written t sz fence row db) =
     kept_excs (tx_id t) db @ steps_excs (tx_id t) (d_exception_seq db) (tx_steps t)"
  "d_history (written t sz fence row db) = add_history (tx_id t) (d_history db) (tx_history t)"
  "d_metadata (written t sz fence row db) = filter (\<lambda>m. mr_transaction_id m \<noteq> tx_id t) (d_metadata db) @
     map (\<lambda>p. \<lparr>mr_transaction_id = tx_id t, mr_key = fst p, mr_value = snd p\<rparr>) (sz_metadata sz)"
  "d_artifacts (written t sz fence row db) =
     filter (\<lambda>a. ar_transaction_id a \<noteq> tx_id t) (d_artifacts db) @ sz_artifacts sz"
  by (simp_all add: written_def Let_def)

lemma tinv_written:
  assumes inv: "tinv db" and row: "header_row now t (sz_state sz) (find_tx (tx_id t) db) = Inr row"
    and steps: "distinct (map (step_id (tx_id t)) (tx_steps t))"
      "\<forall>s \<in> set (tx_steps t). step_id (tx_id t) s \<notin>
         sr_id ` {s \<in> set (d_steps db). sr_transaction_id s \<noteq> tx_id t}"
    and arts: "ar_transaction_id ` set (sz_artifacts sz) \<subseteq> {tx_id t}" and meta: "distinct (map fst (sz_metadata sz))"
  shows "tinv (written t sz fence row db)"
proof -
  let ?i = "tx_id t" and ?db' = "written t sz fence row db"
  note id = header_row_id [OF row]
  have ids: "xr_id ` set (d_transactions ?db') = insert ?i (xr_id ` set (d_transactions db))"
  proof -
    have "map xr_id (d_transactions ?db') = map xr_id (with_tx row db)" by simp
    then have "xr_id ` set (d_transactions ?db') = xr_id ` set (with_tx row db)" by (metis set_map)
    then show ?thesis using ids_with_tx [of row db] id by simp
  qed
  have tx: "distinct (map xr_id (d_transactions ?db'))"
    using distinct_with_tx [of db row] inv
    by (simp add: tinv_def o_def if_distrib [of xr_id] cong: if_cong)
  have steps_ok: "distinct (map sr_id (d_steps ?db'))"
  proof -
    have "distinct (map sr_id (filter (\<lambda>s. sr_transaction_id s \<noteq> ?i) (d_steps db)))"
      using inv by (simp add: tinv_def distinct_map_filter)
    moreover have "map sr_id (d_steps ?db') = map sr_id (filter (\<lambda>s. sr_transaction_id s \<noteq> ?i) (d_steps db)) @
        map (step_id ?i) (tx_steps t)"
      by (simp add: step_to_row_def)
    moreover have "set (map sr_id (filter (\<lambda>s. sr_transaction_id s \<noteq> ?i) (d_steps db))) \<inter>
        set (map (step_id ?i) (tx_steps t)) = {}"
      using steps(2) by force
    ultimately show ?thesis using steps(1) by (simp only: distinct_append)
  qed
  have excs: "\<forall>e \<in> set (d_exceptions ?db'). er_step_id e \<in> sr_id ` set (d_steps ?db')"
    using kept_excs_step [OF inv, of _ ?i] steps_excs_step [of _ ?i "d_exception_seq db" "tx_steps t"]
    by (auto simp: image_Un image_image step_to_row_def)
  have created: "\<forall>r \<in> set (d_transactions ?db').
      xr_created_at r = empty_text \<or> fromisoformat (xr_created_at r) \<noteq> None"
  proof
    fix r assume "r \<in> set (d_transactions ?db')"
    then have "r \<in> (\<lambda>r. if fence_matches ?i fence r then updated_tx row fence r else r) ` set (with_tx row db)"
      by (simp only: written_simps set_map)
    then obtain x where x: "x \<in> set (with_tx row db)"
      and "r = (if fence_matches ?i fence x then updated_tx row fence x else x)" by blast
    then have r: "r = x \<or> r = updated_tx row fence x" by argo
    have "x = row \<or> x \<in> set (d_transactions db)" using x set_with_tx(2) [of row db] by auto
    then have "xr_created_at x = empty_text \<or> fromisoformat (xr_created_at x) \<noteq> None"
      using inv header_row_created [OF row] by (metis tinv_def)
    with r header_row_created [OF row]
    show "xr_created_at r = empty_text \<or> fromisoformat (xr_created_at r) \<noteq> None"
      by (cases "xr_created_at x = empty_text") auto
  qed
  have keys: "distinct (map metadata_key (d_metadata ?db'))"
  proof -
    have "distinct (map metadata_key (filter (\<lambda>m. mr_transaction_id m \<noteq> ?i) (d_metadata db)))"
      using inv by (simp add: tinv_def distinct_map_filter)
    moreover have "distinct (map (Pair ?i) (map fst (sz_metadata sz)))" using meta by (simp add: distinct_map inj_on_def)
    ultimately show ?thesis by (auto simp: metadata_key_def o_def)
  qed
  have "hr_transaction_id ` set (d_history ?db') \<subseteq> insert ?i (hr_transaction_id ` set (d_history db))"
    using add_history_grows [of ?i "d_history db" "tx_history t"] by auto
  moreover have "sr_transaction_id ` set (d_steps ?db') \<subseteq> insert ?i (sr_transaction_id ` set (d_steps db))"
    "mr_transaction_id ` set (d_metadata ?db') \<subseteq> insert ?i (mr_transaction_id ` set (d_metadata db))"
    "ar_transaction_id ` set (d_artifacts ?db') \<subseteq> insert ?i (ar_transaction_id ` set (d_artifacts db))"
    using arts by (auto simp: step_to_row_def)
  moreover have "sr_transaction_id ` set (d_steps db) \<subseteq> xr_id ` set (d_transactions db)"
    "hr_transaction_id ` set (d_history db) \<subseteq> xr_id ` set (d_transactions db)"
    "mr_transaction_id ` set (d_metadata db) \<subseteq> xr_id ` set (d_transactions db)"
    "ar_transaction_id ` set (d_artifacts db) \<subseteq> xr_id ` set (d_transactions db)"
    using inv by (simp_all add: tinv_def)
  ultimately have "sr_transaction_id ` set (d_steps ?db') \<union> hr_transaction_id ` set (d_history ?db') \<union>
      mr_transaction_id ` set (d_metadata ?db') \<union> ar_transaction_id ` set (d_artifacts ?db')
      \<subseteq> xr_id ` set (d_transactions ?db')"
    unfolding ids by (intro Un_least) (erule subset_trans, erule insert_mono)+
  with tx steps_ok excs created keys show ?thesis unfolding tinv_def by (intro conjI)
qed

lemma decode_rows_all:
  "decode_rows f xs = Inr ys \<Longrightarrow> length ys = length xs \<and> (\<forall>k < length xs. f (xs ! k) = Inr (ys ! k))"
proof (induction xs arbitrary: ys)
  case (Cons x xs)
  then obtain z zs where "ys = z # zs" "f x = Inr z" "decode_rows f xs = Inr zs"
    by (auto split: sum.splits)
  with Cons.IH [of zs] show ?case by (auto simp: less_Suc_eq_0_disj nth_Cons split: nat.splits)
qed simp

lemma serialized_Inr:
  "serialized_transaction t = Inr sz \<longleftrightarrow>
     validate_for_execution t = Inr t \<and>
     sz = \<lparr>sz_state = JsonText (of_dict (tx_state t)),
       sz_metadata = map (\<lambda>(k, v). (k, JsonText (canonical v))) (tx_metadata t),
       sz_artifacts = map (\<lambda>(n, a). \<lparr>ar_transaction_id = tx_id t, ar_sequence = int n + 1, ar_id = art_id a,
            ar_name = art_name a, ar_path = art_path a, ar_kind = art_kind a,
            ar_created_at = isoformat (art_created_at a),
            ar_metadata = JsonText (canonical (of_dict (art_metadata a)))\<rparr>) (enumerate 0 (tx_artifacts t))\<rparr>"
proof -
  have arts: "decode_rows (\<lambda>(n, a). artifact_to_row (tx_id t) a (int n)) (map (\<lambda>x. x) (enumerate 0 (tx_artifacts t))) =
      Inr (map (\<lambda>(n, a). \<lparr>ar_transaction_id = tx_id t, ar_sequence = int n + 1, ar_id = art_id a,
            ar_name = art_name a, ar_path = art_path a, ar_kind = art_kind a,
            ar_created_at = isoformat (art_created_at a),
            ar_metadata = JsonText (canonical (of_dict (art_metadata a)))\<rparr>) (enumerate 0 (tx_artifacts t)))"
    if "durable_safe t"
    by (rule decode_rows_map)
      (use that in \<open>auto simp: artifact_to_row_def durable_safe_def validate_json_object_of_dict in_set_enumerate_eq\<close>)
  show ?thesis
  proof (cases "validate_for_execution t")
    case (Inl e)
    then show ?thesis by (simp add: serialized_transaction_def)
  next
    case (Inr t')
    then have ok: "t' = t" "durable_safe t" by (auto simp: validate_for_execution_iff)
    then show ?thesis
      using arts Inr
      by (auto simp: serialized_transaction_def metadata_to_storage_def validate_json_object_of_dict durable_safe_def)
  qed
qed

lemma save_run:
  "save_transaction now t db = (Inr (), db') \<longleftrightarrow>
     (\<exists>sz n. serialized_transaction t = Inr sz \<and> write_transaction_rows now t sz None db = (Inr n, db'))"
  by (auto simp: save_transaction_def bnd_Inr lift_res_def atomically_Inr ret_def)

lemma save_error: "save_transaction now t db = (Inl e, db') \<Longrightarrow> db' = db"
  by (auto simp: save_transaction_def bnd_Inl lift_res_def atomically_Inl)

lemma tinv_write:
  assumes inv: "tinv db" and sz: "serialized_transaction t = Inr sz"
    and run: "write_transaction_rows now t sz fence db = (Inr n, db')"
  shows "tinv db'"
proof -
  have "ar_transaction_id ` set (sz_artifacts sz) \<subseteq> {tx_id t}" using sz by (auto simp: serialized_Inr)
  with tinv_written [OF inv] show ?thesis by (rule_tac write_run [OF run]) blast
qed

lemma tinv_save: "tinv db \<Longrightarrow> tinv (snd (save_transaction now t db))"
proof -
  assume inv: "tinv db"
  obtain q db' where run: "save_transaction now t db = (q, db')" by (cases "save_transaction now t db")
  show ?thesis
  proof (cases q)
    case (Inl e)
    with run inv show ?thesis using save_error by fastforce
  next
    case (Inr u)
    with run obtain sz n where "serialized_transaction t = Inr sz"
      "write_transaction_rows now t sz None db = (Inr n, db')" by (auto simp: save_run)
    then have "tinv db'" by (rule tinv_write [OF inv])
    with run show ?thesis by simp
  qed
qed

end
