(* ===== verification/PersistenceLoad.thy ===== *)
theory PersistenceLoad
  imports PersistenceInv
begin

text \<open>
  Loading what was written: the decoding of every table, the transaction that a save leaves behind,
  and the parts of the store that a write cannot touch.
\<close>

section \<open>Decoding the rows of a write\<close>

definition valid_code :: "string \<Rightarrow> bool" where
  "valid_code c \<longleftrightarrow> c = [] \<or> fullmatch_failure_code c"

text \<open>An exception as it is loaded: the flag of a system exception reads back as its property.\<close>

definition stored_exc :: "step_exc \<Rightarrow> step_exc" where
  "stored_exc e = e\<lparr>halts_flag := halts_remaining_steps e\<rparr>"

definition stored_step :: "step \<Rightarrow> step" where
  "stored_step s = s\<lparr>st_exceptions := map stored_exc (st_exceptions s)\<rparr>"

definition canonical_dict :: "pydict \<Rightarrow> pydict" where
  "canonical_dict d = map (\<lambda>(k, v). (k, canonical v)) (sort_key fst d)"

definition stored_artifact :: "artifact \<Rightarrow> artifact" where
  "stored_artifact a = a\<lparr>art_metadata := canonical_dict (art_metadata a)\<rparr>"

lemma load_exception_row:
  "valid_code (exc_code e) \<Longrightarrow> load_exception (exc_to_row sid n e) = Inr (stored_exc e)"
  by (cases e) (simp add: load_exception_def exc_to_row_def stored_exc_def halts_remaining_steps_def
      business_exception_def system_exception_def validate_failure_code_def valid_code_def)

lemma load_number_excs:
  "\<forall>e \<in> set es. valid_code (exc_code e) \<Longrightarrow>
   decode_rows load_exception (number_excs sid n es) = Inr (map stored_exc es)"
  by (induction es arbitrary: n) (simp_all add: load_exception_row)

lemma number_excs_ids: "e \<in> set (number_excs sid n es) \<Longrightarrow> n < er_id e"
proof (induction es arbitrary: n)
  case (Cons x es)
  then have "er_id e = n + 1 \<or> n + 1 < er_id e"
    using Cons.IH [of "n + 1"] by (auto simp: exc_to_row_def)
  then show ?case by linarith
qed simp

lemma sort_number_excs: "sort_key er_id (number_excs sid n es) = number_excs sid n es"
proof (rule sort_key_sorted)
  show "sorted (map er_id (number_excs sid n es))"
  proof (induction es arbitrary: n)
    case (Cons e es)
    then show ?case using number_excs_ids [of _ sid "n + 1" es] by (force simp: exc_to_row_def)
  qed simp
qed

lemma filter_number_excs:
  "filter (\<lambda>e. er_step_id e = sid') (number_excs sid n es) = (if sid' = sid then number_excs sid n es else [])"
  by (induction es arbitrary: n) (auto simp: exc_to_row_def)

lemma filter_steps_excs:
  "distinct (map (step_id i) ss) \<Longrightarrow> s \<in> set ss \<Longrightarrow>
   \<exists>m. filter (\<lambda>e. er_step_id e = step_id i s) (steps_excs i n ss) = number_excs (step_id i s) m (st_exceptions s)"
proof (induction ss arbitrary: n)
  case (Cons x ss)
  show ?case
  proof (cases "s = x")
    case True
    have "filter (\<lambda>e. er_step_id e = step_id i s) (steps_excs i (n + int (length (st_exceptions x))) ss) = []"
    proof (rule filter_False, intro ballI notI)
      fix e assume "e \<in> set (steps_excs i (n + int (length (st_exceptions x))) ss)"
        and "er_step_id e = step_id i s"
      then have "step_id i x \<in> step_id i ` set ss" using steps_excs_step True by metis
      then show False using Cons.prems(1) by simp
    qed
    with True show ?thesis by (auto simp: filter_number_excs)
  next
    case False
    then have "step_id i s \<noteq> step_id i x" using Cons.prems by (auto simp: image_iff)
    with False Cons show ?thesis by (auto simp: filter_number_excs)
  qed
qed simp

lemma load_step_row:
  "safe_dict (st_arguments s) \<Longrightarrow> \<forall>e \<in> set (st_exceptions s). valid_code (exc_code e) \<Longrightarrow>
   load_step now (step_to_row i s, number_excs sid m (st_exceptions s)) = Inr (stored_step s)"
  by (cases s) (simp add: load_step_def load_step_arguments_def repair_on_def step_to_row_def
      load_object_of_dict enum_of_def load_number_excs new_step_def stored_step_def)

lemma load_metadata_stored:
  assumes "safe_dict d" "distinct (map fst d)"
  shows "load_metadata now (sort_key mr_key
    (map (\<lambda>p. \<lparr>mr_transaction_id = i, mr_key = fst p, mr_value = snd p\<rparr>)
      (map (\<lambda>(k, v). (k, JsonText (canonical v))) d))) = Inr (canonical_dict d)"
proof -
  let ?row = "\<lambda>p. \<lparr>mr_transaction_id = i, mr_key = fst p, mr_value = JsonText (canonical (snd p))\<rparr>"
  have rows: "map (\<lambda>p. \<lparr>mr_transaction_id = i, mr_key = fst p, mr_value = snd p\<rparr>)
      (map (\<lambda>(k, v). (k, JsonText (canonical v))) d) = map ?row d" by auto
  have sorted: "sort_key mr_key (map ?row d) = map ?row (sort_key fst d)"
    using map_sort_key [of ?row mr_key d] by simp
  have "decode_rows (load_metadata_row now) (map ?row (sort_key fst d)) =
      Inr (map (\<lambda>p. (fst p, canonical (snd p))) (sort_key fst d))"
  proof (rule decode_rows_map)
    fix p assume "p \<in> set (sort_key fst d)"
    then have "json_safe (snd p)" using assms(1) by (auto simp: safe_dict_def list_all_iff)
    then show "load_metadata_row now (?row p) = Inr (fst p, canonical (snd p))"
      by (simp add: load_metadata_row_def repair_on_def json_loads_def validate_json_object_of_dict safe_dict_def)
  qed
  moreover have "dict_merge [] xs = xs" if "distinct (map fst xs)" for xs
  proof -
    have "fold (\<lambda>(k, v) d. dict_set d k v) xs ys = ys @ xs"
      if "distinct (map fst (ys @ xs))" for xs ys :: pydict
      using that
    proof (induction xs arbitrary: ys)
      case (Cons p xs)
      have "dict_set ys (fst p) (snd p) = ys @ [p]"
        using Cons.prems by (induction ys) auto
      then show ?case using Cons.IH [of "ys @ [p]"] Cons.prems by (simp add: case_prod_beta)
    qed simp
    from this [of "[]" xs] that show ?thesis by (simp add: dict_merge_def)
  qed
  moreover have "distinct (map fst (canonical_dict d))"
  proof -
    have "map fst (canonical_dict d) = map fst (sort_key fst d)" by (auto simp: canonical_dict_def)
    then show ?thesis using assms(2) by (simp add: distinct_map)
  qed
  moreover have "map (\<lambda>p. (fst p, canonical (snd p))) (sort_key fst d) = canonical_dict d"
    by (auto simp: canonical_dict_def)
  ultimately show ?thesis by (simp only: rows sorted load_metadata_def rbnd_simps)
qed

lemma canonical_of_dict: "canonical (of_dict d) = of_dict (canonical_dict d)"
proof -
  let ?g = "\<lambda>(k, v). (PStr k, canonical v)"
  have pairs: "map (\<lambda>(k, v). (k, canonical v)) (map (\<lambda>(k, v). (PStr k, v)) d) = map ?g d" by auto
  have "sort_key (\<lambda>(k, v). key_text k) (map ?g d) = map ?g (sort_key fst d)"
    using map_sort_key [of ?g "\<lambda>(k, v). key_text k" d]
    by (simp add: case_prod_beta key_text_def)
  moreover have "map ?g (sort_key fst d) = map (\<lambda>(k, v). (PStr k, v)) (canonical_dict d)"
    by (auto simp: canonical_dict_def)
  ultimately show ?thesis by (simp only: of_dict_def canonical.simps pairs)
qed

lemma safe_canonical_dict [simp]: "safe_dict (canonical_dict d) = safe_dict d"
  by (auto simp: safe_dict_def canonical_dict_def list_all_iff)

lemma load_artifacts_stored:
  assumes "\<forall>a \<in> set as. safe_dict (art_metadata a)"
  shows "decode_rows (load_artifact now) (sort_key ar_sequence
    (map (\<lambda>(n, a). \<lparr>ar_transaction_id = i, ar_sequence = int n + 1, ar_id = art_id a,
            ar_name = art_name a, ar_path = art_path a, ar_kind = art_kind a,
            ar_created_at = isoformat (art_created_at a),
            ar_metadata = JsonText (canonical (of_dict (art_metadata a)))\<rparr>) (enumerate 0 as))) =
    Inr (map stored_artifact as)"
proof -
  let ?row = "\<lambda>(n, a). \<lparr>ar_transaction_id = i, ar_sequence = int n + 1, ar_id = art_id a,
            ar_name = art_name a, ar_path = art_path a, ar_kind = art_kind a,
            ar_created_at = isoformat (art_created_at a),
            ar_metadata = JsonText (canonical (of_dict (art_metadata a)))\<rparr>"
  have "sorted (map ar_sequence (map ?row (enumerate 0 as)))"
  proof -
    have "map ar_sequence (map ?row (enumerate 0 as)) = map (\<lambda>n. int n + 1) [0..<length as]"
      by (rule nth_equalityI) (auto simp: nth_enumerate_eq)
    then show ?thesis by (simp add: sorted_iff_nth_mono)
  qed
  then have "sort_key ar_sequence (map ?row (enumerate 0 as)) = map ?row (enumerate 0 as)"
    by (rule sort_key_sorted)
  moreover have "decode_rows (load_artifact now) (map ?row (enumerate 0 as)) =
      Inr (map (\<lambda>(n, a). stored_artifact a) (enumerate 0 as))"
  proof (rule decode_rows_map)
    fix p assume "p \<in> set (enumerate 0 as)"
    then have "snd p \<in> set as" by (metis imageI map_snd_enumerate set_map)
    then obtain n a where p: "p = (n, a)" "a \<in> set as" by (cases p) simp
    then show "load_artifact now (?row p) = Inr ((\<lambda>(n, a). stored_artifact a) p)"
      using assms by (simp add: load_artifact_def repair_on_def canonical_of_dict load_object_of_dict
          stored_artifact_def)
  qed
  moreover have "map (\<lambda>(n, a). stored_artifact a) (enumerate 0 as) = map stored_artifact as"
  proof -
    have "map (stored_artifact \<circ> snd) (enumerate 0 as) = map stored_artifact as"
      by (metis list.map_comp map_snd_enumerate)
    moreover have "(\<lambda>(n, a). stored_artifact a) = stored_artifact \<circ> snd" by (auto simp: fun_eq_iff)
    ultimately show ?thesis by metis
  qed
  ultimately show ?thesis by simp
qed

lemma load_history_stored:
  assumes "history_numbered hs"
  shows "decode_rows (load_history_row now) (sort_key hr_sequence (map (history_to_row i) hs)) = Inr hs"
proof -
  have "map hr_sequence (map (history_to_row i) hs) = map (\<lambda>k. int k + 1) [0..<length hs]"
    using history_numbered_seq [OF assms] by (simp add: history_to_row_def o_def)
  then have "sort_key hr_sequence (map (history_to_row i) hs) = map (history_to_row i) hs"
    by (intro sort_key_sorted) (simp add: sorted_iff_nth_mono)
  moreover have "decode_rows (load_history_row now) (map (history_to_row i) hs) = Inr (map (\<lambda>h. h) hs)"
    by (rule decode_rows_map) (simp add: load_history_row_def repair_on_def history_to_row_def enum_of_def)
  ultimately show ?thesis by simp
qed

section \<open>The transaction a save leaves behind\<close>

definition stored_time :: "datetime option \<Rightarrow> datetime option" where
  "stored_time d = map_option astimezone_utc d"

text \<open>A creation time that was stored earlier wins.\<close>

definition stored_created :: "tx_row option \<Rightarrow> transaction \<Rightarrow> datetime option" where
  "stored_created r t = (case r of
     None \<Rightarrow> stored_time (tx_created_at t)
   | Some r \<Rightarrow> (case fromisoformat (xr_created_at r) of
       None \<Rightarrow> stored_time (tx_created_at t) | Some d \<Rightarrow> Some d))"

definition stored_view :: "tx_row option \<Rightarrow> transaction \<Rightarrow> transaction" where
  "stored_view r t = t
     \<lparr>tx_created_at := stored_created r t, tx_started_at := stored_time (tx_started_at t),
      tx_finished_at := stored_time (tx_finished_at t), tx_metadata := canonical_dict (tx_metadata t),
      tx_artifacts := map stored_artifact (tx_artifacts t),
      tx_steps := map stored_step (ordered_steps t)\<rparr>"

text \<open>What the constructors guarantee and \<open>validate_for_execution\<close> does not check.\<close>

definition constructed :: "transaction \<Rightarrow> bool" where
  "constructed t \<longleftrightarrow> 0 \<le> tx_retry_count t \<and> history_numbered (tx_history t) \<and>
     (\<forall>s \<in> set (tx_steps t). \<forall>e \<in> set (st_exceptions s). valid_code (exc_code e)) \<and>
     \<not> naive (tx_created_at t) \<and> \<not> naive (tx_started_at t) \<and> \<not> naive (tx_finished_at t)"

text \<open>The history stored so far is the beginning of this one.\<close>

definition extends_stored :: "txdb \<Rightarrow> transaction \<Rightarrow> bool" where
  "extends_stored db t \<longleftrightarrow> (\<exists>k. filter (\<lambda>r. hr_transaction_id r = tx_id t) (d_history db) =
     map (history_to_row (tx_id t)) (take k (tx_history t)))"

lemma timestamp_aware:
  "\<not> naive d \<Longrightarrow> timestamp_to_storage d legacy =
     Inr (case d of None \<Rightarrow> empty_text | Some x \<Rightarrow> isoformat (astimezone_utc x))"
  by (cases d) (simp_all add: timestamp_to_storage_def naive_def)

lemma timestamp_back:
  "timestamp_from_storage now (or_null (case d of None \<Rightarrow> empty_text | Some x \<Rightarrow> isoformat (astimezone_utc x)))
     = Inr (stored_time d)"
  "timestamp_from_storage now (Some (case d of None \<Rightarrow> empty_text | Some x \<Rightarrow> isoformat (astimezone_utc x)))
     = Inr (stored_time d)"
  by (simp_all add: timestamp_from_storage_def or_null_def stored_time_def repair_on_def split: option.split)

lemma header_row_aware:
  assumes "constructed t"
  shows "\<exists>utc. header_row now t state r = Inr (tx_to_row t state
      (case tx_created_at t of None \<Rightarrow> empty_text | Some x \<Rightarrow> isoformat (astimezone_utc x)) utc
      (case tx_started_at t of None \<Rightarrow> empty_text | Some x \<Rightarrow> isoformat (astimezone_utc x))
      (case tx_finished_at t of None \<Rightarrow> empty_text | Some x \<Rightarrow> isoformat (astimezone_utc x)))"
  using assms
  by (auto simp: header_row_def constructed_def timestamp_aware legacy_utc_timestamp_def Let_def
      split: option.split)

text \<open>The rows of one transaction after a write.\<close>

lemma read_written:
  assumes inv: "tinv db" and row: "xr_id row = tx_id t"
    and fence: "fence = None \<or> length (filter (fence_matches (tx_id t) fence) (with_tx row db)) = 1"
    and arts: "\<forall>a \<in> set (sz_artifacts sz). ar_transaction_id a = tx_id t"
    and hist: "extends_stored db t" "history_numbered (tx_history t)"
  shows "read_transaction_rows (written t sz fence row db) (tx_id t) = Inr
    \<lparr>rw_header = updated_tx row fence (base_row row db),
     rw_steps = map (\<lambda>s. (step_to_row (tx_id t) s, sort_key er_id (filter (\<lambda>e. er_step_id e = step_id (tx_id t) s)
       (d_exceptions (written t sz fence row db))))) (ordered_steps t),
     rw_history = sort_key hr_sequence (map (history_to_row (tx_id t)) (tx_history t)),
     rw_metadata = sort_key mr_key (map (\<lambda>p. \<lparr>mr_transaction_id = tx_id t, mr_key = fst p, mr_value = snd p\<rparr>)
       (sz_metadata sz)),
     rw_artifacts = sort_key ar_sequence (sz_artifacts sz)\<rparr>"
proof -
  let ?i = "tx_id t" and ?db = "written t sz fence row db"
  have "distinct (map xr_id (d_transactions db))" using inv by (simp add: tinv_def)
  then have head: "find_tx ?i ?db = Some (updated_tx row fence (base_row row db))"
    using find_written [OF _ row fence] by simp
  have steps: "sort_key sr_order (filter (\<lambda>s. sr_transaction_id s = ?i) (d_steps ?db)) =
      map (step_to_row ?i) (ordered_steps t)"
  proof -
    have "filter (\<lambda>s. sr_transaction_id s = ?i) (d_steps ?db) = map (step_to_row ?i) (tx_steps t)"
      by (simp add: filter_map o_def step_to_row_def)
    then show ?thesis
      using map_sort_key [of "step_to_row ?i" sr_order "tx_steps t"]
      by (simp add: ordered_steps_def step_to_row_def)
  qed
  have history: "filter (\<lambda>h. hr_transaction_id h = ?i) (d_history ?db) = map (history_to_row ?i) (tx_history t)"
    using hist add_history_extends by (auto simp: extends_stored_def)
  have metadata: "filter (\<lambda>m. mr_transaction_id m = ?i) (d_metadata ?db) =
      map (\<lambda>p. \<lparr>mr_transaction_id = ?i, mr_key = fst p, mr_value = snd p\<rparr>) (sz_metadata sz)"
    by (simp add: filter_map o_def)
  have artifacts: "filter (\<lambda>a. ar_transaction_id a = ?i) (d_artifacts ?db) = sz_artifacts sz"
    using arts by (simp add: filter_id_conv)
  have sid: "sr_id (step_to_row ?i s) = step_id ?i s" for s by (simp add: step_to_row_def)
  show ?thesis
    unfolding read_transaction_rows_def head option.case steps history metadata artifacts
    by (simp add: o_def sid)
qed

lemma updated_tx_new:
  "xr_reference (updated_tx new fence r) = xr_reference new"
  "xr_status (updated_tx new fence r) = xr_status new"
  "xr_retry_count (updated_tx new fence r) = xr_retry_count new"
  "xr_outcome (updated_tx new fence r) = xr_outcome new"
  "xr_disposition (updated_tx new fence r) = xr_disposition new"
  "xr_failure_code (updated_tx new fence r) = xr_failure_code new"
  "xr_started_at (updated_tx new fence r) = xr_started_at new"
  "xr_finished_at (updated_tx new fence r) = xr_finished_at new"
  "xr_state (updated_tx new fence r) = xr_state new"
  by (simp_all add: updated_tx_def Let_def split: option.split)

lemma created_back:
  assumes created: "xr_created_at row = (case tx_created_at t of None \<Rightarrow> empty_text | Some x \<Rightarrow> isoformat (astimezone_utc x))"
    and id: "xr_id row = tx_id t"
    and parses: "\<And>r. find_tx (tx_id t) db = Some r \<Longrightarrow> xr_created_at r = empty_text \<or> fromisoformat (xr_created_at r) \<noteq> None"
  shows "timestamp_from_storage now (Some (xr_created_at (updated_tx row fence (base_row row db)))) =
    Inr (stored_created (find_tx (tx_id t) db) t)"
proof (cases "find_tx (tx_id t) db")
  case None
  then show ?thesis
    using timestamp_back(2) [of now "tx_created_at t"]
    by (simp add: base_row_def id created stored_created_def)
next
  case (Some r)
  show ?thesis
  proof (cases "xr_created_at r = empty_text")
    case True
    then have "fromisoformat (xr_created_at r) = None" by (simp add: fromisoformat_def empty_text_def)
    then show ?thesis
      using True Some timestamp_back(2) [of now "tx_created_at t"]
      by (simp add: base_row_def id created stored_created_def)
  next
    case False
    then obtain d where "fromisoformat (xr_created_at r) = Some d" using parses [OF Some] by auto
    with False Some show ?thesis
      by (simp add: base_row_def id stored_created_def timestamp_from_storage_def parse_iso_def repair_on_def)
  qed
qed

lemma load_steps_written:
  assumes inv: "tinv db" and ok: "constructed t" "durable_safe t"
    and steps: "distinct (map (step_id (tx_id t)) (tx_steps t))"
      "\<forall>s \<in> set (tx_steps t). step_id (tx_id t) s \<notin>
         sr_id ` {s \<in> set (d_steps db). sr_transaction_id s \<noteq> tx_id t}"
  shows "decode_rows (load_step now) (map (\<lambda>s. (step_to_row (tx_id t) s, sort_key er_id
      (filter (\<lambda>e. er_step_id e = step_id (tx_id t) s) (d_exceptions (written t sz fence row db)))))
      (ordered_steps t)) = Inr (map stored_step (ordered_steps t))"
proof (rule decode_rows_map)
  fix s assume "s \<in> set (ordered_steps t)"
  then have s: "s \<in> set (tx_steps t)" by (simp add: ordered_steps_def)
  let ?sid = "step_id (tx_id t) s"
  have "filter (\<lambda>e. er_step_id e = ?sid) (kept_excs (tx_id t) db) = []"
  proof (rule filter_False, intro ballI notI)
    fix e assume "e \<in> set (kept_excs (tx_id t) db)" "er_step_id e = ?sid"
    then have "?sid \<in> sr_id ` {s \<in> set (d_steps db). sr_transaction_id s \<noteq> tx_id t}"
      using kept_excs_step [OF inv] by metis
    then show False using steps(2) s by blast
  qed
  moreover obtain m where "filter (\<lambda>e. er_step_id e = ?sid) (steps_excs (tx_id t) (d_exception_seq db) (tx_steps t)) =
      number_excs ?sid m (st_exceptions s)"
    using filter_steps_excs [OF steps(1) s] by blast
  ultimately have "sort_key er_id (filter (\<lambda>e. er_step_id e = ?sid) (d_exceptions (written t sz fence row db))) =
      number_excs ?sid m (st_exceptions s)"
    by (simp add: sort_number_excs)
  moreover have "safe_dict (st_arguments s)" "\<forall>e \<in> set (st_exceptions s). valid_code (exc_code e)"
    using ok s by (auto simp: durable_safe_def constructed_def)
  ultimately show "load_step now (step_to_row (tx_id t) s, sort_key er_id
      (filter (\<lambda>e. er_step_id e = ?sid) (d_exceptions (written t sz fence row db)))) = Inr (stored_step s)"
    by (simp add: load_step_row)
qed

lemma load_written:
  assumes inv: "tinv db" and ok: "constructed t" and hist: "extends_stored db t"
    and sz: "serialized_transaction t = Inr sz"
    and run: "write_transaction_rows now t sz fence db = (Inr n, db')"
  shows "load_transaction_with_revision now' (tx_id t) db' =
    (Inr (stored_view (find_tx (tx_id t) db) t, n), db')"
proof (rule write_run [OF run])
  fix row
  assume row: "header_row now t (sz_state sz) (find_tx (tx_id t) db) = Inr row"
    and ident: "\<And>r. find_tx (tx_id t) db = Some r \<Longrightarrow> xr_definition_identity r = tx_definition_identity t"
    and fence: "fence = None \<or> length (filter (fence_matches (tx_id t) fence) (with_tx row db)) = 1"
    and db': "db' = written t sz fence row db" and keys: "distinct (map fst (sz_metadata sz))"
    and steps: "distinct (map (step_id (tx_id t)) (tx_steps t))"
      "\<forall>s \<in> set (tx_steps t). step_id (tx_id t) s \<notin>
         sr_id ` {s \<in> set (d_steps db). sr_transaction_id s \<noteq> tx_id t}"
    and n: "map_option xr_revision (find_tx (tx_id t) db') = Some n"
  note id = header_row_id [OF row]
  from sz have valid: "validate_for_execution t = Inr t" by (simp add: serialized_Inr)
  then have safe: "durable_safe t" by (simp add: validate_for_execution_iff)
  obtain utc where head: "row = tx_to_row t (sz_state sz)
      (case tx_created_at t of None \<Rightarrow> empty_text | Some x \<Rightarrow> isoformat (astimezone_utc x)) utc
      (case tx_started_at t of None \<Rightarrow> empty_text | Some x \<Rightarrow> isoformat (astimezone_utc x))
      (case tx_finished_at t of None \<Rightarrow> empty_text | Some x \<Rightarrow> isoformat (astimezone_utc x))"
    using header_row_aware [OF ok, of now "sz_state sz" "find_tx (tx_id t) db"] row by auto
  have read: "read_transaction_rows db' (tx_id t) = Inr
    \<lparr>rw_header = updated_tx row fence (base_row row db),
     rw_steps = map (\<lambda>s. (step_to_row (tx_id t) s, sort_key er_id (filter (\<lambda>e. er_step_id e = step_id (tx_id t) s)
       (d_exceptions (written t sz fence row db))))) (ordered_steps t),
     rw_history = sort_key hr_sequence (map (history_to_row (tx_id t)) (tx_history t)),
     rw_metadata = sort_key mr_key (map (\<lambda>p. \<lparr>mr_transaction_id = tx_id t, mr_key = fst p, mr_value = snd p\<rparr>)
       (sz_metadata sz)),
     rw_artifacts = sort_key ar_sequence (sz_artifacts sz)\<rparr>"
    unfolding db' by (rule read_written [OF inv id fence _ hist]) (use sz ok in \<open>auto simp: serialized_Inr constructed_def\<close>)
  have base: "xr_definition_identity (base_row row db) = tx_definition_identity t"
    "xr_id (base_row row db) = tx_id t"
    using ident by (auto simp: base_row_def id head tx_to_row_def find_tx_def find_Some_iff split: option.split)
  have parses: "xr_created_at r = empty_text \<or> fromisoformat (xr_created_at r) \<noteq> None"
    if "find_tx (tx_id t) db = Some r" for r
    using that inv by (auto simp: tinv_def find_tx_def find_Some_iff)
  have created: "timestamp_from_storage now' (Some (xr_created_at (updated_tx row fence (base_row row db)))) =
      Inr (stored_created (find_tx (tx_id t) db) t)"
    by (rule created_back [OF _ id parses]) (simp_all add: head tx_to_row_def)
  have meta: "load_metadata now' (sort_key mr_key (map (\<lambda>p. \<lparr>mr_transaction_id = tx_id t, mr_key = fst p, mr_value = snd p\<rparr>)
      (sz_metadata sz))) = Inr (canonical_dict (tx_metadata t))"
  proof -
    have "distinct (map fst (tx_metadata t))"
      using keys sz by (simp add: serialized_Inr o_def case_prod_beta)
    then show ?thesis
      using load_metadata_stored [of "tx_metadata t" now' "tx_id t"] safe sz
      by (simp only: serialized_Inr durable_safe_def serialized.simps)
  qed
  have arts: "decode_rows (load_artifact now') (sort_key ar_sequence (sz_artifacts sz)) =
      Inr (map stored_artifact (tx_artifacts t))"
  proof -
    have "\<forall>a \<in> set (tx_artifacts t). safe_dict (art_metadata a)" using safe by (simp add: durable_safe_def)
    from load_artifacts_stored [OF this, of now' "tx_id t"] show ?thesis
      using sz by (simp only: serialized_Inr serialized.simps)
  qed
  have state: "load_transaction_state now' (updated_tx row fence (base_row row db)) = Inr (tx_state t)"
    using safe sz by (simp add: load_transaction_state_def updated_tx_new head tx_to_row_def serialized_Inr
        load_object_of_dict durable_safe_def repair_on_def)
  have hist': "decode_rows (load_history_row now') (sort_key hr_sequence (map (history_to_row (tx_id t)) (tx_history t)))
      = Inr (tx_history t)"
    by (rule load_history_stored) (use ok in \<open>simp add: constructed_def\<close>)
  let ?time = "\<lambda>d. case d of None \<Rightarrow> empty_text | Some x \<Rightarrow> isoformat (astimezone_utc x)"
  have fields: "xr_reference row = tx_reference t" "xr_status row = status_value (tx_status t)"
    "xr_retry_count row = tx_retry_count t" "xr_outcome row = outcome_value (tx_outcome t)"
    "xr_disposition row = disposition_value (tx_disposition t)" "xr_failure_code row = tx_failure_code t"
    "xr_started_at row = or_null (?time (tx_started_at t))"
    "xr_finished_at row = or_null (?time (tx_finished_at t))"
    by (simp_all add: head tx_to_row_def)
  have view: "\<lparr>tx_reference = tx_reference t, tx_id = tx_id t, tx_status = tx_status t,
      tx_retry_count = tx_retry_count t, tx_created_at = stored_created r t,
      tx_started_at = stored_time (tx_started_at t), tx_finished_at = stored_time (tx_finished_at t),
      tx_state = tx_state t, tx_metadata = canonical_dict (tx_metadata t),
      tx_artifacts = map stored_artifact (tx_artifacts t),
      tx_steps = map stored_step (ordered_steps t), tx_history = tx_history t, tx_outcome = tx_outcome t,
      tx_disposition = tx_disposition t, tx_failure_code = tx_failure_code t,
      tx_definition_identity = tx_definition_identity t\<rparr> = stored_view r t" for r
    by (simp add: stored_view_def)
  have "transaction_post_init (stored_view (find_tx (tx_id t) db) t) = Inr (stored_view (find_tx (tx_id t) db) t)"
    using ok safe by (auto simp: transaction_post_init_def stored_view_def constructed_def durable_safe_def
        validate_failure_code_def)
  moreover have "find_tx (tx_id t) db' = Some (updated_tx row fence (base_row row db))"
    using read by (auto simp: read_transaction_rows_def split: option.splits)
  ultimately show ?thesis
    using n unfolding load_transaction_with_revision_def bnd_def get_st_def lift_res_def ret_def
    by (simp add: base read transaction_from_rows_def state load_steps_written [OF inv ok safe steps] hist' meta arts
        created base updated_tx_new fields timestamp_back enum_of_def view [symmetric]
        del: updated_tx_simps(4) written_simps)
qed

end
