(* ===== verification/Checkpoint.thy ===== *)
theory Checkpoint
  imports PersistenceLoad QueueSteps
begin

text \<open>
  Queue checkpoints (\<open>rpacore/_queue_checkpoint.py\<close>): a snapshot is saved in one database
  transaction over both stores, fenced by the claim and by the revision of the stored transaction.

  Both databases are at their current schema versions and in rollback-journal mode, so the checks of
  these pass; one commit covers both, whether or not they are one file.
\<close>

section \<open>Model\<close>

record cdb =
  c_tx :: txdb
  c_queue :: qdb

definition on_tx :: "(txdb, pyexc, 'a) effect \<Rightarrow> (cdb, pyexc, 'a) effect" where
  "on_tx m = (\<lambda>s. case m (c_tx s) of (r, db) \<Rightarrow> (r, s\<lparr>c_tx := db\<rparr>))"

definition on_queue :: "(qdb, pyexc, 'a) effect \<Rightarrow> (cdb, pyexc, 'a) effect" where
  "on_queue m = (\<lambda>s. case m (c_queue s) of (r, db) \<Rightarrow> (r, s\<lparr>c_queue := db\<rparr>))"

text \<open>The claim is current and its item is unbound or bound to this transaction.\<close>

definition claim_current :: "string \<Rightarrow> string \<Rightarrow> string \<Rightarrow> string \<Rightarrow> item_row \<Rightarrow> bool" where
  "claim_current item_id claimed_by claim_token transaction_id r \<longleftrightarrow>
     owns item_id claimed_by claim_token r \<and>
     (qr_transaction_id r = [] \<or> qr_transaction_id r = transaction_id)"

definition stale_claim :: pyexc where
  "stale_claim = TransactionFenceError ''Queue item claim is stale or bound to another transaction''"

definition fenced_body ::
  "datetime \<Rightarrow> transaction \<Rightarrow> serialized \<Rightarrow> string \<Rightarrow> string \<Rightarrow> string \<Rightarrow> int \<Rightarrow> bool \<Rightarrow> (cdb, pyexc, int) effect" where
  "fenced_body now t sz item_id claimed_by claim_token expected_revision initial =
     bnd (on_queue (items_where (claim_current item_id claimed_by claim_token (tx_id t)))) (\<lambda>claim.
       if claim = [] then raise_exc stale_claim
       else bnd get_st (\<lambda>s.
         if initial \<and> find_tx (tx_id t) (c_tx s) \<noteq> None
         then raise_exc (ExecutionValidationError ''Initial queue transaction already exists'')
         else bnd (on_tx (write_transaction_rows now t sz (Some (expected_revision, item_id, claim_token))))
           (\<lambda>new_revision.
             if initial
             then bnd (on_queue (update_items (claim_current item_id claimed_by claim_token (tx_id t))
                          (\<lambda>r. r\<lparr>qr_transaction_id := tx_id t\<rparr>)))
                    (\<lambda>rowcount. if rowcount \<noteq> 1 then raise_exc stale_claim else ret new_revision)
             else ret new_revision)))"

definition save_queue_transaction_fenced ::
  "datetime \<Rightarrow> transaction \<Rightarrow> string \<Rightarrow> string \<Rightarrow> string \<Rightarrow> int \<Rightarrow> bool \<Rightarrow> (cdb, pyexc, int) effect" where
  "save_queue_transaction_fenced now t item_id claimed_by claim_token expected_revision initial =
     (if claim_token = [] then raise_exc (TransactionFenceError ''Queue item has no claim credential'')
      else if expected_revision < 0 then raise_exc (ValueErr ''expected_revision must be >= 0'')
      else if initial \<and> expected_revision \<noteq> 0
      then raise_exc (ValueErr ''initial queue persistence requires revision zero'')
      else if initial \<and> blank (tx_id t)
      then raise_exc (ExecutionValidationError ''transaction.id must be a nonblank str'')
      else bnd (lift_res (serialized_transaction t)) (\<lambda>sz.
        atomically (fenced_body now t sz item_id claimed_by claim_token expected_revision initial)))"

section \<open>Runs\<close>

lemma fenced_error:
  "save_queue_transaction_fenced now t i w k n initial s = (Inl e, s') \<Longrightarrow> s' = s"
  by (auto simp: save_queue_transaction_fenced_def raise_exc_def bnd_Inl lift_res_def atomically_Inl
      split: if_splits)

lemma fenced_success:
  assumes "save_queue_transaction_fenced now t i w k n initial s = (Inr m, s')"
  obtains sz db r where "serialized_transaction t = Inr sz" "k \<noteq> []" "0 \<le> n" "initial \<Longrightarrow> n = 0 \<and> \<not> blank (tx_id t)"
    "r \<in> set (q_items (c_queue s))" "claim_current i w k (tx_id t) r"
    "initial \<Longrightarrow> find_tx (tx_id t) (c_tx s) = None"
    "write_transaction_rows now t sz (Some (n, i, k)) (c_tx s) = (Inr m, db)"
    "s' = (if initial then s\<lparr>c_tx := db, c_queue := snd (update_items (claim_current i w k (tx_id t))
         (\<lambda>r. r\<lparr>qr_transaction_id := tx_id t\<rparr>) (c_queue s))\<rparr> else s\<lparr>c_tx := db\<rparr>)"
proof -
  from assms obtain sz where sz: "serialized_transaction t = Inr sz"
    and pre: "k \<noteq> []" "0 \<le> n" "initial \<Longrightarrow> n = 0 \<and> \<not> blank (tx_id t)"
    and body: "fenced_body now t sz i w k n initial s = (Inr m, s')"
    by (auto simp: save_queue_transaction_fenced_def raise_exc_def bnd_Inr lift_res_def atomically_Inr
        split: if_splits)
  from body have claim: "filter (claim_current i w k (tx_id t)) (q_items (c_queue s)) \<noteq> []"
    by (auto simp: fenced_body_def bnd_Inr on_queue_def items_where_def raise_exc_def split: if_splits)
  then obtain r where r: "r \<in> set (q_items (c_queue s))" "claim_current i w k (tx_id t) r"
    by (auto simp: filter_empty_conv)
  from body claim have fresh: "initial \<Longrightarrow> find_tx (tx_id t) (c_tx s) = None"
    by (auto simp: fenced_body_def bnd_Inr on_queue_def items_where_def get_st_def raise_exc_def split: if_splits)
  from body claim obtain db where run: "write_transaction_rows now t sz (Some (n, i, k)) (c_tx s) = (Inr m, db)"
    and s': "s' = (if initial then s\<lparr>c_tx := db, c_queue := snd (update_items (claim_current i w k (tx_id t))
         (\<lambda>r. r\<lparr>qr_transaction_id := tx_id t\<rparr>) (c_queue s))\<rparr> else s\<lparr>c_tx := db\<rparr>)"
    by (auto simp: fenced_body_def bnd_Inr on_queue_def on_tx_def items_where_def update_items_def get_st_def
        raise_exc_def ret_def split: if_splits prod.splits)
  show thesis by (rule that [OF sz pre r fresh run s'])
qed

text \<open>Without a current claim nothing is saved.\<close>

lemma fenced_stale:
  assumes "k \<noteq> []" "0 \<le> n" "initial \<Longrightarrow> n = 0 \<and> \<not> blank (tx_id t)" "serialized_transaction t = Inr sz"
    and none: "\<not> (\<exists>r \<in> set (q_items (c_queue s)). claim_current i w k (tx_id t) r)"
  shows "save_queue_transaction_fenced now t i w k n initial s = (Inl stale_claim, s)"
proof -
  have "filter (claim_current i w k (tx_id t)) (q_items (c_queue s)) = []"
    using none by (auto simp: filter_empty_conv)
  then show ?thesis
    using assms(1-4) by (auto simp: save_queue_transaction_fenced_def fenced_body_def bnd_def lift_res_def
        on_queue_def items_where_def raise_exc_def atomically_def)
qed

section \<open>Revisions\<close>

lemma write_revision:
  assumes inv: "tinv db" and run: "write_transaction_rows now t sz fence db = (Inr m, db')"
  shows "m = (case find_tx (tx_id t) db of None \<Rightarrow> 0 | Some r \<Rightarrow> xr_revision r) + 1 \<and>
    (case fence of None \<Rightarrow> True
     | Some (n, _) \<Rightarrow> n = (case find_tx (tx_id t) db of None \<Rightarrow> 0 | Some r \<Rightarrow> xr_revision r)) \<and>
    map_option xr_revision (find_tx (tx_id t) db') = Some m"
proof (rule write_run [OF run])
  fix row
  assume row: "header_row now t (sz_state sz) (find_tx (tx_id t) db) = Inr row"
    and fence: "fence = None \<or> length (filter (fence_matches (tx_id t) fence) (with_tx row db)) = 1"
    and db': "db' = written t sz fence row db" and m: "map_option xr_revision (find_tx (tx_id t) db') = Some m"
  note id = header_row_id [OF row]
  have d: "distinct (map xr_id (d_transactions db))" using inv by (simp add: tinv_def)
  have rev0: "xr_revision row = 0" using row by (auto simp: header_row_def Let_def rbnd_Inr tx_to_row_def)
  have base: "xr_revision (base_row row db) = (case find_tx (tx_id t) db of None \<Rightarrow> 0 | Some r \<Rightarrow> xr_revision r)"
    by (simp add: base_row_def id rev0 split: option.split)
  have "n = xr_revision (base_row row db)" if f: "fence = Some (n, x)" for n x
  proof -
    from f fence have "filter (fence_matches (tx_id t) fence) (with_tx row db) \<noteq> []" by auto
    then obtain r where r: "r \<in> set (with_tx row db)" "fence_matches (tx_id t) fence r"
      by (auto simp: filter_empty_conv)
    then have "find (\<lambda>r. xr_id r = tx_id t) (with_tx row db) = Some r"
      using find_Some_iff_distinct [OF distinct_with_tx [OF d]] by (auto simp: fence_matches_def)
    then have "base_row row db = r" by (simp add: find_with_tx [OF id] base_row_def id)
    with r f show ?thesis by (simp add: fence_matches_def)
  qed
  then show ?thesis
    using m find_written [OF d id fence, of "tx_id t" sz] base by (auto simp: db' split: option.split)
qed

end
