(* ===== verification/StoreSteps.thy ===== *)
theory StoreSteps
  imports Checkpoint
begin

text \<open>
  The two stores together: the steps of all writers, what no step takes back, the isolation of
  transactions from each other, and the fence.
\<close>

section \<open>What a write keeps\<close>

text \<open>
  Stored transactions stay, with their identity, their creation time and at least their revision;
  the stored history is only appended to.
\<close>

definition tx_kept :: "tx_row \<Rightarrow> tx_row \<Rightarrow> bool" where
  "tx_kept r r' \<longleftrightarrow> xr_definition_identity r' = xr_definition_identity r \<and> xr_revision r \<le> xr_revision r' \<and>
     (xr_created_at r \<noteq> empty_text \<longrightarrow> xr_created_at r' = xr_created_at r) \<and>
     (xr_created_at_utc r \<noteq> empty_text \<longrightarrow> xr_created_at_utc r' = xr_created_at_utc r)"

definition store_kept :: "txdb \<Rightarrow> txdb \<Rightarrow> bool" where
  "store_kept db db' \<longleftrightarrow>
     (\<forall>i r. find_tx i db = Some r \<longrightarrow> (\<exists>r'. find_tx i db' = Some r' \<and> tx_kept r r')) \<and>
     (\<exists>new. d_history db' = d_history db @ new)"

lemma store_kept_refl [simp]: "store_kept db db"
  by (simp add: store_kept_def tx_kept_def)

lemma tx_kept_trans: "tx_kept a b \<Longrightarrow> tx_kept b c \<Longrightarrow> tx_kept a c"
  by (auto simp: tx_kept_def)

lemma store_kept_trans:
  assumes "store_kept a b" "store_kept b c"
  shows "store_kept a c"
proof -
  have "\<exists>r'. find_tx i c = Some r' \<and> tx_kept r r'" if "find_tx i a = Some r" for i r
    using that assms tx_kept_trans unfolding store_kept_def by meson
  moreover have "\<exists>new. d_history c = d_history a @ new"
    using assms unfolding store_kept_def by (metis append.assoc)
  ultimately show ?thesis by (simp add: store_kept_def)
qed

lemma store_kept_revision:
  "store_kept db db' \<Longrightarrow> map_option xr_revision (find_tx i db) = Some n \<Longrightarrow>
   \<exists>r. find_tx i db' = Some r \<and> n \<le> xr_revision r"
  by (fastforce simp: store_kept_def tx_kept_def)

interpretation store: step_relation store_kept
  by unfold_locales (auto intro: store_kept_trans)

lemma write_kept:
  assumes inv: "tinv db" and run: "write_transaction_rows now t sz fence db = (Inr m, db')"
  shows "store_kept db db'"
proof (rule write_run [OF run])
  fix row
  assume row: "header_row now t (sz_state sz) (find_tx (tx_id t) db) = Inr row"
    and fence: "fence = None \<or> length (filter (fence_matches (tx_id t) fence) (with_tx row db)) = 1"
    and db': "db' = written t sz fence row db"
  note id = header_row_id [OF row]
  have d: "distinct (map xr_id (d_transactions db))" using inv by (simp add: tinv_def)
  have "\<exists>r'. find_tx i db' = Some r' \<and> tx_kept r r'" if r: "find_tx i db = Some r" for i r
    using find_written [OF d id fence, of i sz] r
    by (auto simp: db' base_row_def id tx_kept_def)
  moreover have "\<exists>new. d_history db' = d_history db @ new"
    using add_history_grows [of "tx_id t" "d_history db" "tx_history t"] by (auto simp: db')
  ultimately show ?thesis by (simp add: store_kept_def)
qed

section \<open>Isolation\<close>

lemma image_disjoint: "\<forall>x \<in> A. f x \<notin> B \<Longrightarrow> f ` A \<inter> B = {}"
  by blast

text \<open>A write leaves every row of another transaction as it is.\<close>

lemma read_other:
  assumes inv: "tinv db" and run: "write_transaction_rows now t sz fence db = (Inr m, db')"
    and sz: "serialized_transaction t = Inr sz" and j: "j \<noteq> tx_id t"
  shows "read_transaction_rows db' j = read_transaction_rows db j"
proof (rule write_run [OF run])
  fix row
  assume row: "header_row now t (sz_state sz) (find_tx (tx_id t) db) = Inr row"
    and fence: "fence = None \<or> length (filter (fence_matches (tx_id t) fence) (with_tx row db)) = 1"
    and db': "db' = written t sz fence row db"
    and fresh: "\<forall>s \<in> set (tx_steps t). step_id (tx_id t) s \<notin>
         sr_id ` {s \<in> set (d_steps db). sr_transaction_id s \<noteq> tx_id t}"
  note id = header_row_id [OF row]
  have d: "distinct (map xr_id (d_transactions db))" using inv by (simp add: tinv_def)
  have head: "find_tx j db' = find_tx j db" using find_written [OF d id fence, of j sz] j by (simp add: db')
  have steps: "filter (\<lambda>s. sr_transaction_id s = j) (d_steps db') = filter (\<lambda>s. sr_transaction_id s = j) (d_steps db)"
    using j by (auto simp: db' step_to_row_def filter_empty_conv intro!: filter_cong)
  have excs: "filter (\<lambda>e. er_step_id e = sr_id s) (d_exceptions db') = filter (\<lambda>e. er_step_id e = sr_id s) (d_exceptions db)"
    if s: "s \<in> set (d_steps db)" "sr_transaction_id s = j" for s
  proof -
    have "filter (\<lambda>e. er_step_id e = sr_id s) (steps_excs (tx_id t) (d_exception_seq db) (tx_steps t)) = []"
    proof (rule filter_False, intro ballI notI)
      fix e assume "e \<in> set (steps_excs (tx_id t) (d_exception_seq db) (tx_steps t))" "er_step_id e = sr_id s"
      then have "sr_id s \<in> step_id (tx_id t) ` set (tx_steps t)" using steps_excs_step by metis
      moreover have "sr_id s \<in> sr_id ` {s \<in> set (d_steps db). sr_transaction_id s \<noteq> tx_id t}"
        using s j by (intro imageI) simp
      moreover have "step_id (tx_id t) ` set (tx_steps t) \<inter>
          sr_id ` {s \<in> set (d_steps db). sr_transaction_id s \<noteq> tx_id t} = {}"
        by (rule image_disjoint [OF fresh])
      ultimately show False by (metis IntI empty_iff)
    qed
    moreover have "filter (\<lambda>e. er_step_id e = sr_id s) (kept_excs (tx_id t) db) =
        filter (\<lambda>e. er_step_id e = sr_id s) (d_exceptions db)"
    proof -
      have "x = s" if "x \<in> set (d_steps db)" "sr_id x = sr_id s" for x
        using that s inv by (auto simp: tinv_def distinct_map inj_on_def)
      then have "\<not> (\<exists>x \<in> set (d_steps db). sr_transaction_id x = tx_id t \<and> sr_id x = sr_id s)"
        using s j by blast
      then show ?thesis by (auto simp: kept_excs_def intro!: filter_cong)
    qed
    ultimately show ?thesis by (simp add: db')
  qed
  have "ar_transaction_id ` set (sz_artifacts sz) \<subseteq> {tx_id t}" using sz by (auto simp: serialized_Inr)
  then have arts: "filter (\<lambda>a. ar_transaction_id a = j) (sz_artifacts sz) = []"
    using j by (auto simp: filter_empty_conv)
  obtain new where new: "d_history db' = d_history db @ new" "\<forall>r \<in> set new. hr_transaction_id r = tx_id t"
    using add_history_grows [of "tx_id t" "d_history db" "tx_history t"] by (auto simp: db')
  then have hist: "filter (\<lambda>h. hr_transaction_id h = j) (d_history db') = filter (\<lambda>h. hr_transaction_id h = j) (d_history db)"
    using j by (auto simp: filter_empty_conv)
  have meta: "filter (\<lambda>m. mr_transaction_id m = j) (d_metadata db') = filter (\<lambda>m. mr_transaction_id m = j) (d_metadata db)"
    and artifacts: "filter (\<lambda>a. ar_transaction_id a = j) (d_artifacts db') = filter (\<lambda>a. ar_transaction_id a = j) (d_artifacts db)"
    using j arts by (auto simp: db' filter_empty_conv intro!: filter_cong)
  have joined: "map (\<lambda>s. (s, sort_key er_id (filter (\<lambda>e. er_step_id e = sr_id s) (d_exceptions db'))))
      (sort_key sr_order (filter (\<lambda>s. sr_transaction_id s = j) (d_steps db))) =
    map (\<lambda>s. (s, sort_key er_id (filter (\<lambda>e. er_step_id e = sr_id s) (d_exceptions db))))
      (sort_key sr_order (filter (\<lambda>s. sr_transaction_id s = j) (d_steps db)))"
    by (rule map_cong [OF refl]) (simp add: excs)
  show ?thesis unfolding read_transaction_rows_def head steps hist meta artifacts joined by (rule refl)
qed

section \<open>Steps of the two stores\<close>

text \<open>
  A step is a save outside a queue, a checkpoint, or a transaction of the queue; a step that raises
  is one that changes nothing.
\<close>

inductive cstep :: "queue_cfg \<Rightarrow> cdb \<Rightarrow> cdb \<Rightarrow> bool" for C where
  c_save: "cstep C s (snd (on_tx (save_transaction now t) s))"
| c_checkpoint: "cstep C s (snd (save_queue_transaction_fenced now t i w k n initial s))"
| c_queue: "qstep C True (c_queue s) q \<Longrightarrow> cstep C s (s\<lparr>c_queue := q\<rparr>)"

inductive_cases cstepE: "cstep C s s'"

definition csteps :: "queue_cfg \<Rightarrow> cdb \<Rightarrow> cdb \<Rightarrow> bool" where
  "csteps C = (cstep C)\<^sup>*\<^sup>*"

definition cinv :: "queue_cfg \<Rightarrow> cdb \<Rightarrow> bool" where
  "cinv C s \<longleftrightarrow> tinv (c_tx s) \<and> qinv C (c_queue s)"

lemma claim_current_owns: "claim_current i w k j r \<Longrightarrow> owns i w k r"
  by (simp add: claim_current_def)

lemma bind_update:
  assumes ids: "ids_ok db"
  shows "snd (update_items (claim_current i w k j) f db) = db \<or>
    snd (update_items (claim_current i w k j) f db) = set_row i f db"
  using update_items_run [of db "claim_current i w k j" i f] ids
  by (auto simp: ids_ok_def claim_current_def owns_def)

lemma qinv_bound:
  assumes inv: "qinv C db"
  shows "qinv C (snd (update_items (claim_current i w k j) (\<lambda>r. r\<lparr>qr_transaction_id := j'\<rparr>) db))"
proof -
  have "qinv C (set_row i (\<lambda>r. r\<lparr>qr_transaction_id := j'\<rparr>) db)" by (rule qinv_edit [OF inv]) simp_all
  then show ?thesis using bind_update [OF qinv_ids [OF inv]] inv by metis
qed

lemma journal_bound: "journal db (snd (update_items P f db))"
  by (rule keepsD [OF journal_update surjective_pairing])

lemma fenced_kept:
  assumes inv: "cinv C s"
  shows "cinv C (snd (save_queue_transaction_fenced now t i w k n initial s)) \<and>
    store_kept (c_tx s) (c_tx (snd (save_queue_transaction_fenced now t i w k n initial s))) \<and>
    journal (c_queue s) (c_queue (snd (save_queue_transaction_fenced now t i w k n initial s)))"
proof -
  obtain q s' where run: "save_queue_transaction_fenced now t i w k n initial s = (q, s')"
    by (cases "save_queue_transaction_fenced now t i w k n initial s")
  have tq: "tinv (c_tx s)" "qinv C (c_queue s)" using inv by (auto simp: cinv_def)
  show ?thesis
  proof (cases q)
    case (Inl e)
    with run have "s' = s" using fenced_error by blast
    with run inv show ?thesis by simp
  next
    case (Inr m)
    with run have ok: "save_queue_transaction_fenced now t i w k n initial s = (Inr m, s')" by simp
    show ?thesis
    proof (rule fenced_success [OF ok])
      fix sz db
      assume sz: "serialized_transaction t = Inr sz"
        and w: "write_transaction_rows now t sz (Some (n, i, k)) (c_tx s) = (Inr m, db)"
        and s': "s' = (if initial then s\<lparr>c_tx := db, c_queue := snd (update_items (claim_current i w k (tx_id t))
           (\<lambda>r. r\<lparr>qr_transaction_id := tx_id t\<rparr>) (c_queue s))\<rparr> else s\<lparr>c_tx := db\<rparr>)"
      show ?thesis
        using tinv_write [OF tq(1) sz w] write_kept [OF tq(1) w] qinv_bound [OF tq(2)] journal_bound tq
        by (simp add: ok s' cinv_def)
    qed
  qed
qed

lemma save_kept:
  assumes "tinv db"
  shows "store_kept db (snd (save_transaction now t db))"
proof -
  obtain q db' where run: "save_transaction now t db = (q, db')" by (cases "save_transaction now t db")
  show ?thesis
  proof (cases q)
    case (Inl e)
    with run have "db' = db" using save_error by blast
    with run show ?thesis by simp
  next
    case (Inr u)
    with run obtain sz m where "write_transaction_rows now t sz None db = (Inr m, db')"
      by (auto simp: save_run)
    then show ?thesis using write_kept [OF assms] run by simp
  qed
qed

lemma cstep_kept:
  assumes "cstep C s s'" and inv: "cinv C s"
  shows "cinv C s' \<and> store_kept (c_tx s) (c_tx s') \<and> journal (c_queue s) (c_queue s')"
  using assms(1)
proof (rule cstepE)
  fix now t assume "s' = snd (on_tx (save_transaction now t) s)"
  then show ?thesis
    using inv tinv_save [of "c_tx s" now t] save_kept [of "c_tx s" now t]
    by (simp add: on_tx_def cinv_def case_prod_beta)
next
  fix now t i w k n initial
  assume "s' = snd (save_queue_transaction_fenced now t i w k n initial s)"
  then show ?thesis using fenced_kept [OF inv] by simp
next
  fix q assume "s' = s\<lparr>c_queue := q\<rparr>" "qstep C True (c_queue s) q"
  then show ?thesis using inv qstep_qinv qstep_journal by (auto simp: cinv_def)
qed

lemma csteps_kept:
  assumes "csteps C s s'" "cinv C s"
  shows "cinv C s' \<and> store_kept (c_tx s) (c_tx s') \<and> journal (c_queue s) (c_queue s')"
  using assms(1) unfolding csteps_def
proof (induction rule: rtranclp_induct)
  case base
  then show ?case using assms(2) by simp
next
  case (step u v)
  then have u: "cinv C u" by simp
  from cstep_kept [OF step.hyps(2) u] step.IH show ?case
    by (auto intro: store_kept_trans journal_trans)
qed

end
