(* ===== verification/StoreClaims.thy ===== *)
theory StoreClaims
  imports StoreSteps QueueClaims
begin

text \<open>The properties of the transaction store and of the fenced queue checkpoints.\<close>

section \<open>A small transaction and its checkpoint\<close>

definition demo_saved :: transaction where
  "demo_saved = \<lparr>tx_reference = ''R'', tx_id = ''x'', tx_status = FAILED, tx_retry_count = 0,
     tx_created_at = Some (utc_datetime 1), tx_started_at = Some (utc_datetime 2), tx_finished_at = None,
     tx_state = [(''k'', PInt 1)], tx_metadata = [(''b'', PInt 2), (''a'', PInt 1)], tx_artifacts = [],
     tx_steps = [\<lparr>st_name = ''s'', st_order = 1, st_status = FAILED, st_arguments = [],
       st_exceptions = [\<lparr>is_business = False, exc_message = ''m'', exc_action = [], exc_retry_number = 0,
         exc_occurred_at = utc_datetime 3, exc_screenshot_path = [], halts_flag = False, exc_code = []\<rparr>]\<rparr>],
     tx_history = [\<lparr>he_sequence = 1, he_timestamp = utc_datetime 2, he_event = TRANSACTION_STARTED,
       he_status = IN_PROGRESS, he_retry_number = 0, he_step_name = [], he_step_order = None\<rparr>],
     tx_outcome = OC_SYSTEM_FAILED, tx_disposition = RD_NOT_REQUESTED, tx_failure_code = [],
     tx_definition_identity = ''d''\<rparr>"

definition demo_store :: cdb where
  "demo_store = \<lparr>c_tx = empty_txdb, c_queue = demo_claimed\<rparr>"

lemma constructed_demo: "constructed demo_saved"
  by (simp add: constructed_def demo_saved_def history_numbered_def valid_code_def naive_def)

lemma extends_empty: "extends_stored empty_txdb t"
  by (auto simp: extends_stored_def empty_txdb_def intro: exI [of _ 0])

lemma demo_save: "fst (save_transaction (utc_datetime 0) demo_saved empty_txdb) = Inr ()"
  by code_simp

lemma demo_checkpoint:
  "fst (save_queue_transaction_fenced (utc_datetime 0) demo_saved ''a'' ''w'' ''t'' 0 True demo_store) = Inr 1"
  by code_simp

lemma cinv_demo: "cinv demo_cfg demo_store"
  using qinv_demo_claimed tinv_empty by (simp add: cinv_def demo_store_def)

lemma load_saved:
  assumes "tinv db" and "constructed t" and "extends_stored db t"
    and "save_transaction now t db = (Inr (), db')"
  shows "load_transaction now' (tx_id t) db' = (Inr (stored_view (find_tx (tx_id t) db) t), db')"
proof -
  from assms(4) obtain sz n where "serialized_transaction t = Inr sz"
    "write_transaction_rows now t sz None db = (Inr n, db')" by (auto simp: save_run)
  from load_written [OF assms(1-3) this] show ?thesis
    by (simp add: load_transaction_def bnd_def ret_def)
qed

section \<open>Properties\<close>

text \<open>
  C11: a transaction that was saved loads back: every field is as it was saved, with times in UTC, a
  creation time stored earlier kept, steps in execution order and JSON objects in canonical order.
\<close>

theorem save_load_round_trip:
  assumes "tinv db" and "constructed t" and "extends_stored db t"
    and "save_transaction now t db = (Inr (), db')"
  shows "load_transaction now' (tx_id t) db' = (Inr (stored_view (find_tx (tx_id t) db) t), db')"
  by (rule load_saved [OF assms])

theorem save_load_round_trip_witness:
  "fst (load_transaction (utc_datetime 9) ''x'' (snd (save_transaction (utc_datetime 0) demo_saved empty_txdb))) =
     Inr (stored_view None demo_saved)"
proof -
  have "save_transaction (utc_datetime 0) demo_saved empty_txdb =
      (Inr (), snd (save_transaction (utc_datetime 0) demo_saved empty_txdb))"
    using demo_save by (simp add: prod_eq_iff)
  from save_load_round_trip [OF tinv_empty constructed_demo extends_empty this, of "utc_datetime 9"]
  have "fst (load_transaction (utc_datetime 9) (tx_id demo_saved)
      (snd (save_transaction (utc_datetime 0) demo_saved empty_txdb))) =
      Inr (stored_view (find_tx (tx_id demo_saved) empty_txdb) demo_saved)" by simp
  then show ?thesis by (simp add: find_tx_def empty_txdb_def demo_saved_def)
qed

text \<open>
  C12: whatever saves, checkpoints and queue transactions run, in whatever order and however they end,
  a stored transaction keeps its definition identity and its creation time, its revision never
  decreases, and the audit history and the queue's journals are only appended to.
\<close>

theorem stored_truth_is_never_taken_back:
  assumes "csteps C s s'" and "cinv C s"
  shows "cinv C s' \<and> store_kept (c_tx s) (c_tx s') \<and> journal (c_queue s) (c_queue s')"
  by (rule csteps_kept [OF assms])

theorem stored_truth_is_never_taken_back_witness:
  "store_kept empty_txdb
     (c_tx (snd (save_queue_transaction_fenced (utc_datetime 0) demo_saved ''a'' ''w'' ''t'' 0 True demo_store)))"
proof -
  have "csteps demo_cfg demo_store
      (snd (save_queue_transaction_fenced (utc_datetime 0) demo_saved ''a'' ''w'' ''t'' 0 True demo_store))"
    unfolding csteps_def by (rule r_into_rtranclp) (rule c_checkpoint)
  from stored_truth_is_never_taken_back [OF this cinv_demo] show ?thesis by (simp add: demo_store_def)
qed

text \<open>
  saving one transaction, whether it succeeds or not, leaves what is loaded of every other one
  as it was.
\<close>

theorem transactions_are_isolated:
  assumes "tinv db" and "j \<noteq> tx_id t"
  shows "fst (load_transaction now' j (snd (save_transaction now t db))) = fst (load_transaction now' j db)"
proof -
  obtain q db' where run: "save_transaction now t db = (q, db')" by (cases "save_transaction now t db")
  have "read_transaction_rows db' j = read_transaction_rows db j"
  proof (cases q)
    case (Inl e)
    with run have "db' = db" using save_error by blast
    then show ?thesis by simp
  next
    case (Inr u)
    with run obtain sz n where "serialized_transaction t = Inr sz"
      "write_transaction_rows now t sz None db = (Inr n, db')" by (auto simp: save_run)
    then show ?thesis using read_other [OF assms(1) _ _ assms(2)] by blast
  qed
  then show ?thesis
    by (simp add: run load_transaction_def load_transaction_with_revision_def bnd_def get_st_def lift_res_def
        ret_def split: sum.split)
qed

theorem transactions_are_isolated_witness:
  "fst (load_transaction (utc_datetime 9) ''y'' (snd (save_transaction (utc_datetime 0) demo_saved empty_txdb))) =
     fst (load_transaction (utc_datetime 9) ''y'' empty_txdb)"
  by (rule transactions_are_isolated [OF tinv_empty]) (simp add: demo_saved_def)

text \<open>
  A checkpoint either raises and changes neither store, or the caller owns the item's current
  claim, the item is not bound to another transaction, the stored revision was the expected one and is
  now one more, and the saved snapshot loads back; an initial checkpoint also binds the item.
\<close>

theorem checkpoint_is_fenced:
  assumes "cinv C s" and "constructed t" and "extends_stored (c_tx s) t"
    and "save_queue_transaction_fenced now t i w k n initial s = (q, s')"
  shows "case q of
      Inl e \<Rightarrow> s' = s
    | Inr m \<Rightarrow> m = n + 1 \<and>
        (\<exists>r \<in> set (q_items (c_queue s)). claim_current i w k (tx_id t) r \<and>
           (initial \<longrightarrow> r\<lparr>qr_transaction_id := tx_id t\<rparr> \<in> set (q_items (c_queue s')))) \<and>
        fst (load_transaction_with_revision now' (tx_id t) (c_tx s')) =
          Inr (stored_view (find_tx (tx_id t) (c_tx s)) t, m)"
proof (cases q)
  case (Inl e)
  then show ?thesis using assms(4) fenced_error by auto
next
  case (Inr m)
  with assms(4) have run: "save_queue_transaction_fenced now t i w k n initial s = (Inr m, s')" by simp
  have inv: "tinv (c_tx s)" using assms(1) by (simp add: cinv_def)
  show ?thesis
  proof (rule fenced_success [OF run])
    fix sz db r
    assume sz: "serialized_transaction t = Inr sz"
      and r: "r \<in> set (q_items (c_queue s))" "claim_current i w k (tx_id t) r"
      and wr: "write_transaction_rows now t sz (Some (n, i, k)) (c_tx s) = (Inr m, db)"
      and s': "s' = (if initial then s\<lparr>c_tx := db, c_queue := snd (update_items (claim_current i w k (tx_id t))
         (\<lambda>r. r\<lparr>qr_transaction_id := tx_id t\<rparr>) (c_queue s))\<rparr> else s\<lparr>c_tx := db\<rparr>)"
    have "m = n + 1" using write_revision [OF inv wr] by simp
    moreover have "fst (load_transaction_with_revision now' (tx_id t) (c_tx s')) =
        Inr (stored_view (find_tx (tx_id t) (c_tx s)) t, m)"
      using load_written [OF inv assms(2,3) sz wr, of now'] by (simp add: s')
    moreover have "initial \<longrightarrow> r\<lparr>qr_transaction_id := tx_id t\<rparr> \<in> set (q_items (c_queue s'))"
      using r by (auto simp: s' update_items_def intro!: image_eqI [of _ _ r])
    ultimately show ?thesis using Inr r by auto
  qed
qed

theorem checkpoint_is_fenced_witness:
  "fst (load_transaction_with_revision (utc_datetime 9) ''x''
     (c_tx (snd (save_queue_transaction_fenced (utc_datetime 0) demo_saved ''a'' ''w'' ''t'' 0 True demo_store)))) =
   Inr (stored_view None demo_saved, 1)"
proof -
  have "extends_stored (c_tx demo_store) demo_saved" using extends_empty by (simp add: demo_store_def)
  from checkpoint_is_fenced [OF cinv_demo constructed_demo this surjective_pairing,
      of "utc_datetime 0" "''a''" "''w''" "''t''" 0 True "utc_datetime 9"]
  show ?thesis
    by (simp add: demo_checkpoint) (simp add: demo_store_def find_tx_def empty_txdb_def demo_saved_def)
qed

text \<open>
  C13: once a claim is closed, no checkpoint under its token ever succeeds again, whatever happened in
  between: a worker that lost its lease cannot overwrite the transaction.
\<close>

theorem closed_claim_cannot_checkpoint:
  assumes "cinv C s" and "a \<in> set (q_attempts (c_queue s))" and "qa_outcome a \<noteq> None" and "csteps C s s'"
  shows "\<exists>e. save_queue_transaction_fenced now t (qa_item_id a) w (qa_claim_token a) n initial s' = (Inl e, s')"
proof -
  have later: "cinv C s'" "journal (c_queue s) (c_queue s')" using csteps_kept [OF assms(4,1)] by auto
  obtain q u where run: "save_queue_transaction_fenced now t (qa_item_id a) w (qa_claim_token a) n initial s' = (q, u)"
    by (cases "save_queue_transaction_fenced now t (qa_item_id a) w (qa_claim_token a) n initial s'")
  show ?thesis
  proof (cases q)
    case (Inl e)
    then show ?thesis using run fenced_error by blast
  next
    case (Inr m)
    with run have ok: "save_queue_transaction_fenced now t (qa_item_id a) w (qa_claim_token a) n initial s' = (Inr m, u)"
      by simp
    have "a \<in> set (q_attempts (c_queue s'))" by (rule closed_stays [OF later(2) assms(2,3)])
    moreover have "qinv C (c_queue s')" using later(1) by (simp add: cinv_def)
    ultimately have "\<not> owned (qa_item_id a) w (qa_claim_token a) (c_queue s')"
      using closed_not_owned assms(3) by blast
    then show ?thesis
      by (rule_tac fenced_success [OF ok]) (auto simp: owned_def dest: claim_current_owns)
  qed
qed

theorem closed_claim_cannot_checkpoint_witness:
  "\<exists>e. save_queue_transaction_fenced (utc_datetime 0) demo_saved ''a'' ''w'' ''t'' 0 True
       \<lparr>c_tx = empty_txdb, c_queue = demo_completed\<rparr> = (Inl e, \<lparr>c_tx = empty_txdb, c_queue = demo_completed\<rparr>)"
proof -
  let ?a = "demo_attempt\<lparr>qa_outcome := Some AO_SUCCESSFUL, qa_finished_at := Some (isoformat (utc_datetime 9))\<rparr>"
  let ?s = "\<lparr>c_tx = empty_txdb, c_queue = demo_completed\<rparr>"
  have "cinv demo_cfg ?s" using qinv_demo_completed tinv_empty by (simp add: cinv_def)
  moreover have "?a \<in> set (q_attempts (c_queue ?s))" by (simp add: demo_completed_def)
  moreover have "csteps demo_cfg ?s ?s" by (simp add: csteps_def)
  ultimately show ?thesis
    using closed_claim_cannot_checkpoint [of demo_cfg ?s ?a ?s "utc_datetime 0" demo_saved "''w''" 0 True]
    by (simp add: demo_attempt_def)
qed

text \<open>
  C14: two checkpoints of one transaction that expect the same revision never both succeed, whatever
  runs in between: no update is lost.
\<close>

theorem no_lost_update:
  assumes "cinv C s" and "save_queue_transaction_fenced now t i w k n initial s = (Inr m, s')"
    and "csteps C s' u" and "tx_id t' = tx_id t"
  shows "\<exists>e. save_queue_transaction_fenced now' t' i' w' k' n initial' u = (Inl e, u)"
proof -
  have inv': "cinv C s'" using fenced_kept [OF assms(1), of now t i w k n initial] assms(2) by simp
  have "map_option xr_revision (find_tx (tx_id t) (c_tx s')) = Some (n + 1)"
  proof (rule fenced_success [OF assms(2)])
    fix sz db
    assume wr: "write_transaction_rows now t sz (Some (n, i, k)) (c_tx s) = (Inr m, db)"
      and s': "s' = (if initial then s\<lparr>c_tx := db, c_queue := snd (update_items (claim_current i w k (tx_id t))
         (\<lambda>r. r\<lparr>qr_transaction_id := tx_id t\<rparr>) (c_queue s))\<rparr> else s\<lparr>c_tx := db\<rparr>)"
    show ?thesis using write_revision [OF _ wr] assms(1) by (auto simp: s' cinv_def)
  qed
  moreover have later: "cinv C u" "store_kept (c_tx s') (c_tx u)" using csteps_kept [OF assms(3) inv'] by auto
  ultimately obtain r where r: "find_tx (tx_id t) (c_tx u) = Some r" "n + 1 \<le> xr_revision r"
    using store_kept_revision by blast
  obtain q v where run: "save_queue_transaction_fenced now' t' i' w' k' n initial' u = (q, v)"
    by (cases "save_queue_transaction_fenced now' t' i' w' k' n initial' u")
  show ?thesis
  proof (cases q)
    case (Inl e)
    then show ?thesis using run fenced_error by blast
  next
    case (Inr m')
    with run have ok: "save_queue_transaction_fenced now' t' i' w' k' n initial' u = (Inr m', v)" by simp
    have "tinv (c_tx u)" using later(1) by (simp add: cinv_def)
    then have "n = xr_revision r"
      by (rule_tac fenced_success [OF ok]) (use write_revision r assms(4) in fastforce)
    with r(2) show ?thesis by simp
  qed
qed

theorem no_lost_update_witness:
  "\<exists>e. save_queue_transaction_fenced (utc_datetime 0) demo_saved ''a'' ''w'' ''t'' 0 False
       (snd (save_queue_transaction_fenced (utc_datetime 0) demo_saved ''a'' ''w'' ''t'' 0 True demo_store)) =
     (Inl e, snd (save_queue_transaction_fenced (utc_datetime 0) demo_saved ''a'' ''w'' ''t'' 0 True demo_store))"
proof -
  let ?s = "snd (save_queue_transaction_fenced (utc_datetime 0) demo_saved ''a'' ''w'' ''t'' 0 True demo_store)"
  have "save_queue_transaction_fenced (utc_datetime 0) demo_saved ''a'' ''w'' ''t'' 0 True demo_store = (Inr 1, ?s)"
    using demo_checkpoint by (simp add: prod_eq_iff)
  moreover have "csteps demo_cfg ?s ?s" by (simp add: csteps_def)
  ultimately show ?thesis by (rule no_lost_update [OF cinv_demo _ _ refl])
qed

end
