(* ===== verification/Recovery.thy ===== *)
theory Recovery
  imports PersistenceLoad Engine
begin

text \<open>
  Resuming a persisted transaction (\<open>rpacore/recovery.py\<close>): the loaded snapshot is joined with the
  caller's step instances, matched by name and execution order, and reset to run again.

  The caller's instance takes over the stored arguments and exceptions, so of it only the identity
  of its code remains; a \<open>set\<close> of step keys is a predicate or the list of its elements.
\<close>

section \<open>Model\<close>

type_synonym step_key = "string \<times> int"

definition key_of :: "step \<Rightarrow> step_key" where
  "key_of s = (st_name s, st_order s)"

definition is_interrupted :: "transaction \<Rightarrow> bool" where
  "is_interrupted t \<longleftrightarrow>
     tx_status t = IN_PROGRESS \<or> (\<exists>s \<in> set (tx_steps t). st_status s = IN_PROGRESS)"

definition resumed_step_status :: "status \<Rightarrow> step_exc list \<Rightarrow> bool \<Rightarrow> bool \<Rightarrow> status" where
  "resumed_step_status st excs preserve_skipped retry_business_failures =
     (if st = SUCCESSFUL then SUCCESSFUL
      else if preserve_skipped \<and> st = SKIPPED then SKIPPED
      else if st = FAILED \<and> excs \<noteq> [] \<and> is_business (last excs)
      then (if retry_business_failures then PENDING else FAILED)
      else PENDING)"

definition halting_failure :: "step \<Rightarrow> bool" where
  "halting_failure s \<longleftrightarrow> st_status s = FAILED \<and> st_exceptions s \<noteq> [] \<and>
     is_business (last (st_exceptions s)) \<and> halts_remaining_steps (last (st_exceptions s))"

definition halting_failures :: "transaction \<Rightarrow> (int \<times> int) list" where
  "halting_failures t =
     map (\<lambda>s. (st_order s, exc_retry_number (last (st_exceptions s))))
       (filter halting_failure (tx_steps t))"

definition caused_by_halt :: "(int \<times> int) list \<Rightarrow> history_entry \<Rightarrow> bool" where
  "caused_by_halt halts entry \<longleftrightarrow> he_event entry = STEP_SKIPPED \<and>
     (case he_step_order entry of
        None \<Rightarrow> False
      | Some order \<Rightarrow> list_ex (\<lambda>(halting_order, halting_retry).
          halting_order < order \<and> halting_retry = he_retry_number entry) halts)"

definition halt_propagated_skipped_step_keys :: "transaction \<Rightarrow> step_key list" where
  "halt_propagated_skipped_step_keys t =
     (if halting_failures t = [] then []
      else map (\<lambda>entry. (he_step_name entry, the (he_step_order entry)))
        (filter (caused_by_halt (halting_failures t)) (tx_history t)))"

definition preserved_skip :: "transaction \<Rightarrow> bool \<Rightarrow> step_key \<Rightarrow> bool" where
  "preserved_skip t retry_business_failures k \<longleftrightarrow>
     (if is_interrupted t \<or> last_event_resumed t
      then \<exists>s \<in> set (tx_steps t). key_of s = k \<and> st_status s = SKIPPED
      else k \<in> set (halt_propagated_skipped_step_keys t)) \<and>
     (retry_business_failures \<longrightarrow> k \<notin> set (halt_propagated_skipped_step_keys t))"

text \<open>The caller's steps by key, without duplicates.\<close>

fun provide :: "(step_key \<times> step) list \<Rightarrow> step list \<Rightarrow> pyexc + (step_key \<times> step) list" where
  "provide m [] = Inr m"
| "provide m (s # ss) =
     (if key_of s \<in> fst ` set m then Inl (ValueErr ''Duplicate recovery step provided'')
      else provide (m @ [(key_of s, s)]) ss)"

definition reattached :: "transaction \<Rightarrow> bool \<Rightarrow> step \<Rightarrow> step \<Rightarrow> step" where
  "reattached t retry_business_failures loaded concrete =
     concrete\<lparr>st_arguments := st_arguments loaded, st_exceptions := st_exceptions loaded,
       st_status := resumed_step_status (st_status loaded) (st_exceptions loaded)
         (preserved_skip t retry_business_failures (key_of loaded)) retry_business_failures\<rparr>"

text \<open>The loop over the loaded steps; the provided steps it leaves over are returned too.\<close>

fun restore ::
  "transaction \<Rightarrow> bool \<Rightarrow> step list \<Rightarrow> (step_key \<times> step) list \<Rightarrow>
   pyexc + step list \<times> (step_key \<times> step) list" where
  "restore t retry [] provided = Inr ([], provided)"
| "restore t retry (loaded # rest) provided =
     (case map_of provided (key_of loaded) of
        None \<Rightarrow> Inl (KeyErr ''Missing recovery step'')
      | Some concrete \<Rightarrow>
          rbnd (restore t retry rest (filter (\<lambda>p. fst p \<noteq> key_of loaded) provided))
            (\<lambda>(restored, extra). Inr (reattached t retry loaded concrete # restored, extra)))"

definition resumed :: "datetime \<Rightarrow> transaction \<Rightarrow> step list \<Rightarrow> transaction" where
  "resumed now t restored =
     (let t' = t\<lparr>tx_steps := restored, tx_status := PENDING, tx_retry_count := 0,
            tx_started_at := None, tx_finished_at := None\<rparr>
      in if last_event_resumed t then t'
         else snd (append_history t' TRANSACTION_RESUMED None None None None now))"

definition prepare_resumed_transaction ::
  "datetime \<Rightarrow> transaction \<Rightarrow> step list \<Rightarrow> bool \<Rightarrow> pyval \<Rightarrow> pyexc + transaction" where
  "prepare_resumed_transaction now t steps retry_business_failures definition_identity =
     (if tx_status t = SUCCESSFUL then Inr t
      else rbnd (validate_definition_identity definition_identity True) (\<lambda>expected_identity.
        if tx_definition_identity t = []
        then Inl (DefinitionIdentityError ''Persisted transaction has no definition identity'')
        else if tx_definition_identity t \<noteq> expected_identity
        then Inl (DefinitionIdentityError ''definition identity does not match'')
        else rbnd (validate_for_execution t) (\<lambda>t.
          rbnd (provide [] steps) (\<lambda>provided.
          rbnd (restore t retry_business_failures (ordered_steps t) provided) (\<lambda>(restored, extra).
            if extra \<noteq> [] then Inl (KeyErr ''Recovery steps did not match persisted transaction'')
            else Inr (resumed now t restored))))))"

definition resume_transaction ::
  "datetime \<Rightarrow> datetime \<Rightarrow> string \<Rightarrow> step list \<Rightarrow> bool \<Rightarrow> pyval \<Rightarrow> (txdb, pyexc, transaction) effect" where
  "resume_transaction load_now now i steps retry_business_failures definition_identity =
     bnd (load_transaction load_now i) (\<lambda>t.
       lift_res (prepare_resumed_transaction now t steps retry_business_failures definition_identity))"

section \<open>Matching\<close>

lemma provide_Inr:
  "provide m ss = Inr m' \<longleftrightarrow> m' = m @ map (\<lambda>s. (key_of s, s)) ss \<and>
     distinct (map key_of ss) \<and> fst ` set m \<inter> key_of ` set ss = {}"
  by (induction m ss rule: provide.induct) auto

text \<open>The loaded step with its status after the resume.\<close>

definition restored_step :: "transaction \<Rightarrow> bool \<Rightarrow> step \<Rightarrow> step" where
  "restored_step t retry s = s\<lparr>st_status := resumed_step_status (st_status s) (st_exceptions s)
     (preserved_skip t retry (key_of s)) retry\<rparr>"

lemma reattached_step:
  "key_of concrete = key_of loaded \<Longrightarrow> reattached t retry loaded concrete = restored_step t retry loaded"
  by (cases concrete, cases loaded) (simp add: reattached_def restored_step_def key_of_def)

definition keyed :: "(step_key \<times> step) list \<Rightarrow> bool" where
  "keyed m \<longleftrightarrow> (\<forall>(k, s) \<in> set m. key_of s = k)"

lemma keys_filter: "fst ` {p \<in> A. fst p \<noteq> k} = fst ` A - {k}"
  by auto

lemma restore_Inr:
  "keyed m \<Longrightarrow> restore t retry ss m = Inr (rs, extra) \<longleftrightarrow>
     rs = map (restored_step t retry) ss \<and> distinct (map key_of ss) \<and> key_of ` set ss \<subseteq> fst ` set m \<and>
     extra = filter (\<lambda>p. fst p \<notin> key_of ` set ss) m"
proof (induction ss arbitrary: m rs)
  case Nil
  then show ?case by (auto simp: filter_id_conv)
next
  case (Cons s ss)
  let ?m = "filter (\<lambda>p. fst p \<noteq> key_of s) m"
  show ?case
  proof (cases "map_of m (key_of s)")
    case None
    then have "key_of s \<notin> fst ` set m" by (simp add: map_of_eq_None_iff)
    with None show ?thesis by auto
  next
    case (Some c)
    then have mem: "(key_of s, c) \<in> set m" by (rule map_of_SomeD)
    then have c: "reattached t retry s c = restored_step t retry s"
      using Cons.prems by (intro reattached_step) (auto simp: keyed_def)
    have keyed: "keyed ?m" using Cons.prems by (auto simp: keyed_def)
    have here: "key_of s \<in> fst ` set m" using mem by force
    have split: "restore t retry (s # ss) m = Inr (rs, extra) \<longleftrightarrow>
        (\<exists>rs'. restore t retry ss ?m = Inr (rs', extra) \<and> rs = restored_step t retry s # rs')"
      by (auto simp: Some c rbnd_Inr)
    have extra: "filter (\<lambda>p. fst p \<notin> key_of ` set ss) ?m = filter (\<lambda>p. fst p \<notin> key_of ` set (s # ss)) m"
      by (simp add: filter_filter conj_commute)
    have sub: "key_of ` set ss \<subseteq> fst ` set ?m \<longleftrightarrow> key_of ` set ss \<subseteq> fst ` set m \<and> key_of s \<notin> key_of ` set ss"
      by (simp only: set_filter keys_filter) blast
    show ?thesis unfolding split Cons.IH [OF keyed] extra sub using here by auto
  qed
qed

lemma set_ordered_steps [simp]: "set (ordered_steps t) = set (tx_steps t)"
  by (simp add: ordered_steps_def)

lemma distinct_ordered_keys [simp]:
  "distinct (map key_of (ordered_steps t)) \<longleftrightarrow> distinct (map key_of (tx_steps t))"
  by (simp add: ordered_steps_def distinct_map)

text \<open>When a resume succeeds, and with what.\<close>

definition resumable :: "transaction \<Rightarrow> step list \<Rightarrow> pyval \<Rightarrow> bool" where
  "resumable t steps identity \<longleftrightarrow>
     tx_definition_identity t \<noteq> [] \<and>
     validate_definition_identity identity True = Inr (tx_definition_identity t) \<and>
     validate_for_execution t = Inr t \<and> distinct (map key_of steps) \<and>
     key_of ` set steps = key_of ` set (tx_steps t)"

lemma well_wired_keys: "well_wired ss \<Longrightarrow> distinct (map key_of ss)"
  by (auto simp: well_wired_def distinct_map inj_on_def key_of_def)

lemma prepare_Inr:
  assumes "tx_status t \<noteq> SUCCESSFUL"
  shows "prepare_resumed_transaction now t steps retry identity = Inr t' \<longleftrightarrow>
    resumable t steps identity \<and> t' = resumed now t (map (restored_step t retry) (ordered_steps t))"
proof -
  let ?m = "map (\<lambda>s. (key_of s, s)) steps"
  have k: "keyed ?m" by (auto simp: keyed_def)
  have m: "fst ` set ?m = key_of ` set steps" by force
  have extra: "filter (\<lambda>p. fst p \<notin> key_of ` set (tx_steps t)) ?m = [] \<longleftrightarrow>
      key_of ` set steps \<subseteq> key_of ` set (tx_steps t)"
    by (auto simp: filter_empty_conv)
  have ok: "validate_for_execution t = Inr u \<Longrightarrow> u = t" for u
    by (simp add: validate_for_execution_iff)
  have ks: "validate_for_execution t = Inr t \<Longrightarrow> distinct (map key_of (tx_steps t))"
    using well_wired_keys by (simp add: validate_for_execution_iff)
  show ?thesis
  proof (cases "tx_definition_identity t \<noteq> [] \<and>
      validate_definition_identity identity True = Inr (tx_definition_identity t) \<and>
      validate_for_execution t = Inr t \<and> distinct (map key_of steps)")
    case True
    then have d: "distinct (map key_of (ordered_steps t))" using ks by simp
    have "provide [] steps = Inr ?m" using True by (simp add: provide_Inr)
    with True assms have "prepare_resumed_transaction now t steps retry identity = Inr t' \<longleftrightarrow>
        (\<exists>rs. restore t retry (ordered_steps t) ?m = Inr (rs, []) \<and> t' = resumed now t rs)"
      by (auto simp: prepare_resumed_transaction_def rbnd_Inr)
    also have "\<dots> \<longleftrightarrow> key_of ` set steps = key_of ` set (tx_steps t) \<and>
        t' = resumed now t (map (restored_step t retry) (ordered_steps t))"
      unfolding restore_Inr [OF k] m set_ordered_steps using d extra by auto
    finally show ?thesis using True by (simp add: resumable_def)
  next
    case False
    then have "prepare_resumed_transaction now t steps retry identity \<noteq> Inr t'"
      using assms by (auto simp: prepare_resumed_transaction_def rbnd_Inr provide_Inr dest: ok split: if_splits)
    with False show ?thesis by (auto simp: resumable_def)
  qed
qed

end
