(* ===== verification/RecoveryClaims.thy ===== *)
theory RecoveryClaims
  imports Recovery EngineRuns StoreClaims EngineClaims
begin

text \<open>
  The properties of a resume: what it keeps and resets, that resuming twice is resuming once, and
  what a run of a resumed transaction does not touch.
\<close>

section \<open>The resumed transaction\<close>

lemma resumed_simps [simp]:
  "tx_steps (resumed now t rs) = rs" "tx_status (resumed now t rs) = PENDING"
  "tx_retry_count (resumed now t rs) = 0" "tx_id (resumed now t rs) = tx_id t"
  "tx_definition_identity (resumed now t rs) = tx_definition_identity t"
  "tx_reference (resumed now t rs) = tx_reference t" "tx_state (resumed now t rs) = tx_state t"
  "tx_metadata (resumed now t rs) = tx_metadata t" "tx_artifacts (resumed now t rs) = tx_artifacts t"
  "tx_failure_code (resumed now t rs) = tx_failure_code t"
  "tx_created_at (resumed now t rs) = tx_created_at t" "tx_outcome (resumed now t rs) = tx_outcome t"
  "tx_disposition (resumed now t rs) = tx_disposition t"
  "tx_started_at (resumed now t rs) = None" "tx_finished_at (resumed now t rs) = None"
  "last_event_resumed (resumed now t rs)"
  by (auto simp: resumed_def Let_def append_history_def last_event_resumed_def)

lemma resumed_history:
  "tx_history (resumed now t rs) = tx_history t @ (if last_event_resumed t then [] else
     [\<lparr>he_sequence = int (length (tx_history t)) + 1, he_timestamp = now, he_event = TRANSACTION_RESUMED,
       he_status = PENDING, he_retry_number = 0, he_step_name = [], he_step_order = None\<rparr>])"
  by (simp add: resumed_def Let_def append_history_def)

lemma resumed_again: "resumed now' (resumed now t rs) rs = resumed now t rs"
  by (simp only: resumed_def [of now' "resumed now t rs"] Let_def resumed_simps if_True)
    (intro transaction.equality; simp)

lemma restored_step_simps [simp]:
  "st_name (restored_step t r s) = st_name s" "st_order (restored_step t r s) = st_order s"
  "st_arguments (restored_step t r s) = st_arguments s"
  "st_exceptions (restored_step t r s) = st_exceptions s" "key_of (restored_step t r s) = key_of s"
  by (simp_all add: restored_step_def key_of_def)

text \<open>Resuming again changes no step.\<close>

lemma restored_status:
  "st_status (restored_step t r s) = resumed_step_status (st_status s) (st_exceptions s)
     (preserved_skip t r (key_of s)) r"
  by (simp add: restored_step_def)

lemma restored_not_in_progress: "st_status (restored_step t r s) \<noteq> IN_PROGRESS"
  by (simp add: restored_status resumed_step_status_def)

lemma restored_failed:
  "st_status (restored_step t r s) = FAILED \<longleftrightarrow> \<not> r \<and> st_status s = FAILED \<and>
     st_exceptions s \<noteq> [] \<and> is_business (last (st_exceptions s))"
  by (auto simp: restored_status resumed_step_status_def)

lemma restored_successful: "st_status (restored_step t r s) = SUCCESSFUL \<longleftrightarrow> st_status s = SUCCESSFUL"
  by (auto simp: restored_status resumed_step_status_def)

definition resumed_steps :: "datetime \<Rightarrow> bool \<Rightarrow> transaction \<Rightarrow> transaction" where
  "resumed_steps now r t = resumed now t (map (restored_step t r) (ordered_steps t))"

lemma resumed_halts: "r \<Longrightarrow> halting_failures (resumed_steps now r t) = []"
  by (auto simp: halting_failures_def resumed_steps_def filter_empty_conv halting_failure_def restored_failed)

lemma restored_twice:
  assumes keys: "distinct (map key_of (tx_steps t))" and s: "s \<in> set (tx_steps t)"
  shows "restored_step (resumed_steps now r t) r (restored_step t r s) = restored_step t r s"
proof -
  let ?t = "resumed_steps now r t" and ?s = "restored_step t r s"
  have set: "set (tx_steps ?t) = restored_step t r ` set (tx_steps t)" by (simp add: resumed_steps_def)
  have skip: "preserved_skip ?t r (key_of ?s)" if "st_status ?s = SKIPPED"
  proof -
    have "\<exists>x \<in> set (tx_steps ?t). key_of x = key_of ?s \<and> st_status x = SKIPPED"
      using s that set by blast
    moreover have "r \<longrightarrow> halt_propagated_skipped_step_keys ?t = []"
      by (simp add: halt_propagated_skipped_step_keys_def resumed_halts)
    ultimately show ?thesis by (auto simp: preserved_skip_def resumed_steps_def)
  qed
  have "resumed_step_status (st_status ?s) (st_exceptions ?s) (preserved_skip ?t r (key_of ?s)) r = st_status ?s"
    using skip restored_failed [of t r s] restored_not_in_progress [of t r s]
    by (cases "st_status ?s") (auto simp: resumed_step_status_def)
  then show ?thesis unfolding restored_step_def [of ?t] by simp
qed

lemma ordered_restored:
  "ordered_steps (resumed_steps now r t) = map (restored_step t r) (ordered_steps t)"
proof -
  have "sorted (map st_order (map (restored_step t r) (ordered_steps t)))"
    by (simp add: o_def ordered_steps_def)
  then show ?thesis by (simp add: resumed_steps_def ordered_steps_def [of "resumed _ _ _"] sort_key_id_if_sorted)
qed

lemma sort_perm: "mset (ordered_steps t) = mset (tx_steps t)"
  by (simp add: ordered_steps_def)

lemma resumed_valid:
  assumes "validate_for_execution t = Inr t"
  shows "validate_for_execution (resumed_steps now r t) = Inr (resumed_steps now r t)"
proof -
  have w: "well_wired (tx_steps t)" using assms by (simp add: validate_for_execution_iff)
  have "well_wired (ordered_steps t)"
    using w by (simp add: well_wired_def distinct_map ordered_steps_def)
  then have "well_wired (map (restored_step t r) (ordered_steps t))"
    by (auto simp: well_wired_def o_def)
  then show ?thesis
    using assms by (auto simp: validate_for_execution_iff resumed_steps_def durable_safe_def)
qed

lemma prepare_cases:
  assumes "prepare_resumed_transaction now t steps r identity = Inr t'"
  obtains (finished) "tx_status t = SUCCESSFUL" "t' = t"
  | (open_again) "tx_status t \<noteq> SUCCESSFUL" "resumable t steps identity" "t' = resumed_steps now r t"
  using assms prepare_Inr [of t now steps r identity t']
  by (cases "tx_status t = SUCCESSFUL") (auto simp: prepare_resumed_transaction_def resumed_steps_def)

text \<open>
  A skip has a cause when a step before it failed with a business exception that halts the remaining
  steps, and the history has the skip of this step in the same retry pass.
\<close>

definition skip_has_cause :: "transaction \<Rightarrow> step \<Rightarrow> bool" where
  "skip_has_cause t s \<longleftrightarrow> (\<exists>f \<in> set (tx_steps t). \<exists>h \<in> set (tx_history t).
     st_status f = FAILED \<and> st_exceptions f \<noteq> [] \<and> is_business (last (st_exceptions f)) \<and>
     halts_remaining_steps (last (st_exceptions f)) \<and> st_order f < st_order s \<and>
     he_event h = STEP_SKIPPED \<and> he_step_name h = st_name s \<and> he_step_order h = Some (st_order s) \<and>
     he_retry_number h = exc_retry_number (last (st_exceptions f)))"

lemma propagated_has_cause: "key_of s \<in> set (halt_propagated_skipped_step_keys t) \<longleftrightarrow> skip_has_cause t s"
proof -
  have "key_of s \<in> set (halt_propagated_skipped_step_keys t) \<longleftrightarrow>
      (\<exists>h \<in> set (tx_history t). caused_by_halt (halting_failures t) h \<and> he_step_name h = st_name s \<and>
         he_step_order h = Some (st_order s))"
    by (cases "halting_failures t = []")
      (auto simp: halt_propagated_skipped_step_keys_def key_of_def caused_by_halt_def image_iff Bex_def
        split: option.splits)
  also have "\<dots> \<longleftrightarrow> skip_has_cause t s"
    by (fastforce simp: caused_by_halt_def halting_failures_def halting_failure_def skip_has_cause_def list_ex_iff)
  finally show ?thesis .
qed

lemma restored_skipped:
  assumes "s \<in> set (tx_steps t)"
  shows "st_status (restored_step t r s) = SKIPPED \<longleftrightarrow> st_status s = SKIPPED \<and>
    (is_interrupted t \<or> last_event_resumed t \<or> skip_has_cause t s) \<and> \<not> (r \<and> skip_has_cause t s)"
  using assms
  by (auto simp: restored_status resumed_step_status_def preserved_skip_def propagated_has_cause)

section \<open>A failed transaction to resume\<close>

definition demo_failed :: transaction where
  "demo_failed = (demo_tx [demo_step ''post'' 2 SKIPPED [], demo_step ''check'' 1 FAILED [demo_exc True False []]])
     \<lparr>tx_status := FAILED, tx_definition_identity := ''v1''\<rparr>"

definition demo_code :: "step list" where
  "demo_code = [new_step ''check'' 1 None, new_step ''post'' 2 None]"

definition demo_resumed :: transaction where
  "demo_resumed = resumed_steps demo_time False demo_failed"

lemma demo_resume:
  "prepare_resumed_transaction demo_time demo_failed demo_code False (PStr ''v1'') = Inr demo_resumed"
proof -
  have "resumable demo_failed demo_code (PStr ''v1'')"
    unfolding resumable_def by (intro conjI; code_simp)
  moreover have "tx_status demo_failed \<noteq> SUCCESSFUL" by (simp add: demo_failed_def)
  ultimately show ?thesis by (simp add: prepare_Inr demo_resumed_def resumed_steps_def)
qed

lemma demo_failed_saved:
  "save_transaction demo_time demo_failed empty_txdb =
     (Inr (), snd (save_transaction demo_time demo_failed empty_txdb))"
proof -
  have "fst (save_transaction demo_time demo_failed empty_txdb) = Inr ()" by code_simp
  then show ?thesis by (simp add: prod_eq_iff)
qed

section \<open>Properties\<close>

text \<open>
  C15: a resume that succeeds had the exact definition identity and the exact set of steps; the
  transaction is pending again, in execution order, its data, arguments and exceptions kept, with a
  resume as its last history entry; successful steps stay successful, business failures stay failed
  unless they shall be retried. A skipped step stays skipped when the transaction had been interrupted or
  already been resumed, or a recorded halt of a business failure caused the skip; the causal skips do
  not when business failures shall be retried. Every other step is pending.
\<close>

theorem resume_restores:
  assumes "prepare_resumed_transaction now t steps r identity = Inr t'" and "tx_status t \<noteq> SUCCESSFUL"
  shows "identity = PStr (tx_definition_identity t') \<and> tx_definition_identity t' = tx_definition_identity t \<and>
    key_of ` set steps = key_of ` set (tx_steps t) \<and> map key_of (tx_steps t') = map key_of (ordered_steps t) \<and>
    tx_id t' = tx_id t \<and> tx_state t' = tx_state t \<and> tx_metadata t' = tx_metadata t \<and>
    tx_artifacts t' = tx_artifacts t \<and> tx_status t' = PENDING \<and> tx_retry_count t' = 0 \<and>
    (\<exists>new. tx_history t' = tx_history t @ new \<and> length new \<le> 1) \<and> last_event_resumed t' \<and>
    (\<forall>s' \<in> set (tx_steps t'). \<exists>s \<in> set (tx_steps t). key_of s' = key_of s \<and>
       st_arguments s' = st_arguments s \<and> st_exceptions s' = st_exceptions s \<and>
       (st_status s' = SUCCESSFUL \<longleftrightarrow> st_status s = SUCCESSFUL) \<and>
       (st_status s' = FAILED \<longleftrightarrow> \<not> r \<and> st_status s = FAILED \<and> st_exceptions s \<noteq> [] \<and>
          is_business (last (st_exceptions s))) \<and>
       (st_status s' = SKIPPED \<longleftrightarrow> st_status s = SKIPPED \<and>
          (tx_status t = IN_PROGRESS \<or> (\<exists>x \<in> set (tx_steps t). st_status x = IN_PROGRESS) \<or>
             last_event_resumed t \<or> skip_has_cause t s) \<and> \<not> (r \<and> skip_has_cause t s)) \<and>
       st_status s' \<noteq> IN_PROGRESS)"
  using assms(1)
proof (cases rule: prepare_cases)
  case open_again
  have each: "\<exists>s \<in> set (tx_steps t). key_of s' = key_of s \<and>
       st_arguments s' = st_arguments s \<and> st_exceptions s' = st_exceptions s \<and>
       (st_status s' = SUCCESSFUL \<longleftrightarrow> st_status s = SUCCESSFUL) \<and>
       (st_status s' = FAILED \<longleftrightarrow> \<not> r \<and> st_status s = FAILED \<and> st_exceptions s \<noteq> [] \<and>
          is_business (last (st_exceptions s))) \<and>
       (st_status s' = SKIPPED \<longleftrightarrow> st_status s = SKIPPED \<and>
          (tx_status t = IN_PROGRESS \<or> (\<exists>x \<in> set (tx_steps t). st_status x = IN_PROGRESS) \<or>
             last_event_resumed t \<or> skip_has_cause t s) \<and> \<not> (r \<and> skip_has_cause t s)) \<and>
       st_status s' \<noteq> IN_PROGRESS"
    if "s' \<in> set (tx_steps t')" for s'
  proof -
    from that open_again(3) obtain s where "s \<in> set (tx_steps t)" "s' = restored_step t r s"
      by (auto simp: resumed_steps_def)
    moreover from this(1) have "st_status s' = SKIPPED \<longleftrightarrow> st_status s = SKIPPED \<and>
        (is_interrupted t \<or> last_event_resumed t \<or> skip_has_cause t s) \<and> \<not> (r \<and> skip_has_cause t s)"
      using restored_skipped [OF \<open>s \<in> set (tx_steps t)\<close>, of r] \<open>s' = restored_step t r s\<close> by simp
    ultimately show ?thesis
      by (intro bexI [of _ s]) (auto simp: is_interrupted_def restored_failed restored_successful restored_not_in_progress)
  qed
  have "map key_of (tx_steps t') = map key_of (ordered_steps t)"
    by (simp add: open_again(3) resumed_steps_def)
  with each open_again(2) show ?thesis
    by (auto simp: open_again(3) resumable_def resumed_steps_def resumed_history
        dest: validate_definition_identity_ok)
qed (use assms(2) in simp)

theorem resume_restores_witness: "map key_of (tx_steps demo_resumed) = [(''check'', 1), (''post'', 2)]"
  using resume_restores [OF demo_resume]
  by (simp add: demo_failed_def demo_tx_def demo_step_def new_step_def ordered_steps_def key_of_def)

text \<open>
  Resuming is idempotent: a transaction that was resumed and not run can be resumed again with
  the same steps, identity and choice, and the second resume returns it as it is, without another
  history entry.
\<close>

theorem resume_is_idempotent:
  assumes "prepare_resumed_transaction now t steps r identity = Inr t'"
  shows "prepare_resumed_transaction now' t' steps r identity = Inr t'"
  using assms
proof (cases rule: prepare_cases)
  case finished
  then show ?thesis by (simp add: prepare_resumed_transaction_def)
next
  case open_again
  then have valid: "validate_for_execution t = Inr t" and keys: "distinct (map key_of (tx_steps t))"
    using well_wired_keys by (auto simp: resumable_def validate_for_execution_iff)
  have "map (restored_step t' r) (ordered_steps t') = tx_steps t'"
    unfolding open_again(3) ordered_restored
    using restored_twice [OF keys, of _ now r] by (simp add: resumed_steps_def)
  moreover have "resumable t' steps identity"
    using open_again(2) resumed_valid [OF valid, of now r]
    by (auto simp: resumable_def open_again(3) resumed_steps_def image_image)
  moreover have "resumed now' t' (tx_steps t') = t'"
    by (simp add: open_again(3) resumed_steps_def resumed_again)
  ultimately show ?thesis
    using prepare_Inr [of t' now' steps r identity t'] by (simp add: open_again(3) resumed_steps_def)
qed

theorem resume_is_idempotent_witness:
  "prepare_resumed_transaction (utc_datetime 7) demo_resumed demo_code False (PStr ''v1'') = Inr demo_resumed"
  by (rule resume_is_idempotent [OF demo_resume])

text \<open>
  C16: after a transaction was saved and resumed, a run repeats no step that had succeeded or had
  been refused by a business failure: the step is still there as it was saved, and the run records
  no event about it, whatever the other steps do and whether the run returns or raises.
\<close>

theorem recovered_run_repeats_nothing:
  assumes "tinv db" and "constructed t" and "extends_stored db t"
    and "save_transaction n t db = (Inr (), db1)" and "tx_status t \<noteq> SUCCESSFUL"
    and "resume_transaction l now (tx_id t) steps False identity db1 = (Inr t', db2)"
    and "s \<in> set (tx_steps t)" and "step_done s \<or> step_rejected s" and "es_tx e = t'"
  shows "stored_step s \<in> set (tx_steps (es_tx (snd (engine_run C E e)))) \<and>
    (\<forall>h \<in> set (new_history t' (es_tx (snd (engine_run C E e)))). he_step_order h \<noteq> Some (st_order s))"
proof -
  let ?v = "stored_view (find_tx (tx_id t) db) t"
  have "prepare_resumed_transaction now ?v steps False identity = Inr t'"
    using assms(6) load_saved [OF assms(1-4), of l]
    by (simp add: resume_transaction_def bnd_def lift_res_def)
  then have ok: "resumable ?v steps identity" and t': "t' = resumed_steps now False ?v"
    using assms(5) by (cases rule: prepare_cases; simp add: stored_view_def)+
  let ?s = "stored_step s"
  have kind: "step_done ?s \<or> step_rejected ?s"
    using assms(8) by (auto simp: step_done_def step_rejected_def stored_step_def last_exc_def
        stored_exc_def last_map split: if_splits)
  then have same: "restored_step ?v False ?s = ?s"
    by (cases ?s) (auto simp: restored_step_def resumed_step_status_def step_done_def step_rejected_def
        last_exc_def split: if_splits)
  have "?s \<in> set (tx_steps ?v)" using assms(7) by (simp add: stored_view_def)
  then have "?s \<in> set (tx_steps t')" using same by (force simp: t' resumed_steps_def)
  then obtain j where j: "j < length (tx_steps t')" "tx_steps t' ! j = ?s" by (auto simp: in_set_conv_nth)
  have orders: "distinct (map st_order (tx_steps t'))"
    using ok resumed_valid [of ?v now False]
    by (simp add: resumable_def t' validate_for_execution_iff well_wired_def)
  obtain P where P: "settled_kind P" "P ?s" using kind by (auto simp: settled_kind_def)
  have "blocked_ok P j (initial_blocked_steps t')"
    using settled_blocked [OF P(1) j(1)] P(2) j(2) by (simp add: initial_blocked_steps_def t' resumed_steps_def)
  from heldD [OF held_engine_run [OF P(1), of j e, unfolded assms(9), OF this, of "length (tx_steps t')" C], unfolded assms(9)]
  have "tx_steps (es_tx (snd (engine_run C E e))) ! j = ?s \<and>
      (\<forall>h \<in> set (new_history t' (es_tx (snd (engine_run C E e)))). he_step_order h \<noteq> Some (st_order s))"
    using j orders P(2) by (simp add: stored_step_def)
  moreover have "length (tx_steps (es_tx (snd (engine_run C E e)))) = length (tx_steps t')"
    using run_frame_engine [of e C E] same_wiring_length by (auto simp: run_frame_def tx_extends_def assms(9))
  ultimately show ?thesis using j(1) by (metis nth_mem)
qed

theorem recovered_run_repeats_nothing_witness:
  "stored_step (demo_step ''check'' 1 FAILED [demo_exc True False []]) \<in>
     set (tx_steps (es_tx (snd (engine_run demo_engine (silent_env None) (demo_start
       (projr (fst (resume_transaction demo_time demo_time ''t1'' demo_code False (PStr ''v1'')
         (snd (save_transaction demo_time demo_failed empty_txdb))))))))))"
proof -
  let ?db = "snd (save_transaction demo_time demo_failed empty_txdb)"
  let ?r = "resume_transaction demo_time demo_time ''t1'' demo_code False (PStr ''v1'') ?db"
  have "isl (fst ?r) = False" by code_simp
  then have run: "?r = (Inr (projr (fst ?r)), snd ?r)" by (cases ?r; cases "fst ?r") auto
  have "constructed demo_failed"
    by (simp add: constructed_def demo_failed_def demo_tx_def demo_step_def new_step_def demo_exc_def
        history_numbered_def valid_code_def naive_def demo_time_def is_aware_def)
  from recovered_run_repeats_nothing [OF tinv_empty this extends_empty demo_failed_saved,
      of demo_time demo_time demo_code "PStr ''v1''" "projr (fst ?r)" "snd ?r"
         "demo_step ''check'' 1 FAILED [demo_exc True False []]" "demo_start (projr (fst ?r))" demo_engine "silent_env None"]
  show ?thesis using run
    by (simp add: demo_failed_def demo_tx_def demo_step_def new_step_def demo_exc_def step_rejected_def
        last_exc_def demo_start_def)
qed

end
