(* ===== verification/Runtime.thy ===== *)
theory Runtime
  imports Outcomes Prelude
begin

text \<open>
  What the execution helpers and the queue runner share: the retries of short SQLite locks
  (\<open>rpacore/_sqlite_retry.py\<close>), resource scopes (context managers given by the caller), and the
  dispatch of reports to notifiers (\<open>rpacore/notify.py\<close>).
\<close>

section \<open>SQLite lock retries\<close>

definition is_transient_sqlite_lock :: "pyexc \<Rightarrow> bool" where
  "is_transient_sqlite_lock e = (case e of
     OperationalError text \<Rightarrow>
       (let message = lower text in contains ''locked'' message \<or> contains ''busy'' message)
   | _ \<Rightarrow> False)"

definition sqlite_retry_delay :: "nat \<Rightarrow> rat \<Rightarrow> rat" where
  "sqlite_retry_delay attempt base_delay_seconds = base_delay_seconds * 2 ^ attempt"

text \<open>
  \<open>for attempt in range(n)\<close> around one database call: a lock error of any attempt but the last sleeps
  and tries again; every other error and the last one are raised. \<open>rest\<close> counts the attempts left
  after this one.
\<close>

fun retrying ::
  "(rat \<Rightarrow> ('s, pyexc, unit) effect) \<Rightarrow> rat \<Rightarrow> nat \<Rightarrow> nat \<Rightarrow> ('s, pyexc, 'a) effect \<Rightarrow> ('s, pyexc, 'a) effect" where
  "retrying sleep delay attempt 0 m = m"
| "retrying sleep delay attempt (Suc rest) m =
     catch_exc m (\<lambda>e.
       if is_transient_sqlite_lock e
       then thn (sleep (sqlite_retry_delay attempt delay)) (retrying sleep delay (Suc attempt) rest m)
       else raise_exc e)"

definition sqlite_attempts :: nat where
  "sqlite_attempts = 3"

definition sqlite_delay_seconds :: rat where
  "sqlite_delay_seconds = 5 / 100"

definition with_sqlite_retries ::
  "(rat \<Rightarrow> ('s, pyexc, unit) effect) \<Rightarrow> ('s, pyexc, 'a) effect \<Rightarrow> ('s, pyexc, 'a) effect" where
  "with_sqlite_retries sleep m = retrying sleep sqlite_delay_seconds 0 (sqlite_attempts - 1) m"

text \<open>\<open>except MemoryError: raise\<close>, \<open>except Exception as exc: return exc\<close>.\<close>

definition captured :: "('s, pyexc, 'a) effect \<Rightarrow> ('s, pyexc, pyexc + 'a) effect" where
  "captured m = (\<lambda>s. case m s of
     (Inl e, t) \<Rightarrow> (if e = MemoryErr \<or> \<not> is_exception e then (Inl e, t) else (Inr (Inl e), t))
   | (Inr a, t) \<Rightarrow> (Inr (Inr a), t))"

context step_relation
begin

lemma keeps_retrying:
  "keeps R m \<Longrightarrow> (\<And>d. keeps R (sleep d)) \<Longrightarrow> keeps R (retrying sleep delay attempt rest m)"
  by (induction sleep delay attempt rest m rule: retrying.induct) (auto intro!: keeps_catch keeps_thn keeps_raise)

lemma keeps_sqlite_retries:
  "keeps R m \<Longrightarrow> (\<And>d. keeps R (sleep d)) \<Longrightarrow> keeps R (with_sqlite_retries sleep m)"
  by (simp add: with_sqlite_retries_def keeps_retrying)

text \<open>A call that succeeds in the end succeeded in a state that the relation reaches.\<close>

lemma retrying_Inr:
  assumes "retrying sleep delay attempt rest m s = (Inr a, t)" "keeps R m" "\<And>d. keeps R (sleep d)"
  shows "\<exists>u. R s u \<and> m u = (Inr a, t)"
  using assms(1)
proof (induction rest arbitrary: s attempt)
  case 0
  then show ?case using R_refl by auto
next
  case (Suc rest)
  obtain q u where q: "m s = (q, u)" by (cases "m s")
  have su: "R s u" by (rule keepsD [OF assms(2) q])
  show ?case
  proof (cases q)
    case (Inr b)
    with Suc.prems q show ?thesis using R_refl by (auto simp: catch_exc_def)
  next
    case (Inl e)
    with Suc.prems q obtain v where v: "sleep (sqlite_retry_delay attempt delay) u = (Inr (), v)"
      "retrying sleep delay (Suc attempt) rest m v = (Inr a, t)"
      by (auto simp: catch_exc_def raise_exc_def thn_Inr split: if_splits)
    have "R u v" by (rule keepsD [OF assms(3) v(1)])
    with Suc.IH [OF v(2)] su show ?thesis using R_trans by blast
  qed
qed

lemma captured_retries_Inr:
  assumes "captured (with_sqlite_retries sleep m) s = (Inr (Inr a), t)" "keeps R m" "\<And>d. keeps R (sleep d)"
  shows "\<exists>u. R s u \<and> m u = (Inr a, t)"
proof -
  have "retrying sleep sqlite_delay_seconds 0 (sqlite_attempts - 1) m s = (Inr a, t)"
    using assms(1) by (auto simp: captured_def with_sqlite_retries_def split: prod.splits sum.splits if_splits)
  from retrying_Inr [OF this assms(2,3)] show ?thesis .
qed

lemma keeps_captured [keeps_intros]: "keeps R m \<Longrightarrow> keeps R (captured m)"
  by (auto simp: keeps_def captured_def split: prod.splits sum.splits) (metis snd_conv)+

end

lemma captured_Inl: "captured m s = (Inl e, t) \<Longrightarrow> e = MemoryErr \<or> \<not> is_exception e"
  by (auto simp: captured_def split: prod.splits sum.splits if_splits)

text \<open>A call that raises no lock error is made once.\<close>

lemma retrying_once:
  assumes "\<And>e. fst (m s) = Inl e \<Longrightarrow> \<not> is_transient_sqlite_lock e"
  shows "retrying sleep delay attempt rest m s = m s"
  using assms by (cases rest) (auto simp: catch_exc_def raise_exc_def split: prod.splits sum.splits)

section \<open>Resource scopes\<close>

text \<open>What \<open>__enter__\<close> yields, as far as it is looked at, and the two methods as effects.\<close>

datatype scope_yield = YieldNone | YieldDict "string list" | YieldOther string

record 's scope =
  sc_enter :: "('s, pyexc, scope_yield) effect"
  sc_exit :: "pyexc option \<Rightarrow> ('s, pyexc, bool) effect"

definition scope_resources :: "scope_yield \<Rightarrow> pyexc + string list" where
  "scope_resources y = (case y of
     YieldNone \<Rightarrow> Inr []
   | YieldDict names \<Rightarrow> Inr names
   | YieldOther _ \<Rightarrow> Inl (TypeErr ''resource_scope yield''))"

section \<open>Notification\<close>

text \<open>The failures of a notifier's \<open>send\<close>, as far as the dispatch tells them apart.\<close>

datatype transport_error = TimedOut | ConnectionFailed | ResolverAgain | OtherTransport

datatype send_error =
    HTTPError int
  | SMTPResponse int
  | SMTPRefused "int list"
  | SMTPDisconnected
  | URLError transport_error
  | Transport transport_error
  | SendRaised pyexc

definition retryable_transport :: "transport_error \<Rightarrow> bool" where
  "retryable_transport e \<longleftrightarrow> e \<noteq> OtherTransport"

definition retryable_notification_error :: "send_error \<Rightarrow> bool" where
  "retryable_notification_error e = (case e of
     HTTPError code \<Rightarrow> code \<in> {408, 429, 500, 502, 503, 504}
   | SMTPResponse code \<Rightarrow> 400 \<le> code \<and> code < 500
   | SMTPRefused codes \<Rightarrow> codes \<noteq> [] \<and> list_all (\<lambda>code. 400 \<le> code \<and> code < 500) codes
   | SMTPDisconnected \<Rightarrow> True
   | URLError reason \<Rightarrow> retryable_transport reason
   | Transport reason \<Rightarrow> retryable_transport reason
   | SendRaised _ \<Rightarrow> False)"

definition send_fatal :: "send_error \<Rightarrow> pyexc option" where
  "send_fatal e = (case e of
     SendRaised x \<Rightarrow> (if x = MemoryErr \<or> \<not> is_exception x then Some x else None) | _ \<Rightarrow> None)"

text \<open>
  One notifier: \<open>None\<close> is a delivered report, \<open>Some\<close> a failure that will be swallowed. A
  \<open>MemoryError\<close> and a non-\<open>Exception\<close> are raised at once. \<open>rest\<close> counts the attempts left.
\<close>

fun send_attempts ::
  "(nat \<Rightarrow> ('s, pyexc, send_error option) effect) \<Rightarrow> (rat \<Rightarrow> ('s, pyexc, unit) effect) \<Rightarrow>
   nat \<Rightarrow> nat \<Rightarrow> ('s, pyexc, send_error option) effect" where
  "send_attempts send sleep attempt 0 = ret None"
| "send_attempts send sleep attempt (Suc rest) =
     bnd (send attempt) (\<lambda>outcome.
       case outcome of
         None \<Rightarrow> ret None
       | Some e \<Rightarrow>
           (case send_fatal e of
              Some x \<Rightarrow> raise_exc x
            | None \<Rightarrow>
                if rest = 0 \<or> \<not> retryable_notification_error e then ret (Some e)
                else thn (sleep (of_nat attempt)) (send_attempts send sleep (Suc attempt) rest)))"

text \<open>
  The loop over the notifiers, given by their class names: every failed one is counted by the
  \<open>on_failure\<close> callback, whose ordinary exceptions are swallowed.
\<close>

definition swallow :: "('s, pyexc, unit) effect \<Rightarrow> ('s, pyexc, unit) effect" where
  "swallow m = catch_exc m (\<lambda>e. if e = MemoryErr \<or> \<not> is_exception e then raise_exc e else ret ())"

definition dispatch ::
  "(string \<Rightarrow> nat \<Rightarrow> ('s, pyexc, send_error option) effect) \<Rightarrow> (rat \<Rightarrow> ('s, pyexc, unit) effect) \<Rightarrow>
   (string \<Rightarrow> ('s, pyexc, unit) effect) \<Rightarrow> string list \<Rightarrow> ('s, pyexc, unit) effect" where
  "dispatch send sleep on_failure notifiers =
     foreach notifiers (\<lambda>notifier.
       bnd (send_attempts (send notifier) sleep 1 3) (\<lambda>failure.
         if failure = None then ret () else swallow (on_failure notifier)))"

context step_relation
begin

lemma keeps_send_attempts:
  "(\<And>k. keeps R (send k)) \<Longrightarrow> (\<And>d. keeps R (sleep d)) \<Longrightarrow> keeps R (send_attempts send sleep attempt rest)"
  by (induction send sleep attempt rest rule: send_attempts.induct)
    (auto intro!: keeps_bnd keeps_thn keeps_ret keeps_raise split: option.splits)

lemma keeps_dispatch:
  assumes "\<And>n k. keeps R (send n k)" "\<And>d. keeps R (sleep d)" "\<And>n. keeps R (on_failure n)"
  shows "keeps R (dispatch send sleep on_failure notifiers)"
  unfolding dispatch_def swallow_def
  by (intro keeps_foreach keeps_bnd keeps_send_attempts assms)
    (auto intro!: keeps_ret keeps_catch keeps_raise assms)

end

end
