(* ===== verification/ConfigValues.thy ===== *)
theory ConfigValues
  imports Storage
begin

text \<open>
  Validation of plain configuration dictionaries (\<open>rpacore/config_validation.py\<close>).

  A class used as an expected type is a \<open>pytype\<close>; \<open>TClass c\<close> is any class the framework does not look
  into. Python compares lists by their elements and raises on values of unlike types, which is
  \<open>None\<close> here; objects of other classes are equal to themselves only and have no order.
\<close>

section \<open>Types, equality and order of values\<close>

datatype pytype = TObject | TNone | TBool | TInt | TFloat | TStr | TList | TDict | TClass string

fun isinstance_of :: "pyval \<Rightarrow> pytype \<Rightarrow> bool" where
  "isinstance_of PNone t = (t \<in> {TObject, TNone})"
| "isinstance_of (PBool _) t = (t \<in> {TObject, TBool, TInt})"
| "isinstance_of (PInt _) t = (t \<in> {TObject, TInt})"
| "isinstance_of (PFloat _) t = (t \<in> {TObject, TFloat})"
| "isinstance_of (PStr _) t = (t \<in> {TObject, TStr})"
| "isinstance_of (PList _) t = (t \<in> {TObject, TList})"
| "isinstance_of (PDict _) t = (t \<in> {TObject, TDict})"
| "isinstance_of (POther c) t = (t \<in> {TObject, TClass c})"

fun number_of :: "pyval \<Rightarrow> pyfloat option" where
  "number_of (PBool b) = Some (FinF (if b then 1 else 0))"
| "number_of (PInt n) = Some (FinF (of_int n))"
| "number_of (PFloat f) = Some f"
| "number_of _ = None"

fun float_less :: "pyfloat \<Rightarrow> pyfloat \<Rightarrow> bool" where
  "float_less (FinF a) (FinF b) = (a < b)"
| "float_less NaN _ = False"
| "float_less _ NaN = False"
| "float_less NegInf b = (b \<noteq> NegInf)"
| "float_less a PosInf = (a \<noteq> PosInf)"
| "float_less _ _ = False"

definition float_eq :: "pyfloat \<Rightarrow> pyfloat \<Rightarrow> bool" where
  "float_eq a b \<longleftrightarrow> a = b \<and> a \<noteq> NaN"

function (sequential) py_eq :: "pyval \<Rightarrow> pyval \<Rightarrow> bool"
  and eq_list :: "pyval list \<Rightarrow> pyval list \<Rightarrow> bool"
  and eq_items :: "(pyval \<times> pyval) list \<Rightarrow> (pyval \<times> pyval) list \<Rightarrow> bool"
  and eq_item :: "pyval \<times> pyval \<Rightarrow> (pyval \<times> pyval) list \<Rightarrow> bool" where
  "py_eq a b = (case (number_of a, number_of b) of
     (Some x, Some y) \<Rightarrow> float_eq x y
   | _ \<Rightarrow> (case a of
       PStr s \<Rightarrow> (case b of PStr t \<Rightarrow> s = t | _ \<Rightarrow> False)
     | PList xs \<Rightarrow> (case b of PList ys \<Rightarrow> eq_list xs ys | _ \<Rightarrow> False)
     | PDict xs \<Rightarrow> (case b of PDict ys \<Rightarrow> length xs = length ys \<and> eq_items xs ys | _ \<Rightarrow> False)
     | POther c \<Rightarrow> b = POther c
     | PNone \<Rightarrow> b = PNone
     | _ \<Rightarrow> False))"
| "eq_list [] [] = True"
| "eq_list (x # xs) (y # ys) = ((x = y \<or> py_eq x y) \<and> eq_list xs ys)"
| "eq_list _ _ = False"
| "eq_items [] ys = True"
| "eq_items (x # xs) ys = (eq_item x ys \<and> eq_items xs ys)"
| "eq_item x [] = False"
| "eq_item (k, v) ((k', v') # ys) = ((py_eq k k' \<and> (v = v' \<or> py_eq v v')) \<or> eq_item (k, v) ys)"
  by pat_completeness auto
termination
  by (relation "measure (\<lambda>s. case s of
      Inl (Inl (a, b)) \<Rightarrow> size a + size b | Inl (Inr (xs, ys)) \<Rightarrow> size_list size xs + size_list size ys
    | Inr (Inl (xs, ys)) \<Rightarrow> size_list (size_prod size size) xs + size_list (size_prod size size) ys
    | Inr (Inr (x, ys)) \<Rightarrow> size_prod size size x + size_list (size_prod size size) ys)")
    auto

text \<open>\<open>a < b\<close>; the order of unlike values raises.\<close>

fun py_less :: "pyval \<Rightarrow> pyval \<Rightarrow> bool option" and less_list :: "pyval list \<Rightarrow> pyval list \<Rightarrow> bool option" where
  "py_less a b = (case a of
     PStr s \<Rightarrow> (case b of PStr t \<Rightarrow> Some (s < t) | _ \<Rightarrow> None)
   | PList xs \<Rightarrow> (case b of PList ys \<Rightarrow> less_list xs ys | _ \<Rightarrow> None)
   | _ \<Rightarrow> (case (number_of a, number_of b) of (Some x, Some y) \<Rightarrow> Some (float_less x y) | _ \<Rightarrow> None))"
| "less_list [] ys = Some (ys \<noteq> [])"
| "less_list (x # xs) [] = Some False"
| "less_list (x # xs) (y # ys) = (if x = y \<or> py_eq x y then less_list xs ys else py_less x y)"

declare py_eq.simps [simp del] py_less.simps [simp del]

section \<open>Checks of one value\<close>

record checks =
  ck_types :: "pytype list"
  ck_choices :: "pyval option"
  ck_min :: "pyval option"
  ck_max :: "pyval option"
  ck_allow_empty :: bool

definition is_instance :: "pyval \<Rightarrow> pytype list \<Rightarrow> bool" where
  "is_instance v types = list_ex (isinstance_of v) types"

definition is_rejected_bool :: "pyval \<Rightarrow> pytype list \<Rightarrow> bool" where
  "is_rejected_bool v types = (case v of
     PBool _ \<Rightarrow> TBool \<notin> set types \<and> (TInt \<in> set types \<or> TFloat \<in> set types)
   | _ \<Rightarrow> False)"

definition is_empty_value :: "pyval \<Rightarrow> bool" where
  "is_empty_value v = (v \<in> {PStr [], PList [], PDict []})"

text \<open>\<open>list(choices)\<close>: the keys of a dictionary, and no iteration over a number, \<open>None\<close> or another object.\<close>

definition choice_values :: "pyval option \<Rightarrow> pyexc + pyval list option" where
  "choice_values choices = (case choices of
     None \<Rightarrow> Inr None
   | Some (PList xs) \<Rightarrow> (if xs = [] then Inl (ValueErr ''choices must not be empty'') else Inr (Some xs))
   | Some (PDict d) \<Rightarrow> (if d = [] then Inl (ValueErr ''choices must not be empty'') else Inr (Some (map fst d)))
   | Some _ \<Rightarrow> Inl (TypeErr ''choices must be a non-string iterable''))"

definition chosen :: "pyval \<Rightarrow> pyval list \<Rightarrow> bool" where
  "chosen v xs = list_ex (\<lambda>x. v = x \<or> py_eq v x) xs"

definition is_non_finite :: "pyval \<Rightarrow> bool" where
  "is_non_finite v = (case v of PFloat f \<Rightarrow> \<not> isfinite f | _ \<Rightarrow> False)"

definition is_below_min :: "pyval \<Rightarrow> pyval \<Rightarrow> pyexc + bool" where
  "is_below_min v m = (case py_less v m of None \<Rightarrow> Inl (ValueErr ''comparable to'') | Some b \<Rightarrow> Inr b)"

definition is_above_max :: "pyval \<Rightarrow> pyval \<Rightarrow> pyexc + bool" where
  "is_above_max v m = (case py_less m v of None \<Rightarrow> Inl (ValueErr ''comparable to'') | Some b \<Rightarrow> Inr b)"

definition rejected_if :: "(pyexc + bool) \<Rightarrow> pyexc + unit" where
  "rejected_if r = rbnd r (\<lambda>b. if b then Inl (ValueErr ''out of bounds'') else Inr ())"

definition validate_value :: "checks \<Rightarrow> pyval \<Rightarrow> pyexc + pyval" where
  "validate_value ck v =
     (if is_rejected_bool v (ck_types ck) \<or> \<not> is_instance v (ck_types ck) then Inl (TypeErr ''expected'')
      else if \<not> ck_allow_empty ck \<and> is_empty_value v then Inl (ValueErr ''non-empty'')
      else rbnd (choice_values (ck_choices ck)) (\<lambda>choices.
        if (case choices of None \<Rightarrow> False | Some xs \<Rightarrow> \<not> chosen v xs) then Inl (ValueErr ''one of'')
        else if (ck_min ck \<noteq> None \<or> ck_max ck \<noteq> None) \<and> is_non_finite v then Inl (ValueErr ''finite'')
        else rbnd (case ck_min ck of None \<Rightarrow> Inr () | Some m \<Rightarrow> rejected_if (is_below_min v m)) (\<lambda>_.
        rbnd (case ck_max ck of None \<Rightarrow> Inr () | Some m \<Rightarrow> rejected_if (is_above_max v m)) (\<lambda>_.
          Inr v))))"

definition require_config :: "pydict \<Rightarrow> string \<Rightarrow> checks \<Rightarrow> pyexc + pyval" where
  "require_config config key ck = (case dict_get config key of
     None \<Rightarrow> Inl (KeyErr ''Missing required config key'') | Some v \<Rightarrow> validate_value ck v)"

definition optional_config :: "pydict \<Rightarrow> string \<Rightarrow> checks \<Rightarrow> pyval \<Rightarrow> pyexc + pyval" where
  "optional_config config key ck fallback = (case dict_get config key of
     None \<Rightarrow> validate_value ck fallback | Some v \<Rightarrow> validate_value ck v)"

definition plain_checks :: "pytype list \<Rightarrow> checks" where
  "plain_checks types = \<lparr>ck_types = types, ck_choices = None, ck_min = None, ck_max = None, ck_allow_empty = True\<rparr>"

definition require_section :: "pydict \<Rightarrow> string \<Rightarrow> pyexc + pyval" where
  "require_section config key = require_config config key (plain_checks [TDict])"

section \<open>Fields\<close>

record config_field =
  cf_key :: string
  cf_checks :: checks
  cf_required :: bool
  cf_default :: "pyval option"

definition freeze_choices :: "pyval option \<Rightarrow> pyexc + pyval option" where
  "freeze_choices choices = rbnd (choice_values choices) (\<lambda>xs. Inr (map_option PList xs))"

definition validate_bound :: "pytype list \<Rightarrow> pyval option \<Rightarrow> pyexc + unit" where
  "validate_bound types bound = (case bound of
     None \<Rightarrow> Inr () | Some v \<Rightarrow> rbnd (validate_value (plain_checks types) v) (\<lambda>_. Inr ()))"

definition validate_bounds :: "checks \<Rightarrow> pyexc + unit" where
  "validate_bounds ck =
     rbnd (validate_bound (ck_types ck) (ck_min ck)) (\<lambda>_.
     rbnd (validate_bound (ck_types ck) (ck_max ck)) (\<lambda>_.
       case (ck_min ck, ck_max ck) of
         (Some a, Some b) \<Rightarrow>
           (case py_less b a of
              None \<Rightarrow> Inl (ValueErr ''comparable bounds'')
            | Some True \<Rightarrow> Inl (ValueErr ''min_value must be <= max_value'')
            | Some False \<Rightarrow> Inr ())
       | _ \<Rightarrow> Inr ()))"

text \<open>\<open>json.dumps(value, allow_nan=False)\<close> succeeds; the keys of a dictionary may be any JSON scalars.\<close>

fun json_scalar :: "pyval \<Rightarrow> bool" where
  "json_scalar (PFloat f) = isfinite f"
| "json_scalar (PList _) = False"
| "json_scalar (PDict _) = False"
| "json_scalar (POther _) = False"
| "json_scalar _ = True"

fun dumpable :: "pyval \<Rightarrow> bool" where
  "dumpable (PList xs) = (\<forall>x \<in> set xs. dumpable x)"
| "dumpable (PDict d) = (\<forall>kv \<in> set d. json_scalar (fst kv) \<and> dumpable (snd kv))"
| "dumpable v = json_scalar v"

definition copy_json_default :: "pyval \<Rightarrow> pyexc + pyval" where
  "copy_json_default v = (if dumpable v then Inr v else Inl (TypeErr ''default must be JSON-safe''))"

definition bad_key :: "string \<Rightarrow> bool" where
  "bad_key key \<longleftrightarrow> key = [] \<or> list_ex blank (split_on CHR ''.'' key)"

text \<open>The constructor, \<open>__post_init__\<close>.\<close>

definition config_field_init :: "config_field \<Rightarrow> pyexc + config_field" where
  "config_field_init f =
     (if bad_key (cf_key f) then Inl (ValueErr ''Config field key must be a non-empty dotted key'')
      else if ck_types (cf_checks f) = []
      then Inl (TypeErr ''Config field expected_type must be a type or non-empty tuple of types'')
      else if cf_required f \<and> cf_default f \<noteq> None then Inl (ValueErr ''Required config fields cannot define a default'')
      else rbnd (freeze_choices (ck_choices (cf_checks f))) (\<lambda>choices.
        rbnd (validate_bounds (cf_checks f)) (\<lambda>_.
        rbnd (case choices of
                Some (PList xs) \<Rightarrow> decode_rows (validate_value ((cf_checks f)\<lparr>ck_choices := None\<rparr>)) xs
              | _ \<Rightarrow> Inr []) (\<lambda>_.
        let g = f\<lparr>cf_checks := (cf_checks f)\<lparr>ck_choices := choices\<rparr>\<rparr>
        in case cf_default f of
             None \<Rightarrow> Inr g
           | Some d \<Rightarrow> rbnd (validate_value (cf_checks g) d) (\<lambda>_.
               rbnd (copy_json_default d) (\<lambda>d. Inr (g\<lparr>cf_default := Some d\<rparr>)))))))"

section \<open>Whole configurations\<close>

fun lookup_parts :: "pyval \<Rightarrow> string list \<Rightarrow> pyexc + pyval option" where
  "lookup_parts v [] = Inr (Some v)"
| "lookup_parts v (part # parts) = (case v of
     PDict d \<Rightarrow> (case map_of d (PStr part) of None \<Rightarrow> Inr None | Some w \<Rightarrow> lookup_parts w parts)
   | _ \<Rightarrow> Inl (TypeErr ''expected dict''))"

definition lookup_dotted_value :: "pydict \<Rightarrow> string \<Rightarrow> pyexc + pyval option" where
  "lookup_dotted_value config key = lookup_parts (of_dict config) (split_on CHR ''.'' key)"

definition field_value :: "pydict \<Rightarrow> config_field \<Rightarrow> pyexc + pyval option" where
  "field_value config f =
     rbnd (lookup_dotted_value config (cf_key f)) (\<lambda>found.
     case found of
       Some v \<Rightarrow> rbnd (validate_value (cf_checks f) v) (\<lambda>v. Inr (Some v))
     | None \<Rightarrow>
         (if cf_required f then Inl (KeyErr ''Missing required config key'')
          else case cf_default f of
            None \<Rightarrow> Inr None
          | Some d \<Rightarrow> rbnd (copy_json_default d) (\<lambda>d. rbnd (validate_value (cf_checks f) d) (\<lambda>v. Inr (Some v)))))"

fun validate_fields :: "pydict \<Rightarrow> string list \<Rightarrow> config_field list \<Rightarrow> pydict \<Rightarrow> pyexc + pydict" where
  "validate_fields config seen [] validated = Inr validated"
| "validate_fields config seen (f # fs) validated =
     (if cf_key f \<in> set seen then Inl (ValueErr ''Duplicate config field'')
      else rbnd (field_value config f) (\<lambda>found.
        validate_fields config (cf_key f # seen) fs
          (case found of None \<Rightarrow> validated | Some v \<Rightarrow> dict_set validated (cf_key f) v)))"

definition validate_config :: "pydict \<Rightarrow> config_field list \<Rightarrow> pyexc + pydict" where
  "validate_config config fs = validate_fields config [] fs []"

section \<open>What the checks accept\<close>

definition conforms :: "checks \<Rightarrow> pyval \<Rightarrow> bool" where
  "conforms ck v \<longleftrightarrow>
     is_instance v (ck_types ck) \<and> \<not> is_rejected_bool v (ck_types ck) \<and>
     (ck_allow_empty ck \<or> \<not> is_empty_value v) \<and>
     (case choice_values (ck_choices ck) of Inl _ \<Rightarrow> False | Inr None \<Rightarrow> True | Inr (Some xs) \<Rightarrow> chosen v xs) \<and>
     (ck_min ck \<noteq> None \<or> ck_max ck \<noteq> None \<longrightarrow> \<not> is_non_finite v) \<and>
     (case ck_min ck of None \<Rightarrow> True | Some m \<Rightarrow> py_less v m = Some False) \<and>
     (case ck_max ck of None \<Rightarrow> True | Some m \<Rightarrow> py_less m v = Some False)"

lemma rejected_if_Inr: "rejected_if r = Inr () \<longleftrightarrow> r = Inr False"
  by (cases r) (auto simp: rejected_if_def)

lemma bounds_Inr: "is_below_min v m = Inr b \<longleftrightarrow> py_less v m = Some b" "is_above_max v m = Inr b \<longleftrightarrow> py_less m v = Some b"
  by (auto simp: is_below_min_def is_above_max_def split: option.split)

lemma validate_value_Inr: "validate_value ck v = Inr w \<longleftrightarrow> w = v \<and> conforms ck v"
  by (auto simp: validate_value_def conforms_def rbnd_Inr rejected_if_Inr bounds_Inr split: option.splits sum.splits)

lemma validate_value_Inl: "validate_value ck v = Inl e \<Longrightarrow> \<not> is_key_error e"
  by (auto simp: validate_value_def rbnd_def choice_values_def rejected_if_def is_below_min_def is_above_max_def is_key_error.simps
      split: if_splits option.splits sum.splits pyval.splits)

lemma field_value_Inr:
  assumes "field_value config f = Inr found"
  shows "(case found of
      None \<Rightarrow> lookup_dotted_value config (cf_key f) = Inr None \<and> \<not> cf_required f \<and> cf_default f = None
    | Some v \<Rightarrow> conforms (cf_checks f) v \<and>
        (lookup_dotted_value config (cf_key f) = Inr (Some v) \<or>
         (lookup_dotted_value config (cf_key f) = Inr None \<and> \<not> cf_required f \<and> cf_default f = Some v)))"
proof -
  from assms obtain a where a: "lookup_dotted_value config (cf_key f) = Inr a" by (auto simp: field_value_def rbnd_Inr)
  show ?thesis
    using assms by (cases a; cases "cf_default f")
      (auto simp: eq_commute [of "Some _" "cf_default f"] a field_value_def rbnd_Inr validate_value_Inr copy_json_default_def split: option.splits if_splits)
qed

text \<open>What a validated dictionary owes to the fields and the configuration.\<close>

definition owed :: "pydict \<Rightarrow> config_field \<Rightarrow> pydict \<Rightarrow> bool" where
  "owed config f out \<longleftrightarrow> (case dict_get out (cf_key f) of
      None \<Rightarrow> lookup_dotted_value config (cf_key f) = Inr None \<and> \<not> cf_required f \<and> cf_default f = None
    | Some v \<Rightarrow> conforms (cf_checks f) v \<and>
        (lookup_dotted_value config (cf_key f) = Inr (Some v) \<or>
         (lookup_dotted_value config (cf_key f) = Inr None \<and> \<not> cf_required f \<and> cf_default f = Some v)))"

lemma validate_fields_Inr:
  assumes "validate_fields config seen fs acc = Inr out"
  shows "distinct (map cf_key fs) \<and> set (map cf_key fs) \<inter> set seen = {} \<and>
    (\<forall>k. k \<notin> cf_key ` set fs \<longrightarrow> dict_get out k = dict_get acc k) \<and>
    ((\<forall>f \<in> set fs. dict_get acc (cf_key f) = None) \<longrightarrow> (\<forall>f \<in> set fs. owed config f out))"
  using assms
proof (induction fs arbitrary: seen acc)
  case (Cons f fs)
  then obtain found where found: "field_value config f = Inr found" "cf_key f \<notin> set seen"
    and rest: "validate_fields config (cf_key f # seen) fs
      (case found of None \<Rightarrow> acc | Some v \<Rightarrow> dict_set acc (cf_key f) v) = Inr out"
    by (auto simp: rbnd_Inr split: if_splits)
  let ?acc = "case found of None \<Rightarrow> acc | Some v \<Rightarrow> dict_set acc (cf_key f) v"
  note IH = Cons.IH [OF rest]
  then have fresh: "cf_key f \<notin> cf_key ` set fs" by simp
  have other: "dict_get ?acc k = dict_get acc k" if "k \<noteq> cf_key f" for k
    using that by (auto simp: dict_get_set split: option.split)
  have "dict_get out (cf_key f) = dict_get ?acc (cf_key f)" using IH by auto
  also have "\<dots> = (case found of None \<Rightarrow> dict_get acc (cf_key f) | Some v \<Rightarrow> Some v)"
    by (simp add: dict_get_set split: option.split)
  finally have own: "dict_get acc (cf_key f) = None \<Longrightarrow> owed config f out"
    using field_value_Inr [OF found(1)] by (auto simp: owed_def split: option.splits)
  have "owed config g out" if "g \<in> set fs" "\<forall>f \<in> set (f # fs). dict_get acc (cf_key f) = None" for g
  proof -
    have "dict_get ?acc (cf_key h) = None" if "h \<in> set fs" for h
    proof -
      have "cf_key h \<noteq> cf_key f" using fresh that by (metis image_eqI)
      then show ?thesis using other [of "cf_key h"] \<open>\<forall>f \<in> set (f # fs). dict_get acc (cf_key f) = None\<close> that by simp
    qed
    then show ?thesis using IH that(1) by blast
  qed
  moreover have "dict_get out k = dict_get acc k" if "k \<notin> cf_key ` set (f # fs)" for k
    using IH other [of k] that by simp
  moreover have "distinct (map cf_key (f # fs)) \<and> set (map cf_key (f # fs)) \<inter> set seen = {}" using IH found(2) by auto
  ultimately show ?case using own by simp
qed simp

text \<open>C30: What \<open>validate_config\<close> returns has the declared types. Its keys are those of the fields; a key is
  missing only when its optional field has no default and the configuration does not have it; and every
  value is the one the configuration holds at the dotted key, or else the default of an optional field,
  and meets the type, the emptiness rule, the choices and the bounds of its field.\<close>

theorem validated_configuration_conforms:
  assumes "validate_config config fs = Inr out"
  shows "distinct (map cf_key fs) \<and> (\<forall>f \<in> set fs. owed config f out) \<and> (\<forall>k. dict_has out k \<longrightarrow> k \<in> cf_key ` set fs)"
proof -
  note v = validate_fields_Inr [OF assms [unfolded validate_config_def]]
  have "k \<in> cf_key ` set fs" if "dict_has out k" for k
  proof (rule ccontr)
    assume "k \<notin> cf_key ` set fs"
    then have "dict_get out k = None" using v by (auto simp: dict_get_def)
    with that show False by (auto simp: dict_has_def dict_get_def map_of_eq_None_iff)
  qed
  with v show ?thesis by (simp add: dict_get_def)
qed

lemma init_default:
  assumes "config_field_init f0 = Inr f" "cf_default f = Some d"
  shows "conforms (cf_checks f) d \<and> dumpable d \<and> cf_key f = cf_key f0 \<and> \<not> cf_required f"
proof -
  have "conforms (cf_checks f) d \<and> dumpable d \<and> cf_key f = cf_key f0 \<and> cf_required f = cf_required f0 \<and> cf_default f0 \<noteq> None"
    using assms by (auto simp: config_field_init_def rbnd_Inr Let_def validate_value_Inr copy_json_default_def
        split: if_splits option.splits)
  then show ?thesis using assms(1) by (auto simp: config_field_init_def split: if_splits)
qed

lemma absent_value:
  assumes "config_field_init f0 = Inr f" "\<not> cf_required f"
  shows "field_value [] f = Inr (cf_default f)"
proof -
  obtain w ws where "split_on CHR ''.'' (cf_key f) = w # ws" by (metis list.exhaust split_on_nonempty)
  then have "lookup_dotted_value [] (cf_key f) = Inr None" by (simp add: lookup_dotted_value_def of_dict_def)
  moreover have "validate_value (cf_checks f) d = Inr d \<and> dumpable d" if "cf_default f = Some d" for d
    using init_default [OF assms(1) that] by (simp add: validate_value_Inr)
  ultimately show ?thesis using assms(2)
    by (cases "cf_default f") (simp_all add: field_value_def copy_json_default_def)
qed

lemma dict_set_fresh: "k \<notin> fst ` set d \<Longrightarrow> dict_set d k v = d @ [(k, v)]"
  by (induction d) auto

definition default_items :: "config_field list \<Rightarrow> pydict" where
  "default_items fs = concat (map (\<lambda>f. case cf_default f of None \<Rightarrow> [] | Some d \<Rightarrow> [(cf_key f, d)]) fs)"

lemma absent_fields:
  assumes "\<forall>f \<in> set fs. field_value [] f = Inr (cf_default f)" "distinct (map cf_key fs)"
    and "cf_key ` set fs \<inter> set seen = {}" "cf_key ` set fs \<inter> fst ` set acc = {}"
  shows "validate_fields [] seen fs acc = Inr (acc @ default_items fs)"
  using assms
proof (induction fs arbitrary: seen acc)
  case (Cons f fs)
  have "cf_key f \<notin> cf_key ` set fs" using Cons.prems(2) by simp
  then have fresh: "\<forall>g \<in> set fs. cf_key g \<noteq> cf_key f" by (metis image_eqI)
  have "validate_fields [] (cf_key f # seen) fs (acc @ default_items [f]) = Inr ((acc @ default_items [f]) @ default_items fs)"
    by (rule Cons.IH) (use Cons.prems fresh in \<open>auto simp: default_items_def split: option.splits\<close>)
  moreover have "(case cf_default f of None \<Rightarrow> acc | Some v \<Rightarrow> dict_set acc (cf_key f) v) = acc @ default_items [f]"
    using Cons.prems(4) by (auto simp: default_items_def dict_set_fresh split: option.split)
  ultimately show ?case using Cons.prems(1,3) by (simp add: default_items_def)
qed (simp add: default_items_def)

text \<open>A field that could be constructed never fails a configuration that lacks its key: its default
  has passed the same checks, choices and bounds included. So a configuration that has none of
  the keys is validated to exactly the defaults.\<close>

theorem defaults_are_valid:
  assumes "list_all2 (\<lambda>f0 f. config_field_init f0 = Inr f) fs0 fs" "distinct (map cf_key fs)"
    and "\<forall>f \<in> set fs. \<not> cf_required f"
  shows "validate_config [] fs = Inr (default_items fs)"
proof -
  have "field_value [] f = Inr (cf_default f)" if f: "f \<in> set fs" for f
  proof -
    from f obtain f0 where "config_field_init f0 = Inr f"
      using assms(1) by (auto simp: list_all2_conv_all_nth in_set_conv_nth)
    then show ?thesis by (rule absent_value) (use assms(3) f in blast)
  qed
  then show ?thesis using absent_fields [of fs "[]" "[]"] assms(2) by (simp add: validate_config_def)
qed

section \<open>An example\<close>

definition demo_port :: config_field where
  "demo_port = \<lparr>cf_key = ''server.port'', cf_checks = \<lparr>ck_types = [TInt], ck_choices = None, ck_min = Some (PInt 1),
     ck_max = Some (PInt 65535), ck_allow_empty = True\<rparr>, cf_required = False, cf_default = Some (PInt 8080)\<rparr>"

definition demo_mode :: config_field where
  "demo_mode = \<lparr>cf_key = ''mode'', cf_checks = \<lparr>ck_types = [TStr], ck_choices = Some (PList [PStr ''fast'', PStr ''safe'']),
     ck_min = None, ck_max = None, ck_allow_empty = False\<rparr>, cf_required = False, cf_default = None\<rparr>"

lemma demo_validated:
  "validate_config [(''server'', PDict [(PStr ''port'', PInt 443)]), (''mode'', PStr ''safe'')] [demo_port, demo_mode] =
     Inr [(''server.port'', PInt 443), (''mode'', PStr ''safe'')]"
  by code_simp

theorem validated_configuration_conforms_witness:
  "owed [(''server'', PDict [(PStr ''port'', PInt 443)]), (''mode'', PStr ''safe'')] demo_port
     [(''server.port'', PInt 443), (''mode'', PStr ''safe'')]"
  using validated_configuration_conforms [OF demo_validated] by simp

lemma demo_built: "list_all2 (\<lambda>f0 f. config_field_init f0 = Inr f) [demo_port, demo_mode] [demo_port, demo_mode]"
  by code_simp

theorem defaults_are_valid_witness: "validate_config [] [demo_port, demo_mode] = Inr [(''server.port'', PInt 8080)]"
  using defaults_are_valid [OF demo_built] by (simp add: demo_port_def demo_mode_def default_items_def)

end
