(* ===== verification/Serialization.thy ===== *)
theory Serialization
  imports ConfigValues
begin

text \<open>
  The canonical public record of a transaction (\<open>rpacore/serialization.py\<close>), and what \<open>json.dumps\<close> and
  \<open>json.loads\<close> make of a value. \<open>float_text\<close> is the text of a finite float, a parameter.
\<close>

section \<open>Records\<close>

definition timestamp_text :: "datetime option \<Rightarrow> pyval" where
  "timestamp_text v = (case v of
     None \<Rightarrow> PNone
   | Some d \<Rightarrow> PStr (iso_string (isoformat (astimezone_utc (if is_aware d then d else replace_utc d)))))"

fun copy_json_value :: "pyval \<Rightarrow> pyexc + pyval" and copy_json_list :: "pyval list \<Rightarrow> pyexc + pyval list"
  and copy_json_items :: "(pyval \<times> pyval) list \<Rightarrow> pyexc + (pyval \<times> pyval) list" where
  "copy_json_value (PList xs) = rbnd (copy_json_list xs) (\<lambda>ys. Inr (PList ys))"
| "copy_json_value (PDict d) = rbnd (copy_json_items d) (\<lambda>e. Inr (PDict e))"
| "copy_json_value (POther c) = Inl (TypeErr ''expected validated JSON value'')"
| "copy_json_value v = Inr v"
| "copy_json_list [] = Inr []"
| "copy_json_list (x # xs) = rbnd (copy_json_value x) (\<lambda>y. rbnd (copy_json_list xs) (\<lambda>ys. Inr (y # ys)))"
| "copy_json_items [] = Inr []"
| "copy_json_items ((k, v) # d) = rbnd (copy_json_value v) (\<lambda>w. rbnd (copy_json_items d) (\<lambda>e. Inr ((k, w) # e)))"

definition exception_record :: "step_exc \<Rightarrow> pydict" where
  "exception_record e =
     [(''type'', PStr (if is_business e then ''business'' else ''system'')), (''message'', PStr (exc_message e)),
      (''action'', PStr (exc_action e)), (''retry_number'', PInt (exc_retry_number e)),
      (''occurred_at'', timestamp_text (Some (exc_occurred_at e))), (''screenshot_path'', PStr (exc_screenshot_path e)),
      (''halts_remaining_steps'', PBool (halts_remaining_steps e))]"

definition step_record :: "step \<Rightarrow> pyexc + pyval" where
  "step_record s = rbnd (copy_json_value (of_dict (st_arguments s))) (\<lambda>arguments. Inr (of_dict
     [(''name'', PStr (st_name s)), (''execution_order'', PInt (st_order s)), (''status'', PStr (status_value (st_status s))),
      (''arguments'', arguments), (''exceptions'', PList (map (\<lambda>e. of_dict (exception_record e)) (st_exceptions s)))]))"

definition history_record :: "history_entry \<Rightarrow> pydict" where
  "history_record h =
     [(''sequence'', PInt (he_sequence h)), (''timestamp'', timestamp_text (Some (he_timestamp h))),
      (''event'', PStr (event_value (he_event h))), (''status'', PStr (status_value (he_status h))),
      (''retry_number'', PInt (he_retry_number h)), (''step_name'', PStr (he_step_name h)),
      (''step_execution_order'', pint_opt (he_step_order h))]"

definition artifact_record :: "artifact \<Rightarrow> pyexc + pyval" where
  "artifact_record a = rbnd (copy_json_value (of_dict (art_metadata a))) (\<lambda>metadata. Inr (of_dict
     [(''id'', PStr (art_id a)), (''name'', PStr (art_name a)), (''path'', PStr (art_path a)), (''kind'', PStr (art_kind a)),
      (''created_at'', timestamp_text (Some (art_created_at a))), (''metadata'', metadata)]))"

definition transaction_format_version :: int where
  "transaction_format_version = 3"

text \<open>The validation also canonicalizes two fields of the transaction, so it comes back changed.\<close>

definition serialize_transaction :: "transaction \<Rightarrow> pyexc + pydict" where
  "serialize_transaction t0 =
     rbnd (validate_durable_data t0) (\<lambda>t.
     rbnd (copy_json_value (of_dict (tx_state t))) (\<lambda>state.
     rbnd (copy_json_value (of_dict (tx_metadata t))) (\<lambda>metadata.
     rbnd (decode_rows step_record (ordered_steps t)) (\<lambda>steps.
     rbnd (decode_rows artifact_record (tx_artifacts t)) (\<lambda>artifacts. Inr
       [(''transaction_format_version'', PInt transaction_format_version), (''id'', PStr (tx_id t)),
        (''reference'', PStr (tx_reference t)), (''definition_identity'', PStr (tx_definition_identity t)),
        (''status'', PStr (status_value (tx_status t))), (''retry_count'', PInt (tx_retry_count t)),
        (''created_at'', timestamp_text (tx_created_at t)), (''started_at'', timestamp_text (tx_started_at t)),
        (''finished_at'', timestamp_text (tx_finished_at t)), (''state'', state), (''metadata'', metadata),
        (''steps'', PList steps), (''history'', PList (map (\<lambda>h. of_dict (history_record h)) (tx_history t))),
        (''artifacts'', PList artifacts)])))))"

section \<open>JSON texts\<close>

text \<open>
  \<open>json.dumps(v, allow_nan=False, sort_keys=True)\<close> succeeds: the values are of JSON types, and the keys of
  every dictionary can be sorted, so that they are all texts or all numbers.
\<close>

definition key_class :: "pyval \<Rightarrow> nat" where
  "key_class k = (case k of PStr _ \<Rightarrow> 1 | PNone \<Rightarrow> 0 | _ \<Rightarrow> 2)"

fun sorted_dumpable :: "pyval \<Rightarrow> bool" where
  "sorted_dumpable (PList xs) = (\<forall>x \<in> set xs. sorted_dumpable x)"
| "sorted_dumpable (PDict d) =
     ((\<forall>kv \<in> set d. json_scalar (fst kv) \<and> sorted_dumpable (snd kv)) \<and>
      (\<forall>kv \<in> set d. \<forall>kv' \<in> set d. key_class (fst kv) = key_class (fst kv')))"
| "sorted_dumpable v = json_scalar v"

definition bool_text :: "bool \<Rightarrow> string" where
  "bool_text b = (if b then ''true'' else ''false'')"

definition json_key :: "(rat \<Rightarrow> string) \<Rightarrow> pyval \<Rightarrow> string" where
  "json_key float_text k = (case k of
     PStr s \<Rightarrow> s | PInt n \<Rightarrow> show_int n | PBool b \<Rightarrow> bool_text b | PFloat (FinF r) \<Rightarrow> float_text r | _ \<Rightarrow> ''null'')"

text \<open>\<open>json.loads(json.dumps(v, sort_keys=True))\<close>.\<close>

fun reloaded :: "(rat \<Rightarrow> string) \<Rightarrow> pyval \<Rightarrow> pyval" where
  "reloaded ft (PList xs) = PList (map (reloaded ft) xs)"
| "reloaded ft (PDict d) =
     of_dict (sort_key fst (map (\<lambda>(k, v). (json_key ft k, reloaded ft v)) d))"
| "reloaded ft v = v"

definition hex_digit :: "nat \<Rightarrow> char" where
  "hex_digit n = (if n < 10 then char_of (48 + n) else char_of (87 + n))"

definition json_char :: "char \<Rightarrow> string" where
  "json_char c = (if c = CHR 0x22 then [CHR 0x5C, CHR 0x22] else if c = CHR 0x5C then [CHR 0x5C, CHR 0x5C]
     else if c = CHR 0x0A then [CHR 0x5C, CHR ''n''] else if c = CHR 0x0D then [CHR 0x5C, CHR ''r'']
     else if c = CHR 0x09 then [CHR 0x5C, CHR ''t''] else if c = CHR 0x0C then [CHR 0x5C, CHR ''f'']
     else if c = CHR 0x08 then [CHR 0x5C, CHR ''b'']
     else if code_point c < 32 \<or> 127 \<le> code_point c
     then [CHR 0x5C, CHR ''u'', CHR ''0'', CHR ''0'', hex_digit (code_point c div 16), hex_digit (code_point c mod 16)]
     else [c])"

definition json_string :: "string \<Rightarrow> string" where
  "json_string s = [CHR 0x22] @ concat (map json_char s) @ [CHR 0x22]"

fun joined :: "string \<Rightarrow> string list \<Rightarrow> string" where
  "joined sep [] = []"
| "joined sep [w] = w"
| "joined sep (w # ws) = w @ sep @ joined sep ws"

text \<open>\<open>json.dumps(value, sort_keys=True)\<close> of a value that was loaded.\<close>

fun format_json_value :: "(rat \<Rightarrow> string) \<Rightarrow> pyval \<Rightarrow> string" where
  "format_json_value ft (PList xs) = ''['' @ joined '', '' (map (format_json_value ft) xs) @ '']''"
| "format_json_value ft (PDict d) =
     ''{'' @ joined '', '' (map snd (sort_key fst (map (\<lambda>(k, v). (json_key ft k,
       json_string (json_key ft k) @ '': '' @ format_json_value ft v)) d))) @ ''}''"
| "format_json_value ft PNone = ''null''"
| "format_json_value ft (PBool b) = bool_text b"
| "format_json_value ft (PInt n) = show_int n"
| "format_json_value ft (PFloat f) = (case f of FinF r \<Rightarrow> ft r | PosInf \<Rightarrow> ''Infinity'' | NegInf \<Rightarrow> ''-Infinity'' | NaN \<Rightarrow> ''NaN'')"
| "format_json_value ft (PStr s) = json_string s"
| "format_json_value ft (POther c) = []"

section \<open>A serialized record is JSON\<close>

lemma copy_safe:
  "json_safe v \<Longrightarrow> copy_json_value v = Inr v"
  "list_all json_safe xs \<Longrightarrow> copy_json_list xs = Inr xs"
  "list_all (\<lambda>(k, v). (case k of PStr _ \<Rightarrow> True | _ \<Rightarrow> False) \<and> json_safe v) d \<Longrightarrow> copy_json_items d = Inr d"
proof (induction v and xs and d rule: copy_json_value_copy_json_list_copy_json_items.induct)
qed auto

lemma safe_dumpable: "json_safe v \<Longrightarrow> sorted_dumpable v"
proof (induction v rule: sorted_dumpable.induct)
  case (2 d)
  then show ?case by (fastforce simp: list_all_iff key_class_def split: pyval.splits)
qed (auto simp: list_all_iff)

lemma of_dict_dumpable:
  "sorted_dumpable (of_dict d) \<longleftrightarrow> (\<forall>kv \<in> set d. sorted_dumpable (snd kv))"
  by (auto simp: of_dict_def key_class_def split: prod.splits)

lemma timestamp_dumpable [simp]: "sorted_dumpable (timestamp_text v)"
  by (simp add: timestamp_text_def split: option.split)

lemma pint_opt_dumpable [simp]: "sorted_dumpable (pint_opt v)"
  by (simp add: pint_opt_def split: option.split)

lemma exception_record_dumpable [simp]: "sorted_dumpable (of_dict (exception_record e))"
  by (simp add: of_dict_dumpable exception_record_def)

lemma history_record_dumpable [simp]: "sorted_dumpable (of_dict (history_record h))"
  by (simp add: of_dict_dumpable history_record_def)

definition step_json :: "step \<Rightarrow> pyval" where
  "step_json s = of_dict
     [(''name'', PStr (st_name s)), (''execution_order'', PInt (st_order s)), (''status'', PStr (status_value (st_status s))),
      (''arguments'', of_dict (st_arguments s)), (''exceptions'', PList (map (\<lambda>e. of_dict (exception_record e)) (st_exceptions s)))]"

definition artifact_json :: "artifact \<Rightarrow> pyval" where
  "artifact_json a = of_dict
     [(''id'', PStr (art_id a)), (''name'', PStr (art_name a)), (''path'', PStr (art_path a)), (''kind'', PStr (art_kind a)),
      (''created_at'', timestamp_text (Some (art_created_at a))), (''metadata'', of_dict (art_metadata a))]"

lemma step_record_safe: "json_safe (of_dict (st_arguments s)) \<Longrightarrow> step_record s = Inr (step_json s)"
  by (simp add: step_record_def step_json_def copy_safe)

lemma artifact_record_safe: "json_safe (of_dict (art_metadata a)) \<Longrightarrow> artifact_record a = Inr (artifact_json a)"
  by (simp add: artifact_record_def artifact_json_def copy_safe)

lemma safe_of_dict: "safe_dict d \<Longrightarrow> json_safe (of_dict d)"
  by (induction d) (auto simp: of_dict_def safe_dict_def)

lemma steps_json_dumpable [simp]:
  "json_safe (of_dict (st_arguments s)) \<Longrightarrow> sorted_dumpable (step_json s)"
  by (auto simp: step_json_def of_dict_dumpable [of "(_, _) # _"] safe_dumpable)

lemma artifact_json_dumpable [simp]:
  "json_safe (of_dict (art_metadata a)) \<Longrightarrow> sorted_dumpable (artifact_json a)"
  by (auto simp: artifact_json_def of_dict_dumpable [of "(_, _) # _"] safe_dumpable)

definition transaction_json :: "transaction \<Rightarrow> pydict" where
  "transaction_json t =
     [(''transaction_format_version'', PInt transaction_format_version), (''id'', PStr (tx_id t)),
      (''reference'', PStr (tx_reference t)), (''definition_identity'', PStr (tx_definition_identity t)),
      (''status'', PStr (status_value (tx_status t))), (''retry_count'', PInt (tx_retry_count t)),
      (''created_at'', timestamp_text (tx_created_at t)), (''started_at'', timestamp_text (tx_started_at t)),
      (''finished_at'', timestamp_text (tx_finished_at t)), (''state'', of_dict (tx_state t)), (''metadata'', of_dict (tx_metadata t)),
      (''steps'', PList (map step_json (ordered_steps t))),
      (''history'', PList (map (\<lambda>h. of_dict (history_record h)) (tx_history t))),
      (''artifacts'', PList (map artifact_json (tx_artifacts t)))]"

text \<open>Serialization fails exactly where the validation of the durable data does, with its error; otherwise
  the record repeats every durable field and is a JSON text.\<close>

lemma serialize_transaction_eq:
  "serialize_transaction t = rbnd (validate_durable_data t) (\<lambda>_. Inr (transaction_json t))"
proof (cases "validate_durable_data t")
  case (Inr t')
  then have t': "t' = t" and safe: "durable_safe t" by (simp_all add: validate_durable_data_iff)
  from safe have dicts: "json_safe (of_dict (tx_state t))" "json_safe (of_dict (tx_metadata t))"
    "\<And>a. a \<in> set (tx_artifacts t) \<Longrightarrow> json_safe (of_dict (art_metadata a))"
    "\<And>s. s \<in> set (tx_steps t) \<Longrightarrow> json_safe (of_dict (st_arguments s))"
    by (auto simp: durable_safe_def safe_of_dict)
  have "decode_rows step_record (ordered_steps t) = Inr (map step_json (ordered_steps t))"
    using decode_rows_map [of "ordered_steps t" step_record "\<lambda>s. s" step_json] dicts(4)
    by (simp add: ordered_steps_def step_record_safe)
  moreover have "decode_rows artifact_record (tx_artifacts t) = Inr (map artifact_json (tx_artifacts t))"
    using decode_rows_map [of "tx_artifacts t" artifact_record "\<lambda>s. s" artifact_json] dicts(3)
    by (simp add: artifact_record_safe)
  ultimately show ?thesis
    using dicts(1,2) Inr by (simp add: serialize_transaction_def t' copy_safe transaction_json_def)
qed (simp add: serialize_transaction_def)

lemma transaction_json_dumpable:
  assumes "durable_safe t"
  shows "sorted_dumpable (of_dict (transaction_json t))"
proof -
  from assms have "json_safe (of_dict (tx_state t))" "json_safe (of_dict (tx_metadata t))"
    "\<And>a. a \<in> set (tx_artifacts t) \<Longrightarrow> json_safe (of_dict (art_metadata a))"
    "\<And>s. s \<in> set (tx_steps t) \<Longrightarrow> json_safe (of_dict (st_arguments s))"
    by (auto simp: durable_safe_def safe_of_dict)
  then show ?thesis
    by (auto simp: transaction_json_def of_dict_dumpable [of "(_, _) # _"] ordered_steps_def safe_dumpable)
qed

end
