(* ===== verification/Logger.thy ===== *)
theory Logger
  imports Serialization
begin

text \<open>
  Log records and their formatters (\<open>rpacore/logger.py\<close>): what of a record's extra fields reaches a line,
  the correlation context, and the configuration of loggers.

  An extra value can be any Python object, so there is a type for it; the keys of a dictionary are kept as
  \<open>str(key)\<close>, which is all the code uses, and a set as the list in which it is iterated. The texts of
  exceptions and stack traces are fields of the record, as the \<open>logging\<close> package makes them. \<open>text_of\<close> is
  Python's \<open>str\<close> and \<open>float_text\<close> the text of a finite float, parameters.
\<close>

section \<open>Values\<close>

datatype log_value =
    LNone
  | LBool bool
  | LInt int
  | LFloat pyfloat
  | LStr string
  | LList "log_value list"
  | LTuple "log_value list"
  | LSet "log_value list"
  | LDict "(string \<times> log_value) list"
  | LObject string

definition float_name :: "pyfloat \<Rightarrow> string" where
  "float_name f = (case f of NaN \<Rightarrow> ''nan'' | PosInf \<Rightarrow> ''inf'' | NegInf \<Rightarrow> ''-inf'' | FinF _ \<Rightarrow> [])"

text \<open>\<open>json.dumps(item, sort_keys=True, separators=(",", ":"))\<close>.\<close>

fun compact_json :: "(rat \<Rightarrow> string) \<Rightarrow> pyval \<Rightarrow> string" where
  "compact_json ft (PList xs) = ''['' @ joined '','' (map (compact_json ft) xs) @ '']''"
| "compact_json ft (PDict d) =
     ''{'' @ joined '','' (map snd (sort_key fst (map (\<lambda>(k, v). (json_key ft k,
       json_string (json_key ft k) @ '':'' @ compact_json ft v)) d))) @ ''}''"
| "compact_json ft v = format_json_value ft v"

text \<open>A dictionary display: a key that comes again keeps its place and takes the later value.\<close>

definition dict_of_items :: "(string \<times> pyval) list \<Rightarrow> pydict" where
  "dict_of_items items = dict_merge [] items"

fun json_log_value :: "(rat \<Rightarrow> string) \<Rightarrow> string list \<Rightarrow> log_value \<Rightarrow> pyval" where
  "json_log_value ft redacted LNone = PNone"
| "json_log_value ft redacted (LBool b) = PBool b"
| "json_log_value ft redacted (LInt n) = PInt n"
| "json_log_value ft redacted (LFloat f) = (if isfinite f then PFloat f else PStr (float_name f))"
| "json_log_value ft redacted (LStr s) = PStr s"
| "json_log_value ft redacted (LList xs) = PList (map (json_log_value ft redacted) xs)"
| "json_log_value ft redacted (LTuple xs) = PList (map (json_log_value ft redacted) xs)"
| "json_log_value ft redacted (LSet xs) = PList (sort_key (compact_json ft) (map (json_log_value ft redacted) xs))"
| "json_log_value ft redacted (LDict d) = of_dict (dict_of_items
     (filter (\<lambda>(k, _). k \<notin> set redacted) (map (\<lambda>(k, v). (k, json_log_value ft redacted v)) d)))"
| "json_log_value ft redacted (LObject c) = PStr c"

section \<open>Records\<close>

definition redacted_extra_fields :: "string list" where
  "redacted_extra_fields = [''config'', ''credentials'', ''resources'']"

definition structured_redacted_extra_fields :: "string list" where
  "structured_redacted_extra_fields =
     redacted_extra_fields @ [''state'', ''metadata'', ''path'', ''paths'', ''url'', ''urls'']"

definition canonical_json_fields :: "string list" where
  "canonical_json_fields = [''log_format_version'', ''timestamp'', ''severity'', ''logger'', ''event'', ''message'',
     ''attributes'', ''exception'', ''stacktrace'']"

text \<open>The attributes of a fresh \<open>logging.LogRecord\<close>.\<close>

definition reserved_record_fields :: "string list" where
  "reserved_record_fields = [''name'', ''msg'', ''args'', ''levelname'', ''levelno'', ''pathname'', ''filename'', ''module'',
     ''exc_info'', ''exc_text'', ''stack_info'', ''lineno'', ''funcName'', ''created'', ''msecs'', ''relativeCreated'',
     ''thread'', ''threadName'', ''processName'', ''process'', ''taskName'']"

record exc_info =
  xi_type :: "string option"
  xi_message :: "string option"
  xi_trace :: string

record log_record =
  lr_levelname :: string
  lr_created :: datetime
  lr_name :: string
  lr_message :: string
  lr_dict :: "(string \<times> log_value) list"
  lr_exc_info :: "exc_info option"
  lr_stack_info :: string

definition extra_fields :: "log_record \<Rightarrow> (string \<times> log_value) list" where
  "extra_fields r = filter (\<lambda>(k, _). k \<notin> set reserved_record_fields \<and> take 1 k \<noteq> ''_'') (lr_dict r)"

definition sanitized_extra_fields ::
  "(rat \<Rightarrow> string) \<Rightarrow> string list \<Rightarrow> (string \<times> log_value) list \<Rightarrow> pydict" where
  "sanitized_extra_fields ft redacted extra =
     map (\<lambda>(k, v). (k, json_log_value ft redacted v))
       (filter (\<lambda>(k, _). k \<notin> set redacted \<and> k \<notin> set canonical_json_fields) extra)"

definition without_event :: "(string \<times> log_value) list \<Rightarrow> (string \<times> log_value) list" where
  "without_event extra = filter (\<lambda>(k, _). k \<noteq> ''event'') extra"

definition event_of :: "(log_value \<Rightarrow> string) \<Rightarrow> string \<Rightarrow> (string \<times> log_value) list \<Rightarrow> string" where
  "event_of text_of fallback extra = (case map_of extra ''event'' of None \<Rightarrow> fallback | Some v \<Rightarrow> text_of v)"

definition optional_part :: "string \<Rightarrow> string list" where
  "optional_part s = (if s = [] then [] else [s])"

definition format_text ::
  "(rat \<Rightarrow> string) \<Rightarrow> (log_value \<Rightarrow> string) \<Rightarrow> (pyval \<Rightarrow> string) \<Rightarrow> log_record \<Rightarrow> string" where
  "format_text ft text_of value_text r =
     (let extra = extra_fields r; event = event_of text_of [] extra;
          details = sanitized_extra_fields ft redacted_extra_fields (without_event extra)
      in joined '' | '' ([lr_levelname r] @ optional_part event @ [lr_message r] @
           (if details = [] then [] else
             [joined '' '' (map (\<lambda>(k, v). k @ ''='' @ value_text v) (sort_key fst details))]) @
           (case lr_exc_info r of None \<Rightarrow> [] | Some x \<Rightarrow> [xi_trace x]) @ optional_part (lr_stack_info r)))"

definition event_names :: "(string \<times> string) list" where
  "event_names = [(''queue_claim_retry'', ''rpacore.queue.claim.retry''),
     (''queue_run_aborted'', ''rpacore.queue.run.aborted''),
     (''queue_run_completed'', ''rpacore.queue.run_completed'')]"

definition event_name :: "string \<Rightarrow> string" where
  "event_name event =
     (if take 8 event = ''rpacore.'' then event
      else case map_of event_names event of
        Some name \<Rightarrow> name
      | None \<Rightarrow> ''rpacore.'' @ map (\<lambda>c. if c = CHR ''_'' then CHR ''.'' else c) event)"

definition exception_part :: "exc_info \<Rightarrow> pyval" where
  "exception_part x = of_dict
     [(''type'', PStr (case xi_type x of Some n \<Rightarrow> n | None \<Rightarrow> ''Exception'')),
      (''message'', PStr (case xi_message x of Some m \<Rightarrow> m | None \<Rightarrow> [])),
      (''stacktrace'', PStr (xi_trace x))]"

text \<open>The payload that the JSON formatter dumps with \<open>allow_nan=False\<close>; \<open>context\<close> is the bound log context.\<close>

definition json_payload :: "(rat \<Rightarrow> string) \<Rightarrow> (log_value \<Rightarrow> string) \<Rightarrow> pydict \<Rightarrow> log_record \<Rightarrow> pydict" where
  "json_payload ft text_of context r =
     (let extra = extra_fields r; event = event_of text_of ''log'' extra;
          attributes = dict_merge (sanitized_extra_fields ft structured_redacted_extra_fields (without_event extra)) context
      in [(''log_format_version'', PInt 3),
          (''timestamp'', PStr (iso_string (isoformat (lr_created r)))),
          (''severity'', PStr (lower (lr_levelname r))),
          (''logger'', PStr (lr_name r)),
          (''event'', PStr (event_name event)),
          (''message'', PStr (lr_message r)),
          (''attributes'', of_dict attributes)] @
         (case lr_exc_info r of None \<Rightarrow> [] | Some x \<Rightarrow> [(''exception'', exception_part x)]) @
         (if lr_stack_info r = [] then [] else [(''stacktrace'', PStr (lr_stack_info r))]))"

definition format_json :: "(rat \<Rightarrow> string) \<Rightarrow> (log_value \<Rightarrow> string) \<Rightarrow> pydict \<Rightarrow> log_record \<Rightarrow> pyexc + string" where
  "format_json ft text_of context r =
     (let payload = of_dict (json_payload ft text_of context r)
      in if sorted_dumpable payload then Inr (compact_json ft payload)
         else Inl (ValueErr ''Out of range float values are not JSON compliant''))"

section \<open>The log context\<close>

definition log_context_fields :: "string list" where
  "log_context_fields = [''transaction_id'', ''transaction_reference'', ''step_name'', ''step_execution_order'',
     ''queue_item_id'', ''queue_reference'', ''worker_id'', ''retry_number'', ''attempt_number'']"

definition context_value :: "pyval \<Rightarrow> pyexc + unit" where
  "context_value v = (case v of
     PStr s \<Rightarrow> (if s = [] then Inl (ValueErr ''must not be empty'') else Inr ())
   | PInt n \<Rightarrow> (if n < 0 then Inl (ValueErr ''must be >= 0'') else Inr ())
   | _ \<Rightarrow> Inl (TypeErr ''must be a str or int''))"

definition validate_context :: "pydict \<Rightarrow> pyexc + unit" where
  "validate_context attributes =
     (if \<exists>kv \<in> set attributes. fst kv \<notin> set log_context_fields
      then Inl (ValueErr ''Unsupported log context field(s)'')
      else rbnd (decode_rows (\<lambda>kv. context_value (snd kv)) attributes) (\<lambda>_. Inr ()))"

text \<open>The context manager around a body; the state has the context variable, reset when the body ends.\<close>

record 's logging =
  lg_context :: pydict
  lg_rest :: 's

definition bind_log_context :: "pydict \<Rightarrow> ('s logging, pyexc, 'a) effect \<Rightarrow> ('s logging, pyexc, 'a) effect" where
  "bind_log_context attributes body =
     thn (lift_res (validate_context attributes)) (\<lambda>s.
       case body (s\<lparr>lg_context := dict_merge (lg_context s) attributes\<rparr>) of
         (r, t) \<Rightarrow> (r, t\<lparr>lg_context := lg_context s\<rparr>))"

section \<open>Loggers\<close>

record handler =
  hd_owned :: bool
  hd_format :: string
  hd_id :: nat

record logger =
  lo_handlers :: "handler list"
  lo_propagate :: bool
  lo_level :: int

text \<open>The loggers by name, as \<open>logging.getLogger\<close> makes them, and the handlers that were closed.\<close>

record log_registry =
  rg_loggers :: "string \<Rightarrow> logger"
  rg_next :: nat
  rg_closed :: "nat list"

definition logger_name :: "string \<Rightarrow> string" where
  "logger_name name =
     (if name = ''rpacore'' \<or> take 8 name = ''rpacore.'' then name else ''rpacore.application.'' @ name)"

definition set_logger :: "string \<Rightarrow> (logger \<Rightarrow> logger) \<Rightarrow> log_registry \<Rightarrow> log_registry" where
  "set_logger name f g = g\<lparr>rg_loggers := (rg_loggers g)(name := f (rg_loggers g name))\<rparr>"

definition get_logger :: "string \<Rightarrow> log_registry \<Rightarrow> log_registry" where
  "get_logger name g =
     (let resolved = logger_name name;
          g = (if resolved = ''rpacore'' \<and> lo_handlers (rg_loggers g resolved) = []
               then (set_logger resolved (\<lambda>l. l\<lparr>lo_handlers := [\<lparr>hd_owned = True, hd_format = ''null'', hd_id = rg_next g\<rparr>]\<rparr>) g)
                      \<lparr>rg_next := rg_next g + 1\<rparr>
               else g)
      in set_logger resolved (\<lambda>l. l\<lparr>lo_propagate := (resolved \<noteq> ''rpacore'')\<rparr>) g)"

text \<open>\<open>Logger.setLevel\<close> of the \<open>logging\<close> package.\<close>

definition level_names :: "(string \<times> int) list" where
  "level_names = [(''CRITICAL'', 50), (''FATAL'', 50), (''ERROR'', 40), (''WARN'', 30), (''WARNING'', 30),
     (''INFO'', 20), (''DEBUG'', 10), (''NOTSET'', 0)]"

definition check_level :: "pyval \<Rightarrow> pyexc + int" where
  "check_level v = (case v of
     PInt n \<Rightarrow> Inr n
   | PBool b \<Rightarrow> Inr (if b then 1 else 0)
   | PStr s \<Rightarrow> (case map_of level_names s of Some n \<Rightarrow> Inr n | None \<Rightarrow> Inl (ValueErr ''Unknown level''))
   | _ \<Rightarrow> Inl (TypeErr ''Level not an integer or a valid string''))"

definition configure_logger :: "string \<Rightarrow> pyval \<Rightarrow> string \<Rightarrow> (log_registry, pyexc, unit) effect" where
  "configure_logger name level fmt =
     (if fmt \<notin> {''text'', ''json''} then raise_exc (ValueErr ''fmt must be text or json'')
      else bnd (lift_res (check_level level)) (\<lambda>validated_level.
      upd_st (\<lambda>g.
        let resolved = logger_name name; previous = lo_handlers (rg_loggers g resolved);
            handler = \<lparr>hd_owned = True, hd_format = fmt, hd_id = rg_next g\<rparr>
        in (set_logger resolved (\<lambda>l. l\<lparr>lo_handlers := filter (\<lambda>h. \<not> hd_owned h) previous @ [handler],
              lo_propagate := False, lo_level := validated_level\<rparr>) g)
             \<lparr>rg_next := rg_next g + 1,
              rg_closed := rg_closed g @ map hd_id (filter hd_owned previous)\<rparr>)))"

end
