(* ===== verification/Runner.thy ===== *)
theory Runner
  imports Runtime Recovery Checkpoint Logger
begin

text \<open>
  The queue-driven runner (\<open>rpacore/runner.py\<close>): claim an item, run its transaction under a lease that
  a heartbeat thread renews, checkpoint, report, and complete or fail the item.

  The runner reaches the queue and the transaction store through \<open>services\<close>; every call is indexed by
  the number of the reading at which it is made, so that clocks, faults and other processes are
  functions of that number. The heartbeat thread takes its turns at the points where the runner
  looks at it or takes the operation lock: \<open>re_beats n\<close> is the number of renewals made by reading \<open>n\<close>.
  Logging is left out. A callback does not change the transaction it is shown.
\<close>

section \<open>State and collaborators\<close>

record run_summary =
  sm_processed :: nat
  sm_completed :: nat
  sm_failed :: nat
  sm_callback_errors :: nat
  sm_persistence_errors :: nat
  sm_lifecycle_errors :: nat
  sm_notification_errors :: nat
  sm_retry_scheduled :: nat
  sm_terminal_failed :: nat
  sm_lease_lost :: nat
  sm_transition_unknown :: nat

definition empty_summary :: run_summary where
  "empty_summary = \<lparr>sm_processed = 0, sm_completed = 0, sm_failed = 0, sm_callback_errors = 0,
     sm_persistence_errors = 0, sm_lifecycle_errors = 0, sm_notification_errors = 0,
     sm_retry_scheduled = 0, sm_terminal_failed = 0, sm_lease_lost = 0, sm_transition_unknown = 0\<rparr>"

text \<open>The operations of the queue provider and of the transaction store that the runner calls.\<close>

record 'q services =
  sv_next_item :: "nat \<Rightarrow> string \<Rightarrow> ('q, pyexc, queue_item option) effect"
  sv_renew_lease :: "nat \<Rightarrow> string \<Rightarrow> string \<Rightarrow> string \<Rightarrow> ('q, pyexc, unit) effect"
  sv_complete :: "nat \<Rightarrow> string \<Rightarrow> string \<Rightarrow> string \<Rightarrow> ('q, pyexc, unit) effect"
  sv_fail :: "nat \<Rightarrow> string \<Rightarrow> bool \<Rightarrow> string \<Rightarrow> string \<Rightarrow> ('q, pyexc, attempt_outcome option) effect"
  sv_save_fenced :: "nat \<Rightarrow> transaction \<Rightarrow> string \<Rightarrow> string \<Rightarrow> string \<Rightarrow> int \<Rightarrow> bool \<Rightarrow> ('q, pyexc, int) effect"
  sv_load :: "nat \<Rightarrow> string \<Rightarrow> ('q, pyexc, transaction \<times> int) effect"
  sv_prepare :: "nat \<Rightarrow> ('q, pyexc, unit) effect"
  sv_sqlite :: bool

text \<open>What the runner's callbacks were called with, in order.\<close>

datatype runner_call =
    AfterItem string "pyexc option"
  | OnFinish run_summary
  | ScopeEntered
  | ScopeLeft "pyexc option"

record 'q rst =
  rs_store :: 'q
  rs_tick :: nat
  rs_slept :: "rat list"
  rs_summary :: run_summary
  rs_revision :: int
  rs_beat_error :: "pyexc option"
  rs_calls :: "runner_call list"

record 'q renv =
  re_services :: "'q services"
  re_engine :: engine
  re_env :: "nat \<Rightarrow> 'q rst env"
  re_sink :: "(nat \<Rightarrow> transition \<Rightarrow> pyexc option) option"
  re_beats :: "nat \<Rightarrow> nat"
  re_clock :: "nat \<Rightarrow> datetime"
  re_stop :: "nat \<Rightarrow> bool"
  re_build :: "nat \<Rightarrow> queue_item \<Rightarrow> pyexc + transaction"
  re_report :: "nat \<Rightarrow> transaction \<Rightarrow> pyexc option"
  re_notifiers :: "string list"
  re_send :: "nat \<Rightarrow> string \<Rightarrow> send_error option"
  re_after_item :: "(nat \<Rightarrow> queue_item \<Rightarrow> transaction option \<Rightarrow> pyexc option \<Rightarrow> pyexc option) option"
  re_retry_business :: bool
  re_durable :: bool
  re_worker :: string

definition upd_summary :: "(run_summary \<Rightarrow> run_summary) \<Rightarrow> ('q rst, pyexc, unit) effect" where
  "upd_summary f = upd_st (\<lambda>s. s\<lparr>rs_summary := f (rs_summary s)\<rparr>)"

definition reading :: "(nat \<Rightarrow> 'a) \<Rightarrow> ('q rst, pyexc, 'a) effect" where
  "reading f = (\<lambda>s. (Inr (f (rs_tick s)), s\<lparr>rs_tick := Suc (rs_tick s)\<rparr>))"

definition call_service :: "(nat \<Rightarrow> ('q, pyexc, 'a) effect) \<Rightarrow> ('q rst, pyexc, 'a) effect" where
  "call_service m = (\<lambda>s. case m (rs_tick s) (rs_store s) of
     (r, q) \<Rightarrow> (r, s\<lparr>rs_store := q, rs_tick := Suc (rs_tick s)\<rparr>))"

definition clock_sleep :: "rat \<Rightarrow> ('q rst, pyexc, unit) effect" where
  "clock_sleep d = upd_st (\<lambda>s. s\<lparr>rs_slept := rs_slept s @ [d]\<rparr>)"

definition note_call :: "runner_call \<Rightarrow> ('q rst, pyexc, unit) effect" where
  "note_call c = upd_st (\<lambda>s. s\<lparr>rs_calls := rs_calls s @ [c]\<rparr>)"

section \<open>Retried service calls\<close>

text \<open>
  The claim: before every attempt the stop event is looked at, and a lock error is retried only for
  the built-in queue.
\<close>

fun claim_attempts :: "'q renv \<Rightarrow> nat \<Rightarrow> nat \<Rightarrow> ('q rst, pyexc, queue_item option) effect" where
  "claim_attempts E attempt 0 = raise_exc (RuntimeErr ''Queue claim exhausted without a result'')"
| "claim_attempts E attempt (Suc rest) =
     bnd (reading (re_stop E)) (\<lambda>stop.
       if stop then ret None
       else catch_exc (call_service (\<lambda>n. sv_next_item (re_services E) n (re_worker E)))
         (\<lambda>e. if \<not> sv_sqlite (re_services E) \<or> \<not> is_transient_sqlite_lock e \<or> rest = 0 then raise_exc e
              else thn (clock_sleep (sqlite_retry_delay attempt sqlite_delay_seconds))
                       (claim_attempts E (Suc attempt) rest)))"

definition next_item_with_retries :: "'q renv \<Rightarrow> ('q rst, pyexc, queue_item option) effect" where
  "next_item_with_retries E = claim_attempts E 0 sqlite_attempts"

text \<open>The errors of a renewal are returned, a \<open>MemoryError\<close> too.\<close>

definition renew_lease_with_retries :: "'q renv \<Rightarrow> queue_item \<Rightarrow> ('q rst, pyexc, pyexc option) effect" where
  "renew_lease_with_retries E item = (\<lambda>s.
     case with_sqlite_retries clock_sleep
            (call_service (\<lambda>n. sv_renew_lease (re_services E) n (qi_id item) (qi_claimed_by item) (qi_claim_token item))) s of
       (Inl e, t) \<Rightarrow> (if is_exception e then (Inr (Some e), t) else (Inl e, t))
     | (Inr _, t) \<Rightarrow> (Inr None, t))"

definition complete_queue_item_with_retries ::
  "'q renv \<Rightarrow> queue_item \<Rightarrow> ('q rst, pyexc, pyexc option) effect" where
  "complete_queue_item_with_retries E item =
     bnd (captured (with_sqlite_retries clock_sleep
            (call_service (\<lambda>n. sv_complete (re_services E) n (qi_id item) (qi_claimed_by item) (qi_claim_token item)))))
       (\<lambda>r. ret (case r of Inl e \<Rightarrow> Some e | Inr _ \<Rightarrow> None))"

definition attested_failure :: "attempt_outcome option \<Rightarrow> pyexc + attempt_outcome option" where
  "attested_failure outcome =
     (if outcome \<in> {None, Some AO_RETRY_SCHEDULED, Some AO_FAILED} then Inr outcome
      else Inl (RuntimeErr ''QueueProvider.fail() must return None, retry_scheduled, or failed''))"

definition fail_queue_item_with_retries ::
  "'q renv \<Rightarrow> queue_item \<Rightarrow> bool \<Rightarrow> ('q rst, pyexc, pyexc + attempt_outcome option) effect" where
  "fail_queue_item_with_retries E item retry =
     bnd (captured (with_sqlite_retries clock_sleep
            (call_service (\<lambda>n. sv_fail (re_services E) n (qi_id item) retry (qi_claimed_by item) (qi_claim_token item)))))
       (\<lambda>r. ret (rbnd r attested_failure))"

definition save_queue_transaction_with_retries ::
  "'q renv \<Rightarrow> queue_item \<Rightarrow> int \<Rightarrow> bool \<Rightarrow> transaction \<Rightarrow> ('q rst, pyexc, pyexc + int) effect" where
  "save_queue_transaction_with_retries E item expected_revision initial t =
     captured (with_sqlite_retries clock_sleep
       (call_service (\<lambda>n. sv_save_fenced (re_services E) n t (qi_id item) (qi_claimed_by item)
          (qi_claim_token item) expected_revision initial)))"

section \<open>The lease heartbeat\<close>

definition lease_renewal_interval :: "pyval option \<Rightarrow> rat" where
  "lease_renewal_interval lease_timeout =
     (case lease_timeout of
        Some (PInt n) \<Rightarrow> if 0 < n then min (max (of_int n / 3) (1 / 10)) 10 else 10
      | Some (PFloat (FinF x)) \<Rightarrow> if 0 < x then min (max (x / 3) (1 / 10)) 10 else 10
      | _ \<Rightarrow> 10)"

fun is_lease_lost :: "pyexc \<Rightarrow> bool" where
  "is_lease_lost (QueueLeaseLostError _) = True"
| "is_lease_lost _ = False"

fun is_fence_error :: "pyexc \<Rightarrow> bool" where
  "is_fence_error (TransactionFenceError _) = True"
| "is_fence_error _ = False"

definition set_beat_error :: "pyexc option \<Rightarrow> ('q rst, pyexc, unit) effect" where
  "set_beat_error e = upd_st (\<lambda>s. s\<lparr>rs_beat_error := e\<rparr>)"

text \<open>One renewal; a heartbeat that met an error has returned.\<close>

definition beat :: "'q renv \<Rightarrow> queue_item \<Rightarrow> ('q rst, pyexc, unit) effect" where
  "beat E item = bnd get_st (\<lambda>s.
     if rs_beat_error s \<noteq> None then ret ()
     else catch_exc
       (bnd (renew_lease_with_retries E item) (\<lambda>error.
          case error of
            None \<Rightarrow> ret ()
          | Some e \<Rightarrow>
              set_beat_error (Some (if is_lease_lost e \<or> e = MemoryErr then e
                else LeaseRenewalError ''Queue item lease renewal failed''))))
       (\<lambda>e. set_beat_error (Some e)))"

definition beats :: "'q renv \<Rightarrow> queue_item \<Rightarrow> ('q rst, pyexc, unit) effect" where
  "beats E item = bnd (reading (re_beats E)) (\<lambda>n. foreach [0..<n] (\<lambda>_. beat E item))"

definition raise_if_failed :: "'q renv \<Rightarrow> queue_item \<Rightarrow> ('q rst, pyexc, unit) effect" where
  "raise_if_failed E item =
     thn (beats E item) (bnd get_st (\<lambda>s.
       case rs_beat_error s of None \<Rightarrow> ret () | Some e \<Rightarrow> raise_exc e))"

section \<open>Checkpoints\<close>

definition lease_checked_checkpoint ::
  "'q renv \<Rightarrow> queue_item \<Rightarrow> (transaction \<Rightarrow> ('q rst, pyexc, unit) effect) \<Rightarrow> transaction \<Rightarrow>
   ('q rst, pyexc, unit) effect" where
  "lease_checked_checkpoint E item save t =
     thn (raise_if_failed E item)
    (thn (raise_if_failed E item)
    (thn (save t)
         (raise_if_failed E item)))"

definition lease_only_checkpoint ::
  "'q renv \<Rightarrow> queue_item \<Rightarrow> transaction \<Rightarrow> ('q rst, pyexc, unit) effect" where
  "lease_only_checkpoint E item t = raise_if_failed E item"

definition has_business_failed_step :: "transaction \<Rightarrow> bool" where
  "has_business_failed_step t \<longleftrightarrow> (\<exists>s \<in> set (failed_steps t).
     st_exceptions s \<noteq> [] \<and> is_business (last (st_exceptions s)))"

definition in_memory_checkpoint_failure_allows_queue_retry :: "transaction \<Rightarrow> bool" where
  "in_memory_checkpoint_failure_allows_queue_retry t \<longleftrightarrow>
     (if tx_history t \<noteq> [] \<and> he_event (last (tx_history t)) = STEP_FAILED
      then \<not> has_business_failed_step t else True)"

definition transaction_history_allows_queue_retry :: "transaction \<Rightarrow> bool" where
  "transaction_history_allows_queue_retry t \<longleftrightarrow>
     (if tx_history t = [] then True
      else if he_event (last (tx_history t)) = STEP_SUCCEEDED then False
      else if he_event (last (tx_history t)) = STEP_FAILED then \<not> has_business_failed_step t
      else True)"

text \<open>Equality of history entries: the times are compared as instants.\<close>

definition same_entry :: "history_entry \<Rightarrow> history_entry \<Rightarrow> bool" where
  "same_entry a b \<longleftrightarrow> he_sequence a = he_sequence b \<and> datetime_eq (he_timestamp a) (he_timestamp b) \<and>
     he_event a = he_event b \<and> he_status a = he_status b \<and> he_retry_number a = he_retry_number b \<and>
     he_step_name a = he_step_name b \<and> he_step_order a = he_step_order b"

definition checkpoint_failure_allows_queue_retry :: "'q renv \<Rightarrow> transaction \<Rightarrow> ('q rst, pyexc, bool) effect" where
  "checkpoint_failure_allows_queue_retry E t = (\<lambda>s.
     case call_service (\<lambda>n. sv_load (re_services E) n (tx_id t)) s of
       (Inl e, s') \<Rightarrow>
         (if is_exception e then (Inr (in_memory_checkpoint_failure_allows_queue_retry t), s') else (Inl e, s'))
     | (Inr (durable, _), s') \<Rightarrow>
         (Inr (if list_all2 same_entry (tx_history durable) (tx_history t)
               then transaction_history_allows_queue_retry durable
               else in_memory_checkpoint_failure_allows_queue_retry t), s'))"

definition permanent_error :: "pyexc \<Rightarrow> bool" where
  "permanent_error e \<longleftrightarrow> is_execution_validation_error e \<or> is_json_state_error e"

definition count_persistence_error :: "('q rst, pyexc, unit) effect" where
  "count_persistence_error = upd_summary (\<lambda>m. m\<lparr>sm_persistence_errors := sm_persistence_errors m + 1\<rparr>)"

definition strict_transaction_checkpoint ::
  "'q renv \<Rightarrow> queue_item \<Rightarrow> transaction \<Rightarrow> ('q rst, pyexc, unit) effect" where
  "strict_transaction_checkpoint E item t =
     bnd get_st (\<lambda>s.
     bnd (save_queue_transaction_with_retries E item (rs_revision s) False t) (\<lambda>saved.
       case saved of
         Inr new_revision \<Rightarrow> upd_st (\<lambda>s. s\<lparr>rs_revision := new_revision\<rparr>)
       | Inl e \<Rightarrow>
           (if is_fence_error e then raise_exc e
            else thn count_persistence_error
                (bnd (if permanent_error e then ret False else checkpoint_failure_allows_queue_retry E t)
                   (\<lambda>retry. raise_exc (CheckpointError e retry))))))"

section \<open>The transaction of an item\<close>

definition seed_transaction_state_from_payload :: "transaction \<Rightarrow> queue_item \<Rightarrow> pyexc + transaction" where
  "seed_transaction_state_from_payload t item =
     rbnd (validate_json_object (of_dict (qi_payload item)))
       (\<lambda>_. Inr (t\<lparr>tx_state := dict_merge (tx_state t) (qi_payload item)\<rparr>))"

definition validate_initial_queue_transaction :: "transaction \<Rightarrow> pyexc + unit" where
  "validate_initial_queue_transaction t =
     rbnd (validate_definition_identity (PStr (tx_definition_identity t)) True) (\<lambda>_.
       if tx_status t \<noteq> PENDING
       then Inl (ExecutionValidationError ''queue transaction.status must be pending before initial binding'')
       else if tx_history t \<noteq> []
       then Inl (ExecutionValidationError ''queue transaction.history must be empty before initial binding'')
       else Inr ())"

definition transaction_has_only_business_failures :: "transaction option \<Rightarrow> bool" where
  "transaction_has_only_business_failures t = (case t of
     None \<Rightarrow> False
   | Some t \<Rightarrow> failed_steps t \<noteq> [] \<and>
       (\<forall>s \<in> set (failed_steps t). st_exceptions s \<noteq> [] \<and> is_business (last (st_exceptions s))))"

definition built_transaction :: "'q renv \<Rightarrow> queue_item \<Rightarrow> ('q rst, pyexc, transaction) effect" where
  "built_transaction E item =
     bnd (bnd (reading (\<lambda>n. re_build E n item)) lift_res) (\<lambda>t.
     bnd (lift_res (seed_transaction_state_from_payload t item)) (\<lambda>t.
       lift_res (validate_for_execution t)))"

text \<open>The errors that make a persisted binding unusable.\<close>

definition binding_error :: "pyexc \<Rightarrow> bool" where
  "binding_error e \<longleftrightarrow> is_key_error e \<or> is_sqlite_error e \<or> is_system_exception e \<or> is_value_error e \<or>
     is_json_state_error e"

definition recovered_transaction :: "'q renv \<Rightarrow> queue_item \<Rightarrow> ('q rst, pyexc, transaction \<times> int) effect" where
  "recovered_transaction E item =
     catch_exc
       (bnd (bnd (reading (\<lambda>n. re_build E n item)) lift_res) (\<lambda>candidate.
        bnd (call_service (\<lambda>n. sv_load (re_services E) n (qi_transaction_id item))) (\<lambda>(t, revision).
        bnd (reading (re_clock E)) (\<lambda>now.
        bnd (lift_res (prepare_resumed_transaction now t (tx_steps candidate) (re_retry_business E)
               (PStr (tx_definition_identity candidate)))) (\<lambda>t.
          ret (t, revision))))))
       (\<lambda>e. raise_exc (if binding_error e
          then DurableBindingError ''Queue item is bound to a transaction that cannot be resumed'' else e))"

definition initial_transaction :: "'q renv \<Rightarrow> queue_item \<Rightarrow> ('q rst, pyexc, transaction \<times> int) effect" where
  "initial_transaction E item =
     bnd (built_transaction E item) (\<lambda>t.
     thn (lift_res (validate_initial_queue_transaction t))
    (thn (beats E item)
    (bnd (save_queue_transaction_with_retries E item 0 True t) (\<lambda>saved.
       case saved of
         Inr revision \<Rightarrow> ret (t, revision)
       | Inl e \<Rightarrow>
           (if is_fence_error e then raise_exc e
            else thn count_persistence_error (raise_exc (CheckpointError e (\<not> permanent_error e))))))))"

text \<open>The transaction, its stored revision, and the item as it is afterwards.\<close>

definition transaction_for_queue_item ::
  "'q renv \<Rightarrow> queue_item \<Rightarrow> ('q rst, pyexc, transaction \<times> int \<times> queue_item) effect" where
  "transaction_for_queue_item E item =
     (if \<not> re_durable E then bnd (built_transaction E item) (\<lambda>t. ret (t, 0, item))
      else if qi_transaction_id item \<noteq> []
      then bnd (recovered_transaction E item) (\<lambda>(t, revision). ret (t, revision, item))
      else bnd (initial_transaction E item) (\<lambda>(t, revision).
        ret (t, revision, item\<lparr>qi_transaction_id := tx_id t\<rparr>)))"

section \<open>One claimed item\<close>

text \<open>The variables of the processing: the transaction, \<open>error\<close>, \<open>outcome_error\<close>, \<open>lease_lost\<close>.\<close>

record item_run =
  ir_item :: queue_item
  ir_transaction :: "transaction option"
  ir_error :: "pyexc option"
  ir_outcome_error :: "pyexc option"
  ir_complete :: bool
  ir_lease_lost :: bool
  ir_callback_failed :: bool

definition or_else :: "'a option \<Rightarrow> 'a \<Rightarrow> 'a option" where
  "or_else x y = (case x of None \<Rightarrow> Some y | Some _ \<Rightarrow> x)"

text \<open>
  \<open>engine.run(ctx, checkpoint=\<dots>)\<close>: the transaction it leaves, and the exception that left it. The
  engine's world is the runner's state; its transition sink only succeeds or raises.
\<close>

definition engine_env :: "'q renv \<Rightarrow> queue_item \<Rightarrow> 'q rst env \<Rightarrow> 'q rst env" where
  "engine_env E item X =
     (let save = (if re_durable E
           then lease_checked_checkpoint E item (strict_transaction_checkpoint E item)
           else lease_only_checkpoint E item)
      in X\<lparr>env_checkpoint := Some (\<lambda>w t. save t w),
           env_sink := map_option (\<lambda>sink w tr. bnd (reading (\<lambda>n. sink n tr))
             (\<lambda>failure. case failure of None \<Rightarrow> ret () | Some e \<Rightarrow> raise_exc e) w) (re_sink E)\<rparr>)"

definition run_engine ::
  "'q renv \<Rightarrow> queue_item \<Rightarrow> transaction \<Rightarrow> ('q rst, pyexc, (pyexc + unit) \<times> transaction) effect" where
  "run_engine E item t = bnd (reading (re_env E)) (\<lambda>X s.
     let (r, u) = engine_run (re_engine E) (engine_env E item X)
           \<lparr>es_tx = t, es_tick = 0, es_slept = [], es_world = s\<rparr>
     in (Inr (r, es_tx u), (es_world u)\<lparr>rs_slept := rs_slept (es_world u) @ es_slept u\<rparr>))"

definition after_run :: "'q renv \<Rightarrow> queue_item \<Rightarrow> transaction \<Rightarrow> ('q rst, pyexc, bool) effect" where
  "after_run E item t =
     thn (raise_if_failed E item)
    (thn (lift_res (validate_json_object (of_dict (tx_state t))))
         (ret (tx_status t = SUCCESSFUL)))"

definition failed_run :: "queue_item \<Rightarrow> transaction option \<Rightarrow> pyexc \<Rightarrow> item_run" where
  "failed_run item t e = \<lparr>ir_item = item, ir_transaction = t, ir_error = Some e, ir_outcome_error = Some e,
     ir_complete = False, ir_lease_lost = (is_lease_lost e \<or> is_fence_error e), ir_callback_failed = False\<rparr>"

text \<open>\<open>except _FATAL_SIGNALS: raise\<close>, \<open>except Exception as exc: \<dots>\<close>.\<close>

definition recorded ::
  "('q rst, pyexc, item_run) effect \<Rightarrow> (pyexc \<Rightarrow> item_run) \<Rightarrow> ('q rst, pyexc, item_run) effect" where
  "recorded m h = catch_exc m (\<lambda>e. if is_fatal_signal e then raise_exc e else ret (h e))"

definition executed_item :: "'q renv \<Rightarrow> queue_item \<Rightarrow> ('q rst, pyexc, item_run) effect" where
  "executed_item E item =
     recorded
       (bnd (transaction_for_queue_item E item) (\<lambda>(t, revision, item).
        thn (upd_st (\<lambda>s. s\<lparr>rs_revision := revision\<rparr>))
       (bnd (if \<not> re_durable E \<or> tx_status t \<noteq> SUCCESSFUL then run_engine E item t else ret (Inr (), t))
          (\<lambda>(r, t). recorded
             (bnd (case r of Inl e \<Rightarrow> raise_exc e | Inr _ \<Rightarrow> after_run E item t) (\<lambda>done.
                ret \<lparr>ir_item = item, ir_transaction = Some t, ir_error = None, ir_outcome_error = None,
                  ir_complete = done, ir_lease_lost = False, ir_callback_failed = False\<rparr>))
             (failed_run item (Some t))))))
       (failed_run item None)"

text \<open>The look at the heartbeat after the run and again before the final transition.\<close>

definition lease_checked :: "'q renv \<Rightarrow> item_run \<Rightarrow> ('q rst, pyexc, item_run) effect" where
  "lease_checked E x =
     (if ir_lease_lost x then ret x
      else recorded (thn (raise_if_failed E (ir_item x)) (ret x))
        (\<lambda>e. if is_lease_lost e
             then x\<lparr>ir_error := Some e, ir_outcome_error := Some e, ir_lease_lost := True\<rparr>
             else x\<lparr>ir_error := or_else (ir_error x) e, ir_outcome_error := or_else (ir_outcome_error x) e\<rparr>))"

definition notified :: "'q renv \<Rightarrow> ('q rst, pyexc, unit) effect" where
  "notified E = dispatch (\<lambda>notifier _. reading (\<lambda>n. re_send E n notifier)) clock_sleep
     (\<lambda>_. upd_summary (\<lambda>m. m\<lparr>sm_notification_errors := sm_notification_errors m + 1\<rparr>)) (re_notifiers E)"

text \<open>The report is made of the transaction of the context, so only when there was one.\<close>

definition reported :: "'q renv \<Rightarrow> item_run \<Rightarrow> ('q rst, pyexc, item_run) effect" where
  "reported E x =
     (case ir_transaction x of
        Some t \<Rightarrow>
          (if ir_lease_lost x then ret x
           else bnd (reading (\<lambda>n. re_report E n t)) (\<lambda>failure.
             case failure of
               None \<Rightarrow> thn (notified E) (ret x)
             | Some e \<Rightarrow> if is_fatal_signal e then raise_exc e else ret (x\<lparr>ir_error := or_else (ir_error x) e\<rparr>)))
      | None \<Rightarrow> ret x)"

definition called_back :: "'q renv \<Rightarrow> item_run \<Rightarrow> ('q rst, pyexc, item_run) effect" where
  "called_back E x =
     (case re_after_item E of
        Some callback \<Rightarrow>
          (if ir_lease_lost x then ret x
           else thn (note_call (AfterItem (qi_id (ir_item x)) (ir_error x)))
               (bnd (reading (\<lambda>n. callback n (ir_item x) (ir_transaction x) (ir_error x))) (\<lambda>failure.
                  case failure of
                    None \<Rightarrow> ret x
                  | Some e \<Rightarrow> if is_fatal_signal e then raise_exc e else ret (x\<lparr>ir_callback_failed := True\<rparr>))))
      | None \<Rightarrow> ret x)"

definition count_lease_lost :: "run_summary \<Rightarrow> run_summary" where
  "count_lease_lost m = m\<lparr>sm_failed := sm_failed m + 1, sm_lease_lost := sm_lease_lost m + 1\<rparr>"

definition count_completed :: "bool \<Rightarrow> run_summary \<Rightarrow> run_summary" where
  "count_completed callback_failed m = m\<lparr>sm_completed := sm_completed m + 1,
     sm_callback_errors := sm_callback_errors m + (if callback_failed then 1 else 0)\<rparr>"

definition count_failed :: "attempt_outcome option \<Rightarrow> run_summary \<Rightarrow> run_summary" where
  "count_failed outcome m =
     (let m = m\<lparr>sm_failed := sm_failed m + 1\<rparr>
      in if outcome = Some AO_RETRY_SCHEDULED then m\<lparr>sm_retry_scheduled := sm_retry_scheduled m + 1\<rparr>
         else if outcome = Some AO_FAILED then m\<lparr>sm_terminal_failed := sm_terminal_failed m + 1\<rparr>
         else m\<lparr>sm_transition_unknown := sm_transition_unknown m + 1\<rparr>)"

text \<open>Whether a failed item may be delivered again.\<close>

definition queue_retry :: "bool \<Rightarrow> item_run \<Rightarrow> bool" where
  "queue_retry retry_business_failures x =
     (case ir_outcome_error x of
        Some (CheckpointError _ retry) \<Rightarrow> retry
      | Some (DurableBindingError _) \<Rightarrow> False
      | Some (LeaseRenewalError _) \<Rightarrow> True
      | Some e \<Rightarrow> \<not> permanent_error e
      | None \<Rightarrow> retry_business_failures \<or> \<not> transaction_has_only_business_failures (ir_transaction x))"

text \<open>The final transition; \<open>False\<close> stops the loop.\<close>

definition completed_item :: "'q renv \<Rightarrow> item_run \<Rightarrow> ('q rst, pyexc, bool) effect" where
  "completed_item E x =
     thn (beats E (ir_item x))
    (bnd (complete_queue_item_with_retries E (ir_item x)) (\<lambda>transition_error.
       case transition_error of
         Some e \<Rightarrow> if is_lease_lost e then thn (upd_summary count_lease_lost) (ret False) else raise_exc e
       | None \<Rightarrow> thn (upd_summary (count_completed (ir_callback_failed x))) (ret True)))"

definition failed_item :: "'q renv \<Rightarrow> item_run \<Rightarrow> ('q rst, pyexc, bool) effect" where
  "failed_item E x =
     thn (beats E (ir_item x))
    (bnd (fail_queue_item_with_retries E (ir_item x) (queue_retry (re_retry_business E) x)) (\<lambda>transition.
       case transition of
         Inl e \<Rightarrow> if is_lease_lost e then thn (upd_summary count_lease_lost) (ret False) else raise_exc e
       | Inr outcome \<Rightarrow> thn (upd_summary (count_failed outcome)) (ret True)))"

definition settled_item :: "'q renv \<Rightarrow> item_run \<Rightarrow> ('q rst, pyexc, bool) effect" where
  "settled_item E x =
     (if ir_lease_lost x then thn (upd_summary count_lease_lost) (ret False)
      else if ir_complete x then completed_item E x
      else failed_item E x)"

definition run_claimed_item_with_context :: "'q renv \<Rightarrow> queue_item \<Rightarrow> ('q rst, pyexc, bool) effect" where
  "run_claimed_item_with_context E item =
     bnd (executed_item E item) (\<lambda>x.
     bnd (lease_checked E x) (\<lambda>x.
     bnd (reported E x) (\<lambda>x.
     bnd (called_back E x) (\<lambda>x.
     bnd (lease_checked E x) (\<lambda>x.
       settled_item E x)))))"

text \<open>
  \<open>with bind_log_context(\<dots>)\<close>: the log context is bound for the item, which raises when the identity, the
  reference or the worker is empty.
\<close>

definition item_log_context :: "'q renv \<Rightarrow> queue_item \<Rightarrow> pydict" where
  "item_log_context E item = [(''queue_item_id'', PStr (qi_id item)), (''queue_reference'', PStr (qi_reference item)),
     (''worker_id'', PStr (re_worker E))]"

definition run_claimed_item :: "'q renv \<Rightarrow> queue_item \<Rightarrow> ('q rst, pyexc, bool) effect" where
  "run_claimed_item E item =
     thn (lift_res (validate_context (item_log_context E item))) (run_claimed_item_with_context E item)"

section \<open>The loop\<close>

text \<open>\<open>try: \<dots> finally: \<dots>\<close> around the item: stopping the heartbeat lets a last renewal finish.\<close>

definition with_heartbeat :: "'q renv \<Rightarrow> queue_item \<Rightarrow> ('q rst, pyexc, 'a) effect \<Rightarrow> ('q rst, pyexc, 'a) effect" where
  "with_heartbeat E item m = (\<lambda>s.
     case m (s\<lparr>rs_beat_error := None\<rparr>) of (r, t) \<Rightarrow> (r, snd (beats E item t)))"

text \<open>\<open>None\<close> says that the fuel, the number of claims, ran out.\<close>

fun run_items :: "nat \<Rightarrow> 'q renv \<Rightarrow> ('q rst, pyexc, unit option) effect" where
  "run_items 0 E = ret None"
| "run_items (Suc fuel) E =
     bnd (next_item_with_retries E) (\<lambda>claimed.
       case claimed of
         None \<Rightarrow> ret (Some ())
       | Some item \<Rightarrow>
           thn (upd_summary (\<lambda>m. m\<lparr>sm_processed := sm_processed m + 1\<rparr>))
          (bnd (with_heartbeat E item (run_claimed_item E item)) (\<lambda>should_continue.
             if should_continue then run_items fuel E else ret (Some ()))))"

text \<open>The resource scope around the loop.\<close>

definition leave_scope :: "'q rst scope \<Rightarrow> pyexc option \<Rightarrow> ('q rst, pyexc, bool) effect" where
  "leave_scope scope e = thn (note_call (ScopeLeft e)) (sc_exit scope e)"

definition scope_failed :: "'q rst scope \<Rightarrow> pyexc \<Rightarrow> ('q rst, pyexc, unit option) effect" where
  "scope_failed scope e =
     (if is_fatal_signal e
      then thn (catch_exc (leave_scope scope (Some e)) (\<lambda>_. ret True)) (raise_exc e)
      else bnd (leave_scope scope (Some e)) (\<lambda>suppress. if suppress then ret (Some ()) else raise_exc e))"

definition scoped_items ::
  "nat \<Rightarrow> 'q renv \<Rightarrow> 'q rst scope \<Rightarrow> ('q rst, pyexc, unit option) effect" where
  "scoped_items fuel E scope =
     bnd (sc_enter scope) (\<lambda>yielded.
     thn (note_call ScopeEntered) (\<lambda>s.
       case thn (lift_res (scope_resources yielded)) (run_items fuel E) s of
         (Inl e, t) \<Rightarrow> scope_failed scope e t
       | (Inr r, t) \<Rightarrow> thn (leave_scope scope None) (ret r) t))"

definition require_sqlite_queue :: "'q renv \<Rightarrow> ('q rst, pyexc, unit) effect" where
  "require_sqlite_queue E =
     (if sv_sqlite (re_services E) then ret () else raise_exc (TypeErr ''transaction_db_path requires SqliteQueue''))"

definition queue_run ::
  "nat \<Rightarrow> 'q renv \<Rightarrow> 'q rst scope option \<Rightarrow> ('q rst, pyexc, unit option) effect" where
  "queue_run fuel E scope =
     thn (if re_durable E
          then thn (require_sqlite_queue E) (call_service (sv_prepare (re_services E))) else ret ())
         (case scope of None \<Rightarrow> run_items fuel E | Some scope \<Rightarrow> scoped_items fuel E scope)"

text \<open>
  The \<open>finally\<close> of \<open>run_queue_loop\<close>: \<open>on_finish\<close> once; its ordinary errors are counted, a fatal signal
  of it wins over everything but another fatal signal.
\<close>

definition finished_with ::
  "(run_summary \<Rightarrow> pyexc option) \<Rightarrow> pyexc + 'a \<Rightarrow> ('q rst, pyexc, 'a) effect" where
  "finished_with on_finish r =
     bnd get_st (\<lambda>s.
     thn (note_call (OnFinish (rs_summary s)))
       (case on_finish (rs_summary s) of
          None \<Rightarrow> lift_res r
        | Some e \<Rightarrow>
            (if is_fatal_signal e
             then (case r of
                     Inl active \<Rightarrow> raise_exc (if is_fatal_signal active then active else e)
                   | Inr _ \<Rightarrow> raise_exc e)
             else thn (upd_summary (\<lambda>m. m\<lparr>sm_lifecycle_errors := sm_lifecycle_errors m + 1\<rparr>)) (lift_res r))))"

definition run_queue_loop ::
  "nat \<Rightarrow> 'q renv \<Rightarrow> 'q rst scope option \<Rightarrow> (run_summary \<Rightarrow> pyexc option) option \<Rightarrow>
   ('q rst, pyexc, run_summary option) effect" where
  "run_queue_loop fuel E scope on_finish = (\<lambda>s.
     case queue_run fuel E scope s of
       (r, t) \<Rightarrow>
         bnd (case on_finish of None \<Rightarrow> lift_res r | Some callback \<Rightarrow> finished_with callback r)
           (\<lambda>finished. bnd get_st (\<lambda>u. ret (map_option (\<lambda>_. rs_summary u) finished))) t)"

end
