(* ===== verification/RunnerProps.thy ===== *)
theory RunnerProps
  imports Runner EngineRuns
begin

text \<open>
  Relations that the runner keeps. The locale \<open>item_relation\<close> states what the processing of one item
  needs of the services and of a relation between runner states; \<open>runner_relation\<close> adds what the
  loop needs. Both are used for the counters, the callbacks and the stores.
\<close>

section \<open>What the runner keeps\<close>

text \<open>The counters that only the final transition of an item changes.\<close>

definition outcome_counts :: "run_summary \<Rightarrow> nat list" where
  "outcome_counts m = [sm_processed m, sm_completed m, sm_failed m, sm_callback_errors m,
     sm_retry_scheduled m, sm_terminal_failed m, sm_lease_lost m, sm_transition_unknown m]"

text \<open>The processing of a claim that only renews its lease.\<close>

locale lease_relation = step_relation R
  for R :: "'q rst \<Rightarrow> 'q rst \<Rightarrow> bool" and E :: "'q renv" +
  assumes R_frame: "rs_store t = rs_store s \<Longrightarrow> rs_calls t = rs_calls s \<Longrightarrow>
      outcome_counts (rs_summary t) = outcome_counts (rs_summary s) \<Longrightarrow> R s t"
    and R_after_item: "\<And>i e. keeps R (note_call (AfterItem i e))"
    and R_renew: "\<And>i w k. keeps R (call_service (\<lambda>n. sv_renew_lease (re_services E) n i w k))"
begin

lemma R_reading: "keeps R (reading f)"
  by (simp add: keeps_def reading_def R_frame)

lemma R_sleep: "keeps R (clock_sleep d)"
  by (simp add: keeps_def clock_sleep_def upd_st_def R_frame)

lemma R_beat_error: "keeps R (set_beat_error e)"
  by (simp add: keeps_def set_beat_error_def upd_st_def R_frame)

lemma R_revision: "keeps R (upd_st (\<lambda>s. s\<lparr>rs_revision := v\<rparr>))"
  by (simp add: keeps_def upd_st_def R_frame)

lemma R_persistence: "keeps R count_persistence_error"
  by (simp add: keeps_def count_persistence_error_def upd_summary_def upd_st_def R_frame outcome_counts_def)

lemma R_notification:
  "keeps R (upd_summary (\<lambda>m. m\<lparr>sm_notification_errors := Suc (sm_notification_errors m)\<rparr>))"
  by (simp add: keeps_def upd_summary_def upd_st_def R_frame outcome_counts_def)

lemmas lease_basics = R_reading R_sleep R_beat_error R_revision R_persistence R_notification
  R_after_item R_renew
  keeps_ret keeps_raise keeps_lift keeps_get keeps_bnd keeps_thn keeps_catch keeps_foreach keeps_captured
  keeps_sqlite_retries

lemma R_renew_retries: "keeps R (renew_lease_with_retries E item)"
proof -
  have "keeps R (with_sqlite_retries clock_sleep
     (call_service (\<lambda>n. sv_renew_lease (re_services E) n (qi_id item) (qi_claimed_by item) (qi_claim_token item))))"
    by (intro lease_basics)
  then show ?thesis
    by (auto simp: keeps_def renew_lease_with_retries_def split: prod.splits sum.splits) (metis snd_conv)+
qed

lemma R_beat: "keeps R (beat E item)"
  unfolding beat_def by (auto intro!: lease_basics R_renew_retries split: option.splits)

lemma R_beats: "keeps R (beats E item)"
  unfolding beats_def by (intro lease_basics R_beat)

lemma R_raise_if_failed: "keeps R (raise_if_failed E item)"
  unfolding raise_if_failed_def by (auto intro!: lease_basics R_beats split: option.splits)

lemma R_recorded: "keeps R m \<Longrightarrow> keeps R (recorded m h)"
  unfolding recorded_def by (auto intro!: lease_basics)

lemma R_lease_checked: "keeps R (lease_checked E x)"
  unfolding lease_checked_def by (auto intro!: lease_basics R_recorded R_raise_if_failed)

lemma R_reported: "keeps R (reported E x)"
  unfolding reported_def notified_def
  by (auto intro!: lease_basics keeps_dispatch split: option.splits)

lemma R_called_back: "keeps R (called_back E x)"
  unfolding called_back_def by (auto intro!: lease_basics split: option.splits)

end

text \<open>The whole processing of an item.\<close>

locale item_relation = lease_relation R E
  for R :: "'q rst \<Rightarrow> 'q rst \<Rightarrow> bool" and E :: "'q renv" +
  assumes R_next_item: "\<And>w. keeps R (call_service (\<lambda>n. sv_next_item (re_services E) n w))"
    and R_complete: "\<And>i w k. keeps R (call_service (\<lambda>n. sv_complete (re_services E) n i w k))"
    and R_fail: "\<And>i b w k. keeps R (call_service (\<lambda>n. sv_fail (re_services E) n i b w k))"
    and R_save: "\<And>t i w k v b. keeps R (call_service (\<lambda>n. sv_save_fenced (re_services E) n t i w k v b))"
    and R_load: "\<And>i. keeps R (call_service (\<lambda>n. sv_load (re_services E) n i))"
    and R_prepare: "keeps R (call_service (sv_prepare (re_services E)))"
begin

lemmas item_basics = lease_basics R_next_item R_complete R_fail R_save R_load R_prepare

lemma R_next: "keeps R (claim_attempts E attempt rest)"
  by (induction rest arbitrary: attempt) (auto intro!: item_basics)

lemma R_save_retries: "keeps R (save_queue_transaction_with_retries E item v b t)"
  unfolding save_queue_transaction_with_retries_def by (intro item_basics)

lemma R_allows_retry: "keeps R (checkpoint_failure_allows_queue_retry E t)"
proof -
  have "keeps R (call_service (\<lambda>n. sv_load (re_services E) n (tx_id t)))" by (rule R_load)
  then show ?thesis
    by (auto simp: keeps_def checkpoint_failure_allows_queue_retry_def split: prod.splits sum.splits)
      (metis snd_conv)+
qed

lemma R_strict: "keeps R (strict_transaction_checkpoint E item t)"
  unfolding strict_transaction_checkpoint_def
  by (auto intro!: item_basics R_save_retries R_allows_retry split: sum.splits)

lemma R_checkpoint_of:
  "keeps R ((if re_durable E then lease_checked_checkpoint E item (strict_transaction_checkpoint E item)
     else lease_only_checkpoint E item) t)"
  unfolding lease_checked_checkpoint_def lease_only_checkpoint_def
  by (auto intro!: item_basics R_raise_if_failed R_strict)

lemma R_transaction: "keeps R (transaction_for_queue_item E item)"
  unfolding transaction_for_queue_item_def built_transaction_def recovered_transaction_def
    initial_transaction_def
  by (auto intro!: item_basics R_beats R_save_retries split: sum.splits)

end

text \<open>A run of the engine, whose world is the runner's state.\<close>

sublocale item_relation \<subseteq> world: world_relation R "engine_env E item X" for item :: queue_item and X :: "'q rst env"
proof unfold_locales
  fix sink :: "'q rst \<Rightarrow> transition \<Rightarrow> (pyexc + unit) \<times> 'q rst" and w :: "'q rst" and tr :: transition
  assume "env_sink (engine_env E item X) = Some sink"
  then obtain answer where "sink = (\<lambda>w tr. bnd (reading (\<lambda>n. answer n tr))
      (\<lambda>failure. case failure of None \<Rightarrow> ret () | Some e \<Rightarrow> raise_exc e) w)"
    by (auto simp: engine_env_def Let_def)
  moreover have "keeps R (bnd (reading (\<lambda>n. answer n tr))
      (\<lambda>failure. case failure of None \<Rightarrow> ret () | Some e \<Rightarrow> raise_exc e))"
    by (auto intro!: item_basics split: option.splits)
  ultimately show "R w (snd (sink w tr))" by (simp add: keeps_def)
next
  fix save :: "'q rst \<Rightarrow> transaction \<Rightarrow> (pyexc + unit) \<times> 'q rst" and w :: "'q rst" and t :: transaction
  assume "env_checkpoint (engine_env E item X) = Some save"
  then show "R w (snd (save w t))" using R_checkpoint_of [of item t] by (auto simp: engine_env_def keeps_def)
qed

context item_relation
begin

lemma R_run_engine: "keeps R (run_engine E item t)"
proof -
  have "R s (snd (run_engine E item t s))" for s
  proof -
    let ?s = "s\<lparr>rs_tick := Suc (rs_tick s)\<rparr>"
    let ?st = "\<lparr>es_tx = t, es_tick = 0, es_slept = [], es_world = ?s\<rparr>"
    let ?u = "snd (engine_run (re_engine E) (engine_env E item (re_env E (rs_tick s))) ?st)"
    have "R s ?s" by (simp add: R_frame)
    moreover have "R ?s (es_world ?u)" using world.run.R_engine_run [where s = ?st] by simp
    moreover have "R (es_world ?u) ((es_world ?u)\<lparr>rs_slept := rs_slept (es_world ?u) @ es_slept ?u\<rparr>)"
      by (simp add: R_frame)
    ultimately show ?thesis
      by (auto simp: run_engine_def bnd_def reading_def split: prod.splits intro: R_trans)
  qed
  then show ?thesis by (rule keepsI)
qed

lemma R_executed: "keeps R (executed_item E item)"
  unfolding executed_item_def after_run_def
  by (auto intro!: item_basics R_recorded R_transaction R_run_engine R_raise_if_failed split: sum.splits)

lemma R_complete_retries: "keeps R (complete_queue_item_with_retries E item)"
  unfolding complete_queue_item_with_retries_def by (intro item_basics)

lemma R_fail_retries: "keeps R (fail_queue_item_with_retries E item b)"
  unfolding fail_queue_item_with_retries_def by (intro item_basics)

end

locale runner_relation = item_relation +
  assumes R_summary: "\<And>f. keeps R (upd_summary f)"
begin

lemma R_settled: "keeps R (settled_item E x)"
  unfolding settled_item_def completed_item_def failed_item_def
  by (auto intro!: item_basics R_summary R_beats R_complete_retries R_fail_retries
      split: option.splits sum.splits)

lemma R_claimed: "keeps R (run_claimed_item E item)"
  unfolding run_claimed_item_def run_claimed_item_with_context_def
  by (intro keeps_thn keeps_lift keeps_bnd R_executed R_lease_checked R_reported R_called_back R_settled)

lemma R_with_heartbeat:
  assumes "keeps R m"
  shows "keeps R (with_heartbeat E item m)"
proof (rule keepsI)
  fix s :: "'a rst"
  let ?s = "s\<lparr>rs_beat_error := None\<rparr>"
  obtain r t where m: "m ?s = (r, t)" by (cases "m ?s")
  have "R s ?s" by (simp add: R_frame)
  moreover have "R ?s t" by (rule keepsD [OF assms m])
  moreover have "R t (snd (beats E item t))" using R_beats by (simp add: keeps_def)
  ultimately show "R s (snd (with_heartbeat E item m s))"
    by (auto simp: with_heartbeat_def m intro: R_trans)
qed

lemma R_items: "keeps R (run_items fuel E)"
proof (induction fuel)
  case (Suc fuel)
  then show ?case
    by (auto simp: next_item_with_retries_def intro!: keeps_bnd keeps_thn keeps_ret R_next R_summary
        R_with_heartbeat R_claimed split: option.splits)
qed (simp add: keeps_ret)

end

section \<open>The loop and its scope\<close>

text \<open>A resource scope whose methods keep the relation.\<close>

definition scope_keeps :: "('q rst \<Rightarrow> 'q rst \<Rightarrow> bool) \<Rightarrow> 'q rst scope option \<Rightarrow> bool" where
  "scope_keeps R scope \<longleftrightarrow> (case scope of None \<Rightarrow> True
     | Some sc \<Rightarrow> keeps R (sc_enter sc) \<and> (\<forall>e. keeps R (sc_exit sc e)))"

locale loop_relation = runner_relation +
  assumes R_calls: "\<And>c. keeps R (note_call c)"
begin

lemma R_scope_failed:
  assumes "keeps R (sc_exit scope (Some e))"
  shows "keeps R (scope_failed scope e)"
  unfolding scope_failed_def leave_scope_def
  by (auto intro!: item_basics R_calls assms)

lemma R_queue_run:
  assumes "scope_keeps R scope"
  shows "keeps R (queue_run fuel E scope)"
proof -
  have scoped: "keeps R (scoped_items fuel E sc)" if sc: "scope = Some sc" for sc
  proof -
    have enter: "keeps R (sc_enter sc)" and leave: "\<And>e. keeps R (sc_exit sc e)"
      using assms by (auto simp: scope_keeps_def sc)
    have body: "keeps R (thn (lift_res (scope_resources y)) (run_items fuel E))" for y
      by (intro keeps_thn keeps_lift R_items)
    have rest: "keeps R (\<lambda>s. case thn (lift_res (scope_resources y)) (run_items fuel E) s of
         (Inl e, t) \<Rightarrow> scope_failed sc e t
       | (Inr r, t) \<Rightarrow> thn (leave_scope sc None) (ret r) t)" for y
    proof (rule keepsI)
      fix s
      obtain r t where b: "thn (lift_res (scope_resources y)) (run_items fuel E) s = (r, t)"
        by (cases "thn (lift_res (scope_resources y)) (run_items fuel E) s")
      have st: "R s t" by (rule keepsD [OF body b])
      have "R t (snd (scope_failed sc e t))" for e using R_scope_failed [OF leave] by (simp add: keeps_def)
      moreover have "keeps R (thn (leave_scope sc None) (ret r'))" for r' :: "unit option"
        unfolding leave_scope_def by (intro item_basics R_calls leave)
      then have "R t (snd (thn (leave_scope sc None) (ret r') t))" for r' :: "unit option"
        by (simp add: keeps_def)
      ultimately show "R s (snd (case thn (lift_res (scope_resources y)) (run_items fuel E) s of
         (Inl e, t) \<Rightarrow> scope_failed sc e t
       | (Inr r, t) \<Rightarrow> thn (leave_scope sc None) (ret r) t))"
        using st by (cases r) (auto simp: b intro: R_trans)
    qed
    show ?thesis unfolding scoped_items_def by (intro keeps_bnd keeps_thn enter R_calls rest)
  qed
  show ?thesis
    unfolding queue_run_def require_sqlite_queue_def
    by (cases scope) (auto intro!: item_basics R_items scoped)
qed

lemma R_queue_loop:
  assumes "scope_keeps R scope"
  shows "keeps R (run_queue_loop fuel E scope on_finish)"
proof (rule keepsI)
  fix s
  obtain r t where q: "queue_run fuel E scope s = (r, t)" by (cases "queue_run fuel E scope s")
  have st: "R s t" by (rule keepsD [OF R_queue_run [OF assms] q])
  have "keeps R (bnd (case on_finish of None \<Rightarrow> lift_res r | Some callback \<Rightarrow> finished_with callback r)
     (\<lambda>finished. bnd get_st (\<lambda>u. ret (map_option (\<lambda>_. rs_summary u) finished))))"
    unfolding finished_with_def
    by (auto intro!: item_basics R_calls R_summary split: option.splits sum.splits)
  then have "R t (snd (bnd (case on_finish of None \<Rightarrow> lift_res r | Some callback \<Rightarrow> finished_with callback r)
     (\<lambda>finished. bnd get_st (\<lambda>u. ret (map_option (\<lambda>_. rs_summary u) finished))) t))"
    by (simp add: keeps_def)
  with st show "R s (snd (run_queue_loop fuel E scope on_finish s))"
    by (auto simp: run_queue_loop_def q intro: R_trans)
qed

end

section \<open>Relations between stores\<close>

text \<open>
  The contract of the services: every operation keeps a relation between the stores. Then the whole
  runner keeps it.
\<close>

locale service_contract = step_relation Q
  for Q :: "'q \<Rightarrow> 'q \<Rightarrow> bool" and E :: "'q renv" +
  assumes next_item_keeps: "\<And>n w. keeps Q (sv_next_item (re_services E) n w)"
    and renew_keeps: "\<And>n i w k. keeps Q (sv_renew_lease (re_services E) n i w k)"
    and complete_keeps: "\<And>n i w k. keeps Q (sv_complete (re_services E) n i w k)"
    and fail_keeps: "\<And>n i b w k. keeps Q (sv_fail (re_services E) n i b w k)"
    and save_keeps: "\<And>n t i w k v b. keeps Q (sv_save_fenced (re_services E) n t i w k v b)"
    and load_keeps: "\<And>n i. keeps Q (sv_load (re_services E) n i)"
    and prepare_keeps: "\<And>n. keeps Q (sv_prepare (re_services E) n)"
begin

lemma service_keeps:
  assumes "\<And>n. keeps Q (m n)"
  shows "keeps (\<lambda>s t. Q (rs_store s) (rs_store t)) (call_service m)"
proof (rule keepsI)
  fix s :: "'q rst"
  show "Q (rs_store s) (rs_store (snd (call_service m s)))"
    using assms [of "rs_tick s", unfolded keeps_def, rule_format, of "rs_store s"]
    by (auto simp: call_service_def split: prod.splits)
qed

lemma notes_keep:
  "keeps (\<lambda>s t. Q (rs_store s) (rs_store t)) (note_call c)"
  "keeps (\<lambda>s t. Q (rs_store s) (rs_store t)) (upd_summary f)"
  by (simp_all add: keeps_def note_call_def upd_summary_def upd_st_def R_refl)

end

sublocale service_contract \<subseteq> loop: loop_relation "\<lambda>s t. Q (rs_store s) (rs_store t)" E
  by unfold_locales
    (auto intro: R_refl R_trans notes_keep service_keeps next_item_keeps renew_keeps complete_keeps
      fail_keeps save_keeps load_keeps prepare_keeps)

end
