(* ===== verification/RunnerStore.thy ===== *)
theory RunnerStore
  imports RunnerProps StoreSteps
begin

text \<open>
  The runner on the built-in queue and the SQLite transaction store: \<open>sqlite_services\<close> is the interface
  of the runner implemented by the operations of the two stores. Other processes commit their own
  transactions before each call, and a call may raise instead (a lock, a full disk) before it
  changes anything. The transactions inside one claim are not interrupted here; the queue theories
  treat that.
\<close>

section \<open>The services of the two stores\<close>

record store_env =
  se_cfg :: queue_cfg
  se_clock :: "nat \<Rightarrow> nat \<Rightarrow> int"
  se_uuid :: "nat \<Rightarrow> nat \<Rightarrow> string"
  se_hostname :: string
  se_other :: "nat \<Rightarrow> cdb \<Rightarrow> cdb"
  se_fault :: "nat \<Rightarrow> pyexc option"

definition in_store :: "store_env \<Rightarrow> nat \<Rightarrow> (cdb, pyexc, 'a) effect \<Rightarrow> (cdb, pyexc, 'a) effect" where
  "in_store K n m = (\<lambda>s. case se_fault K n of
     Some e \<Rightarrow> (Inl e, se_other K n s) | None \<Rightarrow> m (se_other K n s))"

definition claim_env :: "store_env \<Rightarrow> nat \<Rightarrow> qenv" where
  "claim_env K n = \<lparr>qn_cfg = se_cfg K, qn_clock = se_clock K n, qn_uuid = se_uuid K n,
     qn_hostname = se_hostname K, qn_other = (\<lambda>_ db. db)\<rparr>"

text \<open>As many rounds as there are items are enough.\<close>

definition sqlite_next_item :: "store_env \<Rightarrow> nat \<Rightarrow> string \<Rightarrow> (qdb, pyexc, queue_item option) effect" where
  "sqlite_next_item K n worker = (\<lambda>db.
     case next_item (Suc (length (q_items db))) (claim_env K n) worker \<lparr>qn_db = db, qn_tick = 0\<rparr> of
       (r, s) \<Rightarrow> (map_sum id (\<lambda>found. Option.bind found id) r, qn_db s))"

definition store_now :: "store_env \<Rightarrow> nat \<Rightarrow> int" where
  "store_now K n = se_clock K n 0"

definition sqlite_services :: "store_env \<Rightarrow> cdb services" where
  "sqlite_services K =
     \<lparr>sv_next_item = (\<lambda>n worker. in_store K n (on_queue (sqlite_next_item K n worker))),
      sv_renew_lease = (\<lambda>n i w k. in_store K n (on_queue (renew_lease (store_now K n) i w k))),
      sv_complete = (\<lambda>n i w k. in_store K n (on_queue (complete (store_now K n) i w k))),
      sv_fail = (\<lambda>n i retry w k. in_store K n (on_queue
        (bnd (fail (se_cfg K) (store_now K n) i retry w k) (\<lambda>outcome. ret (Some outcome))))),
      sv_save_fenced = (\<lambda>n t i w k revision initial. in_store K n
        (save_queue_transaction_fenced (utc_datetime (store_now K n)) t i w k revision initial)),
      sv_load = (\<lambda>n i. in_store K n (on_tx (load_transaction_with_revision (utc_datetime (store_now K n)) i))),
      sv_prepare = (\<lambda>n. in_store K n (ret ())),
      sv_sqlite = True\<rparr>"

section \<open>Their steps\<close>

lemma csteps_refl [simp]: "csteps C s s"
  by (simp add: csteps_def)

lemma csteps_trans: "csteps C a b \<Longrightarrow> csteps C b c \<Longrightarrow> csteps C a c"
  by (simp add: csteps_def)

lemma csteps_one: "cstep C a b \<Longrightarrow> csteps C a b"
  by (simp add: csteps_def)

lemma csteps_queue: "qsteps C True (c_queue s) q \<Longrightarrow> csteps C s (s\<lparr>c_queue := q\<rparr>)"
  unfolding qsteps_def
proof (induction rule: rtranclp_induct)
  case (step u v)
  have "cstep C (s\<lparr>c_queue := u\<rparr>) (s\<lparr>c_queue := u\<rparr>\<lparr>c_queue := v\<rparr>)"
    by (rule c_queue) (simp add: step.hyps)
  then show ?case using step.IH csteps_one csteps_trans by fastforce
qed simp

definition fair_store :: "store_env \<Rightarrow> bool" where
  "fair_store K \<longleftrightarrow> (\<forall>n j. se_uuid K n j \<noteq> []) \<and> (\<forall>n s. csteps (se_cfg K) s (se_other K n s))"

lemma in_store_steps:
  assumes "fair_store K" "\<And>s. csteps (se_cfg K) s (snd (m s))"
  shows "csteps (se_cfg K) s (snd (in_store K n m s))"
proof -
  have other: "csteps (se_cfg K) s (se_other K n s)" using assms(1) by (simp add: fair_store_def)
  show ?thesis
    using other csteps_trans [OF other assms(2)] by (cases "se_fault K n") (simp_all add: in_store_def)
qed

lemma on_queue_steps:
  "(\<And>db. qsteps C True db (snd (m db))) \<Longrightarrow> csteps C s (snd (on_queue m s))"
  using csteps_queue [of C s "snd (m (c_queue s))"] by (simp add: on_queue_def case_prod_beta)

lemma sqlite_next_item_steps:
  assumes "fair_store K"
  shows "qsteps (se_cfg K) True db (snd (sqlite_next_item K n worker db))"
proof -
  have "fair_env True (claim_env K n)" using assms by (simp add: fair_env_def claim_env_def fair_store_def)
  from keepsD [OF next_item_steps [OF this] surjective_pairing]
  have "nst_steps (se_cfg K) True \<lparr>qn_db = db, qn_tick = 0\<rparr> (snd (next_item (Suc (length (q_items db)))
      (claim_env K n) worker \<lparr>qn_db = db, qn_tick = 0\<rparr>))"
    by (simp add: claim_env_def)
  then show ?thesis by (simp add: nst_steps_def sqlite_next_item_def case_prod_beta)
qed

lemma load_keeps_store: "snd (load_transaction_with_revision now i db) = db"
  by (auto simp: load_transaction_with_revision_def bnd_def get_st_def lift_res_def ret_def split: sum.splits)

text \<open>The contract, for a runner on these services.\<close>

definition runner_steps :: "store_env \<Rightarrow> cdb renv \<Rightarrow> cdb \<Rightarrow> cdb \<Rightarrow> bool" where
  "runner_steps K E s t \<longleftrightarrow>
     (fair_store K \<and> re_services E = sqlite_services K \<longrightarrow> csteps (se_cfg K) s t)"

lemma runner_keepsI:
  "(\<And>s. fair_store K \<Longrightarrow> re_services E = sqlite_services K \<Longrightarrow> csteps (se_cfg K) s (snd (m s))) \<Longrightarrow>
   keeps (runner_steps K E) m"
  by (simp add: keeps_def runner_steps_def)

lemma queue_op_steps:
  assumes "fair_store K" "\<And>db. qstep (se_cfg K) True db (snd (m db))"
  shows "csteps (se_cfg K) s (snd (in_store K n (on_queue m) s))"
  by (intro in_store_steps assms(1) on_queue_steps qsteps_one assms(2))

lemma snd_bnd_ret: "snd (bnd m (\<lambda>x. ret (f x)) s) = snd (m s)"
  by (simp add: bnd_def ret_def split: prod.splits sum.splits)

interpretation sqlite: service_contract "runner_steps K E" E for K E
proof unfold_locales
  show "keeps (runner_steps K E) (sv_next_item (re_services E) n w)" for n w
    by (rule runner_keepsI)
      (simp add: sqlite_services_def in_store_steps on_queue_steps sqlite_next_item_steps)
  show "keeps (runner_steps K E) (sv_renew_lease (re_services E) n i w k)" for n i w k
    by (rule runner_keepsI) (simp add: sqlite_services_def queue_op_steps qstep.s_renew)
  show "keeps (runner_steps K E) (sv_complete (re_services E) n i w k)" for n i w k
    by (rule runner_keepsI) (simp add: sqlite_services_def queue_op_steps qstep.s_complete)
  show "keeps (runner_steps K E) (sv_fail (re_services E) n i b w k)" for n i b w k
    by (rule runner_keepsI) (simp add: sqlite_services_def queue_op_steps snd_bnd_ret qstep.s_fail)
  show "keeps (runner_steps K E) (sv_save_fenced (re_services E) n t i w k v b)" for n t i w k v b
    by (rule runner_keepsI) (simp add: sqlite_services_def in_store_steps csteps_one cstep.c_checkpoint)
  show "keeps (runner_steps K E) (sv_load (re_services E) n i)" for n i
    by (rule runner_keepsI)
      (simp add: sqlite_services_def in_store_steps on_tx_def case_prod_beta load_keeps_store)
  show "keeps (runner_steps K E) (sv_prepare (re_services E) n)" for n
    by (rule runner_keepsI) (simp add: sqlite_services_def in_store_steps ret_def)
qed (auto simp: runner_steps_def intro: csteps_trans)

end
