(* ===== verification/RunnerDemo.thy ===== *)
theory RunnerDemo
  imports RunnerStore EngineClaims StoreClaims
begin

text \<open>
  A small run of the queue runner on the built-in queue and store, for the witnesses of the runner's
  properties: one pending item, a transaction of one step, a worker \<open>w\<close>, no other process.
\<close>

definition demo_stores :: store_env where
  "demo_stores = \<lparr>se_cfg = demo_cfg, se_clock = (\<lambda>_ _. 7), se_uuid = (\<lambda>_ _. ''t''), se_hostname = ''h'',
     se_other = (\<lambda>_ s. s), se_fault = (\<lambda>_. None)\<rparr>"

definition demo_step_env :: "pyexc option \<Rightarrow> cdb rst env" where
  "demo_step_env raised = \<lparr>env_execute = demo_execute raised, env_checkpoint = None, env_sink = None,
     env_fields = [], env_clock = (\<lambda>n. DateTime (1000 + int n) (Some 0)), env_uuid = (\<lambda>n. ''u''),
     env_screenshot = (\<lambda>n. Inr ''shot.png'')\<rparr>"

definition demo_build :: "nat \<Rightarrow> queue_item \<Rightarrow> pyexc + transaction" where
  "demo_build n item = Inr ((demo_tx [demo_step ''check'' 1 PENDING []])\<lparr>tx_definition_identity := ''v1''\<rparr>)"

text \<open>The runner whose step raises \<open>raised\<close>; with or without the transaction store.\<close>

definition demo_runner :: "bool \<Rightarrow> pyexc option \<Rightarrow> cdb renv" where
  "demo_runner durable raised = \<lparr>re_services = sqlite_services demo_stores, re_engine = demo_engine,
     re_env = (\<lambda>_. demo_step_env raised), re_sink = None, re_beats = (\<lambda>_. 0), re_clock = (\<lambda>_. demo_time),
     re_stop = (\<lambda>_. False), re_build = demo_build, re_report = (\<lambda>_ _. None), re_notifiers = [''ConsoleNotifier''],
     re_send = (\<lambda>_ _. None), re_after_item = Some (\<lambda>_ _ _ _. None), re_retry_business = False,
     re_durable = durable, re_worker = ''w''\<rparr>"

definition demo_state :: "qdb \<Rightarrow> cdb rst" where
  "demo_state q = \<lparr>rs_store = \<lparr>c_tx = empty_txdb, c_queue = q\<rparr>, rs_tick = 0, rs_slept = [],
     rs_summary = empty_summary, rs_revision = 0, rs_beat_error = None, rs_calls = []\<rparr>"

definition demo_claim :: queue_item where
  "demo_claim = (demo_item ''a'')\<lparr>qi_status := QS_IN_PROGRESS, qi_claimed_by := ''w'',
     qi_claimed_at := Some (utc_datetime 5), qi_claim_token := ''t''\<rparr>"

end
