(* ===== verification/RunnerClaims.thy ===== *)
theory RunnerClaims
  imports RunnerDemo
begin

text \<open>
  The properties of the runner: what its summary counts, the order of its callbacks, and what it may
  do to the stores.
\<close>

section \<open>The summary\<close>

text \<open>\<open>d\<close> claims are neither completed nor failed yet.\<close>

definition balanced :: "nat \<Rightarrow> run_summary \<Rightarrow> bool" where
  "balanced d m \<longleftrightarrow> sm_processed m = sm_completed m + sm_failed m + d \<and>
     sm_failed m = sm_retry_scheduled m + sm_terminal_failed m + sm_lease_lost m + sm_transition_unknown m \<and>
     sm_callback_errors m \<le> sm_completed m"


definition same_counts :: "'q rst \<Rightarrow> 'q rst \<Rightarrow> bool" where
  "same_counts s t \<longleftrightarrow> outcome_counts (rs_summary t) = outcome_counts (rs_summary s)"

lemma same_counts_D:
  assumes "same_counts s t"
  shows "balanced d (rs_summary s) \<Longrightarrow> balanced d (rs_summary t)"
    "sm_lease_lost (rs_summary t) = sm_lease_lost (rs_summary s)"
  using assms by (simp_all add: same_counts_def outcome_counts_def balanced_def)

interpretation counts: item_relation same_counts E for E
  by unfold_locales
    (auto simp: same_counts_def keeps_def note_call_def upd_st_def call_service_def split: prod.splits)

text \<open>What the final transition adds to the summary; \<open>b\<close> says that the loop goes on.\<close>

definition outcome_of_item :: "bool \<Rightarrow> (run_summary \<Rightarrow> run_summary) \<Rightarrow> bool" where
  "outcome_of_item b f \<longleftrightarrow> (\<not> b \<and> f = count_lease_lost) \<or>
     (b \<and> ((\<exists>failed. f = count_completed failed) \<or> (\<exists>outcome. f = count_failed outcome)))"

lemma outcome_balances:
  "outcome_of_item b f \<Longrightarrow> balanced (Suc d) m \<Longrightarrow> balanced d (f m) \<and>
     sm_lease_lost (f m) = sm_lease_lost m + (if b then 0 else 1)"
  by (auto simp: outcome_of_item_def balanced_def count_lease_lost_def count_completed_def count_failed_def Let_def)

lemma summary_then:
  "thn (upd_summary f) (ret b) s = (Inr b, s\<lparr>rs_summary := f (rs_summary s)\<rparr>)"
  by (simp add: thn_def bnd_def upd_summary_def upd_st_def ret_def)

lemma settled_Inr:
  assumes "settled_item E x s = (Inr b, t)"
  shows "\<exists>u f. same_counts s u \<and> outcome_of_item b f \<and> t = u\<lparr>rs_summary := f (rs_summary u)\<rparr>"
proof (cases "ir_lease_lost x")
  case True
  with assms show ?thesis
    by (intro exI [of _ s] exI [of _ count_lease_lost])
      (auto simp: settled_item_def summary_then outcome_of_item_def same_counts_def)
next
  case live: False
  show ?thesis
  proof (cases "ir_complete x")
    case True
    with assms live obtain u1 e u2 where "beats E (ir_item x) s = (Inr (), u1)"
      "complete_queue_item_with_retries E (ir_item x) u1 = (Inr e, u2)"
      and last: "(case e of
         Some e \<Rightarrow> if is_lease_lost e then thn (upd_summary count_lease_lost) (ret False) else raise_exc e
       | None \<Rightarrow> thn (upd_summary (count_completed (ir_callback_failed x))) (ret True)) u2 = (Inr b, t)"
      by (auto simp: settled_item_def completed_item_def thn_Inr bnd_Inr)
    then have "same_counts s u2"
      using keepsD [OF counts.R_beats] keepsD [OF counts.R_complete_retries] counts.R_trans by metis
    then show ?thesis
      using last by (intro exI [of _ u2])
        (auto simp: summary_then raise_exc_def outcome_of_item_def split: option.splits if_splits)
  next
    case False
    with assms live obtain u1 e u2 where "beats E (ir_item x) s = (Inr (), u1)"
      "fail_queue_item_with_retries E (ir_item x) (queue_retry (re_retry_business E) x) u1 = (Inr e, u2)"
      and last: "(case e of
         Inl e \<Rightarrow> if is_lease_lost e then thn (upd_summary count_lease_lost) (ret False) else raise_exc e
       | Inr outcome \<Rightarrow> thn (upd_summary (count_failed outcome)) (ret True)) u2 = (Inr b, t)"
      by (auto simp: settled_item_def failed_item_def thn_Inr bnd_Inr)
    then have "same_counts s u2"
      using keepsD [OF counts.R_beats] keepsD [OF counts.R_fail_retries] counts.R_trans by metis
    then show ?thesis
      using last by (intro exI [of _ u2])
        (auto simp: summary_then raise_exc_def outcome_of_item_def split: sum.splits if_splits)
  qed
qed

text \<open>A transition that raises counts nothing.\<close>

definition counts_on_raise :: "('q rst, pyexc, 'a) effect \<Rightarrow> bool" where
  "counts_on_raise m \<longleftrightarrow> (\<forall>s e t. m s = (Inl e, t) \<longrightarrow> same_counts s t)"

lemma raise_bnd:
  assumes "keeps same_counts m" "\<And>a. counts_on_raise (f a)"
  shows "counts_on_raise (bnd m f)"
proof -
  have "same_counts s t" if "bnd m f s = (Inl e, t)" for s e t
    using that assms keepsD [OF assms(1)] counts.R_trans unfolding bnd_Inl counts_on_raise_def by metis
  then show ?thesis by (simp add: counts_on_raise_def)
qed

lemma raise_thn: "keeps same_counts m \<Longrightarrow> counts_on_raise n \<Longrightarrow> counts_on_raise (thn m n)"
  by (simp add: thn_def raise_bnd)

lemma raise_last:
  "counts_on_raise (raise_exc e)" "counts_on_raise (thn (upd_summary f) (ret b))"
  by (auto simp: counts_on_raise_def raise_exc_def summary_then same_counts_def)

lemma settled_raise: "counts_on_raise (settled_item E x)"
  unfolding settled_item_def completed_item_def failed_item_def
  by (auto intro!: raise_thn raise_bnd raise_last counts.R_beats counts.R_complete_retries
      counts.R_fail_retries split: option.splits sum.splits)

lemma claimed_parts:
  "keeps same_counts (executed_item E item)" "keeps same_counts (lease_checked E x)"
  "keeps same_counts (reported E x)" "keeps same_counts (called_back E x)"
  by (rule counts.R_executed counts.R_lease_checked counts.R_reported counts.R_called_back)+

lemma claimed_raise: "counts_on_raise (run_claimed_item E item)"
  unfolding run_claimed_item_def run_claimed_item_with_context_def
  by (intro raise_thn raise_bnd claimed_parts settled_raise counts.keeps_lift)

lemma claimed_Inr:
  assumes "run_claimed_item E item s = (Inr b, t)"
  shows "\<exists>u f. same_counts s u \<and> outcome_of_item b f \<and> t = u\<lparr>rs_summary := f (rs_summary u)\<rparr>"
proof -
  from assms obtain x1 u1 x2 u2 x3 u3 x4 u4 x5 u5 where
    "executed_item E item s = (Inr x1, u1)" "lease_checked E x1 u1 = (Inr x2, u2)"
    "reported E x2 u2 = (Inr x3, u3)" "called_back E x3 u3 = (Inr x4, u4)"
    "lease_checked E x4 u4 = (Inr x5, u5)" and last: "settled_item E x5 u5 = (Inr b, t)"
    by (auto simp: run_claimed_item_def run_claimed_item_with_context_def thn_Inr lift_res_def bnd_Inr)
  then have "same_counts s u5"
    using keepsD [OF claimed_parts(1)] keepsD [OF claimed_parts(2)] keepsD [OF claimed_parts(3)]
      keepsD [OF claimed_parts(4)] counts.R_trans by metis
  moreover from settled_Inr [OF last] obtain u f where
    "same_counts u5 u" "outcome_of_item b f" "t = u\<lparr>rs_summary := f (rs_summary u)\<rparr>" by blast
  ultimately show ?thesis using counts.R_trans by blast
qed

lemma item_balances:
  assumes run: "with_heartbeat E item (run_claimed_item E item) s = (r, t)"
    and bal: "balanced (Suc d) (rs_summary s)"
  shows "case r of Inl _ \<Rightarrow> balanced (Suc d) (rs_summary t) \<and> sm_lease_lost (rs_summary t) = sm_lease_lost (rs_summary s)
    | Inr b \<Rightarrow> balanced d (rs_summary t) \<and>
        sm_lease_lost (rs_summary t) = sm_lease_lost (rs_summary s) + (if b then 0 else 1)"
proof -
  let ?s = "s\<lparr>rs_beat_error := None\<rparr>"
  obtain v where v: "run_claimed_item E item ?s = (r, v)" and t: "t = snd (beats E item v)"
    using run by (auto simp: with_heartbeat_def split: prod.splits)
  have vt: "same_counts v t" unfolding t by (rule keepsD [OF counts.R_beats surjective_pairing])
  show ?thesis
  proof (cases r)
    case (Inl e)
    then have "same_counts ?s v" using claimed_raise [of E item] v by (auto simp: counts_on_raise_def)
    then have st: "same_counts ?s t" using vt counts.R_trans by blast
    have "balanced (Suc d) (rs_summary t)" by (rule same_counts_D(1) [OF st]) (use bal in simp)
    then show ?thesis using same_counts_D(2) [OF st] by (simp add: Inl)
  next
    case (Inr b)
    with v obtain u f where u: "same_counts ?s u" "outcome_of_item b f" "v = u\<lparr>rs_summary := f (rs_summary u)\<rparr>"
      using claimed_Inr by blast
    have bu: "balanced (Suc d) (rs_summary u)" by (rule same_counts_D(1) [OF u(1)]) (use bal in simp)
    have lu: "sm_lease_lost (rs_summary u) = sm_lease_lost (rs_summary s)"
      using same_counts_D(2) [OF u(1)] by simp
    have "balanced d (rs_summary v)"
        "sm_lease_lost (rs_summary v) = sm_lease_lost (rs_summary s) + (if b then 0 else 1)"
      using outcome_balances [OF u(2) bu] lu by (simp_all add: u(3))
    then show ?thesis using same_counts_D [OF vt] by (simp add: Inr)
  qed
qed

lemma items_balance:
  assumes "run_items fuel E s = (r, t)" "balanced 0 (rs_summary s)"
  shows "(case r of Inl _ \<Rightarrow> balanced 0 (rs_summary t) \<or> balanced 1 (rs_summary t) | Inr _ \<Rightarrow> balanced 0 (rs_summary t)) \<and>
    sm_lease_lost (rs_summary t) \<le> sm_lease_lost (rs_summary s) + 1"
  using assms
proof (induction fuel arbitrary: s)
  case 0
  then show ?case by (auto simp: ret_def)
next
  case (Suc fuel)
  obtain q u where q: "next_item_with_retries E s = (q, u)" by (cases "next_item_with_retries E s")
  have su: "same_counts s u"
    using keepsD [OF counts.R_next] q by (auto simp: next_item_with_retries_def)
  note bu = same_counts_D(1) [OF su Suc.prems(2)] and lu = same_counts_D(2) [OF su]
  show ?case
  proof (cases "\<exists>item. q = Inr (Some item)")
    case False
    with Suc.prems(1) q have "t = u"
      by (auto simp: bnd_def ret_def split: sum.splits option.splits)
    with bu lu show ?thesis by (auto split: sum.split)
  next
    case True
    then obtain item where item: "q = Inr (Some item)" by blast
    let ?u = "u\<lparr>rs_summary := (rs_summary u)\<lparr>sm_processed := Suc (sm_processed (rs_summary u))\<rparr>\<rparr>"
    obtain p v where p: "with_heartbeat E item (run_claimed_item E item) ?u = (p, v)"
      by (cases "with_heartbeat E item (run_claimed_item E item) ?u")
    have "balanced (Suc 0) (rs_summary ?u)" using bu by (simp add: balanced_def)
    note bal = item_balances [OF p this]
    have run: "run_items (Suc fuel) E s = (case p of Inl e \<Rightarrow> (Inl e, v)
        | Inr b \<Rightarrow> if b then run_items fuel E v else (Inr (Some ()), v))"
      by (simp add: bnd_def thn_def q item upd_summary_def upd_st_def p ret_def split: sum.split prod.split)
    show ?thesis
    proof (cases p)
      case (Inl e)
      with run Suc.prems(1) bal lu show ?thesis by auto
    next
      case (Inr b)
      show ?thesis
      proof (cases b)
        case True
        with run Inr Suc.prems(1) have "run_items fuel E v = (r, t)" by simp
        from Suc.IH [OF this] bal lu True Inr show ?thesis by simp
      next
        case False
        with run Inr Suc.prems(1) bal lu show ?thesis by auto
      qed
    qed
  qed
qed

text \<open>The parts of a run: before the items, the items, and the scope.\<close>

definition opening_of :: "'q renv \<Rightarrow> ('q rst, pyexc, unit) effect" where
  "opening_of E = (if re_durable E
     then thn (require_sqlite_queue E) (call_service (sv_prepare (re_services E))) else ret ())"

lemma opening_counts: "keeps same_counts (opening_of E)"
  unfolding opening_of_def require_sqlite_queue_def by (auto intro!: counts.item_basics)

lemma note_counts: "keeps same_counts (note_call c)"
  by (simp add: keeps_def note_call_def upd_st_def same_counts_def)

lemma scope_failed_counts: "keeps same_counts (sc_exit scope (Some e)) \<Longrightarrow> keeps same_counts (scope_failed scope e)"
  unfolding scope_failed_def leave_scope_def
  by (auto intro!: counts.item_basics note_counts)

definition nearly_balanced :: "'q rst \<Rightarrow> 'q rst \<Rightarrow> bool" where
  "nearly_balanced s t \<longleftrightarrow> (balanced 0 (rs_summary t) \<or> balanced 1 (rs_summary t)) \<and>
     sm_lease_lost (rs_summary t) \<le> sm_lease_lost (rs_summary s) + 1"

lemma nearly_same: "nearly_balanced s t \<Longrightarrow> same_counts s' s \<Longrightarrow> same_counts t t' \<Longrightarrow> nearly_balanced s' t'"
  using same_counts_D [of t t'] same_counts_D(2) [of s' s] by (auto simp: nearly_balanced_def)

lemma items_nearly:
  "run_items fuel E s = (r, t) \<Longrightarrow> balanced 0 (rs_summary s) \<Longrightarrow> nearly_balanced s t"
  using items_balance [of fuel E s r t] by (auto simp: nearly_balanced_def split: sum.splits)

lemma scoped_balance:
  assumes run: "scoped_items fuel E sc s = (r, t)" and bal: "balanced 0 (rs_summary s)"
    and sc: "keeps same_counts (sc_enter sc)" "\<And>e. keeps same_counts (sc_exit sc e)"
  shows "nearly_balanced s t"
proof -
  obtain y u where u: "sc_enter sc s = (y, u)" by (cases "sc_enter sc s")
  have su: "same_counts s u" by (rule keepsD [OF sc(1) u])
  show ?thesis
  proof (cases y)
    case (Inl e)
    with run u have "t = u" by (simp add: scoped_items_def bnd_def)
    then show ?thesis using same_counts_D [OF su] bal by (simp add: nearly_balanced_def)
  next
    case (Inr yielded)
    let ?u = "u\<lparr>rs_calls := rs_calls u @ [ScopeEntered]\<rparr>"
    have su': "same_counts s ?u" using su by (simp add: same_counts_def)
    obtain q w where q: "thn (lift_res (scope_resources yielded)) (run_items fuel E) ?u = (q, w)"
      by (cases "thn (lift_res (scope_resources yielded)) (run_items fuel E) ?u")
    have end': "(case q of Inl e \<Rightarrow> scope_failed sc e w | Inr r \<Rightarrow> thn (leave_scope sc None) (ret r) w) = (r, t)"
      using run by (simp add: scoped_items_def bnd_def thn_def note_call_def upd_st_def u Inr q [unfolded thn_def bnd_def])
    have bu: "balanced 0 (rs_summary ?u)" by (rule same_counts_D(1) [OF su' bal])
    have uw: "nearly_balanced ?u w"
    proof (cases "scope_resources yielded")
      case (Inl e)
      then have "w = ?u" using q by (simp add: thn_def bnd_def lift_res_def)
      then show ?thesis using bu by (simp add: nearly_balanced_def)
    next
      case (Inr names)
      then have "run_items fuel E ?u = (q, w)" using q by (simp add: thn_def bnd_def lift_res_def)
      then show ?thesis using bu by (rule items_nearly)
    qed
    have "same_counts w t"
    proof (cases q)
      case (Inl e)
      then show ?thesis using end' by (auto intro: keepsD [OF scope_failed_counts [OF sc(2)]])
    next
      case (Inr x)
      have "keeps same_counts (thn (leave_scope sc None) (ret x))"
        unfolding leave_scope_def by (intro counts.item_basics sc note_counts)
      then show ?thesis using end' Inr by (auto intro: keepsD)
    qed
    from nearly_same [OF uw su' this] show ?thesis .
  qed
qed

lemma queue_run_parts:
  assumes "queue_run fuel E scope s = (r, t)"
  obtains (closed) e where "opening_of E s = (Inl e, t)" "r = Inl e"
  | (plain) u where "opening_of E s = (Inr (), u)" "scope = None" "run_items fuel E u = (r, t)"
  | (scoped) u sc where "opening_of E s = (Inr (), u)" "scope = Some sc" "scoped_items fuel E sc u = (r, t)"
proof -
  have run: "thn (opening_of E)
      (case scope of None \<Rightarrow> run_items fuel E | Some sc \<Rightarrow> scoped_items fuel E sc) s = (r, t)"
    using assms by (simp add: queue_run_def opening_of_def)
  obtain q u where q: "opening_of E s = (q, u)" by (cases "opening_of E s")
  show thesis
    using run closed plain scoped
    by (cases q; cases scope) (auto simp: thn_def bnd_def q)
qed

lemma queue_run_balance:
  assumes run: "queue_run fuel E scope s = (r, t)" and bal: "balanced 0 (rs_summary s)"
    and sc: "scope_keeps same_counts scope"
  shows "nearly_balanced s t \<and> (case r of Inl _ \<Rightarrow> True | Inr _ \<Rightarrow> scope = None \<longrightarrow> balanced 0 (rs_summary t))"
  using run
proof (cases rule: queue_run_parts)
  case (closed e)
  then have "same_counts s t" by (auto intro: keepsD [OF opening_counts])
  then show ?thesis using same_counts_D [of s t] bal closed by (auto simp: nearly_balanced_def)
next
  case (plain u)
  have su: "same_counts s u" by (rule keepsD [OF opening_counts plain(1)])
  have bu: "balanced 0 (rs_summary u)" by (rule same_counts_D(1) [OF su bal])
  show ?thesis
    using items_balance [OF plain(3) bu] nearly_same [OF items_nearly [OF plain(3) bu] su] counts.R_refl
    by (auto split: sum.splits)
next
  case (scoped u sc)
  have su: "same_counts s u" by (rule keepsD [OF opening_counts scoped(1)])
  have bu: "balanced 0 (rs_summary u)" by (rule same_counts_D(1) [OF su bal])
  have "nearly_balanced u t"
    by (rule scoped_balance [OF scoped(3) bu]) (use assms(3) scoped(2) in \<open>auto simp: scope_keeps_def\<close>)
  then show ?thesis using nearly_same [OF _ su counts.R_refl] scoped(2) by (auto split: sum.split)
qed

text \<open>\<open>on_finish\<close> changes no outcome counter.\<close>

definition closing_of ::
  "(run_summary \<Rightarrow> pyexc option) option \<Rightarrow> pyexc + unit option \<Rightarrow> ('q rst, pyexc, run_summary option) effect" where
  "closing_of on_finish r =
     bnd (case on_finish of None \<Rightarrow> lift_res r | Some callback \<Rightarrow> finished_with callback r)
       (\<lambda>finished. bnd get_st (\<lambda>u. ret (map_option (\<lambda>_. rs_summary u) finished)))"

lemma run_queue_loop_closing:
  "run_queue_loop fuel E scope on_finish s =
     (case queue_run fuel E scope s of (r, t) \<Rightarrow> closing_of on_finish r t)"
  by (simp add: run_queue_loop_def closing_of_def)

lemma closing_run:
  assumes "closing_of on_finish r u = (q, t)"
  shows "same_counts u t \<and> rs_store t = rs_store u \<and>
    rs_calls t = rs_calls u @ (if on_finish = None then [] else [OnFinish (rs_summary u)]) \<and>
    (\<forall>m. q = Inr (Some m) \<longrightarrow> m = rs_summary t \<and> r = Inr (Some ()))"
  using assms
  by (cases on_finish; cases r)
    (auto simp: closing_of_def finished_with_def bnd_def thn_def note_call_def upd_summary_def upd_st_def get_st_def
      ret_def lift_res_def raise_exc_def same_counts_def outcome_counts_def split: option.splits if_splits)

section \<open>The order of the callbacks\<close>

fun is_after_item :: "runner_call \<Rightarrow> bool" where
  "is_after_item (AfterItem _ _) = True"
| "is_after_item _ = False"

definition item_calls :: "'q rst \<Rightarrow> 'q rst \<Rightarrow> bool" where
  "item_calls s t \<longleftrightarrow> (\<exists>new. rs_calls t = rs_calls s @ new \<and> list_all is_after_item new)"

lemma item_calls_trans: "item_calls s t \<Longrightarrow> item_calls t u \<Longrightarrow> item_calls s u"
  by (force simp: item_calls_def)

interpretation calls: runner_relation item_calls E for E
  by unfold_locales
    (auto simp: item_calls_def keeps_def note_call_def upd_st_def upd_summary_def call_service_def
      intro: item_calls_trans [unfolded item_calls_def] split: prod.splits)

text \<open>The callbacks of the loop: those of the items, inside the entry and the exit of a scope.\<close>

definition bracketed :: "bool \<Rightarrow> runner_call list \<Rightarrow> bool" where
  "bracketed scoped xs \<longleftrightarrow>
     (if scoped then xs = [] \<or> (\<exists>items e. list_all is_after_item items \<and> xs = ScopeEntered # items @ [ScopeLeft e])
      else list_all is_after_item xs)"

definition same_calls :: "'q rst \<Rightarrow> 'q rst \<Rightarrow> bool" where
  "same_calls s t \<longleftrightarrow> rs_calls t = rs_calls s"

interpretation quiet: step_relation same_calls
  by unfold_locales (auto simp: same_calls_def)

lemma opening_calls: "keeps same_calls (opening_of E)"
  by (rule keepsI)
    (auto simp: opening_of_def require_sqlite_queue_def thn_def bnd_def ret_def raise_exc_def call_service_def
      same_calls_def split: prod.splits)

lemma leave_calls:
  assumes "keeps same_calls (sc_exit sc e)"
  shows "rs_calls (snd (leave_scope sc e s)) = rs_calls s @ [ScopeLeft e]"
proof -
  let ?u = "s\<lparr>rs_calls := rs_calls s @ [ScopeLeft e]\<rparr>"
  have "same_calls ?u (snd (sc_exit sc e ?u))" by (rule keepsD [OF assms surjective_pairing])
  then show ?thesis by (simp add: leave_scope_def thn_def bnd_def note_call_def upd_st_def same_calls_def)
qed

lemma scope_failed_calls:
  assumes "keeps same_calls (sc_exit sc (Some e))"
  shows "rs_calls (snd (scope_failed sc e s)) = rs_calls s @ [ScopeLeft (Some e)]"
  using leave_calls [OF assms, of s]
  by (auto simp: scope_failed_def thn_def bnd_def catch_exc_def raise_exc_def ret_def split: prod.splits sum.splits)

lemma scoped_calls:
  assumes run: "scoped_items fuel E sc s = (r, t)"
    and sc: "keeps same_calls (sc_enter sc)" "\<And>e. keeps same_calls (sc_exit sc e)"
  shows "\<exists>new. rs_calls t = rs_calls s @ new \<and> bracketed True new"
proof -
  obtain y u where u: "sc_enter sc s = (y, u)" by (cases "sc_enter sc s")
  have su: "rs_calls u = rs_calls s" using keepsD [OF sc(1) u] by (simp add: same_calls_def)
  show ?thesis
  proof (cases y)
    case (Inl e)
    with run u su show ?thesis
      by (intro exI [of _ "[]"]) (simp add: scoped_items_def bnd_def bracketed_def)
  next
    case (Inr yielded)
    let ?u = "u\<lparr>rs_calls := rs_calls u @ [ScopeEntered]\<rparr>"
    obtain q w where q: "thn (lift_res (scope_resources yielded)) (run_items fuel E) ?u = (q, w)"
      by (cases "thn (lift_res (scope_resources yielded)) (run_items fuel E) ?u")
    have end': "(case q of Inl e \<Rightarrow> scope_failed sc e w | Inr r \<Rightarrow> thn (leave_scope sc None) (ret r) w) = (r, t)"
      using run by (simp add: scoped_items_def bnd_def thn_def note_call_def upd_st_def u Inr q [unfolded thn_def bnd_def])
    have "item_calls ?u w"
      by (rule keepsD [OF calls.keeps_thn [OF calls.keeps_lift calls.R_items] q])
    then obtain items where items: "rs_calls w = rs_calls s @ ScopeEntered # items" "list_all is_after_item items"
      using su by (auto simp: item_calls_def)
    obtain e where "rs_calls t = rs_calls w @ [ScopeLeft e]"
    proof (cases q)
      case (Inl e)
      then have "scope_failed sc e w = (r, t)" using end' by simp
      then show thesis using that scope_failed_calls [OF sc(2), of e w] by simp
    next
      case (Inr x)
      then have "thn (leave_scope sc None) (ret x) w = (r, t)" using end' by simp
      then have "t = snd (leave_scope sc None w)"
        by (auto simp: thn_def bnd_def ret_def split: prod.splits sum.splits)
      then show thesis using that leave_calls [OF sc(2)] by simp
    qed
    with items show ?thesis by (auto simp: bracketed_def)
  qed
qed

lemma queue_run_calls:
  assumes run: "queue_run fuel E scope s = (r, t)" and sc: "scope_keeps same_calls scope"
  shows "\<exists>new. rs_calls t = rs_calls s @ new \<and> bracketed (scope \<noteq> None) new"
  using run
proof (cases rule: queue_run_parts)
  case (closed e)
  then have "rs_calls t = rs_calls s" using keepsD [OF opening_calls closed(1)] by (simp add: same_calls_def)
  then show ?thesis by (intro exI [of _ "[]"]) (simp add: bracketed_def)
next
  case (plain u)
  have "rs_calls u = rs_calls s" using keepsD [OF opening_calls plain(1)] by (simp add: same_calls_def)
  moreover have "item_calls u t" by (rule keepsD [OF calls.R_items plain(3)])
  ultimately show ?thesis by (auto simp: item_calls_def bracketed_def plain(2))
next
  case (scoped u sc)
  have "rs_calls u = rs_calls s" using keepsD [OF opening_calls scoped(1)] by (simp add: same_calls_def)
  with scoped_calls [OF scoped(3)] sc scoped(2) show ?thesis by (auto simp: scope_keeps_def)
qed

section \<open>Properties\<close>

text \<open>
  C17: the summary accounts for every claim: completed and failed items add up to the processed ones,
  the failed ones to retries, terminal failures, lease losses and unattested ones, at most one lease
  is lost, because the loop stops there, and at most one claim, the one an exception interrupted,
  is open.
\<close>

theorem summary_accounts_for_every_claim:
  assumes "balanced 0 (rs_summary s)" and "scope_keeps same_counts scope"
    and "run_queue_loop fuel E scope on_finish s = (r, t)"
  shows "nearly_balanced s t \<and>
    (\<forall>m. r = Inr (Some m) \<longrightarrow> m = rs_summary t \<and> (scope = None \<longrightarrow> balanced 0 m))"
proof -
  obtain q u where q: "queue_run fuel E scope s = (q, u)" by (cases "queue_run fuel E scope s")
  from assms(3) q have c: "closing_of on_finish q u = (r, t)" by (simp add: run_queue_loop_closing)
  have ut: "same_counts u t" using closing_run [OF c] by blast
  from queue_run_balance [OF q assms(1,2)] nearly_same [OF _ counts.R_refl ut] closing_run [OF c]
    same_counts_D(1) [OF ut]
  show ?thesis by auto
qed

theorem summary_accounts_for_every_claim_witness:
  "nearly_balanced (demo_state demo_added)
     (snd (run_queue_loop 3 (demo_runner True None) None None (demo_state demo_added)))"
proof -
  have "balanced 0 (rs_summary (demo_state demo_added))"
    by (simp add: balanced_def demo_state_def empty_summary_def)
  moreover have "scope_keeps same_counts None" by (simp add: scope_keeps_def)
  ultimately show ?thesis
    using summary_accounts_for_every_claim [OF _ _ surjective_pairing] by blast
qed

text \<open>
  C18: the callbacks come in order and as often as promised: \<open>on_finish\<close> last and exactly once, however
  the run ends, with the final counts; a scope that was entered is left exactly once, after the last
  item, and no item is processed outside it.
\<close>

theorem callbacks_are_bracketed:
  assumes "scope_keeps same_calls scope" and "run_queue_loop fuel E scope on_finish s = (r, t)"
  shows "\<exists>new m. bracketed (scope \<noteq> None) new \<and> outcome_counts m = outcome_counts (rs_summary t) \<and>
    rs_calls t = rs_calls s @ new @ (if on_finish = None then [] else [OnFinish m])"
proof -
  obtain q u where q: "queue_run fuel E scope s = (q, u)" by (cases "queue_run fuel E scope s")
  from assms(2) q have c: "closing_of on_finish q u = (r, t)" by (simp add: run_queue_loop_closing)
  from queue_run_calls [OF q assms(1)] closing_run [OF c] show ?thesis
    by (auto simp: same_counts_def intro!: exI [of _ "rs_summary u"])
qed

theorem callbacks_are_bracketed_witness:
  "\<exists>new m. bracketed False new \<and>
     rs_calls (snd (run_queue_loop 3 (demo_runner True None) None (Some (\<lambda>_. None)) (demo_state demo_added))) =
       new @ [OnFinish m]"
proof -
  have "scope_keeps same_calls None" by (simp add: scope_keeps_def)
  from callbacks_are_bracketed [OF this surjective_pairing, of 3 "demo_runner True None" "Some (\<lambda>_. None)"
      "demo_state demo_added"]
  show ?thesis by (auto simp: demo_state_def)
qed

end
