(* ===== verification/RunnerExamples.thy ===== *)
theory RunnerExamples
  imports RunnerClaims
begin

text \<open>
  Two items evaluated step by step, for the witnesses: one whose transaction cannot be built, which
  fails, and one whose transaction is stored as successful, which is completed.
\<close>

definition refusing_runner :: "cdb renv" where
  "refusing_runner = (demo_runner False None)\<lparr>re_build := (\<lambda>_ _. Inl (ValueErr ''bad payload'')),
     re_after_item := None, re_notifiers := []\<rparr>"

lemmas effect_defs = bnd_def thn_def ret_def raise_exc_def catch_exc_def lift_res_def get_st_def upd_st_def

definition small_runner :: "cdb renv \<Rightarrow> bool" where
  "small_runner E \<longleftrightarrow> re_services E = sqlite_services demo_stores \<and> re_beats E = (\<lambda>_. 0) \<and>
     re_after_item E = None \<and> re_report E = (\<lambda>_ _. None) \<and> re_notifiers E = []"

text \<open>A runner without callbacks, notifiers and renewals.\<close>

lemma small_beats: "small_runner E \<Longrightarrow> beats E item s = (Inr (), s\<lparr>rs_tick := Suc (rs_tick s)\<rparr>)"
  by (simp add: small_runner_def beats_def reading_def bnd_def ret_def)

lemma small_raise:
  "small_runner E \<Longrightarrow> rs_beat_error s = None \<Longrightarrow>
     raise_if_failed E item s = (Inr (), s\<lparr>rs_tick := Suc (rs_tick s)\<rparr>)"
  by (simp add: raise_if_failed_def small_beats effect_defs)

lemma retries_at_once:
  "m s = (Inr a, t) \<Longrightarrow> captured (with_sqlite_retries sleep m) s = (Inr (Inr a), t)"
  using retrying_once [of m s] by (simp add: with_sqlite_retries_def captured_def)

lemma demo_service:
  "call_service (\<lambda>n. in_store demo_stores n (on_queue (m n))) s =
     (case m (rs_tick s) (c_queue (rs_store s)) of (r, q) \<Rightarrow>
       (r, s\<lparr>rs_store := (rs_store s)\<lparr>c_queue := q\<rparr>, rs_tick := Suc (rs_tick s)\<rparr>))"
  by (simp add: call_service_def in_store_def on_queue_def demo_stores_def split: prod.split)

definition demo_claimed_row :: item_row where
  "demo_claimed_row = claimed_row ''w'' 5 ''t'' demo_row"

lemma demo_owned: "demo_claimed_row \<in> set (q_items demo_claimed)" "owns ''a'' ''w'' ''t'' demo_claimed_row"
  by (simp_all add: demo_claimed_row_def owns_def demo_defs)

lemma small_fail:
  assumes E: "small_runner E" and q: "c_queue (rs_store s) = demo_claimed"
    and item: "qi_id (ir_item x) = ''a''" "qi_claimed_by (ir_item x) = ''w''" "qi_claim_token (ir_item x) = ''t''"
  shows "\<exists>t. failed_item E x s = (Inr True, t)"
proof -
  let ?retry = "queue_retry (re_retry_business E) x" and ?s = "s\<lparr>rs_tick := Suc (rs_tick s)\<rparr>"
  let ?ao = "failed_outcome demo_cfg ?retry demo_claimed_row"
  let ?m = "call_service (\<lambda>n. sv_fail (re_services E) n ''a'' ?retry ''w'' ''t'')"
  obtain db where "fail demo_cfg 7 ''a'' ?retry ''w'' ''t'' demo_claimed = (Inr ?ao, db)"
    using fail_run_owned [OF qinv_ids [OF qinv_demo_claimed] demo_owned] by blast
  then have "\<exists>t. ?m ?s = (Inr (Some ?ao), t)"
    using E q by (simp add: small_runner_def sqlite_services_def store_now_def demo_stores_def
        call_service_def in_store_def on_queue_def bnd_def ret_def)
  then obtain t where "captured (with_sqlite_retries clock_sleep ?m) ?s = (Inr (Inr (Some ?ao)), t)"
    using retries_at_once [where m = ?m] by blast
  then have "fail_queue_item_with_retries E (ir_item x) ?retry ?s = (Inr (Inr (Some ?ao)), t)"
    by (simp add: fail_queue_item_with_retries_def bnd_def ret_def attested_failure_def failed_outcome_def item)
  then show ?thesis
    by (simp add: failed_item_def thn_def bnd_def small_beats [OF E] summary_then [unfolded thn_def bnd_def])
qed

lemma small_complete:
  assumes E: "small_runner E" and q: "owned (qi_id (ir_item x)) (qi_claimed_by (ir_item x)) (qi_claim_token (ir_item x))
      (c_queue (rs_store s))" "ids_ok (c_queue (rs_store s))"
  shows "\<exists>t. completed_item E x s = (Inr True, t) \<and> sm_completed (rs_summary t) = Suc (sm_completed (rs_summary s))"
proof -
  let ?s = "s\<lparr>rs_tick := Suc (rs_tick s)\<rparr>" and ?i = "ir_item x"
  let ?m = "call_service (\<lambda>n. sv_complete (re_services E) n (qi_id ?i) (qi_claimed_by ?i) (qi_claim_token ?i))"
  have "\<exists>t. ?m ?s = (Inr (), t) \<and> rs_summary t = rs_summary s"
    using E q by (simp add: small_runner_def sqlite_services_def store_now_def demo_stores_def
        call_service_def in_store_def on_queue_def complete_run)
  then obtain t where t: "captured (with_sqlite_retries clock_sleep ?m) ?s = (Inr (Inr ()), t)"
      "rs_summary t = rs_summary s"
    using retries_at_once [where m = ?m] by blast
  then have "complete_queue_item_with_retries E ?i ?s = (Inr None, t)"
    by (simp add: complete_queue_item_with_retries_def bnd_def ret_def)
  then show ?thesis
    by (simp add: completed_item_def thn_def bnd_def small_beats [OF E] summary_then [unfolded thn_def bnd_def]
        count_completed_def t(2))
qed

definition demo_stored :: txdb where
  "demo_stored = empty_txdb\<lparr>d_transactions := [\<lparr>xr_id = ''t1'', xr_reference = ''R-1'', xr_status = ''successful'',
     xr_retry_count = 0, xr_outcome = ''successful'', xr_disposition = ''not_applicable'', xr_failure_code = [],
     xr_created_at = isoformat demo_time, xr_created_at_utc = isoformat demo_time,
     xr_started_at = None, xr_finished_at = None, xr_state = JsonText (PDict []), xr_definition_identity = ''v1'',
     xr_revision = 5, xr_queue_item_id = ''a'', xr_claim_token = ''t''\<rparr>]\<rparr>"

definition demo_done :: transaction where
  "demo_done = (demo_tx [])\<lparr>tx_status := SUCCESSFUL, tx_outcome := OC_SUCCESSFUL, tx_disposition := RD_NOT_APPLICABLE,
     tx_definition_identity := ''v1''\<rparr>"
text \<open>The item is bound to that transaction.\<close>

definition bound_runner :: "cdb renv" where
  "bound_runner = (demo_runner True None)\<lparr>re_after_item := None, re_notifiers := []\<rparr>"

definition demo_bound :: queue_item where
  "demo_bound = demo_claim\<lparr>qi_transaction_id := ''t1''\<rparr>"

definition bound_state :: "nat \<Rightarrow> cdb rst" where
  "bound_state n = (demo_state demo_claimed)\<lparr>rs_store := \<lparr>c_tx = demo_stored, c_queue = demo_claimed\<rparr>,
     rs_tick := n, rs_revision := (if n = 0 then 0 else 5)\<rparr>"

lemma demo_load:
  "load_transaction_with_revision (utc_datetime 7) ''t1'' demo_stored = (Inr (demo_done, 5), demo_stored)"
proof -
  have "fst (load_transaction_with_revision (utc_datetime 7) ''t1'' demo_stored) = Inr (demo_done, 5)"
    by code_simp
  then show ?thesis by (simp add: prod_eq_iff load_keeps_store)
qed

lemma cinv_bound: "cinv demo_cfg (rs_store (bound_state n))"
  using qinv_demo_claimed
  by (simp add: cinv_def tinv_def bound_state_def demo_stored_def empty_txdb_def)

lemma bound_executed:
  "executed_item bound_runner demo_bound (bound_state 0) =
     (Inr \<lparr>ir_item = demo_bound, ir_transaction = Some demo_done, ir_error = None, ir_outcome_error = None,
        ir_complete = True, ir_lease_lost = False, ir_callback_failed = False\<rparr>, bound_state 4)"
proof -
  have E: "small_runner bound_runner" "re_durable bound_runner" "re_build bound_runner = demo_build"
    "re_services bound_runner = sqlite_services demo_stores" "re_clock bound_runner = (\<lambda>_. demo_time)"
    "re_retry_business bound_runner = False"
    by (simp_all add: small_runner_def bound_runner_def demo_runner_def)
  have item: "qi_transaction_id demo_bound = ''t1''" by (simp add: demo_bound_def)
  let ?s = "(bound_state 0)\<lparr>rs_tick := 3\<rparr>"
  have "call_service (\<lambda>n. sv_load (re_services bound_runner) n ''t1'') ((bound_state 0)\<lparr>rs_tick := 1\<rparr>) =
      (Inr (demo_done, 5), (bound_state 0)\<lparr>rs_tick := 2\<rparr>)"
    by (simp add: E sqlite_services_def call_service_def in_store_def on_tx_def demo_stores_def store_now_def
        bound_state_def demo_load)
  moreover have "prepare_resumed_transaction now demo_done steps r identity = Inr demo_done" for now steps r identity
    by (simp add: prepare_resumed_transaction_def demo_done_def)
  ultimately have "transaction_for_queue_item bound_runner demo_bound (bound_state 0) =
      (Inr (demo_done, 5, demo_bound), ?s)"
    by (simp add: transaction_for_queue_item_def item E recovered_transaction_def effect_defs reading_def demo_build_def
        bound_state_def)
  moreover have "after_run bound_runner demo_bound demo_done (?s\<lparr>rs_revision := 5\<rparr>) = (Inr True, bound_state 4)"
  proof -
    have "validate_json_object (of_dict (tx_state demo_done)) = Inr ()"
      by code_simp
    then show ?thesis
      by (simp add: after_run_def thn_def bnd_def small_raise [OF E(1)] lift_res_def ret_def bound_state_def
          demo_state_def demo_done_def)
  qed
  moreover have "tx_status demo_done = SUCCESSFUL" by (simp add: demo_done_def)
  ultimately show ?thesis
    by (simp add: executed_item_def recorded_def E effect_defs)
qed

text \<open>Nothing between the execution and the transition happens to an item without an error.\<close>

lemma small_settles:
  assumes E: "small_runner E" and ex: "executed_item E item s = (Inr x, u)"
    and x: "\<not> ir_lease_lost x" "rs_beat_error u = None" "re_notifiers E = []" "re_after_item E = None"
    and named: "validate_context (item_log_context E item) = Inr ()"
  shows "\<exists>v. rs_store v = rs_store u \<and> rs_summary v = rs_summary u \<and> run_claimed_item E item s = settled_item E x v"
proof -
  let ?u = "\<lambda>n. u\<lparr>rs_tick := n\<rparr>"
  have check: "lease_checked E x (?u n) = (Inr x, ?u (Suc n))" for n
    using x by (simp add: lease_checked_def recorded_def thn_def bnd_def small_raise [OF E] catch_exc_def ret_def)
  have report: "\<exists>m. reported E x (?u n) = (Inr x, ?u m)" for n
    using x E by (cases "ir_transaction x")
      (auto simp: reported_def small_runner_def notified_def dispatch_def reading_def bnd_def thn_def ret_def)
  obtain m where "reported E x (?u (Suc (rs_tick u))) = (Inr x, ?u m)" using report by blast
  moreover have "lease_checked E x u = (Inr x, ?u (Suc (rs_tick u)))"
    using check [of "rs_tick u"] by simp
  moreover have "called_back E x = ret x" using x by (simp add: called_back_def)
  ultimately have "run_claimed_item E item s = settled_item E x (?u (Suc m))"
    by (simp add: run_claimed_item_def run_claimed_item_with_context_def thn_def lift_res_def named bnd_def ex check ret_def)
  then show ?thesis by (intro exI [of _ "?u (Suc m)"]) simp
qed

lemma demo_named:
  "validate_context (item_log_context refusing_runner demo_claim) = Inr ()"
  "validate_context (item_log_context bound_runner demo_bound) = Inr ()"
  by (simp_all add: validate_context_def item_log_context_def log_context_fields_def context_value_def rbnd_def
      refusing_runner_def bound_runner_def demo_runner_def demo_bound_def demo_claim_def demo_item_def)

lemma refused_run:
  "\<exists>t. run_claimed_item refusing_runner demo_claim (demo_state demo_claimed) = (Inr True, t)"
proof -
  have E: "small_runner refusing_runner" "re_build refusing_runner = (\<lambda>_ _. Inl (ValueErr ''bad payload''))"
    "re_durable refusing_runner = False" "re_notifiers refusing_runner = []" "re_after_item refusing_runner = None"
    by (simp_all add: small_runner_def refusing_runner_def demo_runner_def)
  let ?x = "failed_run demo_claim None (ValueErr ''bad payload'')"
  let ?u = "(demo_state demo_claimed)\<lparr>rs_tick := 1\<rparr>"
  have ex: "executed_item refusing_runner demo_claim (demo_state demo_claimed) = (Inr ?x, ?u)"
    by (simp add: executed_item_def recorded_def transaction_for_queue_item_def E built_transaction_def
        reading_def effect_defs is_fatal_signal_def demo_state_def)
  have x: "\<not> ir_lease_lost ?x" "rs_beat_error ?u = None" "\<not> ir_complete ?x" "ir_item ?x = demo_claim"
    by (simp_all add: failed_run_def demo_state_def)
  obtain v where v: "rs_store v = rs_store ?u"
      "run_claimed_item refusing_runner demo_claim (demo_state demo_claimed) = settled_item refusing_runner ?x v"
    using small_settles [OF E(1) ex x(1,2) E(4,5) demo_named(1)] by blast
  have "\<exists>t. failed_item refusing_runner ?x v = (Inr True, t)"
    by (rule small_fail [OF E(1)]) (simp_all only: x, simp_all add: v demo_claim_def demo_item_def demo_state_def)
  then show ?thesis by (simp add: v settled_item_def x)
qed

lemma bound_run:
  "\<exists>t. run_claimed_item bound_runner demo_bound (bound_state 0) = (Inr True, t) \<and> sm_completed (rs_summary t) = 1"
proof -
  have E: "small_runner bound_runner" "re_notifiers bound_runner = []" "re_after_item bound_runner = None"
    by (simp_all add: small_runner_def bound_runner_def demo_runner_def)
  let ?x = "\<lparr>ir_item = demo_bound, ir_transaction = Some demo_done, ir_error = None, ir_outcome_error = None,
    ir_complete = True, ir_lease_lost = False, ir_callback_failed = False\<rparr>"
  have s4: "rs_beat_error (bound_state 4) = None" "c_queue (rs_store (bound_state 4)) = demo_claimed"
    "sm_completed (rs_summary (bound_state 4)) = 0"
    by (simp_all add: bound_state_def demo_state_def empty_summary_def)
  obtain v where v: "rs_store v = rs_store (bound_state 4)" "rs_summary v = rs_summary (bound_state 4)"
      "run_claimed_item bound_runner demo_bound (bound_state 0) = settled_item bound_runner ?x v"
    using small_settles [OF E(1) bound_executed _ s4(1) E(2,3) demo_named(2)] by auto
  have "owned ''a'' ''w'' ''t'' demo_claimed" using demo_owned by (auto simp: owned_def)
  then have "\<exists>t. completed_item bound_runner ?x v = (Inr True, t) \<and>
      sm_completed (rs_summary t) = Suc (sm_completed (rs_summary v))"
    by (intro small_complete [OF E(1)])
      (simp_all add: v s4 qinv_ids [OF qinv_demo_claimed] demo_bound_def demo_claim_def demo_item_def)
  then show ?thesis by (simp add: v s4 settled_item_def)
qed

end
