(* ===== verification/RunnerOutcomes.thy ===== *)
theory RunnerOutcomes
  imports RunnerExamples
begin

text \<open>
  What the final transition of an item does to the built-in queue, and that the counters tell it.
\<close>

section \<open>The store that a service call reaches\<close>

definition sqlite_runner :: "store_env \<Rightarrow> cdb renv \<Rightarrow> bool" where
  "sqlite_runner K E \<longleftrightarrow> fair_store K \<and> re_services E = sqlite_services K"

lemma runner_steps_csteps: "sqlite_runner K E \<Longrightarrow> runner_steps K E s t \<longleftrightarrow> csteps (se_cfg K) s t"
  by (simp add: runner_steps_def sqlite_runner_def)

lemma runner_reaches:
  assumes "sqlite_runner K E" "runner_steps K E s u" "csteps (se_cfg K) u v"
  shows "csteps (se_cfg K) s v"
  by (rule csteps_trans [OF _ assms(3)]) (use assms(1,2) in \<open>simp add: runner_steps_csteps\<close>)

text \<open>A successful \<open>complete\<close> and a successful \<open>fail\<close>, down to the queue they were made on.\<close>

lemma call_in_store:
  assumes fair: "fair_store K" and run: "call_service (\<lambda>n. in_store K n (m n)) s = (Inr a, t)"
  shows "\<exists>v. csteps (se_cfg K) (rs_store s) v \<and> m (rs_tick s) v = (Inr a, rs_store t) \<and>
    rs_summary t = rs_summary s"
proof (intro exI [of _ "se_other K (rs_tick s) (rs_store s)"] conjI)
  show "csteps (se_cfg K) (rs_store s) (se_other K (rs_tick s) (rs_store s))"
    using fair by (simp add: fair_store_def)
qed (use run in \<open>auto simp: call_service_def in_store_def split: prod.splits option.splits\<close>)

lemma complete_reaches:
  assumes K: "sqlite_runner K E" and good: "complete_queue_item_with_retries E item s = (Inr None, t)"
  shows "\<exists>v now. csteps (se_cfg K) (rs_store s) v \<and>
    on_queue (complete now (qi_id item) (qi_claimed_by item) (qi_claim_token item)) v = (Inr (), rs_store t)"
proof -
  have run: "captured (with_sqlite_retries clock_sleep (call_service
     (\<lambda>n. sv_complete (re_services E) n (qi_id item) (qi_claimed_by item) (qi_claim_token item)))) s = (Inr (Inr ()), t)"
    using good by (auto simp: complete_queue_item_with_retries_def bnd_Inr ret_def split: sum.splits)
      (metis old.sum.exhaust unit.exhaust)+
  have fair: "fair_store K" using K by (simp add: sqlite_runner_def)
  obtain u where su: "runner_steps K E (rs_store s) (rs_store u)" and
    u: "call_service (\<lambda>n. sv_complete (re_services E) n (qi_id item) (qi_claimed_by item) (qi_claim_token item)) u = (Inr (), t)"
    using sqlite.loop.captured_retries_Inr [OF run sqlite.loop.R_complete sqlite.loop.R_sleep] by blast
  from u have "call_service (\<lambda>n. in_store K n (on_queue (complete (store_now K n) (qi_id item) (qi_claimed_by item)
      (qi_claim_token item)))) u = (Inr (), t)"
    using K by (simp add: sqlite_runner_def sqlite_services_def)
  from call_in_store [OF fair this] runner_reaches [OF K su] show ?thesis by blast
qed

lemma fail_reaches:
  assumes K: "sqlite_runner K E" and failed: "fail_queue_item_with_retries E item retry s = (Inr (Inr outcome), t)"
  shows "\<exists>v now ao. csteps (se_cfg K) (rs_store s) v \<and> outcome = Some ao \<and>
    on_queue (fail (se_cfg K) now (qi_id item) retry (qi_claimed_by item) (qi_claim_token item)) v = (Inr ao, rs_store t)"
proof -
  have run: "captured (with_sqlite_retries clock_sleep (call_service
     (\<lambda>n. sv_fail (re_services E) n (qi_id item) retry (qi_claimed_by item) (qi_claim_token item)))) s = (Inr (Inr outcome), t)"
    using failed by (auto simp: fail_queue_item_with_retries_def bnd_Inr ret_def rbnd_Inr attested_failure_def
        split: if_splits)
  have fair: "fair_store K" using K by (simp add: sqlite_runner_def)
  obtain u where su: "runner_steps K E (rs_store s) (rs_store u)" and
    u: "call_service (\<lambda>n. sv_fail (re_services E) n (qi_id item) retry (qi_claimed_by item) (qi_claim_token item)) u =
      (Inr outcome, t)"
    using sqlite.loop.captured_retries_Inr [OF run sqlite.loop.R_fail sqlite.loop.R_sleep] by blast
  from u have "call_service (\<lambda>n. in_store K n (on_queue (bnd (fail (se_cfg K) (store_now K n) (qi_id item) retry
      (qi_claimed_by item) (qi_claim_token item)) (\<lambda>outcome. ret (Some outcome))))) u = (Inr outcome, t)"
    using K by (simp add: sqlite_runner_def sqlite_services_def)
  from call_in_store [OF fair this] obtain v where v: "csteps (se_cfg K) (rs_store u) v"
    "on_queue (bnd (fail (se_cfg K) (store_now K (rs_tick u)) (qi_id item) retry
      (qi_claimed_by item) (qi_claim_token item)) (\<lambda>outcome. ret (Some outcome))) v = (Inr outcome, rs_store t)" by blast
  have "csteps (se_cfg K) (rs_store s) v" by (rule runner_reaches [OF K su v(1)])
  moreover have "\<exists>ao. outcome = Some ao \<and> on_queue (fail (se_cfg K) (store_now K (rs_tick u)) (qi_id item) retry
      (qi_claimed_by item) (qi_claim_token item)) v = (Inr ao, rs_store t)"
    using v(2) by (auto simp: on_queue_def bnd_def ret_def split: prod.splits sum.splits)
  ultimately show ?thesis by blast
qed

text \<open>The row of the item after the transition.\<close>

lemma completed_in_queue:
  assumes "qinv C (c_queue v)" "on_queue (complete now i w k) v = (Inr (), v')"
  shows "\<exists>q \<in> set (q_items (c_queue v')). qr_id q = i \<and> qr_status q = QS_SUCCESSFUL \<and> qr_claim_token q = []"
proof -
  have run: "owned i w k (c_queue v)"
    "c_queue v' = set_row i completed_row (close_open i k AO_SUCCESSFUL now (c_queue v))"
    using assms(2) by (auto simp: on_queue_def complete_run [OF qinv_ids [OF assms(1)]] split: if_splits)
  then obtain r where r: "r \<in> set (q_items (c_queue v))" "qr_id r = i" by (auto simp: owned_def owns_def)
  then have "completed_row r \<in> set (q_items (c_queue v'))"
    by (auto simp: run(2) set_set_row intro: image_eqI [of _ _ r])
  then show ?thesis using r(2) by (intro bexI [of _ "completed_row r"]) (simp_all add: completed_row_def)
qed

lemma failed_in_queue:
  assumes "qinv C (c_queue v)" "on_queue (fail C now i retry w k) v = (Inr ao, v')"
  shows "\<exists>q \<in> set (q_items (c_queue v')). qr_id q = i \<and> qr_claim_token q = [] \<and>
    (if retry \<and> qr_retry_count q \<le> qc_max_retries C then qr_status q = QS_PENDING \<and> ao = AO_RETRY_SCHEDULED
     else qr_status q = QS_FAILED \<and> ao = AO_FAILED)"
proof -
  have "owned i w k (c_queue v)"
    using assms(2) fail_run_lost by (cases "owned i w k (c_queue v)") (auto simp: on_queue_def)
  then obtain r where r: "r \<in> set (q_items (c_queue v))" "owns i w k r" by (auto simp: owned_def)
  then have id: "qr_id r = i" by (simp add: owns_def)
  let ?q = "released_row C now (again_after C retry r) (qr_retry_count r + 1) w r"
  have out: "ao = failed_outcome C retry r" "c_queue v' = set_row i
      (released_row C now (again_after C retry r) (qr_retry_count r + 1) w)
      (close_open i k (failed_outcome C retry r) now (c_queue v))"
    using assms(2) by (auto simp: on_queue_def fail_run_owned [OF qinv_ids [OF assms(1)] r])
  have "?q \<in> set (q_items (c_queue v'))"
    using r(1) id by (auto simp: out(2) set_set_row intro: image_eqI [of _ _ r])
  moreover have "qr_id ?q = i" using id by (simp add: released_row_def)
  ultimately show ?thesis
    by (intro bexI [of _ ?q]) (auto simp: out(1) released_row_def failed_outcome_def again_after_def)
qed

section \<open>One item from its claim to its transition\<close>

text \<open>What the processing of an item never changes about it.\<close>

definition same_claim_of :: "queue_item \<Rightarrow> queue_item \<Rightarrow> bool" where
  "same_claim_of a b \<longleftrightarrow> qi_id b = qi_id a \<and> qi_claimed_by b = qi_claimed_by a \<and> qi_claim_token b = qi_claim_token a"

definition same_run :: "item_run \<Rightarrow> item_run \<Rightarrow> bool" where
  "same_run x y \<longleftrightarrow> ir_item y = ir_item x \<and> ir_transaction y = ir_transaction x \<and> ir_complete y = ir_complete x"

lemma recorded_Inr:
  "recorded m h s = (Inr x, u) \<longleftrightarrow>
     m s = (Inr x, u) \<or> (\<exists>e. m s = (Inl e, u) \<and> \<not> is_fatal_signal e \<and> x = h e)"
  by (auto simp: recorded_def catch_exc_def raise_exc_def ret_def split: prod.splits sum.splits if_splits)

lemma lease_checked_same: "lease_checked E x s = (Inr y, t) \<Longrightarrow> same_run x y"
  by (auto simp: lease_checked_def recorded_Inr thn_Inr ret_def same_run_def split: if_splits)

lemma reported_same: "reported E x s = (Inr y, t) \<Longrightarrow> same_run x y"
  by (auto simp: reported_def bnd_Inr thn_Inr ret_def raise_exc_def same_run_def split: option.splits if_splits)

lemma called_back_same: "called_back E x s = (Inr y, t) \<Longrightarrow> same_run x y"
  by (auto simp: called_back_def bnd_Inr thn_Inr ret_def raise_exc_def same_run_def split: option.splits if_splits)

lemma transaction_item:
  "transaction_for_queue_item E item s = (Inr (t, v, item'), u) \<Longrightarrow> same_claim_of item item'"
  by (auto simp: transaction_for_queue_item_def bnd_Inr ret_def same_claim_of_def split: if_splits prod.splits)

text \<open>An item that is to be completed: its transaction ran, or was successful before.\<close>

lemma executed_Inr:
  assumes "executed_item E item s = (Inr x, u)"
  shows "same_claim_of item (ir_item x) \<and> (ir_complete x \<longrightarrow>
    (\<exists>t v t' s1 s2. transaction_for_queue_item E item s = (Inr (t, v, ir_item x), s1) \<and>
       (if \<not> re_durable E \<or> tx_status t \<noteq> SUCCESSFUL
        then run_engine E (ir_item x) t (s1\<lparr>rs_revision := v\<rparr>) = (Inr (Inr (), t'), s2)
        else t' = t \<and> s2 = s1\<lparr>rs_revision := v\<rparr>) \<and>
       after_run E (ir_item x) t' s2 = (Inr True, u) \<and> ir_transaction x = Some t'))"
  using assms unfolding executed_item_def recorded_Inr
proof (elim disjE exE conjE)
  fix e assume "x = failed_run item None e"
  then show ?thesis by (simp add: failed_run_def same_claim_of_def)
next
  let ?body = "\<lambda>(t, revision, item). thn (upd_st (\<lambda>s. s\<lparr>rs_revision := revision\<rparr>))
       (bnd (if \<not> re_durable E \<or> tx_status t \<noteq> SUCCESSFUL then run_engine E item t else ret (Inr (), t))
          (\<lambda>(r, t). recorded
             (bnd (case r of Inl e \<Rightarrow> raise_exc e | Inr _ \<Rightarrow> after_run E item t) (\<lambda>done.
                ret \<lparr>ir_item = item, ir_transaction = Some t, ir_error = None, ir_outcome_error = None,
                  ir_complete = done, ir_lease_lost = False, ir_callback_failed = False\<rparr>))
             (failed_run item (Some t))))"
  assume "bnd (transaction_for_queue_item E item) ?body s = (Inr x, u)"
  then obtain t v item' s1 where tx: "transaction_for_queue_item E item s = (Inr (t, v, item'), s1)"
    and body: "?body (t, v, item') s1 = (Inr x, u)" by (auto simp: bnd_Inr)
  let ?s1 = "s1\<lparr>rs_revision := v\<rparr>"
  from body obtain r t' s2 where run: "(if \<not> re_durable E \<or> tx_status t \<noteq> SUCCESSFUL
        then run_engine E item' t else ret (Inr (), t)) ?s1 = (Inr (r, t'), s2)"
    and last: "recorded (bnd (case r of Inl e \<Rightarrow> raise_exc e | Inr _ \<Rightarrow> after_run E item' t') (\<lambda>done.
         ret \<lparr>ir_item = item', ir_transaction = Some t', ir_error = None, ir_outcome_error = None,
           ir_complete = done, ir_lease_lost = False, ir_callback_failed = False\<rparr>)) (failed_run item' (Some t')) s2 =
       (Inr x, u)"
    by (auto simp: thn_Inr bnd_Inr upd_st_def)
  have item: "same_claim_of item item'" by (rule transaction_item [OF tx])
  from last consider (err) e where "x = failed_run item' (Some t') e"
    | (ok) b where "(case r of Inl e \<Rightarrow> raise_exc e | Inr _ \<Rightarrow> after_run E item' t') s2 = (Inr b, u)"
        "x = \<lparr>ir_item = item', ir_transaction = Some t', ir_error = None, ir_outcome_error = None,
           ir_complete = b, ir_lease_lost = False, ir_callback_failed = False\<rparr>"
    by (auto simp: recorded_Inr bnd_Inr ret_def)
  then show ?thesis
  proof cases
    case err
    then show ?thesis using item by (simp add: failed_run_def)
  next
    case ok
    then have r: "r = Inr ()" by (cases r) (auto simp: raise_exc_def)
    then have after: "after_run E item' t' s2 = (Inr b, u)" using ok by simp
    show ?thesis
    proof (intro conjI impI)
      show "same_claim_of item (ir_item x)" using item ok by simp
      assume "ir_complete x"
      then have b: "b" using ok by simp
      show "\<exists>t v t' s1 s2. transaction_for_queue_item E item s = (Inr (t, v, ir_item x), s1) \<and>
       (if \<not> re_durable E \<or> tx_status t \<noteq> SUCCESSFUL
        then run_engine E (ir_item x) t (s1\<lparr>rs_revision := v\<rparr>) = (Inr (Inr (), t'), s2)
        else t' = t \<and> s2 = s1\<lparr>rs_revision := v\<rparr>) \<and>
       after_run E (ir_item x) t' s2 = (Inr True, u) \<and> ir_transaction x = Some t'"
        using tx run after b ok(2) r
        by (intro exI [of _ t] exI [of _ v] exI [of _ t'] exI [of _ s1] exI [of _ s2])
          (auto simp: ret_def split: if_splits)
    qed
  qed
qed

lemma claimed_chain:
  assumes "run_claimed_item E item s = (Inr b, t)"
  obtains x u y v where "executed_item E item s = (Inr x, u)" "same_run x y" "settled_item E y v = (Inr b, t)"
    "\<And>R. item_relation R E \<Longrightarrow> R s v" "\<And>R. lease_relation R E \<Longrightarrow> R u v"
proof -
  from assms obtain x1 u1 x2 u2 x3 u3 x4 u4 x5 u5 where
    parts: "executed_item E item s = (Inr x1, u1)" "lease_checked E x1 u1 = (Inr x2, u2)"
    "reported E x2 u2 = (Inr x3, u3)" "called_back E x3 u3 = (Inr x4, u4)"
    "lease_checked E x4 u4 = (Inr x5, u5)" and last: "settled_item E x5 u5 = (Inr b, t)"
    by (auto simp: run_claimed_item_def run_claimed_item_with_context_def thn_Inr lift_res_def bnd_Inr)
  have same: "same_run x1 x5"
    using lease_checked_same [OF parts(2)] reported_same [OF parts(3)] called_back_same [OF parts(4)]
      lease_checked_same [OF parts(5)] by (simp add: same_run_def)
  have after: "R u1 u5" if R: "lease_relation R E" for R
    using keepsD [OF lease_relation.R_lease_checked [OF R] parts(2)]
      keepsD [OF lease_relation.R_reported [OF R] parts(3)] keepsD [OF lease_relation.R_called_back [OF R] parts(4)]
      keepsD [OF lease_relation.R_lease_checked [OF R] parts(5)]
      step_relation.R_trans [OF lease_relation.axioms(1) [OF R]] by metis
  have whole: "R s u5" if R: "item_relation R E" for R
    using keepsD [OF item_relation.R_executed [OF R] parts(1)] after [OF item_relation.axioms(1) [OF R]]
      step_relation.R_trans [OF lease_relation.axioms(1) [OF item_relation.axioms(1) [OF R]]] by metis
  show thesis using that [of x1 u1 x5 u5] parts(1) same last whole after by blast
qed

section \<open>The transition\<close>

lemma completed_Inr:
  assumes "completed_item E x s = (Inr True, t)"
  obtains u v where "beats E (ir_item x) s = (Inr (), u)" "complete_queue_item_with_retries E (ir_item x) u = (Inr None, v)"
    "t = v\<lparr>rs_summary := count_completed (ir_callback_failed x) (rs_summary v)\<rparr>"
proof -
  from assms obtain u e v where parts: "beats E (ir_item x) s = (Inr (), u)"
    "complete_queue_item_with_retries E (ir_item x) u = (Inr e, v)"
    and last: "(case e of
         Some e \<Rightarrow> if is_lease_lost e then thn (upd_summary count_lease_lost) (ret False) else raise_exc e
       | None \<Rightarrow> thn (upd_summary (count_completed (ir_callback_failed x))) (ret True)) v = (Inr True, t)"
    by (auto simp: completed_item_def thn_Inr bnd_Inr)
  then show thesis
    using that [of u v] by (cases e) (auto simp: summary_then raise_exc_def split: if_splits)
qed

lemma failed_Inr:
  assumes "failed_item E x s = (Inr True, t)"
  obtains u outcome v where "beats E (ir_item x) s = (Inr (), u)"
    "fail_queue_item_with_retries E (ir_item x) (queue_retry (re_retry_business E) x) u = (Inr (Inr outcome), v)"
    "t = v\<lparr>rs_summary := count_failed outcome (rs_summary v)\<rparr>"
proof -
  from assms obtain u e v where parts: "beats E (ir_item x) s = (Inr (), u)"
    "fail_queue_item_with_retries E (ir_item x) (queue_retry (re_retry_business E) x) u = (Inr e, v)"
    and last: "(case e of
         Inl e \<Rightarrow> if is_lease_lost e then thn (upd_summary count_lease_lost) (ret False) else raise_exc e
       | Inr outcome \<Rightarrow> thn (upd_summary (count_failed outcome)) (ret True)) v = (Inr True, t)"
    by (auto simp: failed_item_def thn_Inr bnd_Inr)
  then show thesis
    using that [of u _ v] by (cases e) (auto simp: summary_then raise_exc_def split: if_splits)
qed

lemma steps_cinv: "csteps C s t \<Longrightarrow> cinv C s \<Longrightarrow> cinv C t"
  using csteps_kept by blast

lemma beats_steps:
  assumes "sqlite_runner K E" "beats E item s = (r, u)"
  shows "csteps (se_cfg K) (rs_store s) (rs_store u) \<and> same_counts s u"
  using keepsD [OF sqlite.loop.R_beats [of K E item] assms(2)] keepsD [OF counts.R_beats assms(2)]
  by (simp add: runner_steps_csteps [OF assms(1)])

lemma failed_item_row:
  assumes K: "sqlite_runner K E" and inv: "cinv (se_cfg K) (rs_store s)"
    and run: "failed_item E x s = (Inr True, t)"
  shows "\<exists>q \<in> set (q_items (c_queue (rs_store t))). qr_id q = qi_id (ir_item x) \<and> qr_claim_token q = [] \<and>
    (if queue_retry (re_retry_business E) x \<and> qr_retry_count q \<le> qc_max_retries (se_cfg K)
     then qr_status q = QS_PENDING \<and> sm_retry_scheduled (rs_summary t) = sm_retry_scheduled (rs_summary s) + 1
     else qr_status q = QS_FAILED \<and> sm_terminal_failed (rs_summary t) = sm_terminal_failed (rs_summary s) + 1)"
  using run
proof (rule failed_Inr)
  let ?retry = "queue_retry (re_retry_business E) x"
  fix u outcome v
  assume b: "beats E (ir_item x) s = (Inr (), u)"
    and f: "fail_queue_item_with_retries E (ir_item x) ?retry u = (Inr (Inr outcome), v)"
    and t: "t = v\<lparr>rs_summary := count_failed outcome (rs_summary v)\<rparr>"
  from fail_reaches [OF K f] obtain w now ao where w: "csteps (se_cfg K) (rs_store u) w" "outcome = Some ao"
    "on_queue (fail (se_cfg K) now (qi_id (ir_item x)) ?retry (qi_claimed_by (ir_item x)) (qi_claim_token (ir_item x))) w =
      (Inr ao, rs_store v)" by blast
  have "qinv (se_cfg K) (c_queue w)"
    using steps_cinv [OF w(1)] steps_cinv [OF conjunct1 [OF beats_steps [OF K b]] inv] by (simp add: cinv_def)
  from failed_in_queue [OF this w(3)] obtain q where q: "q \<in> set (q_items (c_queue (rs_store v)))"
    "qr_id q = qi_id (ir_item x)" "qr_claim_token q = []"
    "if ?retry \<and> qr_retry_count q \<le> qc_max_retries (se_cfg K) then qr_status q = QS_PENDING \<and> ao = AO_RETRY_SCHEDULED
     else qr_status q = QS_FAILED \<and> ao = AO_FAILED" by blast
  have "same_counts s v"
    using beats_steps [OF K b] keepsD [OF counts.R_fail_retries f] counts.R_trans by blast
  then have "sm_retry_scheduled (rs_summary v) = sm_retry_scheduled (rs_summary s)"
    "sm_terminal_failed (rs_summary v) = sm_terminal_failed (rs_summary s)"
    by (simp_all add: same_counts_def outcome_counts_def)
  then show ?thesis
    using q w(2) by (intro bexI [of _ q]) (auto simp: t count_failed_def Let_def split: if_splits)
qed

lemma completed_item_row:
  assumes K: "sqlite_runner K E" and inv: "cinv (se_cfg K) (rs_store s)"
    and run: "completed_item E x s = (Inr True, t)"
  shows "(\<exists>q \<in> set (q_items (c_queue (rs_store t))). qr_id q = qi_id (ir_item x) \<and> qr_claim_token q = [] \<and>
      qr_status q = QS_SUCCESSFUL) \<and> sm_completed (rs_summary t) = sm_completed (rs_summary s) + 1"
  using run
proof (rule completed_Inr)
  fix u v
  assume b: "beats E (ir_item x) s = (Inr (), u)"
    and f: "complete_queue_item_with_retries E (ir_item x) u = (Inr None, v)"
    and t: "t = v\<lparr>rs_summary := count_completed (ir_callback_failed x) (rs_summary v)\<rparr>"
  from complete_reaches [OF K f] obtain w now where w: "csteps (se_cfg K) (rs_store u) w"
    "on_queue (complete now (qi_id (ir_item x)) (qi_claimed_by (ir_item x)) (qi_claim_token (ir_item x))) w =
      (Inr (), rs_store v)" by blast
  have "qinv (se_cfg K) (c_queue w)"
    using steps_cinv [OF w(1)] steps_cinv [OF conjunct1 [OF beats_steps [OF K b]] inv] by (simp add: cinv_def)
  from completed_in_queue [OF this w(2)] have q: "\<exists>q \<in> set (q_items (c_queue (rs_store v))).
      qr_id q = qi_id (ir_item x) \<and> qr_status q = QS_SUCCESSFUL \<and> qr_claim_token q = []" .
  have "same_counts s v"
    using beats_steps [OF K b] keepsD [OF counts.R_complete_retries f] counts.R_trans by blast
  then show ?thesis using q by (auto simp: t count_completed_def same_counts_def outcome_counts_def)
qed

text \<open>The final transition is made in a state that the stores reach by steps, with the same counts.\<close>

lemma claimed_transition:
  assumes K: "sqlite_runner K E" and run: "run_claimed_item E item s = (Inr b, t)"
  obtains x u y v where "executed_item E item s = (Inr x, u)" "same_run x y" "same_claim_of item (ir_item y)"
    "settled_item E y v = (Inr b, t)" "csteps (se_cfg K) (rs_store s) (rs_store v)" "same_counts s v"
    "\<And>R. lease_relation R E \<Longrightarrow> R u v"
  using run
proof (rule claimed_chain)
  fix x u y v
  assume ex: "executed_item E item s = (Inr x, u)" and same: "same_run x y"
    and settled: "settled_item E y v = (Inr b, t)" and all: "\<And>R. item_relation R E \<Longrightarrow> R s v"
    and after: "\<And>R. lease_relation R E \<Longrightarrow> R u v"
  have "csteps (se_cfg K) (rs_store s) (rs_store v)"
    using all [OF sqlite.loop.item_relation_axioms [of K E]] by (simp add: runner_steps_csteps [OF K])
  moreover have "same_counts s v" by (rule all [OF counts.item_relation_axioms])
  moreover have "same_claim_of item (ir_item y)" using executed_Inr [OF ex] same by (simp add: same_run_def)
  ultimately show thesis using that [OF ex same _ settled] after by blast
qed

section \<open>The durable success of a completed item\<close>

text \<open>No other process writes into the transaction store.\<close>

definition private_store :: "store_env \<Rightarrow> bool" where
  "private_store K \<longleftrightarrow> (\<forall>n s. c_tx (se_other K n s) = c_tx s)"

definition tx_still :: "store_env \<Rightarrow> cdb renv \<Rightarrow> cdb rst \<Rightarrow> cdb rst \<Rightarrow> bool" where
  "tx_still K E s t \<longleftrightarrow>
     (sqlite_runner K E \<and> private_store K \<longrightarrow> c_tx (rs_store t) = c_tx (rs_store s))"

lemma on_queue_still: "c_tx (snd (on_queue m s)) = c_tx s"
  by (simp add: on_queue_def case_prod_beta)

lemma still_service:
  assumes "\<And>n v. sqlite_runner K E \<Longrightarrow> private_store K \<Longrightarrow> c_tx (snd (m n v)) = c_tx v"
  shows "keeps (tx_still K E) (call_service m)"
  using assms by (auto simp: keeps_def tx_still_def call_service_def split: prod.splits) (metis snd_conv)

lemma in_store_still:
  "private_store K \<Longrightarrow> (\<And>v. c_tx (snd (m v)) = c_tx v) \<Longrightarrow> c_tx (snd (in_store K n m v)) = c_tx v"
  by (cases "se_fault K n") (simp_all add: in_store_def private_store_def)

lemma note_still: "keeps (tx_still K E) (note_call c)"
  by (simp add: keeps_def tx_still_def note_call_def upd_st_def)

interpretation still: lease_relation "tx_still K E" E for K E
  by unfold_locales
    (auto simp: tx_still_def sqlite_runner_def sqlite_services_def
      intro!: note_still still_service in_store_still on_queue_still)

lemma complete_still: "keeps (tx_still K E) (complete_queue_item_with_retries E item)"
  unfolding complete_queue_item_with_retries_def
  by (intro still.keeps_bnd still.keeps_captured still.keeps_sqlite_retries still.R_sleep still.keeps_ret still_service)
    (auto simp: sqlite_runner_def sqlite_services_def intro!: in_store_still on_queue_still)

definition stored_successful :: "string \<Rightarrow> cdb \<Rightarrow> bool" where
  "stored_successful i v \<longleftrightarrow> (\<exists>r. find_tx i (c_tx v) = Some r \<and> xr_status r = status_value SUCCESSFUL)"

lemma fenced_stores_status:
  assumes "tinv (c_tx v)" "save_queue_transaction_fenced now t i w k n initial v = (Inr m, v')"
    "tx_status t = SUCCESSFUL"
  shows "stored_successful (tx_id t) v'"
proof (rule fenced_success [OF assms(2)])
  fix sz db
  assume run: "write_transaction_rows now t sz (Some (n, i, k)) (c_tx v) = (Inr m, db)"
    and v': "v' = (if initial then v\<lparr>c_tx := db, c_queue := snd (update_items (claim_current i w k (tx_id t))
         (\<lambda>r. r\<lparr>qr_transaction_id := tx_id t\<rparr>) (c_queue v))\<rparr> else v\<lparr>c_tx := db\<rparr>)"
  show ?thesis
  proof (rule write_run [OF run])
    fix row
    assume row: "header_row now t (sz_state sz) (find_tx (tx_id t) (c_tx v)) = Inr row"
      and fence: "Some (n, i, k) = None \<or>
        length (filter (fence_matches (tx_id t) (Some (n, i, k))) (with_tx row (c_tx v))) = 1"
      and db: "db = written t sz (Some (n, i, k)) row (c_tx v)"
    have d: "distinct (map xr_id (d_transactions (c_tx v)))" using assms(1) by (simp add: tinv_def)
    have "find_tx (tx_id t) db = Some (updated_tx row (Some (n, i, k)) (base_row row (c_tx v)))"
      using find_written [OF d header_row_id [OF row] fence, of "tx_id t" sz] by (simp add: db)
    moreover have "xr_status row = status_value SUCCESSFUL"
      using row assms(3) by (auto simp: header_row_def Let_def rbnd_Inr tx_to_row_def)
    moreover have "xr_status (updated_tx row (Some (n, i, k)) r) = xr_status row" for r
      by (simp add: updated_tx_def Let_def)
    ultimately show ?thesis by (simp add: stored_successful_def v')
  qed
qed

text \<open>The last thing a run that returns does is to checkpoint the final transaction.\<close>

lemma save_reaches:
  assumes K: "sqlite_runner K E" and saved: "save_queue_transaction_with_retries E item n b t s = (Inr (Inr m), u)"
  shows "\<exists>v now. csteps (se_cfg K) (rs_store s) v \<and>
    save_queue_transaction_fenced now t (qi_id item) (qi_claimed_by item) (qi_claim_token item) n b v =
      (Inr m, rs_store u)"
proof -
  have fair: "fair_store K" using K by (simp add: sqlite_runner_def)
  note run = saved [unfolded save_queue_transaction_with_retries_def]
  obtain z where sz: "runner_steps K E (rs_store s) (rs_store z)" and
    z: "call_service (\<lambda>n'. sv_save_fenced (re_services E) n' t (qi_id item) (qi_claimed_by item) (qi_claim_token item) n b) z =
      (Inr m, u)"
    using sqlite.loop.captured_retries_Inr [OF run sqlite.loop.R_save sqlite.loop.R_sleep] by blast
  from z have "call_service (\<lambda>n'. in_store K n' (save_queue_transaction_fenced (utc_datetime (store_now K n')) t
      (qi_id item) (qi_claimed_by item) (qi_claim_token item) n b)) z = (Inr m, u)"
    using K by (simp add: sqlite_runner_def sqlite_services_def)
  from call_in_store [OF fair this] runner_reaches [OF K sz] show ?thesis by blast
qed

lemma strict_stores:
  assumes K: "sqlite_runner K E" and inv: "cinv (se_cfg K) (rs_store s)"
    and run: "strict_transaction_checkpoint E item t s = (Inr (), u)" and ok: "tx_status t = SUCCESSFUL"
  shows "stored_successful (tx_id t) (rs_store u)"
proof -
  from run obtain saved z where save: "save_queue_transaction_with_retries E item (rs_revision s) False t s = (Inr saved, z)"
    and last: "(case saved of
         Inr new_revision \<Rightarrow> upd_st (\<lambda>s. s\<lparr>rs_revision := new_revision\<rparr>)
       | Inl e \<Rightarrow>
           (if is_fence_error e then raise_exc e
            else thn count_persistence_error
                (bnd (if permanent_error e then ret False else checkpoint_failure_allows_queue_retry E t)
                   (\<lambda>retry. raise_exc (CheckpointError e retry))))) z = (Inr (), u)"
    by (auto simp: strict_transaction_checkpoint_def bnd_Inr get_st_def)
  then obtain m where m: "saved = Inr m" "rs_store u = rs_store z"
    by (cases saved) (auto simp: bnd_Inr raise_exc_def thn_Inr upd_st_def split: if_splits)
  note z = save [unfolded m(1)] and u = m(2)
  from save_reaches [OF K z] obtain v now where v: "csteps (se_cfg K) (rs_store s) v"
    "save_queue_transaction_fenced now t (qi_id item) (qi_claimed_by item) (qi_claim_token item) (rs_revision s) False v =
      (Inr m, rs_store z)" by blast
  have "tinv (c_tx v)" using steps_cinv [OF v(1) inv] by (simp add: cinv_def)
  from fenced_stores_status [OF this v(2) ok] u show ?thesis by simp
qed

lemma raise_if_failed_still: "raise_if_failed E item s = (r, t) \<Longrightarrow> tx_still K E s t"
  by (rule keepsD [OF still.R_raise_if_failed])

lemma engine_stores:
  assumes K: "sqlite_runner K E" "private_store K" "re_durable E" and inv: "cinv (se_cfg K) (rs_store s)"
    and run: "run_engine E item t s = (Inr (Inr (), t'), u)" and ok: "tx_status t' = SUCCESSFUL"
  shows "stored_successful (tx_id t') (rs_store u)"
proof -
  let ?s = "s\<lparr>rs_tick := Suc (rs_tick s)\<rparr>" and ?X = "engine_env E item (re_env E (rs_tick s))"
  let ?save = "lease_checked_checkpoint E item (strict_transaction_checkpoint E item)"
  let ?st = "\<lparr>es_tx = t, es_tick = 0, es_slept = [], es_world = ?s\<rparr>"
  from run obtain w where w: "engine_run (re_engine E) ?X ?st = (Inr (), w)" "t' = es_tx w"
    "rs_store u = rs_store (es_world w)"
    by (auto simp: run_engine_def bnd_def reading_def split: prod.splits)
  obtain z where z: "runner_steps K E (rs_store (es_world ?st)) (rs_store (es_world z))"
    "checkpoint ?X z = (Inr (), w)"
    using sqlite.loop.world.run.last_checkpoint [OF w(1)] by blast
  have "env_checkpoint ?X = Some (\<lambda>w t. ?save t w)" using K(3) by (simp add: engine_env_def)
  from checkpoint_saves [OF z(2) this] have "?save t' (es_world z) = (Inr (), es_world w)" by (simp add: w(2))
  then obtain a b c where abc: "raise_if_failed E item (es_world z) = (Inr (), a)" "raise_if_failed E item a = (Inr (), b)"
    "strict_transaction_checkpoint E item t' b = (Inr (), c)" "raise_if_failed E item c = (Inr (), es_world w)"
    by (auto simp: lease_checked_checkpoint_def thn_Inr)
  have "runner_steps K E (rs_store (es_world z)) (rs_store b)"
    by (rule sqlite.R_trans [OF keepsD [OF sqlite.loop.R_raise_if_failed [of K E item] abc(1)]
      keepsD [OF sqlite.loop.R_raise_if_failed [of K E item] abc(2)]])
  from sqlite.R_trans [OF z(1) this] have "runner_steps K E (rs_store s) (rs_store b)" by simp
  then have "csteps (se_cfg K) (rs_store s) (rs_store b)" by (simp add: runner_steps_csteps [OF K(1)])
  then have "cinv (se_cfg K) (rs_store b)" using steps_cinv inv by blast
  from strict_stores [OF K(1) this abc(3) ok] raise_if_failed_still [OF abc(4)] K(1,2)
  show ?thesis by (simp add: stored_successful_def tx_still_def w(3))
qed

text \<open>A transaction that was found successful is stored as such.\<close>

lemma status_of_Some: "status_of x = Some st \<Longrightarrow> x = status_value st"
  by (auto simp: status_of_def split: if_splits)

lemma load_header:
  assumes "load_transaction_with_revision now i db = (Inr (t, v), db')"
  shows "\<exists>r. find_tx i db = Some r \<and> tx_id t = i \<and> xr_status r = status_value (tx_status t)"
proof -
  from assms(1) obtain rows where rows: "read_transaction_rows db i = Inr rows" "transaction_from_rows now rows = Inr t"
    by (auto simp: load_transaction_with_revision_def bnd_Inr get_st_def lift_res_def ret_def)
  from rows(2) have "status_of (xr_status (rw_header rows)) = Some (tx_status t)" "tx_id t = xr_id (rw_header rows)"
    by (auto simp: transaction_from_rows_def Let_def rbnd_Inr enum_of_def transaction_post_init_def
        split: option.splits if_splits sum.splits)
  moreover from rows(1) have "find_tx i db = Some (rw_header rows)"
    by (auto simp: read_transaction_rows_def split: option.splits)
  moreover from this have "xr_id (rw_header rows) = i" by (auto simp: find_tx_def find_Some_iff)
  ultimately show ?thesis by (auto dest: status_of_Some)
qed

lemma prepare_keeps_success:
  assumes "prepare_resumed_transaction now t0 steps r identity = Inr t"
  shows "tx_id t = tx_id t0 \<and> (tx_status t = SUCCESSFUL \<longrightarrow> t = t0)"
proof (cases "tx_status t0 = SUCCESSFUL")
  case True
  with assms(1) show ?thesis by (simp add: prepare_resumed_transaction_def)
next
  case False
  from assms [unfolded prepare_Inr [OF False]] show ?thesis
    by (auto simp: resumed_def append_history_def Let_def split: if_splits)
qed

text \<open>The transaction of a durable item is the one the item is bound to, or becomes so.\<close>

lemma item_transaction:
  assumes K: "sqlite_runner K E" and run: "transaction_for_queue_item E item s = (Inr (t, v, item'), s1)"
    and d: "re_durable E"
  shows "qi_transaction_id item' = tx_id t \<and> (qi_transaction_id item \<noteq> [] \<longrightarrow> qi_transaction_id item = tx_id t) \<and>
    (tx_status t = SUCCESSFUL \<longrightarrow> stored_successful (tx_id t) (rs_store s1))"
proof (cases "qi_transaction_id item = []")
  case True
  then have init: "initial_transaction E item s = (Inr (t, v), s1)" and id: "qi_transaction_id item' = tx_id t"
    using run d by (auto simp: transaction_for_queue_item_def bnd_Inr ret_def split: prod.splits)
  from init obtain t0 saved and y z :: "cdb rst" where valid: "validate_initial_queue_transaction t0 = Inr ()"
    and last: "(case saved of Inr revision \<Rightarrow> ret (t0, revision)
       | Inl e \<Rightarrow> (if is_fence_error e then raise_exc e
            else thn count_persistence_error (raise_exc (CheckpointError e (\<not> permanent_error e))))) y = (Inr (t, v), z)"
    by (auto simp: initial_transaction_def bnd_Inr thn_Inr lift_res_def)
  from last have "t0 = t"
    by (cases saved) (auto simp: ret_def thn_Inr raise_exc_def split: if_splits)
  with valid have "tx_status t = PENDING"
    by (auto simp: validate_initial_queue_transaction_def rbnd_Inr split: if_splits)
  with True id show ?thesis by simp
next
  case False
  then have rec: "recovered_transaction E item s = (Inr (t, v), s1)" and id: "item' = item"
    using run d by (auto simp: transaction_for_queue_item_def bnd_Inr ret_def split: prod.splits)
  from rec obtain a t0 z now and candidate :: transaction where z:
      "call_service (\<lambda>n. sv_load (re_services E) n (qi_transaction_id item)) a = (Inr (t0, v), z)"
    and prep: "prepare_resumed_transaction now t0 (tx_steps candidate) (re_retry_business E)
       (PStr (tx_definition_identity candidate)) = Inr t" and s1: "rs_store s1 = rs_store z"
    by (auto simp: recovered_transaction_def catch_exc_def raise_exc_def bnd_Inr lift_res_def reading_def ret_def
        split: prod.splits sum.splits)
  note same = prepare_keeps_success [OF prep]
  from z K have "call_service (\<lambda>n. in_store K n (on_tx (load_transaction_with_revision
      (utc_datetime (store_now K n)) (qi_transaction_id item)))) a = (Inr (t0, v), z)"
    by (simp add: sqlite_runner_def sqlite_services_def)
  from call_in_store [OF _ this] K obtain w now' where
    "on_tx (load_transaction_with_revision now' (qi_transaction_id item)) w = (Inr (t0, v), rs_store z)"
    by (auto simp: sqlite_runner_def)
  then have load: "load_transaction_with_revision now' (qi_transaction_id item) (c_tx w) = (Inr (t0, v), c_tx w)"
    "c_tx (rs_store z) = c_tx w"
    using load_keeps_store [of now' "qi_transaction_id item" "c_tx w"]
    by (auto simp: on_tx_def split: prod.splits)
  from load_header [OF load(1)] obtain row where row: "find_tx (qi_transaction_id item) (c_tx w) = Some row"
    "tx_id t0 = qi_transaction_id item" "xr_status row = status_value (tx_status t0)" by blast
  have i: "tx_id t = qi_transaction_id item" by (rule trans [OF conjunct1 [OF same] row(2)])
  have "stored_successful (tx_id t) (rs_store s1)" if ok: "tx_status t = SUCCESSFUL"
  proof -
    have "tx_status t0 = SUCCESSFUL" using same ok by metis
    then have "xr_status row = status_value SUCCESSFUL" by (simp only: row(3))
    with row(1) show ?thesis unfolding stored_successful_def i s1 load(2) by blast
  qed
  with i show ?thesis unfolding id by metis
qed

lemma engine_keeps_id: "run_engine E item t s = (Inr (r, t'), u) \<Longrightarrow> tx_id t' = tx_id t"
proof -
  assume "run_engine E item t s = (Inr (r, t'), u)"
  then obtain X and st :: "'a rst est" where "t' = es_tx (snd (engine_run (re_engine E) (engine_env E item X) st))" "es_tx st = t"
    by (auto simp: run_engine_def bnd_def reading_def split: prod.splits)
      (metis est.select_convs(1) snd_conv)
  then show ?thesis
    using run_frame_engine [of st "re_engine E" "engine_env E item X"]
    by (simp add: run_frame_def tx_extends_def same_wiring_def)
qed

section \<open>Properties\<close>

text \<open>The runners of the examples.\<close>

lemma sqlite_runner_demo: "sqlite_runner demo_stores refusing_runner" "sqlite_runner demo_stores bound_runner"
  by (simp_all add: sqlite_runner_def fair_store_def demo_stores_def refusing_runner_def bound_runner_def demo_runner_def)

lemma cinv_demo_state: "cinv (se_cfg demo_stores) (rs_store (demo_state demo_claimed))"
  by (simp add: cinv_def tinv_empty qinv_demo_claimed demo_state_def demo_stores_def)

text \<open>
  C19: whatever a run counts has happened in the queue: an item counted as completed is successful, as
  scheduled for a retry pending, and as failed terminally failed, and no claim is left on it.
\<close>

theorem counted_outcome_is_stored:
  assumes "sqlite_runner K E" and "cinv (se_cfg K) (rs_store s)" and "run_claimed_item E item s = (Inr True, t)"
  shows "\<exists>q \<in> set (q_items (c_queue (rs_store t))). qr_id q = qi_id item \<and> qr_claim_token q = [] \<and>
    (qr_status q = QS_SUCCESSFUL \<and> sm_completed (rs_summary t) = sm_completed (rs_summary s) + 1 \<or>
     qr_status q = QS_PENDING \<and> sm_retry_scheduled (rs_summary t) = sm_retry_scheduled (rs_summary s) + 1 \<or>
     qr_status q = QS_FAILED \<and> sm_terminal_failed (rs_summary t) = sm_terminal_failed (rs_summary s) + 1)"
proof (rule claimed_transition [OF assms(1,3)])
  fix x u y v
  assume id: "same_claim_of item (ir_item y)" and settled: "settled_item E y v = (Inr True, t)"
    and steps: "csteps (se_cfg K) (rs_store s) (rs_store v)" and "same_counts s v"
  then have counts: "sm_completed (rs_summary v) = sm_completed (rs_summary s)"
    "sm_retry_scheduled (rs_summary v) = sm_retry_scheduled (rs_summary s)"
    "sm_terminal_failed (rs_summary v) = sm_terminal_failed (rs_summary s)"
    by (simp_all add: same_counts_def outcome_counts_def)
  have inv: "cinv (se_cfg K) (rs_store v)" using steps_cinv [OF steps assms(2)] .
  have live: "\<not> ir_lease_lost y" using settled by (auto simp: settled_item_def summary_then)
  show ?thesis
  proof (cases "ir_complete y")
    case True
    with settled live have "completed_item E y v = (Inr True, t)" by (simp add: settled_item_def)
    from completed_item_row [OF assms(1) inv this] id counts show ?thesis by (auto simp: same_claim_of_def)
  next
    case False
    with settled live have "failed_item E y v = (Inr True, t)" by (simp add: settled_item_def)
    from failed_item_row [OF assms(1) inv this] id counts show ?thesis
      by (auto simp: same_claim_of_def split: if_splits)
  qed
qed

theorem counted_outcome_is_stored_witness:
  "\<exists>q \<in> set (q_items (c_queue (rs_store (snd (run_claimed_item refusing_runner demo_claim
       (demo_state demo_claimed)))))). qr_id q = ''a'' \<and> qr_claim_token q = []"
proof -
  obtain t where t: "run_claimed_item refusing_runner demo_claim (demo_state demo_claimed) = (Inr True, t)"
    using refused_run by blast
  have "qi_id demo_claim = ''a''" by (simp add: demo_claim_def demo_item_def)
  then show ?thesis
    using counted_outcome_is_stored [OF sqlite_runner_demo(1) cinv_demo_state t] t by (auto simp: demo_stores_def)
qed

text \<open>No step but refused ones failed, and at least one did.\<close>

definition refused_only :: "item_run \<Rightarrow> bool" where
  "refused_only x \<longleftrightarrow> (\<exists>t. ir_transaction x = Some t \<and> (\<exists>s \<in> set (tx_steps t). st_status s = FAILED) \<and>
     (\<forall>s \<in> set (tx_steps t). st_status s = FAILED \<longrightarrow> st_exceptions s \<noteq> [] \<and> is_business (last (st_exceptions s))))"

lemma failed_steps_set: "set (failed_steps t) = {s \<in> set (tx_steps t). st_status s = FAILED}"
  by (simp add: failed_steps_def failed_indices_steps)

lemma refused_only_iff: "refused_only x \<longleftrightarrow> transaction_has_only_business_failures (ir_transaction x)"
proof -
  have "failed_steps t \<noteq> [] \<longleftrightarrow> (\<exists>s \<in> set (tx_steps t). st_status s = FAILED)" for t
    using failed_steps_set [of t] by (metis (mono_tags, lifting) empty_iff list.set_sel(1) mem_Collect_eq set_empty)
  then show ?thesis
    by (auto simp: refused_only_def transaction_has_only_business_failures_def failed_steps_set split: option.splits)
qed

text \<open>
  C20: a failed item is delivered again exactly while it has retries left and the failure allows it. Without an
  error of the run it does not when all failed steps were refused by business exceptions, unless
  business failures shall be retried. Of the errors, an invalid transaction or state and an unusable
  binding do not allow it, a failed checkpoint as it was decided when it failed, and every other error does.
\<close>

theorem business_failures_end_the_item:
  assumes "sqlite_runner K E" and "cinv (se_cfg K) (rs_store s)" and "failed_item E x s = (Inr True, t)"
  shows "\<exists>q \<in> set (q_items (c_queue (rs_store t))). qr_id q = qi_id (ir_item x) \<and> qr_claim_token q = [] \<and>
    qr_status q = (if qr_retry_count q \<le> qc_max_retries (se_cfg K) \<and>
        (case ir_outcome_error x of
           None \<Rightarrow> re_retry_business E \<or> \<not> refused_only x
         | Some e \<Rightarrow> e \<notin> range ExecutionValidationError \<union> range DefinitionIdentityError \<union> range JsonStateError \<union>
             range DurableBindingError \<union> range (\<lambda>cause. CheckpointError cause False))
      then QS_PENDING else QS_FAILED)"
proof -
  have "(case ir_outcome_error x of None \<Rightarrow> re_retry_business E \<or> \<not> refused_only x
      | Some e \<Rightarrow> e \<notin> range ExecutionValidationError \<union> range DefinitionIdentityError \<union> range JsonStateError \<union>
          range DurableBindingError \<union> range (\<lambda>cause. CheckpointError cause False)) =
      queue_retry (re_retry_business E) x"
  proof (cases "ir_outcome_error x")
    case None
    then show ?thesis by (simp add: queue_retry_def refused_only_iff)
  next
    case (Some e)
    then show ?thesis by (cases e) (auto simp: queue_retry_def permanent_error_def)
  qed
  then show ?thesis using failed_item_row [OF assms] by (auto split: if_splits)
qed

text \<open>A claimed item whose only step was refused by a business exception.\<close>

definition demo_refused :: item_run where
  "demo_refused = \<lparr>ir_item = demo_claim,
     ir_transaction = Some (demo_tx [demo_step ''check'' 1 FAILED [demo_exc True False []]]),
     ir_error = None, ir_outcome_error = None, ir_complete = False, ir_lease_lost = False, ir_callback_failed = False\<rparr>"

theorem business_failures_end_the_item_witness:
  "\<exists>q \<in> set (q_items (c_queue (rs_store (snd (failed_item refusing_runner demo_refused
       (demo_state demo_claimed)))))). qr_id q = ''a'' \<and> qr_status q = QS_FAILED"
proof -
  have "\<exists>t. failed_item refusing_runner demo_refused (demo_state demo_claimed) = (Inr True, t)"
    by (rule small_fail) (simp_all add: small_runner_def refusing_runner_def demo_runner_def demo_refused_def
        demo_claim_def demo_item_def demo_state_def)
  then obtain t where t: "failed_item refusing_runner demo_refused (demo_state demo_claimed) = (Inr True, t)" by blast
  have "transaction_has_only_business_failures (ir_transaction demo_refused)"
    "\<not> re_retry_business refusing_runner" "ir_outcome_error demo_refused = None" "qi_id (ir_item demo_refused) = ''a''"
    by (simp_all add: transaction_has_only_business_failures_def demo_refused_def failed_steps_def failed_indices_def
        demo_tx_def demo_step_def new_step_def demo_exc_def refusing_runner_def demo_runner_def demo_claim_def demo_item_def)
  then show ?thesis
    using business_failures_end_the_item [OF sqlite_runner_demo(1) cinv_demo_state t] t by (auto simp: refused_only_iff)
qed

text \<open>
  C21: with persistence, an item is only ever completed when its own transaction is stored as successful:
  the one the item is bound to, which the run of this item returned as successful. The final
  checkpoint came before the transition, whatever other workers did to the queue meanwhile, as long as no
  other process writes into the transaction store.
\<close>

theorem completed_items_are_durable:
  assumes "sqlite_runner K E" and "private_store K" and "re_durable E" and "cinv (se_cfg K) (rs_store s)"
    and "run_claimed_item E item s = (Inr b, t)"
    and "sm_completed (rs_summary t) = sm_completed (rs_summary s) + 1"
  shows "\<exists>x u tx. executed_item E item s = (Inr x, u) \<and> ir_transaction x = Some tx \<and> tx_status tx = SUCCESSFUL \<and>
    qi_transaction_id (ir_item x) = tx_id tx \<and> (qi_transaction_id item \<noteq> [] \<longrightarrow> qi_transaction_id item = tx_id tx) \<and>
    stored_successful (tx_id tx) (rs_store t) \<and>
    (\<exists>q \<in> set (q_items (c_queue (rs_store t))). qr_id q = qi_id item \<and> qr_status q = QS_SUCCESSFUL)"
proof (rule claimed_transition [OF assms(1,5)])
  fix x u y v
  assume ex: "executed_item E item s = (Inr x, u)" and same: "same_run x y" and id: "same_claim_of item (ir_item y)"
    and steps: "csteps (se_cfg K) (rs_store s) (rs_store v)"
    and settled: "settled_item E y v = (Inr b, t)" and counts: "same_counts s v"
    and after: "\<And>R. lease_relation R E \<Longrightarrow> R u v"
  from settled_Inr [OF settled] obtain w f where "same_counts v w" "outcome_of_item b f"
    "t = w\<lparr>rs_summary := f (rs_summary w)\<rparr>" by blast
  then have b: b using counts assms(6)
    by (auto simp: outcome_of_item_def same_counts_def outcome_counts_def count_lease_lost_def)
  have live: "\<not> ir_lease_lost y" using settled b by (auto simp: settled_item_def summary_then)
  have complete: "ir_complete y"
  proof (rule ccontr)
    assume "\<not> ir_complete y"
    with settled live b have "failed_item E y v = (Inr True, t)" by (simp add: settled_item_def)
    then show False
    proof (rule failed_Inr)
      fix z outcome z'
      assume "beats E (ir_item y) v = (Inr (), z)"
        "fail_queue_item_with_retries E (ir_item y) (queue_retry (re_retry_business E) y) z = (Inr (Inr outcome), z')"
        and t: "t = z'\<lparr>rs_summary := count_failed outcome (rs_summary z')\<rparr>"
      then have "same_counts v z'"
        using keepsD [OF counts.R_beats] keepsD [OF counts.R_fail_retries] counts.R_trans by metis
      then show False using counts assms(6)
        by (auto simp: t same_counts_def outcome_counts_def count_failed_def Let_def split: if_splits)
    qed
  qed
  with settled live b have last: "completed_item E y v = (Inr True, t)" by (simp add: settled_item_def)
  from executed_Inr [OF ex] complete same obtain tx n tx' s1 s2 where
    tx: "transaction_for_queue_item E item s = (Inr (tx, n, ir_item x), s1)"
    and run: "if \<not> re_durable E \<or> tx_status tx \<noteq> SUCCESSFUL
        then run_engine E (ir_item x) tx (s1\<lparr>rs_revision := n\<rparr>) = (Inr (Inr (), tx'), s2)
        else tx' = tx \<and> s2 = s1\<lparr>rs_revision := n\<rparr>"
    and fin: "after_run E (ir_item x) tx' s2 = (Inr True, u)" and of_run: "ir_transaction x = Some tx'"
    by (auto simp: same_run_def)
  from fin obtain u' where u': "raise_if_failed E (ir_item x) s2 = (Inr (), u')" "rs_store u = rs_store u'"
    and ok: "tx_status tx' = SUCCESSFUL"
    by (auto simp: after_run_def thn_Inr lift_res_def ret_def)
  note bound = item_transaction [OF assms(1) tx assms(3)]
  have same_id: "tx_id tx' = tx_id tx" using run engine_keeps_id by (auto split: if_splits)
  have "stored_successful (tx_id tx') (rs_store s2)"
  proof (cases "tx_status tx = SUCCESSFUL")
    case True
    with run assms(3) bound show ?thesis by simp
  next
    case False
    have "cinv (se_cfg K) (rs_store (s1\<lparr>rs_revision := n\<rparr>))"
      using keepsD [OF sqlite.loop.R_transaction [of K E item] tx] steps_cinv [OF _ assms(4)]
      by (simp add: runner_steps_csteps [OF assms(1)])
    from engine_stores [OF assms(1-3) this _ ok] run False show ?thesis by auto
  qed
  moreover have "tx_still K E s2 u'" by (rule raise_if_failed_still [OF u'(1)])
  moreover have "tx_still K E u v" by (rule after [OF still.lease_relation_axioms])
  moreover have "tx_still K E v t"
    using last
  proof (rule completed_Inr)
    fix z z'
    assume "beats E (ir_item y) v = (Inr (), z)" "complete_queue_item_with_retries E (ir_item y) z = (Inr None, z')"
      and t: "t = z'\<lparr>rs_summary := count_completed (ir_callback_failed y) (rs_summary z')\<rparr>"
    then have "tx_still K E v z'"
      using keepsD [OF still.R_beats] keepsD [OF complete_still] still.R_trans by metis
    then show ?thesis by (simp add: t tx_still_def)
  qed
  ultimately have "stored_successful (tx_id tx') (rs_store t)"
    using assms(1,2) u'(2) by (simp add: stored_successful_def tx_still_def)
  moreover have "\<exists>q \<in> set (q_items (c_queue (rs_store t))). qr_id q = qi_id item \<and> qr_status q = QS_SUCCESSFUL"
    using completed_item_row [OF assms(1) steps_cinv [OF steps assms(4)] last] id by (auto simp: same_claim_of_def)
  ultimately show ?thesis using ex of_run ok bound same_id by auto
qed

theorem completed_items_are_durable_witness:
  "stored_successful ''t1'' (rs_store (snd (run_claimed_item bound_runner demo_bound (bound_state 0))))"
proof -
  obtain t where t: "run_claimed_item bound_runner demo_bound (bound_state 0) = (Inr True, t)"
    "sm_completed (rs_summary t) = 1" using bound_run by blast
  have "private_store demo_stores" "re_durable bound_runner" "cinv (se_cfg demo_stores) (rs_store (bound_state 0))"
    "sm_completed (rs_summary (bound_state 0)) = 0"
    using cinv_bound
    by (simp_all add: private_store_def demo_stores_def bound_runner_def demo_runner_def bound_state_def
        demo_state_def empty_summary_def)
  then show ?thesis
    using completed_items_are_durable [OF sqlite_runner_demo(2) _ _ _ t(1)] t by (auto simp: demo_bound_def)
qed

text \<open>
  C22: a whole run of the queue loop, however it ends, with other processes committing between any two
  of its calls, is a sequence of transactions of the two stores: the invariant holds afterwards, no
  stored identity, revision or history is taken back, and the queue's journals only grow.
\<close>

theorem runner_keeps_the_protocol:
  assumes "sqlite_runner K E" and "cinv (se_cfg K) (rs_store s)"
    and "scope_keeps (\<lambda>s t. rs_store t = rs_store s) scope"
    and "run_queue_loop fuel E scope on_finish s = (r, t)"
  shows "csteps (se_cfg K) (rs_store s) (rs_store t) \<and> cinv (se_cfg K) (rs_store t) \<and>
    store_kept (c_tx (rs_store s)) (c_tx (rs_store t)) \<and> journal (c_queue (rs_store s)) (c_queue (rs_store t))"
proof -
  have "scope_keeps (\<lambda>s t. runner_steps K E (rs_store s) (rs_store t)) scope"
    using assms(3) by (auto simp: scope_keeps_def keeps_def runner_steps_csteps [OF assms(1)] split: option.splits)
  from keepsD [OF sqlite.loop.R_queue_loop [OF this] assms(4)]
  have "csteps (se_cfg K) (rs_store s) (rs_store t)" by (simp add: runner_steps_csteps [OF assms(1)])
  with csteps_kept [OF this assms(2)] show ?thesis by blast
qed

theorem runner_keeps_the_protocol_witness:
  "journal demo_claimed (c_queue (rs_store (snd (run_queue_loop 3 bound_runner None None (bound_state 0)))))"
proof -
  have "scope_keeps (\<lambda>s t. rs_store t = rs_store s) None" by (simp add: scope_keeps_def)
  from runner_keeps_the_protocol [OF sqlite_runner_demo(2) _ this surjective_pairing, of "bound_state 0" 3 None]
  show ?thesis using cinv_bound [of 0] by (simp add: demo_stores_def bound_state_def)
qed

text \<open>
  An item whose reference is empty, which the queue accepts, is not processed: the log context refuses it, the
  error leaves the run, and the claim stays open until its lease expires.
\<close>

lemma empty_reference_stops_the_run:
  "qi_reference item = [] \<Longrightarrow> \<exists>e. run_claimed_item E item s = (Inl e, s)"
  by (auto simp: run_claimed_item_def thn_def bnd_def lift_res_def validate_context_def item_log_context_def
      log_context_fields_def context_value_def rbnd_def)

end
