(* ===== verification/RunnerLiveness.thy ===== *)
theory RunnerLiveness
  imports RunnerOutcomes
begin

text \<open>
  The queue loop ends. The work left in a queue is the number of claims and endings that its items
  can still go through: every retry costs a claim and an ending. A claim uses up some of it and no
  operation of a worker adds to it, so a run makes no more claims than that.
\<close>

section \<open>The work left\<close>

definition row_work :: "queue_cfg \<Rightarrow> item_row \<Rightarrow> nat" where
  "row_work C r =
     (let retries_left = nat (qc_max_retries C - qr_retry_count r)
      in if qr_status r = QS_PENDING then 2 * retries_left + 2
         else if qr_status r = QS_IN_PROGRESS then 2 * retries_left + 1 else 0)"

definition work :: "queue_cfg \<Rightarrow> qdb \<Rightarrow> nat" where
  "work C db = sum_list (map (row_work C) (q_items db))"

lemma work_map:
  assumes "q_items db' = map f (q_items db)" "\<And>r. r \<in> set (q_items db) \<Longrightarrow> row_work C (f r) \<le> row_work C r"
  shows "work C db' \<le> work C db"
  unfolding work_def assms(1) map_map by (rule sum_list_mono) (simp add: assms(2))

lemma sum_list_less:
  fixes f g :: "'a \<Rightarrow> nat"
  assumes "\<And>x. x \<in> set xs \<Longrightarrow> f x \<le> g x" "y \<in> set xs" "f y < g y"
  shows "sum_list (map f xs) < sum_list (map g xs)"
  using assms
proof (induction xs)
  case (Cons x xs)
  have rest: "sum_list (map f xs) \<le> sum_list (map g xs)" by (rule sum_list_mono) (simp add: Cons.prems(1))
  show ?case
  proof (cases "y = x")
    case True
    then show ?thesis using rest Cons.prems(3) by (simp add: add_less_le_mono)
  next
    case False
    then show ?thesis using Cons.IH Cons.prems by (simp add: add_le_less_mono)
  qed
qed simp

lemma work_set_row:
  assumes ids: "ids_ok db" and r: "r \<in> set (q_items db)"
  shows "row_work C (f r) \<le> row_work C r \<Longrightarrow> work C (set_row (qr_id r) f db) \<le> work C db"
    and "row_work C (f r) < row_work C r \<Longrightarrow> work C (set_row (qr_id r) f db) < work C db"
proof -
  have items: "q_items (set_row (qr_id r) f db) = map (\<lambda>x. if x = r then f r else x) (q_items db)"
    using map_replace_one [OF _ r] ids by (simp add: set_row_def ids_ok_def)
  show "row_work C (f r) \<le> row_work C r \<Longrightarrow> work C (set_row (qr_id r) f db) \<le> work C db"
    by (rule work_map [OF items]) simp
  show "work C (set_row (qr_id r) f db) < work C db" if "row_work C (f r) < row_work C r"
    unfolding work_def items map_map by (rule sum_list_less [OF _ r]) (use that in auto)
qed

lemma work_items: "q_items db' = q_items db \<Longrightarrow> work C db' = work C db"
  by (simp add: work_def)

lemma work_bound:
  assumes "qinv C db"
  shows "work C db \<le> length (q_items db) * (2 * nat (qc_max_retries C) + 2)"
proof -
  have "row_work C r \<le> 2 * nat (qc_max_retries C) + 2" if "r \<in> set (q_items db)" for r
    using qinv_retry_nonneg [OF assms that] by (auto simp: row_work_def Let_def nat_le_iff)
  then have "sum_list (map (row_work C) (q_items db)) \<le>
      sum_list (map (\<lambda>_. 2 * nat (qc_max_retries C) + 2) (q_items db))"
    by (rule sum_list_mono)
  then show ?thesis by (simp add: work_def sum_list_triv)
qed

section \<open>The operations add no work\<close>

lemma released_work:
  assumes "qr_status r = QS_IN_PROGRESS" "again \<Longrightarrow> qr_retry_count r + 1 \<le> qc_max_retries C"
  shows "row_work C (released_row C now again (qr_retry_count r + 1) w r) < row_work C r"
  using assms by (auto simp: row_work_def released_row_def Let_def)

lemma work_set_row_items: "q_items db0 = q_items db \<Longrightarrow> work C (set_row i f db0) = work C (set_row i f db)"
  by (simp add: work_def set_row_def)

lemma work_owned:
  assumes "ids_ok db" "owned i w k db" "q_items db0 = q_items db"
    and le: "\<And>r. owns i w k r \<Longrightarrow> row_work C (f r) \<le> row_work C r"
  shows "work C (set_row i f db0) \<le> work C db"
proof -
  obtain r where r: "r \<in> set (q_items db)" "owns i w k r" using assms(2) by (auto simp: owned_def)
  then have "qr_id r = i" by (simp add: owns_def)
  then show ?thesis
    using work_set_row(1) [OF assms(1) r(1), of C f, OF le [OF r(2)]] work_set_row_items [OF assms(3)] by simp
qed

lemma work_renew: "ids_ok db \<Longrightarrow> work C (snd (renew_lease now i w k db)) \<le> work C db"
  by (simp add: renew_lease_run) (intro impI work_owned; simp add: row_work_def Let_def owns_def)

lemma work_complete: "ids_ok db \<Longrightarrow> work C (snd (complete now i w k db)) \<le> work C db"
  by (simp add: complete_run) (intro impI work_owned; simp add: row_work_def Let_def completed_row_def)

lemma work_fail:
  assumes "ids_ok db"
  shows "work C (snd (fail C now i retry w k db)) \<le> work C db"
proof (cases "owned i w k db")
  case True
  then obtain r where r: "r \<in> set (q_items db)" "owns i w k r" by (auto simp: owned_def)
  then have id: "i = qr_id r" "qr_status r = QS_IN_PROGRESS" by (simp_all add: owns_def)
  have "row_work C (released_row C now (again_after C retry r) (qr_retry_count r + 1) w r) < row_work C r"
    by (rule released_work [OF id(2)]) (simp add: again_after_def)
  then have "work C (set_row i (released_row C now (again_after C retry r) (qr_retry_count r + 1) w) db) < work C db"
    unfolding id(1) by (rule work_set_row(2) [OF assms r(1)])
  moreover have "work C (set_row i f (close_open i k oc now db)) = work C (set_row i f db)" for f oc
    by (rule work_set_row_items) simp
  ultimately show ?thesis by (simp add: fail_run_owned [OF assms r])
qed (simp add: fail_run_lost)

lemma work_reclaim:
  assumes "qinv C db"
  shows "work C (snd (reclaim_stale C now db)) \<le> work C db"
proof (rule work_map [OF reclaim_items [OF assms]])
  fix r
  have "row_work C (released_row C now (again_after C True r) (qr_retry_count r + 1) (qr_claimed_by r) r) \<le> row_work C r"
    if "stale_row C now r"
    by (rule less_imp_le, rule released_work) (use that in \<open>simp_all add: stale_row_def again_after_def\<close>)
  then show "row_work C (if stale_row C now r
      then released_row C now (again_after C True r) (qr_retry_count r + 1) (qr_claimed_by r) r else r) \<le> row_work C r"
    by simp
qed

lemma work_eligible:
  assumes "ids_ok db" "r \<in> set (q_items db)" "still_eligible row now r"
    and less: "row_work C (f r) < row_work C r" and items: "q_items db' = q_items (set_row (qr_id row) f db)"
  shows "work C db' < work C db"
proof -
  have "qr_id row = qr_id r" using assms(3) by (simp add: still_eligible_def)
  then show ?thesis using work_set_row(2) [of db r C f, OF assms(1,2) less] by (simp add: work_items [OF items])
qed

lemma work_quarantine:
  assumes "ids_ok db"
  shows "work C (snd (quarantine row e now at_us db)) \<le> work C db"
proof (cases "\<exists>r \<in> set (q_items db). still_eligible row now r")
  case True
  then obtain r where r: "r \<in> set (q_items db)" "still_eligible row now r" by blast
  have "row_work C (quarantined_row r) < row_work C r"
    using r(2) by (simp add: still_eligible_def row_work_def quarantined_row_def Let_def)
  then have "work C (snd (quarantine row e now at_us db)) < work C db"
    by (rule work_eligible [OF assms r])
      (use True in \<open>simp add: quarantine_run [OF assms] record_poison_event_def upd_st_def\<close>)
  then show ?thesis by simp
qed (simp add: quarantine_run [OF assms])

lemma work_claim:
  assumes "ids_ok db" "claim_row row payload worker now token db = (q, db')"
  shows "work C db' \<le> work C db \<and> (\<forall>item. q = Inr (Some item) \<longrightarrow> work C db' < work C db)"
  using claim_row_run [OF assms]
proof (elim disjE exE conjE)
  fix r item
  assume r: "r \<in> set (q_items db)" "still_eligible row now r"
    and att: "open_attempt (qr_id r) token worker now (set_row (qr_id r) (claimed_row worker now token) db) = (Inr (), db')"
  have "row_work C (claimed_row worker now token r) < row_work C r"
    using r(2) by (simp add: still_eligible_def row_work_def claimed_row_def Let_def)
  then have "work C db' < work C db"
    by (rule work_eligible [OF assms(1) r])
      (use r att in \<open>auto simp: open_attempt_def still_eligible_def split: if_splits\<close>)
  then show ?thesis by simp
qed simp

section \<open>Claiming\<close>

text \<open>Alone between its readings, with tokens that are not empty.\<close>

definition alone_env :: "qenv \<Rightarrow> bool" where
  "alone_env K \<longleftrightarrow> (\<forall>n db. qn_other K n db = db) \<and> (\<forall>n. qn_uuid K n \<noteq> [])"

definition none_due :: "qenv \<Rightarrow> qdb \<Rightarrow> bool" where
  "none_due K db \<longleftrightarrow> (\<exists>j. \<forall>x \<in> set (q_items db). \<not> eligible (qn_clock K j) x)"

text \<open>
  Whatever the loop does, it adds no work; when it claims an item, it uses some up, and when it finds
  none, none is due at its last reading of the clock.
\<close>

lemma claim_loop_work:
  assumes K: "alone_env K" and inv: "qinv C (qn_db s)" and run: "claim_loop n K worker s = (q, t)"
  shows "qinv C (qn_db t) \<and> work C (qn_db t) \<le> work C (qn_db s) \<and>
    (\<forall>item. q = Inr (Some (Some item)) \<longrightarrow> work C (qn_db t) < work C (qn_db s)) \<and>
    (q = Inr (Some None) \<longrightarrow> none_due K (qn_db t))"
  using inv run
proof (induction n arbitrary: s)
  case 0
  then show ?case by (auto simp: ret_def)
next
  case (Suc n)
  have other: "qn_other K m d = d" and uuid: "qn_uuid K m \<noteq> []" for m d using K by (simp_all add: alone_env_def)
  let ?now = "qn_clock K (qn_tick s)" and ?tick = "Suc (Suc (qn_tick s))"
  let ?s = "s\<lparr>qn_tick := ?tick\<rparr>"
  obtain found where found: "oldest_eligible ?now (qn_db s) = (Inr found, qn_db s)"
    by (auto simp: oldest_eligible_def bnd_def items_where_def ret_def)
  show ?case
  proof (cases found)
    case None
    have "\<forall>x \<in> set (q_items (qn_db s)). \<not> eligible ?now x"
      using found None by (cases rule: oldest_cases [of ?now "qn_db s"]) auto
    then have "none_due K (qn_db s)" by (auto simp: none_due_def)
    with Suc.prems found None show ?thesis
      by (auto simp: bnd_def now_utc_def in_db_def other ret_def)
  next
    case (Some row)
    let ?rest = "case load_payload (qr_payload row) of
              Inl e \<Rightarrow>
                (if e = JSONDecodeError \<or> is_json_state_error e
                 then bnd (now_utc K) (\<lambda>now2. bnd (now_utc K) (\<lambda>now3.
                      thn (in_db K (quarantine row e now2 now3)) (claim_loop n K worker)))
                 else raise_exc e)
            | Inr payload \<Rightarrow>
                bnd (now_utc K) (\<lambda>now. bnd (uuid4_hex K) (\<lambda>token.
                bnd (in_db K (claim_row row payload worker now token)) (\<lambda>claimed.
                  case claimed of
                    None \<Rightarrow> claim_loop n K worker
                  | Some item \<Rightarrow> ret (Some (Some item)))))"
    have run: "thn (lift_res (parse_available_at (qr_available_at row))) ?rest ?s = (q, t)"
      using Suc.prems(2) found Some by (simp add: bnd_def now_utc_def in_db_def other)
    show ?thesis
    proof (cases "parse_available_at (qr_available_at row)")
      case (Inl e)
      with run Suc.prems(1) show ?thesis by (auto simp: thn_def bnd_def lift_res_def)
    next
      case (Inr due)
      with run have rest: "?rest ?s = (q, t)" by (simp add: thn_def bnd_def lift_res_def)
      show ?thesis
      proof (cases "load_payload (qr_payload row)")
        case (Inl e)
        show ?thesis
        proof (cases "e = JSONDecodeError \<or> is_json_state_error e")
          case False
          with rest Inl Suc.prems(1) show ?thesis by (auto simp: raise_exc_def)
        next
          case True
          let ?now2 = "qn_clock K ?tick" and ?now3 = "qn_clock K (Suc ?tick)"
          obtain qq db where qd: "quarantine row e ?now2 ?now3 (qn_db s) = (qq, db)"
            by (cases "quarantine row e ?now2 ?now3 (qn_db s)")
          have ok: "qq = Inr ()"
            using qd by (auto simp: quarantine_run [OF qinv_ids [OF Suc.prems(1)]] split: if_splits)
          let ?u = "s\<lparr>qn_db := db, qn_tick := Suc (Suc (Suc ?tick))\<rparr>"
          have "claim_loop n K worker ?u = (q, t)"
            using rest Inl True qd ok by (simp add: bnd_def thn_def now_utc_def in_db_def other)
          moreover have "qinv C db" "work C db \<le> work C (qn_db s)"
            using qinv_quarantine [OF Suc.prems(1), of row e ?now2 ?now3]
              work_quarantine [OF qinv_ids [OF Suc.prems(1)], of C row e ?now2 ?now3] qd by simp_all
          ultimately show ?thesis using Suc.IH [of ?u] by fastforce
        qed
      next
        case (Inr payload)
        let ?now2 = "qn_clock K ?tick" and ?token = "qn_uuid K (Suc ?tick)"
        obtain c db where c: "claim_row row payload worker ?now2 ?token (qn_db s) = (c, db)"
          by (cases "claim_row row payload worker ?now2 ?token (qn_db s)")
        let ?u = "s\<lparr>qn_db := db, qn_tick := Suc (Suc (Suc ?tick))\<rparr>"
        have after: "(case c of Inl e \<Rightarrow> (Inl e, ?u)
            | Inr None \<Rightarrow> claim_loop n K worker ?u
            | Inr (Some item) \<Rightarrow> (Inr (Some (Some item)), ?u)) = (q, t)"
          using rest Inr c
          by (simp add: bnd_def now_utc_def uuid4_hex_def in_db_def other ret_def split: sum.splits option.splits)
        have inv: "qinv C db" using qinv_claim_row [OF Suc.prems(1) uuid] c by (metis snd_conv)
        note w = work_claim [OF qinv_ids [OF Suc.prems(1)] c, of C]
        show ?thesis
        proof (cases c)
          case (Inl e)
          with after inv w show ?thesis by auto
        next
          case (Inr claimed)
          show ?thesis
          proof (cases claimed)
            case None
            with after Inr have "claim_loop n K worker ?u = (q, t)" by simp
            from Suc.IH [OF _ this] inv w show ?thesis by fastforce
          next
            case (Some item)
            with after Inr inv w show ?thesis by auto
          qed
        qed
      qed
    qed
  qed
qed

lemma next_item_work:
  assumes K: "alone_env K" and inv: "qinv (qn_cfg K) (qn_db s)" and run: "next_item n K worker s = (q, t)"
  shows "qinv (qn_cfg K) (qn_db t) \<and> work (qn_cfg K) (qn_db t) \<le> work (qn_cfg K) (qn_db s) \<and>
    (\<forall>item. q = Inr (Some (Some item)) \<longrightarrow> work (qn_cfg K) (qn_db t) < work (qn_cfg K) (qn_db s)) \<and>
    (q = Inr (Some None) \<longrightarrow> none_due K (qn_db t))"
proof -
  let ?C = "qn_cfg K" and ?now = "qn_clock K (qn_tick s)"
  let ?w = "if worker = [] then qn_hostname K else worker"
  obtain db where db: "reclaim_stale ?C ?now (qn_db s) = (Inr (), db)" "qinv ?C db"
    using reclaim_stale_run [OF inv] by blast
  let ?u = "s\<lparr>qn_db := db, qn_tick := Suc (Suc (qn_tick s))\<rparr>"
  have "claim_loop n K ?w ?u = (q, t)"
    using run K by (simp add: next_item_def Let_def bnd_def thn_def now_utc_def in_db_def alone_env_def db(1))
  from claim_loop_work [OF K _ this, of ?C] db work_reclaim [OF inv, of ?now] show ?thesis by fastforce
qed

section \<open>The services add no work\<close>

text \<open>The other processes neither add items nor deliver finished ones again.\<close>

definition no_new_work :: "store_env \<Rightarrow> bool" where
  "no_new_work K \<longleftrightarrow> (\<forall>n s. cinv (se_cfg K) s \<longrightarrow>
     work (se_cfg K) (c_queue (se_other K n s)) \<le> work (se_cfg K) (c_queue s))"

definition less_work :: "store_env \<Rightarrow> cdb renv \<Rightarrow> cdb \<Rightarrow> cdb \<Rightarrow> bool" where
  "less_work K E s t \<longleftrightarrow> (sqlite_runner K E \<and> no_new_work K \<and> cinv (se_cfg K) s \<longrightarrow>
     cinv (se_cfg K) t \<and> work (se_cfg K) (c_queue t) \<le> work (se_cfg K) (c_queue s))"

lemma other_work:
  assumes "sqlite_runner K E" "no_new_work K" "cinv (se_cfg K) s"
  shows "cinv (se_cfg K) (se_other K n s)" "work (se_cfg K) (c_queue (se_other K n s)) \<le> work (se_cfg K) (c_queue s)"
  using assms steps_cinv [of "se_cfg K" s "se_other K n s"]
  by (simp_all add: sqlite_runner_def fair_store_def no_new_work_def)

lemma service_work:
  assumes "\<And>v. sqlite_runner K E \<Longrightarrow> cinv (se_cfg K) v \<Longrightarrow>
      cinv (se_cfg K) (snd (m v)) \<and> work (se_cfg K) (c_queue (snd (m v))) \<le> work (se_cfg K) (c_queue v)"
  shows "keeps (less_work K E) (in_store K n m)"
proof (rule keepsI)
  fix s
  have "cinv (se_cfg K) (snd (in_store K n m s)) \<and>
      work (se_cfg K) (c_queue (snd (in_store K n m s))) \<le> work (se_cfg K) (c_queue s)"
    if K: "sqlite_runner K E" "no_new_work K" "cinv (se_cfg K) s"
    using other_work [OF K, of n] assms [OF K(1), of "se_other K n s"]
    by (cases "se_fault K n") (auto simp: in_store_def)
  then show "less_work K E s (snd (in_store K n m s))" by (simp add: less_work_def)
qed

lemma queue_work:
  assumes "\<And>db. qinv C db \<Longrightarrow> qinv C (snd (m db)) \<and> work C (snd (m db)) \<le> work C db" "cinv C v"
  shows "cinv C (snd (on_queue m v)) \<and> work C (c_queue (snd (on_queue m v))) \<le> work C (c_queue v)"
  using assms by (auto simp: cinv_def on_queue_def case_prod_beta)

lemma alone_claims: "sqlite_runner K E \<Longrightarrow> alone_env (claim_env K n)"
  by (simp add: alone_env_def claim_env_def sqlite_runner_def fair_store_def)

lemma claim_work:
  assumes K: "sqlite_runner K E" and inv: "qinv (se_cfg K) db" and run: "sqlite_next_item K n worker db = (q, db')"
  shows "qinv (se_cfg K) db' \<and> work (se_cfg K) db' \<le> work (se_cfg K) db \<and>
    (\<forall>item. q = Inr (Some item) \<longrightarrow> work (se_cfg K) db' < work (se_cfg K) db)"
proof -
  obtain p t where nx: "next_item (Suc (length (q_items db))) (claim_env K n) worker \<lparr>qn_db = db, qn_tick = 0\<rparr> = (p, t)"
    by (cases "next_item (Suc (length (q_items db))) (claim_env K n) worker \<lparr>qn_db = db, qn_tick = 0\<rparr>")
  have q: "q = map_sum id (\<lambda>found. Option.bind found id) p" "db' = qn_db t"
    using run by (simp_all add: sqlite_next_item_def nx)
  have "p = Inr (Some (Some item))" if "q = Inr (Some item)" for item
    using that q(1) by (cases p) (auto simp: bind_eq_Some_conv)
  then show ?thesis
    using next_item_work [OF alone_claims [OF K] _ nx] inv q(2) by (simp add: claim_env_def)
qed

lemma fenced_work:
  assumes "cinv C s"
  shows "work C (c_queue (snd (save_queue_transaction_fenced now t i w k v initial s))) \<le> work C (c_queue s)"
proof -
  obtain q u where run: "save_queue_transaction_fenced now t i w k v initial s = (q, u)"
    by (cases "save_queue_transaction_fenced now t i w k v initial s")
  show ?thesis
  proof (cases q)
    case (Inl e)
    with run have "u = s" using fenced_error by blast
    with run show ?thesis by simp
  next
    case (Inr m)
    note ok = run [unfolded Inr]
    have "work C (c_queue u) \<le> work C (c_queue s)"
    proof (rule fenced_success [OF ok])
      fix db
      let ?f = "\<lambda>r. if claim_current i w k (tx_id t) r then r\<lparr>qr_transaction_id := tx_id t\<rparr> else r"
      assume u: "u = (if initial then s\<lparr>c_tx := db, c_queue := snd (update_items (claim_current i w k (tx_id t))
         (\<lambda>r. r\<lparr>qr_transaction_id := tx_id t\<rparr>) (c_queue s))\<rparr> else s\<lparr>c_tx := db\<rparr>)"
      have "work C (snd (update_items (claim_current i w k (tx_id t)) (\<lambda>r. r\<lparr>qr_transaction_id := tx_id t\<rparr>) (c_queue s)))
          \<le> work C (c_queue s)"
        by (rule work_map [of _ ?f]) (simp_all add: update_items_def row_work_def Let_def)
      then show "work C (c_queue u) \<le> work C (c_queue s)" by (simp add: u)
    qed
    with run show ?thesis by simp
  qed
qed

interpretation drain: service_contract "less_work K E" E for K E
proof unfold_locales
  have off: "keeps (less_work K E) m" if "\<not> sqlite_runner K E" for m :: "(cdb, pyexc, 'x) effect"
    using that by (simp add: keeps_def less_work_def)
  have kept: "keeps (less_work K E) m"
    if "m = in_store K n m'" "\<And>v. sqlite_runner K E \<Longrightarrow> cinv (se_cfg K) v \<Longrightarrow> cinv (se_cfg K) (snd (m' v)) \<and>
      work (se_cfg K) (c_queue (snd (m' v))) \<le> work (se_cfg K) (c_queue v)"
    for n and m m' :: "(cdb, pyexc, 'x) effect"
    unfolding that(1) by (rule service_work) (rule that(2))
  have services: "sqlite_runner K E \<Longrightarrow> re_services E = sqlite_services K" by (simp add: sqlite_runner_def)
  note case_runner = case_split [of "sqlite_runner K E"]
  show "keeps (less_work K E) (sv_next_item (re_services E) n w)" for n w
    by (rule case_runner)
      (auto simp: services sqlite_services_def off intro!: kept [OF refl] queue_work
        dest: claim_work [OF _ _ surjective_pairing])
  show "keeps (less_work K E) (sv_renew_lease (re_services E) n i w k)" for n i w k
    by (rule case_runner)
      (simp_all add: services sqlite_services_def off kept [OF refl] queue_work qinv_renew work_renew qinv_ids)
  show "keeps (less_work K E) (sv_complete (re_services E) n i w k)" for n i w k
    by (rule case_runner)
      (simp_all add: services sqlite_services_def off kept [OF refl] queue_work qinv_complete work_complete qinv_ids)
  show "keeps (less_work K E) (sv_fail (re_services E) n i b w k)" for n i b w k
    by (rule case_runner)
      (simp_all add: services sqlite_services_def off kept [OF refl] queue_work snd_bnd_ret qinv_fail work_fail qinv_ids)
  show "keeps (less_work K E) (sv_save_fenced (re_services E) n t i w k v b)" for n t i w k v b
    by (rule case_runner)
      (simp_all add: services sqlite_services_def off kept [OF refl] fenced_work fenced_kept)
  show "keeps (less_work K E) (sv_load (re_services E) n i)" for n i
    by (rule case_runner)
      (simp_all add: services sqlite_services_def off kept [OF refl] on_tx_def case_prod_beta load_keeps_store)
  show "keeps (less_work K E) (sv_prepare (re_services E) n)" for n
    by (rule case_runner) (simp_all add: services sqlite_services_def off kept [OF refl] ret_def)
qed (auto simp: less_work_def)

section \<open>The loop\<close>

text \<open>A claim that answers made its last attempt in a state that the relation reaches.\<close>

lemma claim_attempts_Inr:
  assumes "claim_attempts E attempt rest s = (Inr found, t)" "found = None \<Longrightarrow> \<forall>n. \<not> re_stop E n"
    and R: "step_relation R" "\<And>n w. keeps R (call_service (\<lambda>n. sv_next_item (re_services E) n w))"
      "\<And>d. keeps R (clock_sleep d)" "\<And>u :: 'q rst. R u (u\<lparr>rs_tick := Suc (rs_tick u)\<rparr>)"
  shows "\<exists>u. R s u \<and> call_service (\<lambda>n. sv_next_item (re_services E) n (re_worker E)) u = (Inr found, t)"
  using assms(1)
proof (induction rest arbitrary: attempt s)
  case 0
  then show ?case by (simp add: raise_exc_def)
next
  case (Suc rest)
  let ?u = "s\<lparr>rs_tick := Suc (rs_tick s)\<rparr>" and ?call = "call_service (\<lambda>n. sv_next_item (re_services E) n (re_worker E))"
  obtain q v where q: "?call ?u = (q, v)" by (cases "?call ?u")
  have run: "(case q of
      Inr a \<Rightarrow> (Inr a, v)
    | Inl e \<Rightarrow> (if \<not> sv_sqlite (re_services E) \<or> \<not> is_transient_sqlite_lock e \<or> rest = 0 then raise_exc e
         else thn (clock_sleep (sqlite_retry_delay attempt sqlite_delay_seconds)) (claim_attempts E (Suc attempt) rest)) v)
    = (Inr found, t)"
    using Suc.prems assms(2) by (auto simp: bnd_def reading_def ret_def catch_exc_def q split: if_splits sum.splits)
  show ?case
  proof (cases q)
    case (Inr a)
    with run q R(4) show ?thesis by auto
  next
    case (Inl e)
    with run obtain z where z: "clock_sleep (sqlite_retry_delay attempt sqlite_delay_seconds) v = (Inr (), z)"
      "claim_attempts E (Suc attempt) rest z = (Inr found, t)"
      by (auto simp: raise_exc_def thn_Inr split: if_splits)
    have "R ?u v" by (rule keepsD [OF R(2) q])
    moreover have "R v z" by (rule keepsD [OF R(3) z(1)])
    ultimately have "R s z" using R(4) step_relation.R_trans [OF R(1)] by blast
    with Suc.IH [OF z(2)] show ?thesis using step_relation.R_trans [OF R(1)] by blast
  qed
qed

lemma claims_use_work:
  assumes K: "sqlite_runner K E" "no_new_work K" and inv: "cinv (se_cfg K) (rs_store s)"
    and run: "next_item_with_retries E s = (Inr (Some item), t)"
  shows "cinv (se_cfg K) (rs_store t) \<and>
    work (se_cfg K) (c_queue (rs_store t)) < work (se_cfg K) (c_queue (rs_store s))"
proof -
  have "\<exists>u. less_work K E (rs_store s) (rs_store u) \<and>
      call_service (\<lambda>n. sv_next_item (re_services E) n (re_worker E)) u = (Inr (Some item), t)"
    by (rule claim_attempts_Inr [OF run [unfolded next_item_with_retries_def]])
      (auto intro: drain.loop.step_relation_axioms drain.loop.R_next_item drain.loop.R_sleep drain.R_refl)
  then obtain u where u: "less_work K E (rs_store s) (rs_store u)"
    "call_service (\<lambda>n. sv_next_item (re_services E) n (re_worker E)) u = (Inr (Some item), t)" by blast
  then have inv_u: "cinv (se_cfg K) (rs_store u)"
    "work (se_cfg K) (c_queue (rs_store u)) \<le> work (se_cfg K) (c_queue (rs_store s))"
    using K inv by (simp_all add: less_work_def)
  let ?n = "rs_tick u" and ?o = "se_other K (rs_tick u) (rs_store u)"
  have other: "cinv (se_cfg K) ?o" "work (se_cfg K) (c_queue ?o) \<le> work (se_cfg K) (c_queue (rs_store u))"
    using other_work [OF K inv_u(1)] by blast+
  have "in_store K ?n (on_queue (sqlite_next_item K ?n (re_worker E))) (rs_store u) = (Inr (Some item), rs_store t)"
    using u(2) K(1) by (auto simp: call_service_def sqlite_runner_def sqlite_services_def split: prod.splits)
  then have "on_queue (sqlite_next_item K ?n (re_worker E)) ?o = (Inr (Some item), rs_store t)"
    by (auto simp: in_store_def split: option.splits)
  then obtain db where db: "sqlite_next_item K ?n (re_worker E) (c_queue ?o) = (Inr (Some item), db)"
    "rs_store t = ?o\<lparr>c_queue := db\<rparr>"
    by (auto simp: on_queue_def split: prod.splits)
  from claim_work [OF K(1) _ db(1)] other inv_u(2) show ?thesis
    by (simp add: cinv_def db(2))
qed

text \<open>With more fuel than work the loop ends by itself, and any more fuel makes no difference.\<close>

lemma items_end:
  assumes K: "sqlite_runner K E" "no_new_work K" and inv: "cinv (se_cfg K) (rs_store s)"
    and fuel: "work (se_cfg K) (c_queue (rs_store s)) < fuel"
  shows "fst (run_items fuel E s) \<noteq> Inr None \<and> (\<forall>k. run_items (fuel + k) E s = run_items fuel E s)"
  using inv fuel
proof (induction fuel arbitrary: s)
  case 0
  then show ?case by simp
next
  case (Suc fuel)
  obtain q u where q: "next_item_with_retries E s = (q, u)" by (cases "next_item_with_retries E s")
  show ?case
  proof (cases "\<exists>item. q = Inr (Some item)")
    case False
    then show ?thesis using q by (auto simp: bnd_def ret_def split: sum.splits option.splits)
  next
    case True
    then obtain item where item: "q = Inr (Some item)" by blast
    let ?u = "u\<lparr>rs_summary := (rs_summary u)\<lparr>sm_processed := Suc (sm_processed (rs_summary u))\<rparr>\<rparr>"
    obtain p v where p: "with_heartbeat E item (run_claimed_item E item) ?u = (p, v)"
      by (cases "with_heartbeat E item (run_claimed_item E item) ?u")
    have run: "run_items (Suc n) E s = (case p of Inl e \<Rightarrow> (Inl e, v)
        | Inr b \<Rightarrow> if b then run_items n E v else (Inr (Some ()), v))" for n
      by (simp add: bnd_def thn_def q item upd_summary_def upd_st_def p ret_def split: sum.split prod.split)
    note claimed = claims_use_work [OF K Suc.prems(1) q [unfolded item]]
    have "less_work K E (rs_store ?u) (rs_store v)"
      by (rule keepsD [OF drain.loop.R_with_heartbeat [OF drain.loop.R_claimed] p])
    then have v: "cinv (se_cfg K) (rs_store v)" "work (se_cfg K) (c_queue (rs_store v)) < fuel"
      using claimed K Suc.prems(2) by (auto simp: less_work_def)
    show ?thesis using Suc.IH [OF v] by (auto simp: run simp del: run_items.simps split: sum.split)
  qed
qed

lemma closing_ends: "r \<noteq> Inr None \<Longrightarrow> fst (closing_of on_finish r t) \<noteq> Inr None"
  by (cases r; cases on_finish)
    (auto simp: closing_of_def finished_with_def bnd_def thn_def note_call_def upd_summary_def upd_st_def get_st_def
      ret_def lift_res_def raise_exc_def split: option.splits if_splits)

text \<open>The same for the items inside a scope.\<close>

lemma scoped_end:
  assumes items: "\<And>u. less_work K E (rs_store s) (rs_store u) \<Longrightarrow>
      fst (run_items fuel E u) \<noteq> Inr None \<and> (\<forall>k. run_items (fuel + k) E u = run_items fuel E u)"
    and sc: "keeps (\<lambda>s t. rs_store t = rs_store s) (sc_enter sc)"
  shows "fst (scoped_items fuel E sc s) \<noteq> Inr None \<and> scoped_items (fuel + k) E sc s = scoped_items fuel E sc s"
proof -
  obtain y u where u: "sc_enter sc s = (y, u)" by (cases "sc_enter sc s")
  show ?thesis
  proof (cases y)
    case (Inl e)
    with u show ?thesis by (simp add: scoped_items_def bnd_def)
  next
    case (Inr yielded)
    let ?u = "u\<lparr>rs_calls := rs_calls u @ [ScopeEntered]\<rparr>"
    have "rs_store ?u = rs_store s" using keepsD [OF sc u] by simp
    then have it: "fst (run_items fuel E ?u) \<noteq> Inr None" "run_items (fuel + k) E ?u = run_items fuel E ?u"
      using items [of ?u] drain.R_refl by simp_all
    have enter: "scoped_items n E sc s = (case thn (lift_res (scope_resources yielded)) (run_items n E) ?u of
         (Inl e, t) \<Rightarrow> scope_failed sc e t
       | (Inr r, t) \<Rightarrow> thn (leave_scope sc None) (ret r) t)" for n
      by (simp add: scoped_items_def bnd_def thn_def note_call_def upd_st_def u Inr)
    have same: "thn (lift_res (scope_resources yielded)) (run_items (fuel + k) E) ?u =
        thn (lift_res (scope_resources yielded)) (run_items fuel E) ?u"
      using it(2) by (simp add: thn_def bnd_def lift_res_def split: sum.split)
    have "fst (scope_failed sc e t) \<noteq> Inr None" for e t
      by (auto simp: scope_failed_def thn_def bnd_def raise_exc_def ret_def split: prod.splits sum.splits)
    moreover have "fst (thn (leave_scope sc None) (ret r) t) \<noteq> Inr None" if "r \<noteq> None" for r :: "unit option" and t
      using that by (auto simp: thn_def bnd_def ret_def split: prod.splits sum.splits)
    moreover have "fst (thn (lift_res (scope_resources yielded)) (run_items fuel E) ?u) \<noteq> Inr None"
      using it(1) by (simp add: thn_def bnd_def lift_res_def split: sum.split)
    ultimately have "fst (scoped_items fuel E sc s) \<noteq> Inr None"
      unfolding enter by (auto split: prod.splits sum.splits)
    then show ?thesis using same by (simp add: enter)
  qed
qed

lemma queue_run_end:
  assumes K: "sqlite_runner K E" "no_new_work K" and inv: "cinv (se_cfg K) (rs_store s)"
    and fuel: "work (se_cfg K) (c_queue (rs_store s)) < fuel"
    and sc: "scope_keeps (\<lambda>s t. rs_store t = rs_store s) scope"
  shows "fst (queue_run fuel E scope s) \<noteq> Inr None \<and> queue_run (fuel + k) E scope s = queue_run fuel E scope s"
proof -
  have from_s: "fst (run_items fuel E u) \<noteq> Inr None \<and> (\<forall>k. run_items (fuel + k) E u = run_items fuel E u)"
    if "less_work K E (rs_store s) (rs_store u)" for u
    using that K inv fuel by (intro items_end) (auto simp: less_work_def)
  have enter: "queue_run n E scope s = thn (opening_of E)
      (case scope of None \<Rightarrow> run_items n E | Some sc \<Rightarrow> scoped_items n E sc) s" for n
    by (simp add: queue_run_def opening_of_def)
  obtain q u where q: "opening_of E s = (q, u)" by (cases "opening_of E s")
  have "keeps (\<lambda>s t. less_work K E (rs_store s) (rs_store t)) (opening_of E)"
    unfolding opening_of_def require_sqlite_queue_def by (auto intro!: drain.loop.item_basics)
  then have su: "less_work K E (rs_store s) (rs_store u)" using q by (rule keepsD)
  have body: "fst ((case scope of None \<Rightarrow> run_items fuel E | Some sc \<Rightarrow> scoped_items fuel E sc) u) \<noteq> Inr None \<and>
      (case scope of None \<Rightarrow> run_items (fuel + k) E | Some sc \<Rightarrow> scoped_items (fuel + k) E sc) u =
      (case scope of None \<Rightarrow> run_items fuel E | Some sc \<Rightarrow> scoped_items fuel E sc) u"
  proof (cases scope)
    case None
    then show ?thesis using from_s [OF su] by simp
  next
    case (Some c)
    have "fst (scoped_items fuel E c u) \<noteq> Inr None \<and> scoped_items (fuel + k) E c u = scoped_items fuel E c u"
    proof (rule scoped_end [of K])
      show "fst (run_items fuel E v) \<noteq> Inr None \<and> (\<forall>k. run_items (fuel + k) E v = run_items fuel E v)"
        if "less_work K E (rs_store u) (rs_store v)" for v
        by (rule from_s [OF drain.R_trans [OF su that]])
    qed (use sc Some in \<open>simp add: scope_keeps_def\<close>)
    then show ?thesis using Some by simp
  qed
  show ?thesis
  proof (cases q)
    case (Inl e)
    then show ?thesis by (simp add: enter thn_def bnd_def q)
  next
    case (Inr x)
    then show ?thesis using body by (simp add: enter thn_def bnd_def q)
  qed
qed

section \<open>What is left when the loop ends\<close>

text \<open>Within one claim the clock does not go back.\<close>

definition steady_clock :: "store_env \<Rightarrow> bool" where
  "steady_clock K \<longleftrightarrow> (\<forall>n. mono (se_clock K n))"

text \<open>At the last reading of the queue's clock no item was due.\<close>

definition drained :: "store_env \<Rightarrow> cdb rst \<Rightarrow> bool" where
  "drained K t \<longleftrightarrow> none_due (claim_env K (rs_tick t - 1)) (c_queue (rs_store t))"

lemma claim_none:
  assumes K: "sqlite_runner K E" "steady_clock K" and inv: "qinv (se_cfg K) db"
    and run: "sqlite_next_item K n worker db = (Inr None, db')"
  shows "none_due (claim_env K n) db'"
proof -
  let ?s = "\<lparr>qn_db = db, qn_tick = 0\<rparr>" and ?n = "Suc (length (q_items db))"
  obtain p t where nx: "next_item ?n (claim_env K n) worker ?s = (p, t)"
    by (cases "next_item ?n (claim_env K n) worker ?s")
  have "quiet_env (claim_env K n)" using K(2) by (simp add: quiet_env_def claim_env_def steady_clock_def)
  then have "fst (next_item ?n (claim_env K n) worker ?s) \<noteq> Inr None"
    using next_item_result [of "claim_env K n" ?s ?n worker] inv by (simp add: claim_env_def)
  moreover have "map_sum id (\<lambda>found. Option.bind found id) p = Inr None" "db' = qn_db t"
    using run by (simp_all add: sqlite_next_item_def nx)
  ultimately have "p = Inr (Some None)" "db' = qn_db t"
    using nx by (cases p; auto simp: bind_eq_None_conv)+
  with next_item_work [OF alone_claims [OF K(1)] _ nx] inv show ?thesis by (simp add: claim_env_def)
qed

lemma none_claimed:
  assumes K: "sqlite_runner K E" "steady_clock K" and inv: "cinv (se_cfg K) (rs_store s)"
    and go: "\<forall>n. \<not> re_stop E n" and run: "next_item_with_retries E s = (Inr None, t)"
  shows "drained K t"
proof -
  have "\<exists>u. runner_steps K E (rs_store s) (rs_store u) \<and>
      call_service (\<lambda>n. sv_next_item (re_services E) n (re_worker E)) u = (Inr None, t)"
    by (rule claim_attempts_Inr [OF run [unfolded next_item_with_retries_def] go])
      (auto intro: sqlite.loop.step_relation_axioms sqlite.loop.R_next_item sqlite.loop.R_sleep sqlite.R_refl)
  then obtain u where u: "runner_steps K E (rs_store s) (rs_store u)"
    "call_service (\<lambda>n. sv_next_item (re_services E) n (re_worker E)) u = (Inr None, t)" by blast
  let ?o = "se_other K (rs_tick u) (rs_store u)"
  have "csteps (se_cfg K) (rs_store u) ?o" using K(1) by (simp add: sqlite_runner_def fair_store_def)
  then have "cinv (se_cfg K) ?o"
    using u(1) steps_cinv inv by (auto simp: runner_steps_csteps [OF K(1)])
  moreover have "in_store K (rs_tick u) (on_queue (sqlite_next_item K (rs_tick u) (re_worker E))) (rs_store u) =
      (Inr None, rs_store t)" "rs_tick t = Suc (rs_tick u)"
    using u(2) K(1) by (auto simp: call_service_def sqlite_runner_def sqlite_services_def split: prod.splits)
  then have "on_queue (sqlite_next_item K (rs_tick u) (re_worker E)) ?o = (Inr None, rs_store t)"
    by (auto simp: in_store_def split: option.splits)
  then obtain db where "sqlite_next_item K (rs_tick u) (re_worker E) (c_queue ?o) = (Inr None, db)"
    "rs_store t = ?o\<lparr>c_queue := db\<rparr>" by (auto simp: on_queue_def split: prod.splits)
  ultimately have "none_due (claim_env K (rs_tick u)) (c_queue (rs_store t))"
    using claim_none [OF K, of "c_queue ?o" "rs_tick u" "re_worker E" db] by (simp add: cinv_def)
  then show ?thesis using \<open>rs_tick t = Suc (rs_tick u)\<close> by (simp add: drained_def)
qed

lemma item_lease_lost:
  assumes "with_heartbeat E item (run_claimed_item E item) s = (Inr b, t)"
  shows "sm_lease_lost (rs_summary t) = sm_lease_lost (rs_summary s) + (if b then 0 else 1)"
proof -
  let ?s = "s\<lparr>rs_beat_error := None\<rparr>"
  obtain v where v: "run_claimed_item E item ?s = (Inr b, v)" and t: "t = snd (beats E item v)"
    using assms by (auto simp: with_heartbeat_def split: prod.splits)
  obtain u f where u: "same_counts ?s u" "outcome_of_item b f" "v = u\<lparr>rs_summary := f (rs_summary u)\<rparr>"
    using claimed_Inr [OF v] by blast
  have "same_counts v t" unfolding t by (rule keepsD [OF counts.R_beats surjective_pairing])
  then show ?thesis
    using u by (auto simp: same_counts_def outcome_counts_def outcome_of_item_def count_lease_lost_def
        count_completed_def count_failed_def Let_def)
qed

lemma items_drain:
  assumes K: "sqlite_runner K E" "steady_clock K" and inv: "cinv (se_cfg K) (rs_store s)"
    and go: "\<forall>n. \<not> re_stop E n" and run: "run_items fuel E s = (Inr (Some ()), t)"
    and kept: "sm_lease_lost (rs_summary t) = sm_lease_lost (rs_summary s)"
  shows "drained K t"
  using inv run kept
proof (induction fuel arbitrary: s)
  case 0
  then show ?case by (simp add: ret_def)
next
  case (Suc fuel)
  from Suc.prems(2) obtain found u where q: "next_item_with_retries E s = (Inr found, u)"
    by (auto simp: bnd_Inr)
  show ?case
  proof (cases found)
    case None
    with Suc.prems(2) q have "t = u" by (simp add: bnd_def ret_def)
    then show ?thesis using none_claimed [OF K Suc.prems(1) go] q None by blast
  next
    case (Some item)
    let ?u = "u\<lparr>rs_summary := (rs_summary u)\<lparr>sm_processed := Suc (sm_processed (rs_summary u))\<rparr>\<rparr>"
    obtain b v where v: "with_heartbeat E item (run_claimed_item E item) ?u = (Inr b, v)"
      "(if b then run_items fuel E v else (Inr (Some ()), v)) = (Inr (Some ()), t)"
      using Suc.prems(2) q Some
      by (auto simp: bnd_def thn_def upd_summary_def upd_st_def ret_def split: prod.splits sum.splits if_splits)
    have "csteps (se_cfg K) (rs_store s) (rs_store u)"
      using keepsD [OF sqlite.loop.R_next q [unfolded next_item_with_retries_def], of K]
      by (simp add: runner_steps_csteps [OF K(1)])
    moreover have "csteps (se_cfg K) (rs_store u) (rs_store v)"
      using keepsD [OF sqlite.loop.R_with_heartbeat [OF sqlite.loop.R_claimed] v(1), of K]
      by (simp add: runner_steps_csteps [OF K(1)])
    ultimately have inv: "cinv (se_cfg K) (rs_store v)" using steps_cinv Suc.prems(1) by blast
    have counts: "sm_lease_lost (rs_summary v) = sm_lease_lost (rs_summary s) + (if b then 0 else 1)"
      using item_lease_lost [OF v(1)] keepsD [OF counts.R_next q [unfolded next_item_with_retries_def]]
      by (simp add: same_counts_def outcome_counts_def)
    show ?thesis
    proof (cases b)
      case True
      with v counts Suc.prems(3) Suc.IH [OF inv] show ?thesis by simp
    next
      case False
      with v counts Suc.prems(3) show ?thesis by simp
    qed
  qed
qed

lemma closing_tick: "closing_of on_finish r u = (q, t) \<Longrightarrow> rs_tick t = rs_tick u"
  by (cases on_finish; cases r)
    (auto simp: closing_of_def finished_with_def bnd_def thn_def note_call_def upd_summary_def upd_st_def get_st_def
      ret_def lift_res_def raise_exc_def split: option.splits if_splits)

lemma opening_steps: "keeps (\<lambda>s t. runner_steps K E (rs_store s) (rs_store t)) (opening_of E)"
  unfolding opening_of_def require_sqlite_queue_def by (auto intro!: sqlite.loop.item_basics)

section \<open>Properties\<close>

definition enough_fuel :: "store_env \<Rightarrow> cdb rst \<Rightarrow> nat" where
  "enough_fuel K s = Suc (length (q_items (c_queue (rs_store s))) * (2 * nat (qc_max_retries (se_cfg K)) + 2))"

lemma enough_for_work:
  "cinv (se_cfg K) (rs_store s) \<Longrightarrow> enough_fuel K s \<le> fuel \<Longrightarrow> work (se_cfg K) (c_queue (rs_store s)) < fuel"
  using work_bound [of "se_cfg K" "c_queue (rs_store s)"] by (simp add: enough_fuel_def cinv_def)

text \<open>
  C23: a run of the queue loop ends: when nobody adds work meanwhile, it makes at most
  \<open>2 * max_retries + 2\<close> claims for each item of the queue, whatever the steps, the callbacks, the faults of
  the database and the other processes do; more fuel than that makes no difference.
\<close>

theorem queue_run_ends:
  assumes "sqlite_runner K E" and "no_new_work K" and "cinv (se_cfg K) (rs_store s)"
    and "scope_keeps (\<lambda>s t. rs_store t = rs_store s) scope" and "enough_fuel K s \<le> fuel" and "fuel \<le> fuel'"
  shows "fst (run_queue_loop fuel E scope on_finish s) \<noteq> Inr None \<and>
    run_queue_loop fuel' E scope on_finish s = run_queue_loop fuel E scope on_finish s"
proof -
  obtain k where k: "fuel' = fuel + k" using assms(6) le_Suc_ex by blast
  from queue_run_end [OF assms(1,2,3) enough_for_work [OF assms(3,5)] assms(4), of k]
  have run: "fst (queue_run fuel E scope s) \<noteq> Inr None" "queue_run fuel' E scope s = queue_run fuel E scope s"
    by (simp_all add: k)
  show ?thesis
    using closing_ends [OF run(1)] by (simp add: run_queue_loop_closing run(2) case_prod_beta)
qed

lemma demo_quiet: "no_new_work demo_stores" "steady_clock demo_stores"
  by (simp_all add: no_new_work_def steady_clock_def demo_stores_def mono_def)

lemma demo_added_runs: "sqlite_runner demo_stores (demo_runner True None)"
  "cinv (se_cfg demo_stores) (rs_store (demo_state demo_added))" "enough_fuel demo_stores (demo_state demo_added) = 5"
  using qinv_demo_added
  by (simp_all add: sqlite_runner_def fair_store_def demo_runner_def cinv_def tinv_empty demo_state_def enough_fuel_def
      demo_stores_def demo_added_def demo_cfg_def)

theorem queue_run_ends_witness:
  "run_queue_loop 100 (demo_runner True None) None None (demo_state demo_added) =
   run_queue_loop 5 (demo_runner True None) None None (demo_state demo_added)"
proof -
  have "scope_keeps (\<lambda>s t. rs_store t = rs_store s) None" by (simp add: scope_keeps_def)
  from queue_run_ends [OF demo_added_runs(1) demo_quiet(1) demo_added_runs(2) this, of 5 100 None]
  show ?thesis by (simp add: demo_added_runs(3))
qed

text \<open>
  C24: a run that nobody stops, that loses no lease and that no exception leaves drains the queue: it returns
  its summary, and at its last reading of the queue's clock no item was due any more.
\<close>

theorem queue_run_drains:
  assumes "sqlite_runner K E" and "no_new_work K" and "steady_clock K" and "cinv (se_cfg K) (rs_store s)"
    and "\<forall>n. \<not> re_stop E n" and "enough_fuel K s \<le> fuel"
    and "run_queue_loop fuel E None on_finish s = (Inr r, t)"
  shows "\<exists>m. r = Some m \<and> (sm_lease_lost m = sm_lease_lost (rs_summary s) \<longrightarrow> drained K t)"
proof -
  obtain q u where q: "queue_run fuel E None s = (q, u)" by (cases "queue_run fuel E None s")
  have "scope_keeps (\<lambda>s t. rs_store t = rs_store s) None" by (simp add: scope_keeps_def)
  from queue_run_end [OF assms(1,2,4) enough_for_work [OF assms(4,6)] this]
  have "q \<noteq> Inr None" using q by simp
  have c: "closing_of on_finish q u = (Inr r, t)" using assms(7) q by (simp add: run_queue_loop_closing)
  with closing_ends [OF \<open>q \<noteq> Inr None\<close>, of on_finish u] obtain m where m: "r = Some m" by (cases r) auto
  with closing_run [OF c] have t: "same_counts u t" "rs_store t = rs_store u" "m = rs_summary t" "q = Inr (Some ())"
    by auto
  have tick: "rs_tick t = rs_tick u" using c by (rule closing_tick)
  from q [unfolded t(4)] have "queue_run fuel E None s = (Inr (Some ()), u)" .
  then obtain v where v: "opening_of E s = (Inr (), v)" "run_items fuel E v = (Inr (Some ()), u)"
    by (cases rule: queue_run_parts) auto
  have sv: "runner_steps K E (rs_store s) (rs_store v)" "same_counts s v"
    using keepsD [OF opening_steps v(1)] keepsD [OF opening_counts v(1)] by blast+
  then have inv: "cinv (se_cfg K) (rs_store v)"
    using steps_cinv assms(4) by (simp add: runner_steps_csteps [OF assms(1)])
  have "drained K t" if "sm_lease_lost m = sm_lease_lost (rs_summary s)"
  proof -
    have "sm_lease_lost (rs_summary u) = sm_lease_lost (rs_summary v)"
      using that t sv(2) by (simp add: same_counts_def outcome_counts_def)
    from items_drain [OF assms(1,3) inv assms(5) v(2) this] show ?thesis
      by (simp add: drained_def t(2) tick)
  qed
  then show ?thesis using m by simp
qed

text \<open>A queue whose only item is completed: the run finds nothing to do.\<close>

lemma demo_completed_run:
  "run_queue_loop 5 (demo_runner False None) None None (demo_state demo_completed) =
     (Inr (Some empty_summary), (demo_state demo_completed)\<lparr>rs_tick := 2\<rparr>)"
proof -
  have row: "q_items demo_completed = [completed_row (claimed_row ''w'' 5 ''t'' demo_row)]" by (simp add: demo_completed_def)
  have status: "qr_status (completed_row r) = QS_SUCCESSFUL" for r by (simp add: completed_row_def)
  have stale: "reclaim_stale C now demo_completed = (Inr (), demo_completed)" for C now
    by (simp add: reclaim_stale_def atomically_def bnd_def items_where_def row stale_row_def status ret_def)
  have oldest: "oldest_eligible now demo_completed = (Inr None, demo_completed)" for now
    by (simp add: oldest_eligible_run row eligible_def status)
  have tick: "\<exists>tick. next_item (Suc n) (claim_env K m) w \<lparr>qn_db = demo_completed, qn_tick = 0\<rparr> =
      (Inr (Some None), \<lparr>qn_db = demo_completed, qn_tick = tick\<rparr>)" for n K m w
    by (simp add: next_item_def Let_def bnd_def thn_def now_utc_def in_db_def claim_env_def stale oldest ret_def)
  have "sqlite_next_item K n w demo_completed = (Inr None, demo_completed)" for K n w
  proof -
    obtain tick where "next_item (Suc (length (q_items demo_completed))) (claim_env K n) w
        \<lparr>qn_db = demo_completed, qn_tick = 0\<rparr> = (Inr (Some None), \<lparr>qn_db = demo_completed, qn_tick = tick\<rparr>)"
      using tick by blast
    then show ?thesis by (simp add: sqlite_next_item_def)
  qed
  then have "next_item_with_retries (demo_runner False None) (demo_state demo_completed) =
      (Inr None, (demo_state demo_completed)\<lparr>rs_tick := 2\<rparr>)"
    by (simp add: next_item_with_retries_def sqlite_attempts_def eval_nat_numeral bnd_def reading_def catch_exc_def
        call_service_def demo_runner_def sqlite_services_def in_store_def on_queue_def demo_stores_def demo_state_def)
  then show ?thesis
    by (simp add: run_queue_loop_def queue_run_def demo_runner_def thn_def bnd_def ret_def lift_res_def get_st_def
        eval_nat_numeral demo_state_def)
qed

theorem queue_run_drains_witness:
  "drained demo_stores (snd (run_queue_loop 5 (demo_runner False None) None None (demo_state demo_completed)))"
proof -
  have "sqlite_runner demo_stores (demo_runner False None)" "\<forall>n. \<not> re_stop (demo_runner False None) n"
    "cinv (se_cfg demo_stores) (rs_store (demo_state demo_completed))"
    "enough_fuel demo_stores (demo_state demo_completed) \<le> 5"
    using qinv_demo_completed
    by (simp_all add: sqlite_runner_def fair_store_def demo_runner_def cinv_def tinv_empty demo_state_def
        enough_fuel_def demo_stores_def demo_completed_def demo_cfg_def)
  from queue_run_drains [OF this(1) demo_quiet this(3,2,4) demo_completed_run]
  have "drained demo_stores ((demo_state demo_completed)\<lparr>rs_tick := 2\<rparr>)" by (simp add: demo_state_def)
  then show ?thesis by (simp only: demo_completed_run snd_conv)
qed

end
