(* ===== verification/Paging.thy ===== *)
theory Paging
  imports StoreClaims
begin

text \<open>
  The read-only queries of the transaction store (\<open>rpacore/persistence.py\<close>): \<open>query_transactions\<close> with its
  cursor pages, \<open>list_transactions\<close> and \<open>iter_transactions\<close>.

  SQLite compares timestamps as the texts they are stored as, so the order is that of \<open>iso_string\<close>.
  The text of a cursor is kept as what its base64 and JSON layers decode to. \<open>digest\<close> is the SHA-256 of
  the JSON text of the filters, a parameter. The databases are at the current schema version.
\<close>

section \<open>The order of a query\<close>

text \<open>\<open>ORDER BY created_at_utc DESC, id ASC\<close> as a linear order.\<close>

datatype newest = Newest (nw_created: string) (nw_id: string)

instantiation newest :: linorder
begin

definition less_eq_newest :: "newest \<Rightarrow> newest \<Rightarrow> bool" where
  "less_eq_newest a b \<longleftrightarrow> nw_created b < nw_created a \<or> (nw_created a = nw_created b \<and> nw_id a \<le> nw_id b)"

definition less_newest :: "newest \<Rightarrow> newest \<Rightarrow> bool" where
  "less_newest a b \<longleftrightarrow> nw_created b < nw_created a \<or> (nw_created a = nw_created b \<and> nw_id a < nw_id b)"

instance
  by standard (auto simp: less_eq_newest_def less_newest_def newest.expand)

end

definition page_key :: "tx_row \<Rightarrow> newest" where
  "page_key r = Newest (iso_string (xr_created_at_utc r)) (xr_id r)"

section \<open>Filters\<close>

record tx_query =
  tq_statuses :: "status list option"
  tq_since :: "datetime option"
  tq_until :: "datetime option"
  tq_reference :: "string option"
  tq_metadata :: "pydict option"

record tx_filter =
  tf_statuses :: "string list"
  tf_since :: "string option"
  tf_until :: "string option"
  tf_reference :: "string option"
  tf_metadata :: "(string \<times> json_text) list"

definition query_statuses :: "status list option \<Rightarrow> pyexc + string list" where
  "query_statuses statuses = (case statuses of
     None \<Rightarrow> Inr []
   | Some values \<Rightarrow>
       (if values = [] then Inl (ValueErr ''statuses must not be empty; pass None for every status'')
        else Inr (sort (remdups (map status_value values)))))"

definition query_timestamp :: "datetime option \<Rightarrow> pyexc + string option" where
  "query_timestamp v = (case v of
     None \<Rightarrow> Inr None
   | Some d \<Rightarrow>
       (if is_aware d then Inr (Some (iso_string (isoformat (astimezone_utc d))))
        else Inl (ValueErr ''must be timezone-aware'')))"

definition filter_metadata :: "pydict option \<Rightarrow> pyexc + (string \<times> json_text) list" where
  "filter_metadata m = (case m of None \<Rightarrow> Inr [] | Some d \<Rightarrow> rbnd (metadata_to_storage d) (\<lambda>items. Inr (sort_key fst items)))"

definition since_after_until :: "string option \<Rightarrow> string option \<Rightarrow> bool" where
  "since_after_until since until = (case (since, until) of (Some a, Some b) \<Rightarrow> b < a | _ \<Rightarrow> False)"

definition query_filters :: "tx_query \<Rightarrow> pyexc + tx_filter" where
  "query_filters q =
     rbnd (query_statuses (tq_statuses q)) (\<lambda>statuses.
     rbnd (query_timestamp (tq_since q)) (\<lambda>since.
     rbnd (query_timestamp (tq_until q)) (\<lambda>until.
       if since_after_until since until
       then Inl (ValueErr ''since must be earlier than or equal to until'')
       else rbnd (filter_metadata (tq_metadata q)) (\<lambda>metadata.
         Inr \<lparr>tf_statuses = statuses, tf_since = since, tf_until = until,
              tf_reference = tq_reference q, tf_metadata = metadata\<rparr>))))"

section \<open>Cursors\<close>

datatype query_cursor = EmptyCursor | CursorText json_text

definition encode_query_cursor :: "string \<Rightarrow> string \<Rightarrow> string \<Rightarrow> query_cursor" where
  "encode_query_cursor created_at_utc transaction_id filters =
     CursorText (JsonText (of_dict
       [(''created_at_utc'', PStr created_at_utc), (''filters'', PStr filters),
        (''id'', PStr transaction_id), (''version'', PInt 1)]))"

text \<open>\<open>v == 1\<close> in Python: \<open>True\<close> and \<open>1.0\<close> are equal to it.\<close>

definition equals_one :: "pyval \<Rightarrow> bool" where
  "equals_one v \<longleftrightarrow> v \<in> {PInt 1, PBool True, PFloat (FinF 1)}"

definition field_of :: "pydict \<Rightarrow> string \<Rightarrow> pyval" where
  "field_of d k = (case dict_get d k of None \<Rightarrow> PNone | Some v \<Rightarrow> v)"

definition decode_query_cursor :: "string \<Rightarrow> query_cursor \<Rightarrow> pyexc + string \<times> string" where
  "decode_query_cursor filters cursor = (case cursor of
     EmptyCursor \<Rightarrow> Inl (ValueErr ''cursor must be a non-empty query cursor'')
   | CursorText BrokenText \<Rightarrow> Inl (ValueErr ''cursor is not a valid transaction query cursor'')
   | CursorText (JsonText v) \<Rightarrow>
       (case dict_of v of
          None \<Rightarrow> Inl (ValueErr ''cursor is not a valid transaction query cursor'')
        | Some d \<Rightarrow>
            if \<not> equals_one (field_of d ''version'')
            then Inl (ValueErr ''cursor has an unsupported transaction query version'')
            else if field_of d ''filters'' \<noteq> PStr filters
            then Inl (ValueErr ''cursor does not match the transaction query filters'')
            else (case (field_of d ''created_at_utc'', field_of d ''id'') of
                    (PStr created_at_utc, PStr transaction_id) \<Rightarrow> Inr (created_at_utc, transaction_id)
                  | _ \<Rightarrow> Inl (ValueErr ''cursor is not a valid transaction query cursor''))))"

lemma decode_encode_cursor [simp]:
  "decode_query_cursor filters (encode_query_cursor created i filters) = Inr (created, i)"
  by (simp add: decode_query_cursor_def encode_query_cursor_def field_of_def dict_get_def equals_one_def)

section \<open>One page\<close>

text \<open>Each \<open>JOIN transaction_metadata\<close> keeps a row once for every metadata row it meets.\<close>

definition join_metadata :: "txdb \<Rightarrow> string \<times> json_text \<Rightarrow> tx_row list \<Rightarrow> tx_row list" where
  "join_metadata db item rows = concat (map (\<lambda>r.
     map (\<lambda>_. r) (filter (\<lambda>m. mr_transaction_id m = xr_id r \<and> mr_key m = fst item \<and> mr_value m = snd item)
       (d_metadata db))) rows)"

definition in_window :: "tx_filter \<Rightarrow> string \<Rightarrow> bool" where
  "in_window f created \<longleftrightarrow>
     (tf_since f \<noteq> None \<or> tf_until f \<noteq> None \<longrightarrow> created \<noteq> []) \<and>
     (case tf_since f of None \<Rightarrow> True | Some since \<Rightarrow> since \<le> created) \<and>
     (case tf_until f of None \<Rightarrow> True | Some until \<Rightarrow> created \<le> until)"

definition row_selected :: "tx_filter \<Rightarrow> tx_row \<Rightarrow> bool" where
  "row_selected f r \<longleftrightarrow>
     (tf_statuses f = [] \<or> xr_status r \<in> set (tf_statuses f)) \<and>
     in_window f (iso_string (xr_created_at_utc r)) \<and>
     (case tf_reference f of None \<Rightarrow> True | Some reference \<Rightarrow> xr_reference r = reference)"

definition after_cursor :: "(string \<times> string) option \<Rightarrow> tx_row \<Rightarrow> bool" where
  "after_cursor position r = (case position of
     None \<Rightarrow> True
   | Some (created, i) \<Rightarrow> iso_string (xr_created_at_utc r) < created \<or>
       (iso_string (xr_created_at_utc r) = created \<and> i < xr_id r))"

definition select_page :: "txdb \<Rightarrow> tx_filter \<Rightarrow> (string \<times> string) option \<Rightarrow> nat \<Rightarrow> tx_row list" where
  "select_page db f position n =
     take n (sort_key page_key
       (filter (\<lambda>r. row_selected f r \<and> after_cursor position r)
         (fold (join_metadata db) (tf_metadata f) (d_transactions db))))"

record tx_summary =
  ts_id :: string
  ts_reference :: string
  ts_status :: status
  ts_retry_count :: int
  ts_created_at :: "datetime option"

record tx_page =
  pg_transactions :: "tx_summary list"
  pg_has_more :: bool
  pg_next_cursor :: "query_cursor option"

definition summary_of_row :: "datetime \<Rightarrow> tx_row \<Rightarrow> pyexc + tx_summary" where
  "summary_of_row now r =
     rbnd (enum_of (status_of (xr_status r))) (\<lambda>st.
     rbnd (timestamp_from_storage now (Some (xr_created_at_utc r))) (\<lambda>created.
       Inr \<lparr>ts_id = xr_id r, ts_reference = xr_reference r, ts_status = st,
            ts_retry_count = xr_retry_count r, ts_created_at = created\<rparr>))"

definition query_transactions ::
  "(tx_filter \<Rightarrow> string) \<Rightarrow> datetime \<Rightarrow> tx_query \<Rightarrow> query_cursor option \<Rightarrow> int \<Rightarrow> (txdb, pyexc, tx_page) effect" where
  "query_transactions digest now q cursor limit =
     (if limit < 1 \<or> 1000 < limit then raise_exc (ValueErr ''limit must be an integer from 1 through 1000'')
      else bnd (lift_res (query_filters q)) (\<lambda>f.
      bnd (lift_res (case cursor of None \<Rightarrow> Inr None
             | Some c \<Rightarrow> rbnd (decode_query_cursor (digest f) c) (\<lambda>p. Inr (Some p)))) (\<lambda>position.
      bnd get_st (\<lambda>db.
        let rows = select_page db f position (Suc (nat limit));
            has_more = (nat limit < length rows);
            page_rows = take (nat limit) rows
        in bnd (lift_res (decode_rows (summary_of_row now) page_rows)) (\<lambda>transactions.
             ret \<lparr>pg_transactions = transactions, pg_has_more = has_more,
                  pg_next_cursor = (if has_more \<and> page_rows \<noteq> []
                    then Some (encode_query_cursor (iso_string (xr_created_at_utc (last page_rows)))
                           (xr_id (last page_rows)) (digest f))
                    else None)\<rparr>)))))"

section \<open>Listings\<close>

record list_filter =
  lf_status :: "status option"
  lf_since :: "datetime option"
  lf_metadata :: "pydict option"

definition listed_row :: "txdb \<Rightarrow> list_filter \<Rightarrow> (string \<times> json_text) list \<Rightarrow> tx_row \<Rightarrow> bool" where
  "listed_row db f metadata r \<longleftrightarrow>
     (case lf_status f of None \<Rightarrow> True | Some st \<Rightarrow> xr_status r = status_value st) \<and>
     (case lf_since f of None \<Rightarrow> True
      | Some since \<Rightarrow> iso_string (isoformat since) \<le> iso_string (xr_created_at r)) \<and>
     (\<forall>item \<in> set metadata. \<exists>m \<in> set (d_metadata db).
        mr_transaction_id m = xr_id r \<and> mr_key m = fst item \<and> mr_value m = snd item)"

definition list_key :: "tx_row \<Rightarrow> newest" where
  "list_key r = Newest (iso_string (xr_created_at r)) (xr_id r)"

text \<open>\<open>LIMIT n\<close>: a negative number is no limit.\<close>

definition sql_limit :: "int \<Rightarrow> 'a list \<Rightarrow> 'a list" where
  "sql_limit n xs = (if n < 0 then xs else take (nat n) xs)"

definition selected_ids :: "list_filter \<Rightarrow> int \<Rightarrow> (txdb, pyexc, string list) effect" where
  "selected_ids f limit =
     bnd (lift_res (filter_metadata (lf_metadata f))) (\<lambda>metadata.
     bnd get_st (\<lambda>db.
       ret (map xr_id (sql_limit limit (sort_key list_key (filter (listed_row db f metadata) (d_transactions db)))))))"

text \<open>
  The deferred loads. Every load reads the database as it is then: \<open>others n\<close> is what other processes
  commit before the \<open>n\<close>-th load.
\<close>

fun load_selected ::
  "datetime \<Rightarrow> (nat \<Rightarrow> txdb \<Rightarrow> txdb) \<Rightarrow> nat \<Rightarrow> string list \<Rightarrow> (txdb, pyexc, transaction list) effect" where
  "load_selected now others n [] = ret []"
| "load_selected now others n (i # is) =
     thn (upd_st (others n))
    (bnd (catch_exc (bnd (load_transaction now i) (\<lambda>t. ret (Some t)))
            (\<lambda>e. if is_key_error e then ret None else raise_exc e)) (\<lambda>found.
     bnd (load_selected now others (Suc n) is) (\<lambda>rest.
       ret (case found of None \<Rightarrow> rest | Some t \<Rightarrow> t # rest))))"

definition list_transactions ::
  "datetime \<Rightarrow> (nat \<Rightarrow> txdb \<Rightarrow> txdb) \<Rightarrow> list_filter \<Rightarrow> int \<Rightarrow> (txdb, pyexc, transaction list) effect" where
  "list_transactions now others f limit = bnd (selected_ids f limit) (load_selected now others 0)"

text \<open>The iterator consumed to its end: the same selection, without a limit.\<close>

definition iter_transactions ::
  "datetime \<Rightarrow> (nat \<Rightarrow> txdb \<Rightarrow> txdb) \<Rightarrow> list_filter \<Rightarrow> (txdb, pyexc, transaction list) effect" where
  "iter_transactions now others f = list_transactions now others f (- 1)"

end
