(* ===== verification/Keyset.thy ===== *)
theory Keyset
  imports Storage
begin

text \<open>
  Keyset pagination: a query answers at most so many matches beyond the key its cursor stands for, in
  key order, and a cursor for the last of them when there are more. The locale \<open>keyset_pages\<close> is this
  contract; its lemmas say what a client sees that follows the cursors, over a store that stays as it
  is and over one that others change between two pages. The queries of both stores provide it.
\<close>

definition beyond :: "('r \<Rightarrow> 'k::linorder) \<Rightarrow> 'k option \<Rightarrow> 'r \<Rightarrow> bool" where
  "beyond key position r = (case position of None \<Rightarrow> True | Some k \<Rightarrow> k < key r)"

lemma beyond_simps [simp]: "beyond key None = (\<lambda>_. True)" "beyond key (Some k) = (\<lambda>r. k < key r)"
  by (simp_all add: beyond_def fun_eq_iff)

text \<open>
  A client that asks for page after page: page \<open>n\<close> is read from the store as it is then, \<open>stores n\<close>.
  \<open>None\<close> says that \<open>fuel\<close> pages were not enough.
\<close>

fun follow ::
  "('d \<Rightarrow> 'c option \<Rightarrow> pyexc + 'a list \<times> 'c option) \<Rightarrow> (nat \<Rightarrow> 'd) \<Rightarrow> nat \<Rightarrow> nat \<Rightarrow> 'c option \<Rightarrow> pyexc + 'a list option" where
  "follow query stores 0 n cursor = Inr None"
| "follow query stores (Suc fuel) n cursor =
     rbnd (query (stores n) cursor) (\<lambda>page. case page of
       (items, None) \<Rightarrow> Inr (Some items)
     | (items, Some c) \<Rightarrow> rbnd (follow query stores fuel (Suc n) (Some c)) (\<lambda>rest. Inr (map_option ((@) items) rest)))"

lemma take_before:
  assumes "sorted_wrt (\<lambda>r s. k r < k s) xs" "n < length xs" "0 < n" "r \<in> set xs" "r \<notin> set (take n xs)"
  shows "(k (xs ! (n - 1)) :: 'b :: linorder) < k r"
proof -
  obtain j where j: "j < length xs" "xs ! j = r" using assms(4) by (auto simp: in_set_conv_nth)
  have "n \<le> j" using assms(5) j by (metis in_set_conv_nth length_take min_less_iff_conj not_le nth_take)
  then show ?thesis using sorted_wrt_nth_less [OF assms(1), of "n - 1" j] j assms(3) by simp
qed

lemma take_upto:
  assumes "sorted_wrt (\<lambda>r s. k r < k s) xs" "n \<le> length xs" "r \<in> set (take n xs)"
  shows "(k r :: 'b :: linorder) \<le> k (xs ! (n - 1))"
proof -
  obtain j where j: "j < n" "r = xs ! j" using assms(2,3) by (auto simp: in_set_conv_nth)
  show ?thesis
  proof (cases "j = n - 1")
    case False
    then show ?thesis using sorted_wrt_nth_less [OF assms(1), of j "n - 1"] j assms(2) by (simp add: less_imp_le)
  qed (simp add: j)
qed

text \<open>The positions a client can hold: none yet, or the key of a row that a store had.\<close>

definition known :: "('d \<Rightarrow> bool) \<Rightarrow> ('d \<Rightarrow> 'r list) \<Rightarrow> ('r \<Rightarrow> 'k) \<Rightarrow> 'k option \<Rightarrow> bool" where
  "known valid matches key position \<longleftrightarrow>
     (case position of None \<Rightarrow> True | Some k \<Rightarrow> \<exists>d r. valid d \<and> r \<in> set (matches d) \<and> k = key r)"

lemma known_simps [simp]:
  "known valid matches key None"
  "known valid matches key (Some k) \<longleftrightarrow> (\<exists>d r. valid d \<and> r \<in> set (matches d) \<and> k = key r)"
  by (simp_all add: known_def)

locale keyset_pages =
  fixes inv :: "'d \<Rightarrow> bool"
    and matches :: "'d \<Rightarrow> 'r list"
    and key :: "'r \<Rightarrow> 'k::linorder"
    and decode :: "'r \<Rightarrow> pyexc + 'a"
    and cursor :: "'k \<Rightarrow> 'c"
    and limit :: nat
    and query :: "'d \<Rightarrow> 'c option \<Rightarrow> pyexc + 'a list \<times> 'c option"
  assumes positive: "inv d \<Longrightarrow> 0 < limit"
    and sorted: "inv d \<Longrightarrow> sorted_wrt (\<lambda>r s. key r < key s) (matches d)"
    and page: "inv d \<Longrightarrow> known inv matches key position \<Longrightarrow> rows = filter (beyond key position) (matches d) \<Longrightarrow>
      query d (map_option cursor position) = rbnd (decode_rows decode (take limit rows)) (\<lambda>items.
        Inr (items, if limit < length rows then Some (cursor (key (rows ! (limit - 1)))) else None))"
begin

lemma follow_drop:
  assumes "inv d" and "known inv matches key position"
    and "filter (beyond key position) (matches d) = drop j (matches d)"
    and "length (drop j (matches d)) \<le> fuel * limit" and "0 < fuel"
  shows "follow query (\<lambda>_. d) fuel n (map_option cursor position) =
    rbnd (decode_rows decode (drop j (matches d))) (\<lambda>items. Inr (Some items))"
  using assms(2-5)
proof (induction fuel arbitrary: j n position)
  case (Suc fuel)
  let ?M = "matches d" and ?rows = "drop j (matches d)"
  note this_page = page [OF assms(1) Suc.prems(1) Suc.prems(2) [symmetric]]
  show ?case
  proof (cases "limit < length ?rows")
    case False
    then show ?thesis by (simp add: this_page) (auto simp: rbnd_def split: sum.splits)
  next
    case True
    have last_row: "?rows ! (limit - 1) = ?M ! (j + limit - 1)"
      using True positive [OF assms(1)] by (simp add: algebra_simps)
    have "filter (\<lambda>r. key (?M ! (j + limit - 1)) < key r) ?M = drop (Suc (j + limit - 1)) ?M"
      using filter_after_nth [OF sorted [OF assms(1)]] True positive [OF assms(1)] by auto
    then have rest: "filter (beyond key (Some (key (?rows ! (limit - 1))))) ?M = drop (j + limit) ?M"
      unfolding last_row using positive [OF assms(1)] by simp
    have "?M ! (j + limit - 1) \<in> set ?M" using True positive [OF assms(1)] by (intro nth_mem) auto
    then have "known inv matches key (Some (key (?rows ! (limit - 1))))" using assms(1) last_row by auto
    moreover have "0 < fuel" using Suc.prems(3) True by (cases fuel) auto
    moreover have "length (drop (j + limit) ?M) \<le> fuel * limit" using Suc.prems(3) by simp
    ultimately have IH: "follow query (\<lambda>_. d) fuel (Suc n) (Some (cursor (key (?rows ! (limit - 1))))) =
        rbnd (decode_rows decode (drop (j + limit) ?M)) (\<lambda>items. Inr (Some items))"
      using Suc.IH [OF _ rest] by auto
    have "?rows = take limit ?rows @ drop (j + limit) ?M" by (metis append_take_drop_id drop_drop add.commute)
    then have both: "decode_rows decode ?rows = rbnd (decode_rows decode (take limit ?rows))
        (\<lambda>as. rbnd (decode_rows decode (drop (j + limit) ?M)) (\<lambda>bs. Inr (as @ bs)))"
      by (metis decode_rows_append)
    show ?thesis
      using IH True unfolding both
      by (cases "decode_rows decode (take limit ?rows)"; cases "decode_rows decode (drop (j + limit) ?M)")
        (simp_all add: this_page del: nth_drop One_nat_def)
  qed
qed simp

text \<open>Over a store that stays as it is the pages together are all matches, in key order.\<close>

lemma follow_all:
  assumes "inv d" and "length (matches d) \<le> fuel * limit" and "0 < fuel"
  shows "follow query (\<lambda>_. d) fuel n None = rbnd (decode_rows decode (matches d)) (\<lambda>items. Inr (Some items))"
  using follow_drop [OF assms(1), of None 0 fuel n] assms(2,3) by simp

text \<open>
  The rows behind what is listed while others write, in page order: their keys increase, each was a
  match when its page was read, and no row that stays a match beyond the cursor is missing.
\<close>

lemma follow_rows:
  assumes "\<And>n. inv (stores n)" and "known inv matches key position"
    and "follow query stores fuel n (map_option cursor position) = Inr (Some items)"
  shows "\<exists>rows. list_all2 (\<lambda>r s. decode r = Inr s) rows items \<and> sorted_wrt (\<lambda>r s. key r < key s) rows \<and>
      (\<forall>r \<in> set rows. beyond key position r \<and> (\<exists>m. r \<in> set (matches (stores m)))) \<and>
      (\<forall>k. (\<forall>m. \<exists>r \<in> set (matches (stores m)). beyond key position r \<and> key r = k) \<longrightarrow> k \<in> key ` set rows)"
  using assms(2,3)
proof (induction fuel arbitrary: n position items)
  case (Suc fuel)
  define L where "L = filter (beyond key position) (matches (stores n))"
  have sorted_L: "sorted_wrt (\<lambda>r s. key r < key s) L" unfolding L_def by (intro sorted_wrt_filter sorted assms(1))
  note this_page = page [OF assms(1) Suc.prems(1) L_def]
  obtain shown where shown: "decode_rows decode (take limit L) = Inr shown"
    using Suc.prems(2) by (auto simp: this_page rbnd_Inr)
  have these: "list_all2 (\<lambda>r s. decode r = Inr s) (take limit L) shown" using shown by (simp add: decode_rows_Inr)
  have found: "\<exists>r \<in> set L. key r = k"
    if "\<forall>m. \<exists>r \<in> set (matches (stores m)). beyond key position r \<and> key r = k" for k
    using that [rule_format, of n] by (auto simp: L_def)
  show ?case
  proof (cases "limit < length L")
    case False
    then have "items = shown" "take limit L = L" using Suc.prems(2) shown by (auto simp: this_page)
    then show ?thesis using these sorted_L found by (intro exI [of _ L]) (auto simp: L_def)
  next
    case True
    let ?last = "L ! (limit - 1)"
    have pos: "0 < limit" by (rule positive [OF assms(1)])
    have first: "query (stores n) (map_option cursor position) = Inr (shown, Some (cursor (key ?last)))"
      using shown True by (simp add: this_page)
    obtain rest where rest: "follow query stores fuel (Suc n) (map_option cursor (Some (key ?last))) = Inr (Some rest)"
      and items: "items = shown @ rest"
      using Suc.prems(2) by (auto simp: first rbnd_Inr simp del: One_nat_def)
    have last_in: "?last \<in> set L" using True pos by simp
    then have "known inv matches key (Some (key ?last))" using assms(1) by (auto simp: L_def)
    from Suc.IH [OF this rest] obtain rows where rows: "list_all2 (\<lambda>r s. decode r = Inr s) rows rest"
      "sorted_wrt (\<lambda>r s. key r < key s) rows"
      "\<forall>r \<in> set rows. key ?last < key r \<and> (\<exists>m. r \<in> set (matches (stores m)))"
      "\<And>k. \<forall>m. \<exists>r \<in> set (matches (stores m)). key ?last < key r \<and> key r = k \<Longrightarrow> k \<in> key ` set rows"
      by auto
    have upto: "key r \<le> key ?last" if "r \<in> set (take limit L)" for r
      using take_upto [OF sorted_L _ that] True by simp
    have behind: "beyond key position r" if "r \<in> set rows" for r
      using rows(3) that last_in by (cases position) (auto simp: L_def intro: less_trans)
    show ?thesis
    proof (intro exI [of _ "take limit L @ rows"] conjI ballI allI impI)
      show "list_all2 (\<lambda>r s. decode r = Inr s) (take limit L @ rows) items"
        unfolding items by (rule list_all2_appendI [OF these rows(1)])
      show "sorted_wrt (\<lambda>r s. key r < key s) (take limit L @ rows)"
        using sorted_L rows(2,3) upto by (auto simp: sorted_wrt_append sorted_wrt_take intro: le_less_trans)
    next
      fix r assume r: "r \<in> set (take limit L @ rows)"
      then show "beyond key position r" using behind by (auto simp: L_def dest!: in_set_takeD)
      show "\<exists>m. r \<in> set (matches (stores m))" using r rows(3) by (auto simp: L_def dest!: in_set_takeD)
    next
      fix k assume all: "\<forall>m. \<exists>r \<in> set (matches (stores m)). beyond key position r \<and> key r = k"
      from found [OF all] obtain r where r: "r \<in> set L" "key r = k" by blast
      show "k \<in> key ` set (take limit L @ rows)"
      proof (cases "r \<in> set (take limit L)")
        case False
        have "key ?last < k" using take_before [OF sorted_L True pos r(1) False] r(2) by simp
        then have "k \<in> key ` set rows" using all by (intro rows(4)) metis
        then show ?thesis by auto
      qed (use r in auto)
    qed
  qed
qed simp

text \<open>
  When the rows of one identity keep their key, no identity is listed twice, and none that matches
  throughout is left out.
\<close>

lemma follow_identities:
  assumes inv: "\<And>n. inv (stores n)" and run: "follow query stores fuel 0 None = Inr (Some items)"
    and same: "\<And>m n r s. r \<in> set (matches (stores m)) \<Longrightarrow> s \<in> set (matches (stores n)) \<Longrightarrow>
      ident r = ident s \<Longrightarrow> key r = key s"
    and ident: "\<And>r s. decode r = Inr s \<Longrightarrow> item_ident s = ident r"
    and only: "\<And>r s. key r = key s \<Longrightarrow> ident r = ident s"
  shows "distinct (map item_ident items) \<and>
    (\<forall>s \<in> set items. \<exists>n r. r \<in> set (matches (stores n)) \<and> decode r = Inr s) \<and>
    (\<forall>i. (\<forall>n. \<exists>r \<in> set (matches (stores n)). ident r = i) \<longrightarrow> i \<in> item_ident ` set items)"
proof -
  obtain rows where rows: "list_all2 (\<lambda>r s. decode r = Inr s) rows items"
    "sorted_wrt (\<lambda>r s. key r < key s) rows" "\<And>r. r \<in> set rows \<Longrightarrow> \<exists>n. r \<in> set (matches (stores n))"
    "\<And>k. \<forall>n. \<exists>r \<in> set (matches (stores n)). key r = k \<Longrightarrow> k \<in> key ` set rows"
    using follow_rows [of stores None fuel 0 items, OF inv] run by auto
  have ids: "map item_ident items = map ident rows"
    using rows(1) by (induction rule: list_all2_induct) (simp_all add: ident)
  have "sorted_wrt (<) (map key rows)" using rows(2) by (simp add: sorted_wrt_map)
  then have keyed: "distinct rows" "inj_on key (set rows)" by (simp_all add: strict_sorted_iff distinct_map)
  have "inj_on ident (set rows)"
    using rows(3) keyed(2) same by (meson inj_onD inj_onI)
  with keyed(1) have "distinct (map ident rows)" by (simp add: distinct_map)
  moreover have "\<exists>n r. r \<in> set (matches (stores n)) \<and> decode r = Inr s" if s: "s \<in> set items" for s
  proof -
    obtain j where "j < length items" "s = items ! j" using s by (auto simp: in_set_conv_nth)
    then have "rows ! j \<in> set rows" "decode (rows ! j) = Inr s" using rows(1) by (simp_all add: list_all2_conv_all_nth)
    then show ?thesis using rows(3) by blast
  qed
  moreover have "i \<in> item_ident ` set items" if all: "\<forall>n. \<exists>r \<in> set (matches (stores n)). ident r = i" for i
  proof -
    obtain r where r: "r \<in> set (matches (stores 0))" "ident r = i" using all by blast
    have "\<forall>n. \<exists>s \<in> set (matches (stores n)). key s = key r" using all same [OF _ r(1)] r(2) by metis
    then have "key r \<in> key ` set rows" by (rule rows(4))
    then have "i \<in> ident ` set rows" using only r(2) by (metis image_iff)
    then show ?thesis using ids by (metis list.set_map)
  qed
  ultimately show ?thesis by (simp add: ids)
qed

end

end
