(* ===== verification/PagingClaims.thy ===== *)
theory PagingClaims
  imports Paging Keyset
begin

text \<open>
  Following the cursors of a query from page to page: on a fixed store the pages together are the
  sorted list of all matches, and while other processes write, no transaction is listed twice and
  none that matches throughout is left out.
\<close>

section \<open>Matches\<close>

definition has_metadata :: "txdb \<Rightarrow> string \<Rightarrow> string \<times> json_text \<Rightarrow> bool" where
  "has_metadata db i item \<longleftrightarrow>
     (\<exists>m \<in> set (d_metadata db). mr_transaction_id m = i \<and> mr_key m = fst item \<and> mr_value m = snd item)"

text \<open>What the filters of a query ask of a stored transaction.\<close>

definition row_matches :: "txdb \<Rightarrow> tx_filter \<Rightarrow> tx_row \<Rightarrow> bool" where
  "row_matches db f r \<longleftrightarrow> row_selected f r \<and> (\<forall>item \<in> set (tf_metadata f). has_metadata db (xr_id r) item)"

definition all_matches :: "txdb \<Rightarrow> tx_filter \<Rightarrow> tx_row list" where
  "all_matches db f = sort_key page_key (filter (row_matches db f) (d_transactions db))"

lemma filter_unique_key:
  assumes "distinct (map k xs)" "\<And>x y. x \<in> set xs \<Longrightarrow> y \<in> set xs \<Longrightarrow> P x \<Longrightarrow> P y \<Longrightarrow> k x = k y"
  shows "map (\<lambda>_. r) (filter P xs) = (if \<exists>x \<in> set xs. P x then [r] else [])"
  using assms
proof (induction xs)
  case (Cons x xs)
  show ?case
  proof (cases "P x")
    case True
    then have "\<not> P y" if "y \<in> set xs" for y
      using Cons.prems that by (metis imageI list.set_intros list.set_map distinct.simps(2) list.simps(9))
    then show ?thesis using True by (simp add: filter_empty_conv)
  next
    case False
    then show ?thesis using Cons by simp
  qed
qed simp

lemma concat_map_if: "concat (map (\<lambda>x. if P x then [x] else []) xs) = filter P xs"
  by (induction xs) auto

text \<open>The joins select: the primary key of the metadata lets a row meet at most one partner.\<close>

lemma join_metadata_filter:
  assumes "tinv db"
  shows "join_metadata db item rows = filter (\<lambda>r. has_metadata db (xr_id r) item) rows"
proof -
  have keys: "distinct (map metadata_key (d_metadata db))" using assms by (simp add: tinv_def)
  have "map (\<lambda>_. r) (filter (\<lambda>m. mr_transaction_id m = xr_id r \<and> mr_key m = fst item \<and> mr_value m = snd item)
      (d_metadata db)) = (if has_metadata db (xr_id r) item then [r] else [])" for r :: tx_row
    by (subst filter_unique_key [OF keys]) (simp_all add: metadata_key_def has_metadata_def)
  then show ?thesis by (simp add: join_metadata_def concat_map_if)
qed

lemma joins_filter:
  "tinv db \<Longrightarrow> fold (join_metadata db) items rows =
     filter (\<lambda>r. \<forall>item \<in> set items. has_metadata db (xr_id r) item) rows"
  by (induction items arbitrary: rows) (auto simp: join_metadata_filter intro: filter_cong)

lemma select_page_matches:
  assumes "tinv db"
  shows "select_page db f position n = take n (filter (after_cursor position) (all_matches db f))"
proof -
  have "filter (\<lambda>r. row_selected f r \<and> after_cursor position r)
      (fold (join_metadata db) (tf_metadata f) (d_transactions db)) =
    filter (after_cursor position) (filter (row_matches db f) (d_transactions db))"
    unfolding joins_filter [OF assms] filter_filter by (rule filter_cong) (auto simp: row_matches_def)
  then show ?thesis by (simp add: select_page_def all_matches_def filter_sort)
qed

lemma set_matches: "r \<in> set (all_matches db f) \<longleftrightarrow> r \<in> set (d_transactions db) \<and> row_matches db f r"
  by (simp add: all_matches_def)

lemma matches_sorted:
  assumes "tinv db"
  shows "sorted_wrt (\<lambda>r s. page_key r < page_key s) (all_matches db f)"
proof -
  have "distinct (map xr_id (filter (row_matches db f) (d_transactions db)))"
    using assms by (simp add: tinv_def distinct_map_filter)
  then have "distinct (map page_key (filter (row_matches db f) (d_transactions db)))"
    by (auto simp: distinct_map inj_on_def page_key_def)
  then have "distinct (map page_key (all_matches db f))"
    unfolding all_matches_def by (metis distinct_map distinct_sort set_sort)
  moreover have "sorted (map page_key (all_matches db f))" by (simp add: all_matches_def)
  ultimately have "sorted_wrt (<) (map page_key (all_matches db f))" by (simp add: strict_sorted_iff)
  then show ?thesis by (simp add: sorted_wrt_map)
qed

lemma after_cursor_key [simp]:
  "after_cursor None r" "after_cursor (Some (created, i)) r \<longleftrightarrow> Newest created i < page_key r"
  by (auto simp: after_cursor_def page_key_def less_newest_def)

section \<open>One page\<close>

lemma filters_of_query:
  "fst (query_transactions digest now q cursor limit db) = Inr page \<Longrightarrow>
   1 \<le> limit \<and> limit \<le> 1000 \<and> (\<exists>f. query_filters q = Inr f)"
  by (auto simp: query_transactions_def raise_exc_def bnd_def lift_res_def split: if_splits sum.splits prod.splits)

text \<open>A cursor stands for the place right after the last transaction of its page.\<close>

definition cursor_at :: "(tx_filter \<Rightarrow> string) \<Rightarrow> tx_filter \<Rightarrow> (string \<times> string) option \<Rightarrow> query_cursor option" where
  "cursor_at digest f position = map_option (\<lambda>(created, i). encode_query_cursor created i (digest f)) position"

definition place_of :: "tx_row \<Rightarrow> string \<times> string" where
  "place_of r = (iso_string (xr_created_at_utc r), xr_id r)"

lemma cursor_at_place:
  "cursor_at digest f (Some (place_of r)) =
     Some (encode_query_cursor (iso_string (xr_created_at_utc r)) (xr_id r) (digest f))"
  by (simp add: cursor_at_def place_of_def)

lemma after_place [simp]: "after_cursor (Some (place_of r)) = (\<lambda>s. page_key r < page_key s)"
  by (rule ext) (simp add: place_of_def, simp add: page_key_def)

lemma one_page:
  assumes "tinv db" "query_filters q = Inr f" "1 \<le> limit" "limit \<le> 1000"
    and rows: "rows = filter (after_cursor position) (all_matches db f)"
  shows "fst (query_transactions digest now q (cursor_at digest f position) limit db) =
    rbnd (decode_rows (summary_of_row now) (take (nat limit) rows)) (\<lambda>transactions.
      Inr \<lparr>pg_transactions = transactions, pg_has_more = (nat limit < length rows),
           pg_next_cursor = (if nat limit < length rows
             then cursor_at digest f (Some (place_of (rows ! (nat limit - 1)))) else None)\<rparr>)"
proof -
  have cursor: "cursor_at digest f position = None \<and> position = None \<or>
      (\<exists>c. cursor_at digest f position = Some c \<and> decode_query_cursor (digest f) c = Inr (the position) \<and> position \<noteq> None)"
    by (cases position) (auto simp: cursor_at_def)
  have "fst (query_transactions digest now q (cursor_at digest f position) limit db) =
    (let page = take (Suc (nat limit)) rows; page_rows = take (nat limit) page
     in rbnd (decode_rows (summary_of_row now) page_rows) (\<lambda>transactions.
          Inr \<lparr>pg_transactions = transactions, pg_has_more = (nat limit < length page),
               pg_next_cursor = (if nat limit < length page \<and> page_rows \<noteq> []
                 then cursor_at digest f (Some (place_of (last page_rows))) else None)\<rparr>))"
    using cursor assms(3,4)
    by (elim disjE exE conjE;
        cases "decode_rows (summary_of_row now) (take (nat limit) (take (Suc (nat limit)) rows))";
        simp add: query_transactions_def bnd_def lift_res_def get_st_def ret_def Let_def rows cursor_at_place
          select_page_matches [OF assms(1)] assms(2))
  moreover have "take (nat limit) (take (Suc (nat limit)) rows) = take (nat limit) rows" by (simp add: take_take min_def)
  moreover have "last (take (nat limit) rows) = rows ! (nat limit - 1) \<and> take (nat limit) rows \<noteq> []"
    if "nat limit < length rows"
    using that assms(3) by (subst last_conv_nth) auto
  moreover have "nat limit < length (take (Suc (nat limit)) rows) \<longleftrightarrow> nat limit < length rows" by auto
  ultimately show ?thesis by (auto simp: Let_def)
qed

section \<open>Following the cursors\<close>

text \<open>
  A client that asks for page after page: page \<open>n\<close> is read from the store as it is then, \<open>dbs n\<close>.
  \<open>None\<close> says that \<open>fuel\<close> pages were not enough.
\<close>

fun follow_pages ::
  "(tx_filter \<Rightarrow> string) \<Rightarrow> datetime \<Rightarrow> (nat \<Rightarrow> txdb) \<Rightarrow> tx_query \<Rightarrow> int \<Rightarrow> nat \<Rightarrow> nat \<Rightarrow> query_cursor option \<Rightarrow>
   pyexc + tx_summary list option" where
  "follow_pages digest now dbs q limit 0 n cursor = Inr None"
| "follow_pages digest now dbs q limit (Suc fuel) n cursor =
     rbnd (fst (query_transactions digest now q cursor limit (dbs n))) (\<lambda>page.
       case pg_next_cursor page of
         None \<Rightarrow> Inr (Some (pg_transactions page))
       | Some c \<Rightarrow> rbnd (follow_pages digest now dbs q limit fuel (Suc n) (Some c)) (\<lambda>rest.
           Inr (map_option ((@) (pg_transactions page)) rest)))"

text \<open>The query as a provider of keyset pages.\<close>

definition page_read ::
  "(tx_filter \<Rightarrow> string) \<Rightarrow> datetime \<Rightarrow> tx_query \<Rightarrow> int \<Rightarrow> txdb \<Rightarrow> query_cursor option \<Rightarrow>
   pyexc + tx_summary list \<times> query_cursor option" where
  "page_read digest now q limit db cursor =
     rbnd (fst (query_transactions digest now q cursor limit db)) (\<lambda>page.
       Inr (pg_transactions page, pg_next_cursor page))"

lemma follow_pages_follow:
  "follow_pages digest now dbs q limit fuel n cursor = follow (page_read digest now q limit) dbs fuel n cursor"
  by (induction fuel arbitrary: n cursor) (auto simp: page_read_def rbnd_def split: sum.split option.split)

definition place_key :: "newest \<Rightarrow> string \<times> string" where
  "place_key k = (nw_created k, nw_id k)"

lemma beyond_page_key: "beyond page_key position = after_cursor (map_option place_key position)"
  by (cases position) (auto simp: fun_eq_iff place_key_def newest.expand)

lemma cursor_at_key:
  "map_option (\<lambda>k. encode_query_cursor (nw_created k) (nw_id k) (digest f)) position =
     cursor_at digest f (map_option place_key position)"
  by (cases position) (auto simp: cursor_at_def place_key_def)

interpretation tx_pages: keyset_pages
  "\<lambda>db. tinv db \<and> query_filters q = Inr f \<and> 1 \<le> limit \<and> limit \<le> 1000" "\<lambda>db. all_matches db f" page_key
  "summary_of_row now" "\<lambda>k. encode_query_cursor (nw_created k) (nw_id k) (digest f)" "nat limit"
  "page_read digest now q limit" for q f limit digest now
proof
  fix db rows position
  assume inv: "tinv db \<and> query_filters q = Inr f \<and> 1 \<le> limit \<and> limit \<le> 1000"
    and rows: "rows = filter (beyond page_key position) (all_matches db f)"
  show "page_read digest now q limit db
      (map_option (\<lambda>k. encode_query_cursor (nw_created k) (nw_id k) (digest f)) position) =
    rbnd (decode_rows (summary_of_row now) (take (nat limit) rows)) (\<lambda>items. Inr (items,
      if nat limit < length rows then Some (encode_query_cursor (nw_created (page_key (rows ! (nat limit - 1))))
        (nw_id (page_key (rows ! (nat limit - 1)))) (digest f)) else None))"
    unfolding page_read_def cursor_at_key using inv rows
    by (subst one_page [where rows = rows]) (auto simp: beyond_page_key cursor_at_place page_key_def rbnd_def split: sum.split)
qed (auto intro: matches_sorted)

section \<open>Properties\<close>

text \<open>
  C25: following the cursors over a store that does not change gives exactly the matching transactions,
  newest first and by id among equally old ones, each once, whatever the page size; the first
  undecodable row in that order raises its error.
\<close>

theorem pages_enumerate_the_matches:
  assumes "tinv db" and "query_filters q = Inr f" and "1 \<le> limit" and "limit \<le> 1000"
    and "length (all_matches db f) \<le> fuel * nat limit" and "0 < fuel"
  shows "follow_pages digest now (\<lambda>_. db) q limit fuel 0 None =
    rbnd (decode_rows (summary_of_row now) (all_matches db f)) (\<lambda>xs. Inr (Some xs))"
  unfolding follow_pages_follow using assms by (intro tx_pages.follow_all) auto

definition demo_query :: tx_query where
  "demo_query = \<lparr>tq_statuses = Some [FAILED], tq_since = None, tq_until = None,
     tq_reference = None, tq_metadata = Some [(''b'', PInt 2)]\<rparr>"

definition demo_filter :: tx_filter where
  "demo_filter = \<lparr>tf_statuses = [''failed''], tf_since = None, tf_until = None,
     tf_reference = None, tf_metadata = [(''b'', JsonText (PInt 2))]\<rparr>"

definition demo_tx_row :: tx_row where
  "demo_tx_row = tx_to_row demo_saved (JsonText (PDict [])) (isoformat (utc_datetime 1))
     (isoformat (utc_datetime 1)) empty_text empty_text"

definition demo_db :: txdb where
  "demo_db = empty_txdb\<lparr>d_transactions := [demo_tx_row],
     d_metadata := [\<lparr>mr_transaction_id = ''x'', mr_key = ''b'', mr_value = JsonText (PInt 2)\<rparr>]\<rparr>"

lemma demo_filters: "query_filters demo_query = Inr demo_filter"
  by (simp add: query_filters_def demo_query_def demo_filter_def query_statuses_def query_timestamp_def
      since_after_until_def filter_metadata_def metadata_to_storage_def validate_json_object_of_dict safe_dict_def)

lemma tinv_demo_db: "tinv demo_db"
  by (simp add: demo_db_def demo_tx_row_def tinv_def empty_txdb_def tx_to_row_def demo_saved_def)

lemma demo_matches: "all_matches demo_db demo_filter = [demo_tx_row]"
  by (simp add: all_matches_def demo_db_def demo_tx_row_def demo_filter_def row_matches_def row_selected_def
      in_window_def has_metadata_def tx_to_row_def demo_saved_def)

lemma demo_decoded:
  "decode_rows (summary_of_row now) (all_matches demo_db demo_filter) =
     Inr [\<lparr>ts_id = ''x'', ts_reference = ''R'', ts_status = FAILED, ts_retry_count = 0,
           ts_created_at = Some (utc_datetime 1)\<rparr>]"
proof -
  have "status_of ''failed'' = Some FAILED" by (simp add: status_of_def)
  then show ?thesis
    by (simp add: demo_matches demo_tx_row_def summary_of_row_def tx_to_row_def demo_saved_def enum_of_def
        timestamp_from_storage_def repair_on_def)
qed

theorem pages_enumerate_the_matches_witness:
  "follow_pages (\<lambda>_. ''h'') (utc_datetime 0) (\<lambda>_. demo_db) demo_query 1 1 0 None =
   Inr (Some [\<lparr>ts_id = ''x'', ts_reference = ''R'', ts_status = FAILED, ts_retry_count = 0,
           ts_created_at = Some (utc_datetime 1)\<rparr>])"
  by (subst pages_enumerate_the_matches [OF tinv_demo_db demo_filters]) (simp_all add: demo_decoded, simp add: demo_matches)

text \<open>
  The stores read by a client while the workers, operators and other clients of both stores go on.
\<close>

definition kept_dated :: "(nat \<Rightarrow> txdb) \<Rightarrow> bool" where
  "kept_dated dbs \<longleftrightarrow> (\<forall>n. \<forall>r \<in> set (d_transactions (dbs n)). xr_created_at_utc r \<noteq> empty_text)"

lemma find_tx_row:
  assumes "tinv db"
  shows "find_tx i db = Some r \<longleftrightarrow> r \<in> set (d_transactions db) \<and> xr_id r = i"
proof -
  have "distinct (map xr_id (d_transactions db))" using assms by (simp add: tinv_def)
  then show ?thesis by (simp add: find_tx_def find_Some_iff_distinct)
qed

lemma history_of_stores:
  assumes "\<And>n. csteps C (ss n) (ss (Suc n))" "cinv C (ss 0)"
  shows "cinv C (ss n)" and "m \<le> n \<Longrightarrow> store_kept (c_tx (ss m)) (c_tx (ss n))"
proof -
  have one: "cinv C (ss k) \<Longrightarrow> cinv C (ss (Suc k)) \<and> store_kept (c_tx (ss k)) (c_tx (ss (Suc k)))" for k
    using csteps_kept [OF assms(1)] by blast
  then have inv: "cinv C (ss k)" for k by (induction k) (use assms(2) in auto)
  then show "cinv C (ss n)" .
  show "store_kept (c_tx (ss m)) (c_tx (ss n))" if "m \<le> n"
    using that by (induction rule: dec_induct) (use one [OF inv] store_kept_trans in auto)
qed

lemma page_keys_stay:
  assumes "\<And>n. csteps C (ss n) (ss (Suc n))" "cinv C (ss 0)" "kept_dated (\<lambda>n. c_tx (ss n))"
    and "r \<in> set (d_transactions (c_tx (ss m)))" "s \<in> set (d_transactions (c_tx (ss n)))" "xr_id r = xr_id s"
  shows "page_key r = page_key s"
proof -
  have inv: "tinv (c_tx (ss k))" for k using history_of_stores(1) [OF assms(1,2)] by (simp add: cinv_def)
  have "page_key a = page_key b" if ab: "j \<le> k" "a \<in> set (d_transactions (c_tx (ss j)))"
    "b \<in> set (d_transactions (c_tx (ss k)))" "xr_id a = xr_id b" for a b j k
  proof -
    have "find_tx (xr_id a) (c_tx (ss j)) = Some a" "find_tx (xr_id a) (c_tx (ss k)) = Some b"
      using ab by (simp_all add: find_tx_row [OF inv])
    with history_of_stores(2) [OF assms(1,2) ab(1)] have "tx_kept a b" by (metis option.inject store_kept_def)
    then show ?thesis using assms(3) ab by (simp add: tx_kept_def kept_dated_def page_key_def)
  qed
  from this [of m n r s] this [of n m s r] show ?thesis using assms(4-6) by (metis nat_le_linear)
qed

text \<open>
  Pages read while other processes write never list a transaction twice, list only transactions
  that matched when their page was read, and list every transaction that matches all the time.
\<close>

theorem pages_neither_repeat_nor_omit:
  assumes "\<And>n. csteps C (ss n) (ss (Suc n))" and "cinv C (ss 0)" and "kept_dated (\<lambda>n. c_tx (ss n))"
    and "query_filters q = Inr f"
    and "follow_pages digest now (\<lambda>n. c_tx (ss n)) q limit fuel 0 None = Inr (Some items)"
  shows "distinct (map ts_id items) \<and>
    (\<forall>s \<in> set items. \<exists>n r. r \<in> set (all_matches (c_tx (ss n)) f) \<and> summary_of_row now r = Inr s) \<and>
    (\<forall>i. (\<forall>n. \<exists>r \<in> set (all_matches (c_tx (ss n)) f). xr_id r = i) \<longrightarrow> i \<in> ts_id ` set items)"
proof -
  let ?dbs = "\<lambda>n. c_tx (ss n)"
  have tinv: "tinv (?dbs n)" for n using history_of_stores(1) [OF assms(1,2)] by (simp add: cinv_def)
  obtain page where "fst (query_transactions digest now q None limit (?dbs 0)) = Inr page"
    using assms(5) by (cases fuel) (auto simp: rbnd_Inr)
  then have inv: "tinv (?dbs n) \<and> query_filters q = Inr f \<and> 1 \<le> limit \<and> limit \<le> 1000" for n
    using filters_of_query tinv assms(4) by blast
  show ?thesis
  proof (rule tx_pages.follow_identities [OF inv assms(5) [unfolded follow_pages_follow]])
    show "page_key r = page_key s" if "r \<in> set (all_matches (?dbs m) f)" "s \<in> set (all_matches (?dbs n) f)"
      "xr_id r = xr_id s" for m n r s
      using that unfolding set_matches by (blast intro: page_keys_stay [OF assms(1-3)])
  qed (auto simp: summary_of_row_def rbnd_Inr page_key_def)
qed

definition demo_pages :: cdb where
  "demo_pages = \<lparr>c_tx = demo_db, c_queue = demo_claimed\<rparr>"

lemma demo_dated: "kept_dated (\<lambda>_. demo_db)"
  by (simp add: kept_dated_def demo_db_def demo_tx_row_def tx_to_row_def)

lemma demo_followed:
  "\<exists>items. follow_pages (\<lambda>_. ''h'') (utc_datetime 0) (\<lambda>_. demo_db) demo_query 1 2 0 None = Inr (Some items)"
  unfolding follow_pages_follow
  by (subst tx_pages.follow_all [where f = demo_filter]) (simp_all add: demo_decoded tinv_demo_db demo_filters, simp add: demo_matches)

theorem pages_neither_repeat_nor_omit_witness:
  "\<exists>items. follow_pages (\<lambda>_. ''h'') (utc_datetime 0) (\<lambda>_. demo_db) demo_query 1 2 0 None = Inr (Some items) \<and>
     ''x'' \<in> ts_id ` set items"
proof -
  have db: "c_tx demo_pages = demo_db" by (simp add: demo_pages_def)
  obtain items where run: "follow_pages (\<lambda>_. ''h'') (utc_datetime 0) (\<lambda>_. demo_db) demo_query 1 2 0 None = Inr (Some items)"
    using demo_followed by blast
  have inv: "cinv demo_cfg demo_pages" using qinv_demo_claimed tinv_demo_db by (simp add: cinv_def demo_pages_def)
  have "csteps demo_cfg demo_pages demo_pages" by (simp add: csteps_def)
  from pages_neither_repeat_nor_omit [where ss = "\<lambda>_. demo_pages", OF this inv, unfolded db, OF demo_dated demo_filters run]
  have "\<forall>i. (\<exists>r \<in> set (all_matches demo_db demo_filter). xr_id r = i) \<longrightarrow> i \<in> ts_id ` set items" by simp
  moreover have "xr_id demo_tx_row = ''x''" by (simp add: demo_tx_row_def tx_to_row_def demo_saved_def)
  ultimately show ?thesis using run by (auto simp: demo_matches)
qed


section \<open>Listings compare times as texts\<close>

text \<open>
  A boundary with an offset is compared as its own text with texts in UTC: eight o'clock UTC is not
  listed as being after twelve o'clock in UTC+5, which is seven o'clock UTC.
\<close>

definition noon_utc_5 :: datetime where
  "noon_utc_5 = DateTime (12 * 3600 * 1000000) (Some (5 * 3600 * 1000000))"

definition eight_utc :: datetime where
  "eight_utc = utc_datetime (8 * 3600 * 1000000)"

theorem since_compares_texts:
  "instant noon_utc_5 < instant eight_utc \<and>
   \<not> listed_row empty_txdb \<lparr>lf_status = None, lf_since = Some noon_utc_5, lf_metadata = None\<rparr> []
       (tx_to_row demo_saved (JsonText (PDict [])) (isoformat eight_utc) (isoformat eight_utc) empty_text empty_text)"
proof
  show "instant noon_utc_5 < instant eight_utc" by (simp add: noon_utc_5_def eight_utc_def instant_def utc_datetime_def)
  have "(iso_string (isoformat noon_utc_5), iso_string (isoformat eight_utc)) =
      (''1970-01-01T12:00:00+05:00'', ''1970-01-01T08:00:00+00:00'')" by code_simp
  then show "\<not> listed_row empty_txdb \<lparr>lf_status = None, lf_since = Some noon_utc_5, lf_metadata = None\<rparr> []
       (tx_to_row demo_saved (JsonText (PDict [])) (isoformat eight_utc) (isoformat eight_utc) empty_text empty_text)"
    by (simp add: listed_row_def tx_to_row_def)
qed

end
