(* ===== verification/Execution.thy ===== *)
theory Execution
  imports Runtime RecoveryClaims
begin

text \<open>
  \<open>execute_transaction\<close> (\<open>rpacore/execution.py\<close>): one transaction run outside a queue, with its checkpoints
  saved to a store and a resource scope around the run.

  The state is the transaction, the store, the pauses and what happened to the scope. Attempt \<open>n\<close> to save
  may meet the fault \<open>xe_fault n\<close>, after other processes committed \<open>xe_other n\<close>.
\<close>

section \<open>State\<close>

record xworld =
  xw_db :: txdb
  xw_tick :: nat
  xw_slept :: "rat list"

datatype scope_call = Entered | Left "pyexc option"

record xst =
  xs_tx :: transaction
  xs_world :: xworld
  xs_calls :: "scope_call list"

record xenv =
  xe_engine :: "engine option"
  xe_env :: "xworld env"
  xe_checkpoint :: "(xworld \<Rightarrow> transaction \<Rightarrow> (pyexc + unit) \<times> xworld) option"
  xe_db_path :: bool
  xe_now :: "nat \<Rightarrow> datetime"
  xe_fault :: "nat \<Rightarrow> pyexc option"
  xe_other :: "nat \<Rightarrow> txdb \<Rightarrow> txdb"

text \<open>\<open>Engine()\<close> with its default arguments.\<close>

definition default_engine :: engine where
  "default_engine = \<lparr>eng_max_retries = 0, eng_retry_delay = 0, eng_retry_backoff = 1, eng_screenshot_dir = []\<rparr>"

section \<open>Checkpoints\<close>

definition save_attempt :: "xenv \<Rightarrow> transaction \<Rightarrow> (xworld, pyexc, unit) effect" where
  "save_attempt X t = (\<lambda>w.
     let n = xw_tick w; db = xe_other X n (xw_db w)
     in case xe_fault X n of
          Some e \<Rightarrow> (Inl e, w\<lparr>xw_db := db, xw_tick := Suc n\<rparr>)
        | None \<Rightarrow> (case save_transaction (xe_now X n) t db of
            (r, db') \<Rightarrow> (r, w\<lparr>xw_db := db', xw_tick := Suc n\<rparr>)))"

definition world_sleep :: "rat \<Rightarrow> (xworld, pyexc, unit) effect" where
  "world_sleep d = upd_st (\<lambda>w. w\<lparr>xw_slept := xw_slept w @ [d]\<rparr>)"

definition save_transaction_with_retries :: "xenv \<Rightarrow> transaction \<Rightarrow> (xworld, pyexc, unit) effect" where
  "save_transaction_with_retries X t = with_sqlite_retries world_sleep (save_attempt X t)"

definition resolved_checkpoint :: "xenv \<Rightarrow> (xworld \<Rightarrow> transaction \<Rightarrow> (pyexc + unit) \<times> xworld) option" where
  "resolved_checkpoint X =
     (if xe_db_path X then Some (\<lambda>w t. save_transaction_with_retries X t w) else xe_checkpoint X)"

section \<open>The run\<close>

definition run_once :: "xenv \<Rightarrow> (xst, pyexc, unit) effect" where
  "run_once X = (\<lambda>s.
     case engine_run (case xe_engine X of None \<Rightarrow> default_engine | Some C \<Rightarrow> C)
            ((xe_env X)\<lparr>env_checkpoint := resolved_checkpoint X\<rparr>)
            \<lparr>es_tx = xs_tx s, es_tick = 0, es_slept = [], es_world = xs_world s\<rparr> of
       (r, u) \<Rightarrow> (r, s\<lparr>xs_tx := es_tx u,
         xs_world := (es_world u)\<lparr>xw_slept := xw_slept (es_world u) @ es_slept u\<rparr>\<rparr>))"

definition note_scope :: "scope_call \<Rightarrow> (xst, pyexc, unit) effect" where
  "note_scope c = upd_st (\<lambda>s. s\<lparr>xs_calls := xs_calls s @ [c]\<rparr>)"

definition leave :: "xst scope \<Rightarrow> pyexc option \<Rightarrow> (xst, pyexc, bool) effect" where
  "leave scope e = thn (note_scope (Left e)) (sc_exit scope e)"

text \<open>
  The \<open>try\<close> around the run: an exception of the cleanup replaces the one of the run, which is
  otherwise raised again unless the scope suppresses it.
\<close>

definition scoped_run :: "xenv \<Rightarrow> xst scope \<Rightarrow> (xst, pyexc, unit) effect" where
  "scoped_run X scope =
     bnd (sc_enter scope) (\<lambda>yielded.
     thn (note_scope Entered) (\<lambda>s.
       case thn (lift_res (scope_resources yielded)) (run_once X) s of
         (Inl e, t) \<Rightarrow> bnd (leave scope (Some e)) (\<lambda>suppress. if suppress then ret () else raise_exc e) t
       | (Inr _, t) \<Rightarrow> thn (leave scope None) (ret ()) t))"

definition execute_transaction :: "xenv \<Rightarrow> xst scope option \<Rightarrow> (xst, pyexc, unit) effect" where
  "execute_transaction X scope =
     (if xe_checkpoint X \<noteq> None \<and> xe_db_path X
      then raise_exc (ValueErr ''checkpoint and transaction_db_path are mutually exclusive'')
      else bnd get_st (\<lambda>s.
        thn (if xe_db_path X
             then lift_res (map_sum id (\<lambda>_. ()) (validate_definition_identity (PStr (tx_definition_identity (xs_tx s))) True))
             else ret ())
            (case scope of None \<Rightarrow> run_once X | Some sc \<Rightarrow> scoped_run X sc)))"

section \<open>What a run does to the store\<close>

definition world_kept :: "xworld \<Rightarrow> xworld \<Rightarrow> bool" where
  "world_kept w w' \<longleftrightarrow> (tinv (xw_db w) \<longrightarrow> tinv (xw_db w') \<and> store_kept (xw_db w) (xw_db w'))"

text \<open>The other processes: they keep the invariant and take nothing stored back; so does the sink.\<close>

definition fair_others :: "xenv \<Rightarrow> bool" where
  "fair_others X \<longleftrightarrow> (\<forall>n db. tinv db \<longrightarrow> tinv (xe_other X n db) \<and> store_kept db (xe_other X n db)) \<and>
     (\<forall>sink w tr. env_sink (xe_env X) = Some sink \<longrightarrow> xw_db (snd (sink w tr)) = xw_db w)"

interpretation kept: step_relation world_kept
  by unfold_locales (auto simp: world_kept_def intro: store_kept_trans)

lemma save_attempt_kept: "fair_others X \<Longrightarrow> keeps world_kept (save_attempt X t)"
proof (rule keepsI)
  fix w :: xworld
  assume fair: "fair_others X"
  let ?db = "xe_other X (xw_tick w) (xw_db w)"
  have "tinv ?db \<and> store_kept (xw_db w) ?db" if "tinv (xw_db w)" using fair that by (simp add: fair_others_def)
  moreover have "tinv (snd (save_transaction now t ?db)) \<and> store_kept ?db (snd (save_transaction now t ?db))"
    if "tinv ?db" for now
    using tinv_save [OF that] save_kept [OF that] by blast
  ultimately show "world_kept w (snd (save_attempt X t w))"
    by (auto simp: world_kept_def save_attempt_def Let_def split: option.splits prod.splits)
      (metis snd_conv store_kept_trans)+
qed

lemma world_sleep_kept: "keeps world_kept (world_sleep d)"
  by (simp add: world_sleep_def kept.keeps_upd world_kept_def)

lemma save_retries_kept: "fair_others X \<Longrightarrow> keeps world_kept (save_transaction_with_retries X t)"
  unfolding save_transaction_with_retries_def
  by (rule kept.keeps_sqlite_retries [OF save_attempt_kept world_sleep_kept])

definition saving_env :: "xenv \<Rightarrow> xworld env" where
  "saving_env X = (xe_env X)\<lparr>env_checkpoint := Some (\<lambda>w t. save_transaction_with_retries X t w)\<rparr>"

definition fair_kept :: "xenv \<Rightarrow> xworld \<Rightarrow> xworld \<Rightarrow> bool" where
  "fair_kept X w w' \<longleftrightarrow> (fair_others X \<longrightarrow> world_kept w w')"

interpretation saving: world_relation "fair_kept X" "saving_env X" for X
proof unfold_locales
  show "fair_kept X w (snd (sink w tr))" if "env_sink (saving_env X) = Some sink" for sink and w :: xworld and tr
    using that by (auto simp: fair_kept_def fair_others_def saving_env_def world_kept_def)
  show "fair_kept X w (snd (save w t))" if "env_checkpoint (saving_env X) = Some save" for save and w :: xworld and t
    using that save_retries_kept [of X t] by (auto simp: fair_kept_def saving_env_def keeps_def)
qed (auto simp: fair_kept_def intro: kept.R_refl kept.R_trans)

text \<open>A returned run with a store ended with a save of the transaction as it is returned.\<close>

lemma saved_run:
  assumes "xe_db_path X" "fair_others X" "tinv (xw_db (xs_world s))" "run_once X s = (Inr (), t)"
  shows "\<exists>db n. tinv db \<and> store_kept (xw_db (xs_world s)) db \<and>
    save_transaction (xe_now X n) (xs_tx t) db = (Inr (), xw_db (xs_world t))"
proof -
  obtain C u where u: "engine_run C (saving_env X) \<lparr>es_tx = xs_tx s, es_tick = 0, es_slept = [], es_world = xs_world s\<rparr> = (Inr (), u)"
    and t: "xs_tx t = es_tx u" "xw_db (xs_world t) = xw_db (es_world u)"
    using assms(1,4) by (auto simp: run_once_def resolved_checkpoint_def saving_env_def split: prod.splits)
  from saving.run.last_checkpoint [OF u] obtain z where
    z: "fair_kept X (xs_world s) (es_world z)" "checkpoint (saving_env X) z = (Inr (), u)" by auto
  have "save_transaction_with_retries X (es_tx u) (es_world z) = (Inr (), es_world u)"
    using checkpoint_saves [OF z(2)] by (simp add: saving_env_def)
  from kept.retrying_Inr [OF this [unfolded save_transaction_with_retries_def with_sqlite_retries_def]
    save_attempt_kept [OF assms(2)] world_sleep_kept]
  obtain v where v: "world_kept (es_world z) v" "save_attempt X (es_tx u) v = (Inr (), es_world u)" by blast
  let ?db = "xe_other X (xw_tick v) (xw_db v)"
  have "tinv (xw_db v) \<and> store_kept (xw_db (xs_world s)) (xw_db v)"
    using z(1) v(1) assms(2,3) by (auto simp: fair_kept_def world_kept_def intro: store_kept_trans)
  then have "tinv ?db \<and> store_kept (xw_db (xs_world s)) ?db"
    using assms(2) by (auto simp: fair_others_def intro: store_kept_trans)
  moreover have "save_transaction (xe_now X (xw_tick v)) (es_tx u) ?db = (Inr (), xw_db (es_world u))"
    using v(2) by (auto simp: save_attempt_def Let_def split: option.splits prod.splits dest!: arg_cong [where f = xw_db])
  ultimately show ?thesis using t by metis
qed


section \<open>Properties\<close>

text \<open>
  A scope that leaves the transaction and the store alone and does not suppress the exceptions of
  the run.
\<close>

definition same_work :: "xst \<Rightarrow> xst \<Rightarrow> bool" where
  "same_work s t \<longleftrightarrow> xs_tx t = xs_tx s \<and> xs_world t = xs_world s"

definition quiet_scope :: "xst scope \<Rightarrow> bool" where
  "quiet_scope sc \<longleftrightarrow> keeps same_work (sc_enter sc) \<and> (\<forall>e. keeps same_work (sc_exit sc e)) \<and>
     (\<forall>e s. fst (sc_exit sc (Some e) s) \<noteq> Inr True)"

interpretation same_work: step_relation same_work
  by unfold_locales (auto simp: same_work_def)

lemma note_same_work: "keeps same_work (note_scope c)"
  by (simp add: note_scope_def same_work.keeps_upd same_work_def)

lemma leave_same_work: "quiet_scope sc \<Longrightarrow> keeps same_work (leave sc e)"
  by (simp add: leave_def quiet_scope_def same_work.keeps_thn note_same_work)

lemma scoped_run_returns:
  assumes "quiet_scope sc" "scoped_run X sc s = (Inr (), t)"
  obtains s' t' where "same_work s s'" "run_once X s' = (Inr (), t')" "same_work t' t"
proof -
  from assms(2) obtain yielded s1 s' where s1: "sc_enter sc s = (Inr yielded, s1)" "note_scope Entered s1 = (Inr (), s')"
    and run: "(case thn (lift_res (scope_resources yielded)) (run_once X) s' of
         (Inl e, t) \<Rightarrow> bnd (leave sc (Some e)) (\<lambda>suppress. if suppress then ret () else raise_exc e) t
       | (Inr _, t) \<Rightarrow> thn (leave sc None) (ret ()) t) = (Inr (), t)"
    by (auto simp: scoped_run_def bnd_Inr thn_Inr)
  have "same_work s s1" using assms(1) s1(1) by (auto simp: quiet_scope_def dest: keepsD)
  then have ss: "same_work s s'" using keepsD [OF note_same_work s1(2)] same_work.R_trans by blast
  obtain q t' where q: "thn (lift_res (scope_resources yielded)) (run_once X) s' = (q, t')" by fastforce
  show thesis
  proof (cases q)
    case (Inl e)
    with run q have "bnd (leave sc (Some e)) (\<lambda>suppress. if suppress then ret () else raise_exc e) t' = (Inr (), t)" by simp
    then obtain u where "leave sc (Some e) t' = (Inr True, u)"
      by (auto simp: bnd_Inr raise_exc_def split: if_splits)
    then have "\<exists>v. sc_exit sc (Some e) v = (Inr True, u)" by (auto simp: leave_def thn_Inr)
    then have "\<exists>v. fst (sc_exit sc (Some e) v) = Inr True" by (metis fst_conv)
    then show thesis using assms(1) by (auto simp: quiet_scope_def)
  next
    case (Inr u)
    with q have "run_once X s' = (Inr (), t')" by (auto simp: thn_Inr lift_res_def)
    moreover have "same_work t' t"
      using run q Inr leave_same_work [OF assms(1)] by (auto simp: thn_Inr ret_def dest: keepsD)
    ultimately show thesis using that ss by blast
  qed
qed

text \<open>
  C26: \<open>execute_transaction\<close> with a database path returns only when its last action on the store was a
  successful save of the transaction as it is returned, whatever the steps did, however often the
  database was locked and whatever other processes committed meanwhile.
\<close>

theorem executed_transaction_is_saved:
  assumes "xe_db_path X" and "fair_others X" and "tinv (xw_db (xs_world s))"
    and "\<And>sc. scope = Some sc \<Longrightarrow> quiet_scope sc" and "execute_transaction X scope s = (Inr (), t)"
  shows "\<exists>db n. tinv db \<and> store_kept (xw_db (xs_world s)) db \<and>
    save_transaction (xe_now X n) (xs_tx t) db = (Inr (), xw_db (xs_world t))"
proof (cases scope)
  case None
  with assms(5) have "run_once X s = (Inr (), t)"
    by (auto simp: execute_transaction_def raise_exc_def bnd_Inr thn_Inr get_st_def lift_res_def ret_def split: if_splits)
  then show ?thesis by (rule saved_run [OF assms(1-3)])
next
  case (Some sc)
  with assms(5) have run: "scoped_run X sc s = (Inr (), t)"
    by (auto simp: execute_transaction_def raise_exc_def bnd_Inr thn_Inr get_st_def lift_res_def ret_def split: if_splits)
  obtain s' t' where "same_work s s'" "run_once X s' = (Inr (), t')" "same_work t' t"
    by (rule scoped_run_returns [OF assms(4) [OF Some] run])
  with saved_run [OF assms(1,2), of s' t'] assms(3) show ?thesis by (simp add: same_work_def)
qed


text \<open>One step that succeeds, and a database that is locked at the first attempt to save.\<close>

definition demo_xenv :: xenv where
  "demo_xenv = \<lparr>xe_engine = None,
     xe_env = \<lparr>env_execute = demo_execute None, env_checkpoint = None, env_sink = None, env_fields = [],
       env_clock = (\<lambda>n. DateTime (1000 + int n) (Some 0)), env_uuid = (\<lambda>n. ''u''),
       env_screenshot = (\<lambda>n. Inr ''shot.png'')\<rparr>,
     xe_checkpoint = None, xe_db_path = True, xe_now = (\<lambda>_. demo_time),
     xe_fault = (\<lambda>n. if n = 0 then Some (OperationalError ''database is locked'') else None), xe_other = (\<lambda>_ db. db)\<rparr>"

definition demo_xst :: xst where
  "demo_xst = \<lparr>xs_tx = (demo_tx [demo_step ''check'' 1 PENDING []])\<lparr>tx_definition_identity := ''v1''\<rparr>,
     xs_world = \<lparr>xw_db = empty_txdb, xw_tick = 0, xw_slept = []\<rparr>, xs_calls = []\<rparr>"

lemma demo_executed: "\<exists>t. execute_transaction demo_xenv None demo_xst = (Inr (), t)"
proof -
  have "(case fst (execute_transaction demo_xenv None demo_xst) of Inl _ \<Rightarrow> False | Inr _ \<Rightarrow> True)" by code_simp
  then show ?thesis by (cases "execute_transaction demo_xenv None demo_xst") (auto split: sum.splits)
qed

theorem executed_transaction_is_saved_witness:
  "\<exists>t db. execute_transaction demo_xenv None demo_xst = (Inr (), t) \<and>
     save_transaction demo_time (xs_tx t) db = (Inr (), xw_db (xs_world t))"
proof -
  obtain t where run: "execute_transaction demo_xenv None demo_xst = (Inr (), t)" using demo_executed by blast
  have "fair_others demo_xenv" "xe_db_path demo_xenv" "tinv (xw_db (xs_world demo_xst))"
    by (simp_all add: fair_others_def demo_xenv_def demo_xst_def tinv_empty)
  from executed_transaction_is_saved [OF this(2,1,3) _ run] obtain db n where
    "save_transaction (xe_now demo_xenv n) (xs_tx t) db = (Inr (), xw_db (xs_world t))" by auto
  then show ?thesis using run by (auto simp: demo_xenv_def)
qed

end
