(* ===== verification/Schema.thy ===== *)
theory Schema
  imports Persistence
begin

text \<open>
  SQLite databases as far as the schema code sees them (\<open>rpacore/_sqlite.py\<close>): the tables with their
  columns and rows, the indexes, the version markers of the components, and the checks made on them.

  A row is the list of its cells by column. A timestamp cell is the text it holds, as \<open>iso_text\<close>. Of a
  \<open>CREATE TABLE\<close> statement the model keeps the columns and the events its \<open>CHECK\<close> allows; primary keys and
  uniqueness are constraints that SQLite has enforced on the rows.
\<close>

section \<open>Databases\<close>

datatype cell = Null | Text string | Num int | Stamp iso_text

type_synonym sql_row = "(string \<times> cell) list"

record sql_table =
  tb_columns :: "string list"
  tb_events :: "string list"
  tb_rows :: "sql_row list"

record sql_db =
  sd_tables :: "(string \<times> sql_table) list"
  sd_indexes :: "string list"
  sd_versions :: "(string \<times> int) list option"

definition empty_sql :: sql_db where
  "empty_sql = \<lparr>sd_tables = [], sd_indexes = [], sd_versions = None\<rparr>"

definition cell_of :: "sql_row \<Rightarrow> string \<Rightarrow> cell" where
  "cell_of r c = (case map_of r c of None \<Rightarrow> Null | Some v \<Rightarrow> v)"

fun set_cell :: "string \<Rightarrow> cell \<Rightarrow> sql_row \<Rightarrow> sql_row" where
  "set_cell c v [] = []"
| "set_cell c v ((c', v') # r) = (if c' = c then (c, v) # r else (c', v') # set_cell c v r)"

definition find_table :: "string \<Rightarrow> sql_db \<Rightarrow> sql_table option" where
  "find_table name db = map_of (sd_tables db) name"

definition table_exists :: "string \<Rightarrow> sql_db \<Rightarrow> bool" where
  "table_exists name db \<longleftrightarrow> find_table name db \<noteq> None"

definition table_columns :: "string \<Rightarrow> sql_db \<Rightarrow> string list" where
  "table_columns name db = (case find_table name db of None \<Rightarrow> [] | Some tb \<Rightarrow> tb_columns tb)"

definition table_rows :: "string \<Rightarrow> sql_db \<Rightarrow> sql_row list" where
  "table_rows name db = (case find_table name db of None \<Rightarrow> [] | Some tb \<Rightarrow> tb_rows tb)"

definition map_table :: "string \<Rightarrow> (sql_table \<Rightarrow> sql_table) \<Rightarrow> sql_db \<Rightarrow> sql_db" where
  "map_table name f db = db\<lparr>sd_tables := map (\<lambda>(n, tb). (n, if n = name then f tb else tb)) (sd_tables db)\<rparr>"

section \<open>Statements\<close>

type_synonym 'a sql = "(sql_db, pyexc, 'a) effect"

definition create_if_missing :: "string \<Rightarrow> string list \<Rightarrow> string list \<Rightarrow> unit sql" where
  "create_if_missing name columns events = upd_st (\<lambda>db.
     if table_exists name db then db
     else db\<lparr>sd_tables := sd_tables db @ [(name, \<lparr>tb_columns = columns, tb_events = events, tb_rows = []\<rparr>)]\<rparr>)"

definition create_new :: "string \<Rightarrow> string list \<Rightarrow> string list \<Rightarrow> unit sql" where
  "create_new name columns events = bnd get_st (\<lambda>db.
     if table_exists name db then raise_exc (OperationalError ''table already exists'')
     else create_if_missing name columns events)"

definition add_column :: "string \<Rightarrow> string \<Rightarrow> cell \<Rightarrow> sql_table \<Rightarrow> sql_table" where
  "add_column name column v tb =
     tb\<lparr>tb_columns := tb_columns tb @ [column], tb_rows := map (\<lambda>r. r @ [(column, v)]) (tb_rows tb)\<rparr>"

text \<open>\<open>ALTER TABLE \<dots> ADD COLUMN\<close>: the table must exist and the column must not.\<close>

definition alter_add :: "string \<Rightarrow> string \<Rightarrow> cell \<Rightarrow> unit sql" where
  "alter_add name column v = bnd get_st (\<lambda>db.
     if \<not> table_exists name db then raise_exc (OperationalError ''no such table'')
     else if column \<in> set (table_columns name db) then raise_exc (OperationalError ''duplicate column name'')
     else upd_st (map_table name (add_column name column v)))"

definition ensure_column :: "string \<Rightarrow> string \<Rightarrow> cell \<Rightarrow> unit sql" where
  "ensure_column name column v = bnd get_st (\<lambda>db.
     if column \<in> set (table_columns name db) then ret () else alter_add name column v)"

definition create_index :: "string \<Rightarrow> string \<Rightarrow> unit sql" where
  "create_index table name = bnd get_st (\<lambda>db.
     if \<not> table_exists table db then raise_exc (OperationalError ''no such table'')
     else upd_st (\<lambda>db. if name \<in> set (sd_indexes db) then db else db\<lparr>sd_indexes := sd_indexes db @ [name]\<rparr>))"

definition drop_table :: "string \<Rightarrow> unit sql" where
  "drop_table name = upd_st (\<lambda>db. db\<lparr>sd_tables := filter (\<lambda>(n, _). n \<noteq> name) (sd_tables db)\<rparr>)"

definition rename_table :: "string \<Rightarrow> string \<Rightarrow> unit sql" where
  "rename_table old name = upd_st (\<lambda>db.
     db\<lparr>sd_tables := map (\<lambda>(n, tb). (if n = old then name else n, tb)) (sd_tables db)\<rparr>)"

section \<open>Version markers\<close>

definition transaction_schema_version :: int where "transaction_schema_version = 10"
definition queue_schema_version :: int where "queue_schema_version = 5"

definition supported_version :: "string \<Rightarrow> int option" where
  "supported_version component =
     (if component = ''transactions'' then Some transaction_schema_version
      else if component = ''queue'' then Some queue_schema_version else None)"

definition component_schema_version :: "string \<Rightarrow> sql_db \<Rightarrow> int" where
  "component_schema_version component db = (case sd_versions db of
     None \<Rightarrow> 0
   | Some rows \<Rightarrow> (case map_of rows component of None \<Rightarrow> 0 | Some v \<Rightarrow> v))"

definition version_acceptable :: "string \<times> int \<Rightarrow> bool" where
  "version_acceptable row = (case supported_version (fst row) of None \<Rightarrow> False | Some v \<Rightarrow> snd row \<le> v)"

text \<open>The first unacceptable marker by component raises.\<close>

definition ensure_database_compatibility :: "unit sql" where
  "ensure_database_compatibility = bnd get_st (\<lambda>db. case sd_versions db of
     None \<Rightarrow> ret ()
   | Some rows \<Rightarrow> foreach (sort_key fst rows) (\<lambda>row.
       if supported_version (fst row) = None
       then raise_exc (RuntimeErr ''Unsupported SQLite schema component'')
       else if version_acceptable row then ret ()
       else raise_exc (RuntimeErr ''Unsupported schema version'')))"

definition ensure_supported_schema :: "string \<Rightarrow> int \<Rightarrow> int sql" where
  "ensure_supported_schema component supported = bnd get_st (\<lambda>db.
     if supported < component_schema_version component db
     then raise_exc (RuntimeErr ''Unsupported schema version'')
     else ret (component_schema_version component db))"

definition require_current_schema :: "string \<Rightarrow> int \<Rightarrow> unit sql" where
  "require_current_schema component supported = bnd get_st (\<lambda>db.
     if component_schema_version component db \<noteq> supported
     then raise_exc (RuntimeErr ''inspection does not migrate databases'') else ret ())"

definition ensure_schema_version_table :: "unit sql" where
  "ensure_schema_version_table = upd_st (\<lambda>db.
     if sd_versions db = None then db\<lparr>sd_versions := Some []\<rparr> else db)"

text \<open>\<open>INSERT \<dots> ON CONFLICT(component) DO UPDATE\<close>.\<close>

fun set_version :: "(string \<times> int) list \<Rightarrow> string \<Rightarrow> int \<Rightarrow> (string \<times> int) list" where
  "set_version [] component v = [(component, v)]"
| "set_version ((c, w) # rows) component v =
     (if c = component then (c, v) # rows else (c, w) # set_version rows component v)"

definition record_component_schema_version :: "string \<Rightarrow> int \<Rightarrow> unit sql" where
  "record_component_schema_version component v = bnd get_st (\<lambda>db. case sd_versions db of
     None \<Rightarrow> raise_exc (OperationalError ''no such table'')
   | Some rows \<Rightarrow> upd_st (\<lambda>db. db\<lparr>sd_versions := Some (set_version rows component v)\<rparr>))"

section \<open>Paths and headers\<close>

definition validate_durable_sqlite_path :: "pyval \<Rightarrow> pyexc + string" where
  "validate_durable_sqlite_path v = (case v of
     PStr path \<Rightarrow>
       (if blank path then Inl (ValueErr ''non-empty SQLite file path'')
        else if strip path = '':memory:'' then Inl (ValueErr ''SQLite file path (not :memory:)'')
        else Inr path)
   | _ \<Rightarrow> Inl (TypeErr ''str''))"

text \<open>The answer of \<open>PRAGMA journal_mode = DELETE\<close>.\<close>

definition configure_rollback_journal :: "string \<Rightarrow> pyexc + string" where
  "configure_rollback_journal answer =
     (if lower answer \<noteq> ''delete'' then Inl (RuntimeErr ''Could not configure safe SQLite rollback journal'')
      else Inr (lower answer))"

text \<open>The first hundred bytes of a regular file.\<close>

definition header_journal_mode :: "string \<Rightarrow> string" where
  "header_journal_mode header =
     (if take 16 header \<noteq> ''SQLite format 3'' @ [CHR 0x00] then ''not_sqlite''
      else if take 2 (drop 18 header) = [CHR 0x02, CHR 0x02] then ''wal'' else ''delete'')"

section \<open>Facts on statements\<close>

lemma set_version_get [simp]:
  "map_of (set_version rows component v) c = (if c = component then Some v else map_of rows c)"
  by (induction rows component v rule: set_version.induct) auto

lemma map_of_tables:
  "map_of (map (\<lambda>(n, tb). (n, if n = name then f tb else tb)) ts) n =
     map_option (\<lambda>tb. if n = name then f tb else tb) (map_of ts n)"
  by (induction ts) auto

lemma find_map_table [simp]:
  "find_table n (map_table name f db) = map_option (\<lambda>tb. if n = name then f tb else tb) (find_table n db)"
  by (simp add: find_table_def map_table_def map_of_tables)

end
