(* ===== verification/Migrations.thy ===== *)
theory Migrations
  imports Schema
begin

text \<open>
  The schema migrations of the transaction store (\<open>rpacore/persistence.py\<close>, \<open>_ensure_schema\<close> and
  \<open>_migrate_transactions_to_v1\<close> to \<open>v10\<close>), one effect per migration, run in one write transaction.
\<close>

section \<open>Tables of the versions\<close>

definition transactions_v1 :: "string list" where
  "transactions_v1 = [''id'', ''reference'', ''status'', ''retry_count'', ''created_at'']"

definition skills_v1 :: "string list" where
  "skills_v1 = [''id'', ''transaction_id'', ''name'', ''execution_order'', ''status'', ''arguments'']"

definition exceptions_v1 :: "string list" where
  "exceptions_v1 = [''id'', ''skill_id'', ''exception_type'', ''message'', ''action'', ''retry_number'',
     ''datetime_occurred'', ''screenshot_path'', ''stops_execution'']"

definition history_v3 :: "string list" where
  "history_v3 = [''transaction_id'', ''sequence'', ''timestamp'', ''event'', ''status'', ''retry_number'',
     ''skill_name'', ''skill_execution_order'']"

definition events_v3 :: "string list" where
  "events_v3 = [''transaction_started'', ''skill_started'', ''skill_succeeded'', ''skill_failed'', ''skill_skipped'',
     ''skill_interrupted'', ''retry_scheduled'', ''transaction_resumed'', ''transaction_completed'']"

definition metadata_v4 :: "string list" where
  "metadata_v4 = [''transaction_id'', ''key'', ''value_json'']"

definition artifacts_v5 :: "string list" where
  "artifacts_v5 = [''transaction_id'', ''sequence'', ''id'', ''name'', ''path'', ''kind'', ''created_at'', ''metadata'']"

definition exceptions_v10 :: "string list" where
  "exceptions_v10 = [''id'', ''step_id'', ''exception_type'', ''message'', ''action'', ''retry_number'',
     ''occurred_at'', ''screenshot_path'', ''halts_remaining_steps'', ''code'']"

definition history_v10 :: "string list" where
  "history_v10 = [''transaction_id'', ''sequence'', ''timestamp'', ''event'', ''status'', ''retry_number'',
     ''step_name'', ''step_execution_order'']"

definition events_v10 :: "string list" where
  "events_v10 = [''transaction_started'', ''step_started'', ''step_succeeded'', ''step_failed'', ''step_skipped'',
     ''step_interrupted'', ''retry_scheduled'', ''transaction_resumed'', ''transaction_completed'']"

section \<open>Versions 1 to 6\<close>

definition record_version :: "int \<Rightarrow> unit sql" where
  "record_version = record_component_schema_version ''transactions''"

definition migrate_transactions_to_v1 :: "unit sql" where
  "migrate_transactions_to_v1 =
     thn (create_if_missing ''transactions'' transactions_v1 [])
    (thn (ensure_column ''transactions'' ''created_at'' (Stamp empty_text))
    (thn (create_if_missing ''skills'' skills_v1 [])
    (thn (create_if_missing ''exceptions'' exceptions_v1 [])
    (thn (ensure_column ''exceptions'' ''stops_execution'' (Num 0))
         (record_version 1)))))"

definition migrate_transactions_to_v2 :: "unit sql" where
  "migrate_transactions_to_v2 =
     thn (ensure_column ''transactions'' ''state'' (Text ''{}'')) (record_version 2)"

definition migrate_transactions_to_v3 :: "unit sql" where
  "migrate_transactions_to_v3 =
     thn (ensure_column ''transactions'' ''started_at'' Null)
    (thn (ensure_column ''transactions'' ''finished_at'' Null)
    (thn (create_if_missing ''transaction_history'' history_v3 events_v3)
         (record_version 3)))"

definition migrate_transactions_to_v4 :: "unit sql" where
  "migrate_transactions_to_v4 =
     thn (create_if_missing ''transaction_metadata'' metadata_v4 []) (record_version 4)"

definition migrate_transactions_to_v5 :: "unit sql" where
  "migrate_transactions_to_v5 =
     thn (create_if_missing ''transaction_artifacts'' artifacts_v5 []) (record_version 5)"

definition migrate_transactions_to_v6 :: "unit sql" where
  "migrate_transactions_to_v6 =
     thn (ensure_column ''transactions'' ''revision'' (Num 0))
    (thn (ensure_column ''transactions'' ''queue_item_id'' (Text []))
    (thn (ensure_column ''transactions'' ''claim_token'' (Text []))
         (record_version 6)))"

section \<open>Version 7: query keys\<close>

definition row_id :: "sql_row \<Rightarrow> string" where
  "row_id r = (case cell_of r ''id'' of Text i \<Rightarrow> i | _ \<Rightarrow> [])"

definition unkeyed :: "sql_row \<Rightarrow> bool" where
  "unkeyed r \<longleftrightarrow> cell_of r ''created_at_utc'' = Stamp empty_text"

definition created_text :: "sql_row \<Rightarrow> iso_text" where
  "created_text r = (case cell_of r ''created_at'' of Stamp t \<Rightarrow> t | _ \<Rightarrow> empty_text)"

definition key_update :: "datetime \<Rightarrow> sql_row \<Rightarrow> pyexc + string \<times> iso_text" where
  "key_update now r = rbnd (legacy_utc_timestamp now (created_text r)) (\<lambda>utc. Inr (row_id r, utc))"

definition apply_updates :: "(string \<times> iso_text) list \<Rightarrow> sql_row list \<Rightarrow> sql_row list" where
  "apply_updates updates = map (\<lambda>r. case map_of updates (row_id r) of
     None \<Rightarrow> r | Some utc \<Rightarrow> set_cell ''created_at_utc'' (Stamp utc) r)"

definition past :: "string option \<Rightarrow> string \<Rightarrow> bool" where
  "past last_id i = (case last_id of None \<Rightarrow> True | Some j \<Rightarrow> j < i)"

text \<open>\<open>WHERE id > ? ORDER BY id LIMIT n\<close>.\<close>

definition migration_batch :: "nat \<Rightarrow> string option \<Rightarrow> sql_row list \<Rightarrow> sql_row list" where
  "migration_batch n last_id rows = take n (sort_key row_id (filter (\<lambda>r. past last_id (row_id r)) rows))"

lemma cell_set_cell:
  "cell_of (set_cell c v r) c' = (if c' = c \<and> map_of r c \<noteq> None then v else cell_of r c')"
proof -
  have "map_of (set_cell c v r) c' = (if c' = c \<and> map_of r c \<noteq> None then Some v else map_of r c')"
    by (induction c v r rule: set_cell.induct) auto
  then show ?thesis by (auto simp: cell_of_def)
qed

lemma row_id_set_cell [simp]: "c \<noteq> ''id'' \<Longrightarrow> row_id (set_cell c v r) = row_id r"
  by (simp add: row_id_def cell_set_cell)

lemma map_id_apply [simp]: "map row_id (apply_updates us rows) = map row_id rows"
  by (simp add: apply_updates_def split: option.split)

lemma filter_less:
  "(\<And>x. x \<in> set xs \<Longrightarrow> P x \<Longrightarrow> Q x) \<Longrightarrow> y \<in> set xs \<Longrightarrow> Q y \<Longrightarrow> \<not> P y \<Longrightarrow> length (filter P xs) < length (filter Q xs)"
proof (induction xs)
  case (Cons x xs)
  have le: "length (filter P xs) \<le> length (filter Q xs)"
    using Cons.prems(1) by (induction xs) (auto intro: le_SucI)
  show ?case
  proof (cases "x = y")
    case True
    then show ?thesis using le Cons.prems(3,4) by simp
  next
    case False
    then show ?thesis using Cons by auto
  qed
qed simp

definition left_over :: "string option \<Rightarrow> sql_row list \<Rightarrow> nat" where
  "left_over last_id rows = length (filter (past last_id) (map row_id rows))"

lemma left_over_apply [simp]: "left_over last_id (apply_updates us rows) = left_over last_id rows"
  by (simp only: left_over_def map_id_apply)

lemma batch_progress:
  assumes "migration_batch n last_id rows \<noteq> []"
  shows "left_over (Some (row_id (last (migration_batch n last_id rows)))) rows < left_over last_id rows"
proof -
  have "last (migration_batch n last_id rows) \<in> set (migration_batch n last_id rows)" using assms by simp
  then have l: "last (migration_batch n last_id rows) \<in> set rows" "past last_id (row_id (last (migration_batch n last_id rows)))"
    unfolding migration_batch_def by (auto dest!: in_set_takeD)
  show ?thesis
    unfolding left_over_def
    by (rule filter_less [where y = "row_id (last (migration_batch n last_id rows))"])
      (use l in \<open>auto simp: past_def split: option.splits intro: less_trans\<close>)
qed

text \<open>The loop over the batches; every update is seen by the later ones.\<close>

function key_batches :: "nat \<Rightarrow> datetime \<Rightarrow> string option \<Rightarrow> sql_row list \<Rightarrow> pyexc + sql_row list" where
  "key_batches n now last_id rows =
     (let batch = migration_batch n last_id rows
      in if batch = [] then Inr rows
         else case decode_rows (key_update now) (filter unkeyed batch) of
           Inl e \<Rightarrow> Inl e
         | Inr updates \<Rightarrow> key_batches n now (Some (row_id (last batch))) (apply_updates updates rows))"
  by pat_completeness auto
termination
  by (relation "measure (\<lambda>(n, now, last_id, rows). left_over last_id rows)") (auto dest: batch_progress)

declare key_batches.simps [simp del]

definition migration_batch_size :: nat where
  "migration_batch_size = 500"

definition backfill_query_keys :: "datetime \<Rightarrow> unit sql" where
  "backfill_query_keys now = bnd get_st (\<lambda>db.
     bnd (lift_res (key_batches migration_batch_size now None (table_rows ''transactions'' db))) (\<lambda>rows.
       upd_st (map_table ''transactions'' (\<lambda>tb. tb\<lparr>tb_rows := rows\<rparr>))))"

definition migrate_transactions_to_v7 :: "datetime \<Rightarrow> unit sql" where
  "migrate_transactions_to_v7 now =
     thn (ensure_column ''transactions'' ''created_at_utc'' (Stamp empty_text))
    (thn (backfill_query_keys now)
    (thn (create_index ''transactions'' ''idx_transactions_created_at_utc_id'')
    (thn (create_index ''transactions'' ''idx_transactions_status_created_at_utc_id'')
    (thn (create_index ''transaction_metadata'' ''idx_transaction_metadata_key_value_transaction'')
         (record_version 7)))))"

section \<open>Versions 8 and 9\<close>

definition migrate_transactions_to_v8 :: "unit sql" where
  "migrate_transactions_to_v8 =
     thn (ensure_column ''transactions'' ''outcome_category'' (Text ''unknown''))
    (thn (ensure_column ''transactions'' ''retry_disposition'' (Text ''unknown''))
    (thn (ensure_column ''transactions'' ''failure_code'' (Text []))
    (thn (ensure_column ''exceptions'' ''code'' (Text []))
         (record_version 8))))"

definition migrate_transactions_to_v9 :: "unit sql" where
  "migrate_transactions_to_v9 =
     thn (ensure_column ''transactions'' ''definition_identity'' (Text [])) (record_version 9)"

section \<open>Version 10: skills become steps\<close>

definition renamed_event :: "string \<Rightarrow> string" where
  "renamed_event ev =
     (if ev = ''skill_started'' then ''step_started'' else if ev = ''skill_succeeded'' then ''step_succeeded''
      else if ev = ''skill_failed'' then ''step_failed'' else if ev = ''skill_skipped'' then ''step_skipped''
      else if ev = ''skill_interrupted'' then ''step_interrupted'' else ev)"

text \<open>\<open>INSERT INTO new (\<dots>) SELECT \<dots> FROM old\<close>: the cells of the named columns under their new names.\<close>

definition select_as :: "string list \<Rightarrow> string list \<Rightarrow> sql_row \<Rightarrow> sql_row" where
  "select_as new old r = map2 (\<lambda>c c'. (c, cell_of r c')) new old"

definition step_row_of :: "sql_row \<Rightarrow> sql_row" where
  "step_row_of = select_as skills_v1 skills_v1"

definition exception_row_of :: "sql_row \<Rightarrow> sql_row" where
  "exception_row_of = select_as exceptions_v10 (exceptions_v1 @ [''code''])"

definition rename_event_cell :: "cell \<Rightarrow> cell" where
  "rename_event_cell v = (case v of Text ev \<Rightarrow> Text (renamed_event ev) | _ \<Rightarrow> v)"

definition history_row_of :: "sql_row \<Rightarrow> sql_row" where
  "history_row_of r = map (\<lambda>(c, v). (c, if c = ''event'' then rename_event_cell v else v)) (select_as history_v10 history_v3 r)"

definition select_rows :: "string \<Rightarrow> string list \<Rightarrow> sql_row list sql" where
  "select_rows name columns = bnd get_st (\<lambda>db.
     if \<not> table_exists name db then raise_exc (OperationalError ''no such table'')
     else if \<not> set columns \<subseteq> set (table_columns name db) then raise_exc (OperationalError ''no such column'')
     else ret (table_rows name db))"

text \<open>The new \<open>CHECK\<close> on the events; the other constraints held on the old tables.\<close>

definition event_allowed :: "string list \<Rightarrow> sql_row \<Rightarrow> bool" where
  "event_allowed events r \<longleftrightarrow> (case cell_of r ''event'' of Text ev \<Rightarrow> ev \<in> set events | _ \<Rightarrow> events = [])"

definition insert_rows :: "string \<Rightarrow> sql_row list \<Rightarrow> unit sql" where
  "insert_rows name rows = bnd get_st (\<lambda>db. case find_table name db of
     None \<Rightarrow> raise_exc (OperationalError ''no such table'')
   | Some tb \<Rightarrow>
       if \<not> list_all (\<lambda>r. tb_events tb = [] \<or> event_allowed (tb_events tb) r) rows
       then raise_exc (IntegrityError ''CHECK constraint failed'')
       else upd_st (map_table name (\<lambda>tb. tb\<lparr>tb_rows := tb_rows tb @ rows\<rparr>)))"

definition check_counts :: "(string \<times> string) list \<Rightarrow> unit sql" where
  "check_counts pairs = foreach pairs (\<lambda>(legacy, migrated). bnd get_st (\<lambda>db.
     if length (table_rows migrated db) \<noteq> length (table_rows legacy db)
     then raise_exc (RuntimeErr ''Transaction schema v10 migration row-count mismatch'') else ret ()))"

text \<open>\<open>PRAGMA foreign_key_check\<close> of one table: every reference meets a parent.\<close>

definition references_ok :: "string \<Rightarrow> string \<Rightarrow> string \<Rightarrow> sql_db \<Rightarrow> bool" where
  "references_ok child column parent db \<longleftrightarrow>
     (\<forall>r \<in> set (table_rows child db). cell_of r column = Null \<or>
        (\<exists>p \<in> set (table_rows parent db). cell_of p ''id'' = cell_of r column))"

definition check_references :: "(string \<times> string \<times> string) list \<Rightarrow> unit sql" where
  "check_references refs = foreach refs (\<lambda>(child, column, parent). bnd get_st (\<lambda>db.
     if references_ok child column parent db then ret ()
     else raise_exc (RuntimeErr ''Transaction schema v10 migration created invalid foreign keys'')))"

definition step_vocabulary :: "sql_db \<Rightarrow> bool" where
  "step_vocabulary db \<longleftrightarrow>
     {''step_id'', ''occurred_at'', ''halts_remaining_steps''} \<subseteq> set (table_columns ''exceptions'' db) \<and>
     {''step_name'', ''step_execution_order''} \<subseteq> set (table_columns ''transaction_history'' db) \<and>
     (case find_table ''transaction_history'' db of
        None \<Rightarrow> False | Some tb \<Rightarrow> list_all (\<lambda>w. \<not> contains ''skill_'' w) (tb_columns tb @ tb_events tb))"

definition translate_skills :: "unit sql" where
  "translate_skills =
     thn (create_new ''steps'' skills_v1 [])
    (thn (bnd (select_rows ''skills'' skills_v1) (\<lambda>rows. insert_rows ''steps'' (map step_row_of rows)))
    (thn (create_new ''exceptions_v10'' exceptions_v10 [])
    (thn (bnd (select_rows ''exceptions'' (exceptions_v1 @ [''code''])) (\<lambda>rows.
            insert_rows ''exceptions_v10'' (map exception_row_of rows)))
    (thn (create_new ''transaction_history_v10'' history_v10 events_v10)
    (thn (bnd (select_rows ''transaction_history'' history_v3) (\<lambda>rows.
            insert_rows ''transaction_history_v10'' (map history_row_of rows)))
    (thn (check_counts [(''skills'', ''steps''), (''exceptions'', ''exceptions_v10''),
            (''transaction_history'', ''transaction_history_v10'')])
    (thn (check_references [(''steps'', ''transaction_id'', ''transactions''),
            (''exceptions_v10'', ''step_id'', ''steps''),
            (''transaction_history_v10'', ''transaction_id'', ''transactions'')])
    (thn (drop_table ''exceptions'')
    (thn (drop_table ''skills'')
    (thn (drop_table ''transaction_history'')
    (thn (rename_table ''exceptions_v10'' ''exceptions'')
         (rename_table ''transaction_history_v10'' ''transaction_history''))))))))))))"

definition migrate_transactions_to_v10 :: "unit sql" where
  "migrate_transactions_to_v10 = bnd get_st (\<lambda>db.
     if table_exists ''steps'' db \<and> table_exists ''skills'' db
     then raise_exc (RuntimeErr ''Conflicting transaction tables: both steps and skills exist'')
     else if table_exists ''steps'' db
     then (if step_vocabulary db then record_version 10
           else raise_exc (RuntimeErr ''Conflicting transaction schema: steps table has legacy child columns''))
     else if \<not> table_exists ''skills'' db
     then raise_exc (RuntimeErr ''Cannot migrate transaction schema v9: skills table is missing'')
     else thn translate_skills (record_version 10))"

section \<open>The whole chain\<close>

definition migration_from :: "datetime \<Rightarrow> int \<Rightarrow> unit sql" where
  "migration_from now v =
     thn (if v < 1 then migrate_transactions_to_v1 else ret ())
    (thn (if v < 2 then migrate_transactions_to_v2 else ret ())
    (thn (if v < 3 then migrate_transactions_to_v3 else ret ())
    (thn (if v < 4 then migrate_transactions_to_v4 else ret ())
    (thn (if v < 5 then migrate_transactions_to_v5 else ret ())
    (thn (if v < 6 then migrate_transactions_to_v6 else ret ())
    (thn (if v < 7 then migrate_transactions_to_v7 now else ret ())
    (thn (if v < 8 then migrate_transactions_to_v8 else ret ())
    (thn (if v < 9 then migrate_transactions_to_v9 else ret ())
    (thn (if v < 10 then migrate_transactions_to_v10 else ret ())
         (if max v 10 \<noteq> transaction_schema_version
          then raise_exc (RuntimeErr ''Unsupported transaction schema version'') else ret ()))))))))))"

definition ensure_schema :: "datetime \<Rightarrow> unit sql" where
  "ensure_schema now = atomically
     (thn ensure_database_compatibility
     (thn (ensure_supported_schema ''transactions'' transaction_schema_version)
     (thn ensure_schema_version_table
     (bnd get_st (\<lambda>db. migration_from now (component_schema_version ''transactions'' db))))))"

end
