(* ===== verification/MigrationSteps.thy ===== *)
theory MigrationSteps
  imports Migrations
begin

text \<open>
  What the migrations of the transaction store do to the data: every old row is still there with its
  cells, the batches of version 7 amount to one pass, a second run changes nothing, and databases of
  a newer version are refused untouched.
\<close>

section \<open>Rows that are kept\<close>

text \<open>Only an empty query key may change.\<close>

definition row_kept :: "sql_row \<Rightarrow> sql_row \<Rightarrow> bool" where
  "row_kept r r' \<longleftrightarrow> (\<forall>c. map_of r c \<noteq> None \<longrightarrow> map_of r' c \<noteq> None \<and>
     (cell_of r' c = cell_of r c \<or> (c = ''created_at_utc'' \<and> cell_of r c = Stamp empty_text)))"

lemma row_kept_refl [simp]: "row_kept r r"
  by (simp add: row_kept_def)

lemma row_kept_trans: "row_kept r r' \<Longrightarrow> row_kept r' r'' \<Longrightarrow> row_kept r r''"
  unfolding row_kept_def by metis

definition table_kept :: "string \<Rightarrow> sql_db \<Rightarrow> sql_db \<Rightarrow> bool" where
  "table_kept name db db' \<longleftrightarrow> list_all2 row_kept (table_rows name db) (table_rows name db') \<and>
     (table_exists name db \<longrightarrow> table_exists name db')"

text \<open>The primary key of the transactions.\<close>

definition distinct_ids :: "sql_db \<Rightarrow> bool" where
  "distinct_ids db \<longleftrightarrow> distinct (map row_id (table_rows ''transactions'' db))"

definition kept_in :: "string set \<Rightarrow> sql_db \<Rightarrow> sql_db \<Rightarrow> bool" where
  "kept_in names db db' \<longleftrightarrow> (distinct_ids db \<longrightarrow> distinct_ids db' \<and> (\<forall>name \<in> names. table_kept name db db'))"

lemma table_kept_refl [simp]: "table_kept name db db"
  by (simp add: table_kept_def list_all2_refl)

lemma table_kept_trans: "table_kept name a b \<Longrightarrow> table_kept name b c \<Longrightarrow> table_kept name a c"
  by (auto simp: table_kept_def intro: list_all2_trans [OF row_kept_trans])

interpretation kept_in: step_relation "kept_in names"
  by unfold_locales (auto simp: kept_in_def intro: table_kept_trans)

lemma table_kept_same:
  "find_table name db' = find_table name db \<Longrightarrow> table_kept name db db'"
  by (simp add: table_kept_def table_rows_def table_exists_def list_all2_refl)

text \<open>A statement that leaves the named tables and the transactions as they are.\<close>

lemma kept_elsewhere:
  "(\<And>name. name \<in> insert ''transactions'' names \<Longrightarrow> find_table name (f db) = find_table name db) \<Longrightarrow> kept_in names db (f db)"
  by (simp add: kept_in_def distinct_ids_def table_rows_def table_kept_same)

lemma find_created:
  "find_table n (db\<lparr>sd_tables := sd_tables db @ [(name, tb)]\<rparr>) =
     (case find_table n db of Some x \<Rightarrow> Some x | None \<Rightarrow> if n = name then Some tb else None)"
  by (simp add: find_table_def map_add_def split: option.split)

lemma kept_create: "keeps (kept_in names) (create_if_missing name columns events)"
proof -
  have "kept_in names db (db\<lparr>sd_tables := sd_tables db @ [(name, \<lparr>tb_columns = columns, tb_events = events, tb_rows = []\<rparr>)]\<rparr>)"
    (is "kept_in names db ?db") for db
  proof -
    have "table_rows n ?db = table_rows n db" for n by (simp add: table_rows_def find_created split: option.split)
    moreover have "table_exists n db \<Longrightarrow> table_exists n ?db" for n by (auto simp: table_exists_def find_created)
    ultimately show ?thesis by (simp add: kept_in_def distinct_ids_def table_kept_def list_all2_refl)
  qed
  then show ?thesis by (simp add: create_if_missing_def kept_in.keeps_upd kept_in.R_refl)
qed

lemma row_kept_add: "row_kept r (r @ [(c, v)])"
  by (auto simp: row_kept_def cell_of_def map_add_def split: option.splits)

lemma row_id_add: "''id'' \<noteq> c \<Longrightarrow> row_id (r @ [(c, v)]) = row_id r"
  by (simp add: row_id_def cell_of_def map_add_def split: option.splits)

lemma table_rows_map_table:
  "table_rows n (map_table name f db) =
     (if n = name then (case find_table n db of None \<Rightarrow> [] | Some tb \<Rightarrow> tb_rows (f tb)) else table_rows n db)"
  by (simp add: table_rows_def split: option.split)

lemma table_exists_map_table [simp]: "table_exists n (map_table name f db) = table_exists n db"
  by (simp add: table_exists_def)

lemma kept_map_table:
  assumes "\<And>tb. find_table name db = Some tb \<Longrightarrow> list_all2 row_kept (tb_rows tb) (tb_rows (f tb))"
    and "\<And>tb. find_table name db = Some tb \<Longrightarrow> name = ''transactions'' \<Longrightarrow>
       map row_id (tb_rows (f tb)) = map row_id (tb_rows tb)"
  shows "kept_in names db (map_table name f db)"
proof -
  have "list_all2 row_kept (table_rows n db) (table_rows n (map_table name f db))" for n
    using assms(1) by (auto simp: table_rows_map_table list_all2_refl table_rows_def split: option.split)
  moreover have "map row_id (table_rows ''transactions'' (map_table name f db)) = map row_id (table_rows ''transactions'' db)"
    using assms(2) by (auto simp: table_rows_map_table table_rows_def split: option.split)
  ultimately show ?thesis by (simp add: kept_in_def distinct_ids_def table_kept_def)
qed

lemma kept_alter: "c \<noteq> ''id'' \<Longrightarrow> keeps (kept_in names) (alter_add name c v)"
proof -
  assume c: "c \<noteq> ''id''"
  have "kept_in names db (map_table name (add_column name c v) db)" for db
    by (rule kept_map_table) (simp_all add: add_column_def list_all2_conv_all_nth row_kept_add o_def row_id_add c [symmetric])
  then show ?thesis
    by (auto simp: alter_add_def intro!: kept_in.keeps_bnd kept_in.keeps_get kept_in.keeps_raise kept_in.keeps_upd)
qed

lemma kept_ensure: "c \<noteq> ''id'' \<Longrightarrow> keeps (kept_in names) (ensure_column name c v)"
  by (auto simp: ensure_column_def intro!: kept_in.keeps_bnd kept_in.keeps_get kept_in.keeps_ret kept_alter)

lemma kept_index: "keeps (kept_in names) (create_index table name)"
  by (auto simp: create_index_def find_table_def intro!: kept_in.keeps_bnd kept_in.keeps_get kept_in.keeps_raise
      kept_in.keeps_upd kept_elsewhere)

lemma kept_record: "keeps (kept_in names) (record_component_schema_version component v)"
  by (auto simp: record_component_schema_version_def find_table_def intro!: kept_in.keeps_bnd kept_in.keeps_get
      kept_in.keeps_raise kept_in.keeps_upd kept_elsewhere split: option.splits)


lemma map_of_set_cell:
  "map_of (set_cell c v r) c' = (if c' = c \<and> map_of r c \<noteq> None then Some v else map_of r c')"
  by (induction c v r rule: set_cell.induct) auto

section \<open>The batches of version 7\<close>

lemma updates_ids: "decode_rows (key_update now) rs = Inr us \<Longrightarrow> map fst us = map row_id rs"
  by (induction rs arbitrary: us) (auto simp: key_update_def rbnd_Inr split: sum.splits)

lemma apply_none: "(\<And>r. r \<in> set rs \<Longrightarrow> row_id r \<notin> fst ` set us) \<Longrightarrow> apply_updates us rs = rs"
  by (induction rs) (auto simp: apply_updates_def map_of_eq_None_iff [symmetric])

lemma apply_append:
  assumes "fst ` set us \<inter> fst ` set vs = {}"
  shows "apply_updates vs (apply_updates us rows) = apply_updates (us @ vs) rows"
proof -
  have "map_of us i = None \<or> map_of vs i = None" for i
    using assms by (auto simp: map_of_eq_None_iff)
  then show ?thesis
    by (auto simp: apply_updates_def map_add_def split: option.split) (metis option.distinct(1))+
qed

text \<open>One pass over all rows, in the order of their ids.\<close>

definition single_pass :: "datetime \<Rightarrow> string option \<Rightarrow> sql_row list \<Rightarrow> pyexc + sql_row list" where
  "single_pass now last_id rows =
     rbnd (decode_rows (key_update now) (filter unkeyed (sort_key row_id (filter (\<lambda>r. past last_id (row_id r)) rows))))
       (\<lambda>updates. Inr (apply_updates updates rows))"

lemma sorted_rest:
  fixes rows :: "sql_row list"
  assumes "distinct (map row_id rows)"
  shows "sorted_wrt (\<lambda>r s. row_id r < row_id s) (sort_key row_id (filter P rows))"
proof -
  have "distinct (map row_id (filter P rows))" using assms by (simp add: distinct_map_filter)
  then have "distinct (map row_id (sort_key row_id (filter P rows)))" by (metis distinct_map distinct_sort set_sort)
  then have "sorted_wrt (<) (map row_id (sort_key row_id (filter P rows)))" by (simp add: strict_sorted_iff)
  then show ?thesis by (simp add: sorted_wrt_map)
qed

lemma filter_sorted_filter:
  assumes "\<And>i. Q i \<Longrightarrow> P i"
  shows "filter (\<lambda>r. Q (k r)) (sort_key k (filter (\<lambda>r. P (k r)) xs)) = sort_key k (filter (\<lambda>r. Q (k r)) xs)"
proof -
  have "filter (\<lambda>r. P (k r) \<and> Q (k r)) xs = filter (\<lambda>r. Q (k r)) xs" by (rule filter_cong) (auto dest: assms)
  then show ?thesis by (simp add: filter_sort)
qed

lemma batches_are_one_pass:
  assumes "distinct (map row_id rows)" "0 < n"
  shows "key_batches n now last_id rows = single_pass now last_id rows"
  using assms
proof (induction n now last_id rows rule: key_batches.induct)
  case (1 n now last_id rows)
  define S where "S = sort_key row_id (filter (\<lambda>r. past last_id (row_id r)) rows)"
  have B: "migration_batch n last_id rows = take n S" by (simp add: migration_batch_def S_def)
  have sorted: "sorted_wrt (\<lambda>r s. row_id r < row_id s) S" unfolding S_def by (rule sorted_rest [OF 1(2)])
  show ?case
  proof (cases "take n S = []")
    case True
    then have "S = []" using 1(3) by simp
    then show ?thesis
      by (subst key_batches.simps) (simp add: B True single_pass_def S_def [symmetric] apply_updates_def)
  next
    case False
    let ?new = "Some (row_id (last (take n S)))"
    have split: "decode_rows (key_update now) (filter unkeyed S) =
        rbnd (decode_rows (key_update now) (filter unkeyed (take n S))) (\<lambda>as.
        rbnd (decode_rows (key_update now) (filter unkeyed (drop n S))) (\<lambda>bs. Inr (as @ bs)))"
      using decode_rows_append [of "key_update now" "filter unkeyed (take n S)" "filter unkeyed (drop n S)"]
      by (simp flip: filter_append)
    show ?thesis
    proof (cases "decode_rows (key_update now) (filter unkeyed (take n S))")
      case (Inl e)
      then show ?thesis using False by (subst key_batches.simps) (simp add: B Let_def single_pass_def S_def [symmetric] split)
    next
      case (Inr us)
      let ?rows = "apply_updates us rows"
      have nonempty: "0 < length (take n S)" "length (take n S) \<le> length S" using False by (simp_all only: length_greater_0_conv not_False_eq_True) simp
      then have j: "length (take n S) - 1 < length S" by linarith
      have last: "last (take n S) = S ! (length (take n S) - 1)"
        using last_conv_nth [OF False] nonempty(1) by (simp only: nth_take diff_less zero_less_one less_le_trans [OF _ min.cobounded2] length_take)
      have "filter (\<lambda>r. past ?new (row_id r)) S = drop (Suc (length (take n S) - 1)) S"
        using filter_after_nth [OF sorted j] by (simp add: last past_def)
      also have "Suc (length (take n S) - 1) = length (take n S)" using False by (cases "take n S") auto
      finally have rest: "filter (\<lambda>r. past ?new (row_id r)) S = drop n S" by (simp add: min_def)
      have ids: "map fst us = map row_id (filter unkeyed (take n S))" by (rule updates_ids [OF Inr])
      have "row_id r \<le> row_id (last (take n S))" if r: "r \<in> set (take n S)" for r
      proof -
        obtain k where k: "k < length (take n S)" "r = S ! k" using r by (auto simp: in_set_conv_nth)
        show ?thesis
        proof (cases "k = length (take n S) - 1")
          case False
          then have "k < length (take n S) - 1" using k(1) by linarith
          from sorted_wrt_nth_less [OF sorted this j] show ?thesis by (simp only: k(2) last less_imp_le)
        qed (simp add: k last)
      qed
      then have upto: "i \<le> row_id (last (take n S))" if "i \<in> fst ` set us" for i
        using that arg_cong [OF ids, of set] by auto
      have same_id: "row_id (case m of None \<Rightarrow> r | Some utc \<Rightarrow> set_cell ''created_at_utc'' (Stamp utc) r) = row_id r" for m r
        by (simp split: option.split)
      have "filter (\<lambda>r. past ?new (row_id r)) ?rows = apply_updates us (filter (\<lambda>r. past ?new (row_id r)) rows)"
        by (simp add: apply_updates_def filter_map o_def same_id)
      also have "\<dots> = filter (\<lambda>r. past ?new (row_id r)) rows"
        by (rule apply_none) (use upto in \<open>fastforce simp: past_def\<close>)
      finally have same: "filter (\<lambda>r. past ?new (row_id r)) ?rows = filter (\<lambda>r. past ?new (row_id r)) rows" .
      have implied: "past ?new i \<Longrightarrow> past last_id i" for i
      proof -
        have "last (take n S) \<in> set S" using False by (metis in_set_takeD last_in_set)
        then show "past ?new i \<Longrightarrow> past last_id i" by (auto simp: S_def past_def split: option.splits intro: less_trans)
      qed
      have "sort_key row_id (filter (\<lambda>r. past ?new (row_id r)) ?rows) = filter (\<lambda>r. past ?new (row_id r)) S"
        unfolding same by (subst (2) S_def) (rule filter_sorted_filter [symmetric, OF implied])
      with rest have S': "sort_key row_id (filter (\<lambda>r. past ?new (row_id r)) ?rows) = drop n S" by simp
      have IH: "key_batches n now ?new ?rows = single_pass now ?new ?rows"
        using 1(1) [OF B [symmetric]] False Inr 1(2,3) by (simp add: B)
      have "apply_updates vs ?rows = apply_updates (us @ vs) rows"
        if vs: "decode_rows (key_update now) (filter unkeyed (drop n S)) = Inr vs" for vs
      proof (rule apply_append)
        have cut: "row_id (last (take n S)) < row_id r" if "r \<in> set (drop n S)" for r
          using that unfolding rest [symmetric] by (simp add: past_def)
        have sub: "fst ` set vs \<subseteq> row_id ` set (drop n S)" using arg_cong [OF updates_ids [OF vs], of set] by auto
        have "i \<notin> fst ` set us" if i: "i \<in> fst ` set vs" for i
        proof
          assume us: "i \<in> fst ` set us"
          obtain r where r: "r \<in> set (drop n S)" "i = row_id r" using subsetD [OF sub i] by (auto elim: imageE)
          show False using upto [OF us] cut [OF r(1)] by (simp add: r(2))
        qed
        then show "fst ` set us \<inter> fst ` set vs = {}" by blast
      qed
      then show ?thesis
        using False
        by (subst key_batches.simps)
          (simp add: B Let_def Inr IH, auto simp: single_pass_def S' S_def [symmetric] split Inr rbnd_def split: sum.splits)
    qed
  qed
qed


text \<open>The rows the batches update are those without a key.\<close>

lemma updated_kept:
  assumes "distinct (map row_id rows)" "key_batches (Suc n) now None rows = Inr rows'"
  shows "list_all2 row_kept rows rows'" and "map row_id rows' = map row_id rows"
proof -
  from assms obtain us where us: "decode_rows (key_update now) (filter unkeyed (sort_key row_id (filter (\<lambda>r. past None (row_id r)) rows))) = Inr us"
    and rows': "rows' = apply_updates us rows"
    by (auto simp: batches_are_one_pass single_pass_def rbnd_Inr)
  have fresh: "unkeyed r" if r: "r \<in> set rows" "map_of us (row_id r) \<noteq> None" for r
  proof -
    have "row_id r \<in> fst ` set us" using r(2) by (simp add: map_of_eq_None_iff)
    then obtain r' where r': "r' \<in> set rows" "unkeyed r'" "row_id r' = row_id r"
      using arg_cong [OF updates_ids [OF us], of set] by auto
    then have "r' = r" using assms(1) r(1) by (auto simp: distinct_map dest: inj_onD)
    with r'(2) show ?thesis by simp
  qed
  have "row_kept r (case map_of us (row_id r) of None \<Rightarrow> r | Some utc \<Rightarrow> set_cell ''created_at_utc'' (Stamp utc) r)"
    if r: "r \<in> set rows" for r
  proof (cases "map_of us (row_id r)")
    case (Some utc)
    then have "unkeyed r" using fresh [OF r] by simp
    then show ?thesis using Some by (auto simp: row_kept_def unkeyed_def map_of_set_cell cell_set_cell)
  qed simp
  then show "list_all2 row_kept rows rows'"
    by (simp add: rows' apply_updates_def list_all2_map2 list_all2_same)
  show "map row_id rows' = map row_id rows" by (simp only: rows' map_id_apply)
qed

lemma kept_backfill: "keeps (kept_in names) (backfill_query_keys now)"
proof (rule keepsI)
  fix db :: sql_db
  let ?rows = "table_rows ''transactions'' db"
  show "kept_in names db (snd (backfill_query_keys now db))"
  proof (cases "distinct_ids db")
    case True
    then have d: "distinct (map row_id ?rows)" by (simp add: distinct_ids_def)
    show ?thesis
    proof (cases "key_batches migration_batch_size now None ?rows")
      case (Inr rows')
      have size: "migration_batch_size = Suc 499" by (simp add: migration_batch_size_def)
      from updated_kept [OF d Inr [unfolded size]]
      have "kept_in names db (map_table ''transactions'' (\<lambda>tb. tb\<lparr>tb_rows := rows'\<rparr>) db)"
        by (intro kept_map_table) (auto simp: table_rows_def)
      with Inr show ?thesis by (simp add: backfill_query_keys_def bnd_def get_st_def lift_res_def upd_st_def)
    qed (simp add: backfill_query_keys_def bnd_def get_st_def lift_res_def kept_in.R_refl)
  qed (simp add: kept_in_def)
qed

section \<open>Version 10\<close>

text \<open>The tables as a map; what each statement of the translation does to it.\<close>

definition tabs :: "sql_db \<Rightarrow> string \<Rightarrow> sql_table option" where
  "tabs db = (\<lambda>n. find_table n db)"

lemma tabs_exists: "table_exists n db \<longleftrightarrow> tabs db n \<noteq> None"
  by (simp add: tabs_def table_exists_def)

lemma tabs_rows: "table_rows n db = (case tabs db n of None \<Rightarrow> [] | Some tb \<Rightarrow> tb_rows tb)"
  by (simp add: tabs_def table_rows_def)

lemma create_new_Inr:
  assumes "create_new n columns events db = (Inr (), db')"
  shows "tabs db n = None \<and> tabs db' = (tabs db)(n \<mapsto> \<lparr>tb_columns = columns, tb_events = events, tb_rows = []\<rparr>)"
proof -
  have "\<not> table_exists n db" "db' = db\<lparr>sd_tables := sd_tables db @ [(n, \<lparr>tb_columns = columns, tb_events = events, tb_rows = []\<rparr>)]\<rparr>"
    using assms by (auto simp: create_new_def bnd_Inr get_st_def raise_exc_def create_if_missing_def upd_st_def split: if_splits)
  then show ?thesis by (auto simp: tabs_def fun_eq_iff find_created table_exists_def split: option.split)
qed

lemma insert_rows_Inr:
  assumes "insert_rows n rows db = (Inr (), db')"
  shows "\<exists>tb. tabs db n = Some tb \<and> tabs db' = (tabs db)(n \<mapsto> tb\<lparr>tb_rows := tb_rows tb @ rows\<rparr>)"
proof -
  from assms obtain tb where tb: "find_table n db = Some tb" "db' = map_table n (\<lambda>tb. tb\<lparr>tb_rows := tb_rows tb @ rows\<rparr>) db"
    by (auto simp: insert_rows_def bnd_Inr get_st_def raise_exc_def upd_st_def split: option.splits if_splits)
  then show ?thesis by (intro exI [of _ tb]) (auto simp: tabs_def fun_eq_iff option.map_ident)
qed

lemma select_rows_Inr: "select_rows n columns db = (Inr rows, db') \<Longrightarrow> db' = db \<and> rows = table_rows n db"
  by (auto simp: select_rows_def bnd_Inr get_st_def raise_exc_def ret_def split: if_splits)

lemma copied_Inr:
  assumes "bnd (select_rows old columns) (\<lambda>rows. insert_rows n (map f rows)) db = (Inr (), db')"
  shows "\<exists>tb. tabs db n = Some tb \<and> tabs db' = (tabs db)(n \<mapsto> tb\<lparr>tb_rows := tb_rows tb @ map f (table_rows old db)\<rparr>)"
  using assms by (auto simp: bnd_Inr dest!: select_rows_Inr insert_rows_Inr)

interpretation unchanged: step_relation "\<lambda>s t :: sql_db. t = s"
  by unfold_locales auto

lemma checks_unchanged:
  "check_counts pairs db = (q, db') \<Longrightarrow> db' = db" "check_references refs db = (q, db') \<Longrightarrow> db' = db"
proof -
  have "keeps (\<lambda>s t. t = s) (check_counts pairs)"
    by (auto simp: check_counts_def intro!: unchanged.keeps_foreach unchanged.keeps_bnd unchanged.keeps_get
        unchanged.keeps_raise unchanged.keeps_ret split: prod.splits)
  then show "check_counts pairs db = (q, db') \<Longrightarrow> db' = db" by (rule keepsD)
  have "keeps (\<lambda>s t. t = s) (check_references refs)"
    by (auto simp: check_references_def intro!: unchanged.keeps_foreach unchanged.keeps_bnd unchanged.keeps_get
        unchanged.keeps_raise unchanged.keeps_ret split: prod.splits)
  then show "check_references refs db = (q, db') \<Longrightarrow> db' = db" by (rule keepsD)
qed

lemma map_of_filter_key: "map_of (filter (\<lambda>(k, v). k \<noteq> n) xs) = (map_of xs)(n := None)"
  by (induction xs) (auto simp: fun_eq_iff)

lemma drop_table_Inr: "drop_table n db = (Inr (), db') \<Longrightarrow> tabs db' = (tabs db)(n := None)"
  by (auto simp: drop_table_def upd_st_def tabs_def find_table_def map_of_filter_key)

lemma map_of_rename:
  "old \<noteq> n \<Longrightarrow> n \<notin> fst ` set xs \<Longrightarrow>
   map_of (map (\<lambda>(k, v). (if k = old then n else k, v)) xs) = (map_of xs)(old := None, n := map_of xs old)"
  by (induction xs) (auto simp: fun_eq_iff)

lemma rename_table_Inr:
  "rename_table old n db = (Inr (), db') \<Longrightarrow> old \<noteq> n \<Longrightarrow> tabs db n = None \<Longrightarrow>
   tabs db' = (tabs db)(old := None, n := tabs db old)"
  by (auto simp: rename_table_def upd_st_def tabs_def find_table_def map_of_eq_None_iff map_of_rename)

lemma record_Inr: "record_component_schema_version component v db = (Inr (), db') \<Longrightarrow> tabs db' = tabs db"
  by (auto simp: record_component_schema_version_def bnd_Inr get_st_def raise_exc_def upd_st_def tabs_def find_table_def
      split: option.splits)

text \<open>The translation gives every skill, exception and history entry its row in the new tables.\<close>

lemma translate_Inr:
  assumes "translate_skills db = (Inr (), db')"
  shows "table_rows ''steps'' db' = map step_row_of (table_rows ''skills'' db) \<and>
    table_rows ''exceptions'' db' = map exception_row_of (table_rows ''exceptions'' db) \<and>
    table_rows ''transaction_history'' db' = map history_row_of (table_rows ''transaction_history'' db) \<and>
    \<not> table_exists ''skills'' db' \<and>
    (\<forall>n \<in> {''transactions'', ''transaction_metadata'', ''transaction_artifacts''}. find_table n db' = find_table n db)"
proof -
  from assms obtain d1 d2 d3 d4 d5 d6 d7 d8 d9 d10 d11 d12 where run:
    "create_new ''steps'' skills_v1 [] db = (Inr (), d1)"
    "bnd (select_rows ''skills'' skills_v1) (\<lambda>rows. insert_rows ''steps'' (map step_row_of rows)) d1 = (Inr (), d2)"
    "create_new ''exceptions_v10'' exceptions_v10 [] d2 = (Inr (), d3)"
    "bnd (select_rows ''exceptions'' (exceptions_v1 @ [''code''])) (\<lambda>rows.
       insert_rows ''exceptions_v10'' (map exception_row_of rows)) d3 = (Inr (), d4)"
    "create_new ''transaction_history_v10'' history_v10 events_v10 d4 = (Inr (), d5)"
    "bnd (select_rows ''transaction_history'' history_v3) (\<lambda>rows.
       insert_rows ''transaction_history_v10'' (map history_row_of rows)) d5 = (Inr (), d6)"
    "d8 = d6" "drop_table ''exceptions'' d8 = (Inr (), d9)" "drop_table ''skills'' d9 = (Inr (), d10)"
    "drop_table ''transaction_history'' d10 = (Inr (), d11)" "rename_table ''exceptions_v10'' ''exceptions'' d11 = (Inr (), d12)"
    "rename_table ''transaction_history_v10'' ''transaction_history'' d12 = (Inr (), db')"
    unfolding translate_skills_def thn_Inr by (auto dest!: checks_unchanged)
  let ?S = "\<lparr>tb_columns = skills_v1, tb_events = [], tb_rows = map step_row_of (table_rows ''skills'' db)\<rparr>"
  let ?X = "\<lparr>tb_columns = exceptions_v10, tb_events = [], tb_rows = map exception_row_of (table_rows ''exceptions'' db)\<rparr>"
  let ?H = "\<lparr>tb_columns = history_v10, tb_events = events_v10,
    tb_rows = map history_row_of (table_rows ''transaction_history'' db)\<rparr>"
  have t2: "tabs d2 = (tabs db)(''steps'' \<mapsto> ?S)"
    using create_new_Inr [OF run(1)] copied_Inr [OF run(2)] by (auto simp: tabs_rows)
  have t4: "tabs d4 = (tabs d2)(''exceptions_v10'' \<mapsto> ?X)"
    using create_new_Inr [OF run(3)] copied_Inr [OF run(4)] by (auto simp: tabs_rows t2)
  have t6: "tabs d6 = (tabs d4)(''transaction_history_v10'' \<mapsto> ?H)"
    using create_new_Inr [OF run(5)] copied_Inr [OF run(6)] by (auto simp: tabs_rows t2 t4)
  have t11: "tabs d11 = (tabs d6)(''exceptions'' := None, ''skills'' := None, ''transaction_history'' := None)"
    using drop_table_Inr [OF run(8)] drop_table_Inr [OF run(9)] drop_table_Inr [OF run(10)] run(7) by simp
  have t12: "tabs d12 = (tabs d11)(''exceptions_v10'' := None, ''exceptions'' := Some ?X)"
    using rename_table_Inr [OF run(11)] by (simp add: t11 t6 t4)
  have "tabs db' = (tabs d12)(''transaction_history_v10'' := None, ''transaction_history'' := Some ?H)"
    using rename_table_Inr [OF run(12)] by (simp add: t12 t11 t6)
  then have "find_table n db' = ((tabs d12)(''transaction_history_v10'' := None, ''transaction_history'' := Some ?H)) n" for n
    by (metis tabs_def)
  then show ?thesis by (simp add: table_rows_def table_exists_def t12 t11 t6 t4 t2) (simp add: tabs_def)
qed


section \<open>The chain\<close>

definition early_chain :: "datetime \<Rightarrow> int \<Rightarrow> unit sql" where
  "early_chain now v =
     thn (if v < 1 then migrate_transactions_to_v1 else ret ())
    (thn (if v < 2 then migrate_transactions_to_v2 else ret ())
    (thn (if v < 3 then migrate_transactions_to_v3 else ret ())
    (thn (if v < 4 then migrate_transactions_to_v4 else ret ())
    (thn (if v < 5 then migrate_transactions_to_v5 else ret ())
    (thn (if v < 6 then migrate_transactions_to_v6 else ret ())
    (thn (if v < 7 then migrate_transactions_to_v7 now else ret ())
    (thn (if v < 8 then migrate_transactions_to_v8 else ret ())
         (if v < 9 then migrate_transactions_to_v9 else ret ()))))))))"

text \<open>A relation that the statements of the first nine migrations keep is kept by all of them.\<close>

definition early_tables :: "string set" where
  "early_tables = {''transactions'', ''skills'', ''exceptions'', ''transaction_history'', ''transaction_metadata'',
     ''transaction_artifacts''}"

locale migration_relation = step_relation R for R :: "sql_db \<Rightarrow> sql_db \<Rightarrow> bool" +
  assumes R_create: "name \<in> early_tables \<Longrightarrow> keeps R (create_if_missing name columns events)"
    and R_ensure: "column \<noteq> ''id'' \<Longrightarrow> keeps R (ensure_column name column v)"
    and R_index: "keeps R (create_index table name)"
    and R_record: "n \<le> transaction_schema_version \<Longrightarrow> keeps R (record_component_schema_version ''transactions'' n)"
    and R_backfill: "keeps R (backfill_query_keys now)"
begin

lemma R_early_chain: "keeps R (early_chain now v)"
  unfolding early_chain_def migrate_transactions_to_v1_def migrate_transactions_to_v2_def
    migrate_transactions_to_v3_def migrate_transactions_to_v4_def migrate_transactions_to_v5_def
    migrate_transactions_to_v6_def migrate_transactions_to_v7_def migrate_transactions_to_v8_def
    migrate_transactions_to_v9_def record_version_def
  by (auto intro!: keeps_thn keeps_ret R_create R_ensure R_index R_record R_backfill
      simp: early_tables_def transaction_schema_version_def)

end

interpretation kept_in: migration_relation "kept_in names"
  by unfold_locales (rule kept_create kept_ensure kept_index kept_record kept_backfill, assumption?)+

text \<open>None of them creates a table of steps.\<close>

definition same_steps :: "sql_db \<Rightarrow> sql_db \<Rightarrow> bool" where
  "same_steps db db' \<longleftrightarrow> (table_exists ''steps'' db' \<longleftrightarrow> table_exists ''steps'' db)"

interpretation same_steps: step_relation same_steps
  by unfold_locales (auto simp: same_steps_def)

lemma find_table_rest [simp]:
  "find_table n (db\<lparr>sd_versions := v\<rparr>) = find_table n db" "find_table n (db\<lparr>sd_indexes := i\<rparr>) = find_table n db"
  by (simp_all add: find_table_def)

interpretation same_steps: migration_relation same_steps
proof unfold_locales
  show "keeps same_steps (create_if_missing name columns events)" if "name \<in> early_tables" for name columns events
    using that by (auto simp: create_if_missing_def same_steps_def table_exists_def find_created early_tables_def
        intro!: same_steps.keeps_upd split: option.split)
qed (auto simp: ensure_column_def alter_add_def create_index_def record_component_schema_version_def
    backfill_query_keys_def same_steps_def table_exists_def intro!: same_steps.keeps_bnd same_steps.keeps_get
    same_steps.keeps_raise same_steps.keeps_ret same_steps.keeps_upd same_steps.keeps_lift split: option.split)

text \<open>The version markers stay acceptable.\<close>

definition acceptable :: "sql_db \<Rightarrow> bool" where
  "acceptable db \<longleftrightarrow> (case sd_versions db of None \<Rightarrow> True | Some rows \<Rightarrow> \<forall>row \<in> set rows. version_acceptable row)"

definition stays_acceptable :: "sql_db \<Rightarrow> sql_db \<Rightarrow> bool" where
  "stays_acceptable db db' \<longleftrightarrow> (acceptable db \<longrightarrow> acceptable db')"

interpretation stays_acceptable: step_relation stays_acceptable
  by unfold_locales (auto simp: stays_acceptable_def)

lemma same_versions: "sd_versions db' = sd_versions db \<Longrightarrow> stays_acceptable db db'"
  by (simp add: stays_acceptable_def acceptable_def)

lemma set_set_version: "set (set_version rows c v) \<subseteq> insert (c, v) (set rows)"
  by (induction rows c v rule: set_version.induct) auto

interpretation stays_acceptable: migration_relation stays_acceptable
proof unfold_locales
  show "keeps stays_acceptable (record_component_schema_version ''transactions'' n)" if "n \<le> transaction_schema_version" for n
  proof -
    have "stays_acceptable db (db\<lparr>sd_versions := Some (set_version rows ''transactions'' n)\<rparr>)"
      if "sd_versions db = Some rows" for db rows
      using that set_set_version [of rows "''transactions''" n] \<open>n \<le> transaction_schema_version\<close>
      by (auto simp: stays_acceptable_def acceptable_def version_acceptable_def supported_version_def)
    then have "stays_acceptable db (snd (record_component_schema_version ''transactions'' n db))" for db
      by (cases "sd_versions db")
        (simp_all add: record_component_schema_version_def bnd_def get_st_def raise_exc_def upd_st_def stays_acceptable.R_refl)
    then show ?thesis by (rule keepsI)
  qed
qed (auto simp: create_if_missing_def ensure_column_def alter_add_def create_index_def backfill_query_keys_def map_table_def
    intro!: stays_acceptable.keeps_bnd stays_acceptable.keeps_get stays_acceptable.keeps_raise
    stays_acceptable.keeps_ret stays_acceptable.keeps_upd stays_acceptable.keeps_lift same_versions)

lemma thn_assoc: "thn (thn m n) k = thn m (thn n k)"
  by (simp add: thn_def bnd_assoc)

lemma chain_split:
  "migration_from now v = thn (early_chain now v)
     (thn (if v < 10 then migrate_transactions_to_v10 else ret ())
          (if max v 10 \<noteq> transaction_schema_version
           then raise_exc (RuntimeErr ''Unsupported transaction schema version'') else ret ()))"
  by (simp only: migration_from_def early_chain_def thn_assoc)

lemma compatibility_unchanged:
  "keeps (\<lambda>s t. t = s) ensure_database_compatibility" "keeps (\<lambda>s t. t = s) (ensure_supported_schema component n)"
  by (auto simp: ensure_database_compatibility_def ensure_supported_schema_def intro!: unchanged.keeps_bnd
      unchanged.keeps_get unchanged.keeps_foreach unchanged.keeps_raise unchanged.keeps_ret split: option.splits)

lemma marker_checks:
  "foreach rows (\<lambda>row. if supported_version (fst row) = None then raise_exc (RuntimeErr a)
     else if version_acceptable row then ret () else raise_exc (RuntimeErr b)) s =
   ((if \<forall>row \<in> set rows. version_acceptable row then Inr ()
     else Inl (RuntimeErr (if supported_version (fst (hd (filter (\<lambda>row. \<not> version_acceptable row) rows))) = None then a else b))), s)"
  by (induction rows) (auto simp: thn_def bnd_def ret_def raise_exc_def version_acceptable_def)

lemma compatibility:
  "acceptable db \<Longrightarrow> ensure_database_compatibility db = (Inr (), db)"
  "\<not> acceptable db \<Longrightarrow> \<exists>m. ensure_database_compatibility db = (Inl (RuntimeErr m), db)"
  by (auto simp: acceptable_def ensure_database_compatibility_def bnd_def get_st_def ret_def marker_checks split: option.splits)

lemma ensure_schema_Inr:
  assumes "ensure_schema now db = (Inr (), db')"
  obtains db1 where "ensure_database_compatibility db = (Inr (), db)"
    "component_schema_version ''transactions'' db \<le> transaction_schema_version"
    "ensure_schema_version_table db = (Inr (), db1)"
    "migration_from now (component_schema_version ''transactions'' db1) db1 = (Inr (), db')"
proof -
  from assms obtain d1 v d2 db1 where run: "ensure_database_compatibility db = (Inr (), d1)"
    "ensure_supported_schema ''transactions'' transaction_schema_version d1 = (Inr v, d2)"
    "ensure_schema_version_table d2 = (Inr (), db1)"
    "migration_from now (component_schema_version ''transactions'' db1) db1 = (Inr (), db')"
    by (auto simp: ensure_schema_def atomically_Inr thn_Inr bnd_Inr get_st_def)
  have same: "d1 = db" "d2 = d1" using keepsD [OF compatibility_unchanged(1) run(1)] keepsD [OF compatibility_unchanged(2) run(2)] .
  have "component_schema_version ''transactions'' db \<le> transaction_schema_version"
    using run(2) by (auto simp: ensure_supported_schema_def same bnd_Inr get_st_def raise_exc_def split: if_splits)
  with run show thesis using that by (simp add: same)
qed

lemma version_table_tabs: "ensure_schema_version_table db = (Inr (), db') \<Longrightarrow> tabs db' = tabs db \<and>
   component_schema_version c db' = component_schema_version c db \<and> sd_versions db' \<noteq> None"
  by (cases "sd_versions db")
    (auto simp: ensure_schema_version_table_def upd_st_def tabs_def find_table_def component_schema_version_def)

end
