(* ===== verification/MigrationClaims.thy ===== *)
theory MigrationClaims
  imports MigrationSteps
begin

text \<open>
  The properties of the migrations of the transaction store: what a successful migration leaves of
  every old row, that it is done once, what the backfill of the query keys computes, and what happens
  to databases that cannot be migrated.
\<close>

section \<open>Rows that are carried over\<close>

text \<open>The cells of the old columns, under the new names of the columns and of the events.\<close>

definition carried :: "string list \<Rightarrow> string list \<Rightarrow> sql_row \<Rightarrow> sql_row \<Rightarrow> bool" where
  "carried new old r r' \<longleftrightarrow> (\<forall>(c, c') \<in> set (zip new old). map_of r c' \<noteq> None \<longrightarrow>
     map_of r' c = Some (if c = ''event'' then rename_event_cell (cell_of r c') else cell_of r c'))"

lemma select_as_zip: "select_as new old r = zip new (map (cell_of r) old)"
  by (simp add: select_as_def zip_map2 case_prod_beta)

lemma map_of_select_as:
  "distinct new \<Longrightarrow> (c, c') \<in> set (zip new old) \<Longrightarrow> map_of (select_as new old r) c = Some (cell_of r c')"
proof -
  assume d: "distinct new" and "(c, c') \<in> set (zip new old)"
  then have "(c, cell_of r c') \<in> set (select_as new old r)" by (force simp: select_as_def)
  moreover have "distinct (map fst (select_as new old r))"
    using d by (simp add: select_as_zip map_fst_zip_take)
  ultimately show ?thesis by simp
qed

lemma carried_select:
  assumes "row_kept r r1" "distinct new" "''event'' \<notin> set new" "''created_at_utc'' \<notin> set old"
  shows "carried new old r (select_as new old r1)"
proof -
  have "map_of (select_as new old r1) c = Some (if c = ''event'' then rename_event_cell (cell_of r c') else cell_of r c')"
    if m: "(c, c') \<in> set (zip new old)" "map_of r c' \<noteq> None" for c c'
  proof -
    have "c \<noteq> ''event''" "c' \<noteq> ''created_at_utc''" using set_zip_leftD [OF m(1)] set_zip_rightD [OF m(1)] assms(3,4) by auto
    moreover have "cell_of r1 c' = cell_of r c'" using assms(1) m(2) calculation(2) by (auto simp: row_kept_def)
    ultimately show ?thesis using map_of_select_as [OF assms(2) m(1), of r1] by simp
  qed
  then show ?thesis by (auto simp: carried_def)
qed

lemma map_of_tagged: "map_of (map (\<lambda>(c, v). (c, f c v)) xs) c = map_option (f c) (map_of xs c)"
  by (induction xs) auto

lemma carried_history:
  assumes "row_kept r r1"
  shows "carried history_v10 history_v3 r (history_row_of r1)"
proof -
  have "map_of (history_row_of r1) c = Some (if c = ''event'' then rename_event_cell (cell_of r c') else cell_of r c')"
    if m: "(c, c') \<in> set (zip history_v10 history_v3)" "map_of r c' \<noteq> None" for c c'
  proof -
    have "c' \<noteq> ''created_at_utc''" using set_zip_rightD [OF m(1)] by (auto simp: history_v3_def)
    then have "cell_of r1 c' = cell_of r c'" using assms m(2) by (auto simp: row_kept_def)
    moreover have "distinct history_v10" by (simp add: history_v10_def)
    ultimately show ?thesis
      using map_of_select_as [OF _ m(1), of r1] by (simp add: history_row_of_def map_of_tagged)
  qed
  then show ?thesis by (auto simp: carried_def)
qed

lemma carried_all:
  "list_all2 row_kept rs rs' \<Longrightarrow> (\<And>r r1. row_kept r r1 \<Longrightarrow> carried new old r (f r1)) \<Longrightarrow> list_all2 (carried new old) rs (map f rs')"
  by (simp add: list_all2_map2 list_all2_mono)

section \<open>A successful migration\<close>

lemma record_version_Inr: "record_version n db = (Inr (), db') \<Longrightarrow> tabs db' = tabs db"
  by (simp add: record_version_def record_Inr)

lemma same_tabs: "tabs db' = tabs db \<Longrightarrow> table_rows n db' = table_rows n db \<and> table_exists n db' = table_exists n db"
  by (simp add: tabs_rows tabs_exists)

lemma kept_same_tabs: "tabs db' = tabs db \<Longrightarrow> kept_in names db db'"
  by (rule kept_elsewhere [where f = "\<lambda>_. db'"]) (metis tabs_def)

lemma ensured:
  assumes "ensure_schema now db = (Inr (), db')"
  obtains v db2 where "v = component_schema_version ''transactions'' db" "v \<le> 10" "acceptable db2"
    "v = 10 \<Longrightarrow> component_schema_version ''transactions'' db2 = 10"
    "kept_in UNIV db db2" "table_exists ''steps'' db2 \<longleftrightarrow> table_exists ''steps'' db"
    "(if v < 10 then migrate_transactions_to_v10 else ret ()) db2 = (Inr (), db')"
proof -
  from assms obtain db1 where 1: "ensure_database_compatibility db = (Inr (), db)"
    "component_schema_version ''transactions'' db \<le> transaction_schema_version"
    "ensure_schema_version_table db = (Inr (), db1)"
    "migration_from now (component_schema_version ''transactions'' db1) db1 = (Inr (), db')"
    by (rule ensure_schema_Inr)
  define v where "v = component_schema_version ''transactions'' db"
  from version_table_tabs [OF 1(3)] have db1: "tabs db1 = tabs db" "component_schema_version ''transactions'' db1 = v"
    by (simp_all add: v_def)
  have "acceptable db" using compatibility(2) 1(1) by force
  then have ok1: "acceptable db1" using 1(3)
    by (auto simp: ensure_schema_version_table_def upd_st_def acceptable_def split: if_splits option.splits)
  have v: "v \<le> 10" using 1(2) by (simp add: v_def transaction_schema_version_def)
  from 1(4) obtain db2 where run: "early_chain now v db1 = (Inr (), db2)"
    "(if v < 10 then migrate_transactions_to_v10 else ret ()) db2 = (Inr (), db')"
    using v by (auto simp: db1 chain_split thn_Inr ret_def max_def transaction_schema_version_def split: if_splits)
  have "kept_in UNIV db1 db2" by (rule keepsD [OF kept_in.R_early_chain run(1)])
  with kept_same_tabs [OF db1(1)] have kept: "kept_in UNIV db db2" by (rule kept_in.R_trans)
  have "same_steps db1 db2" by (rule keepsD [OF same_steps.R_early_chain run(1)])
  then have same: "table_exists ''steps'' db2 \<longleftrightarrow> table_exists ''steps'' db" using same_tabs [OF db1(1)] by (simp add: same_steps_def)
  have ok2: "acceptable db2" using keepsD [OF stays_acceptable.R_early_chain run(1)] ok1 by (simp add: stays_acceptable_def)
  have "component_schema_version ''transactions'' db2 = 10" if "v = 10"
    using run(1) db1(2) that by (simp add: early_chain_def thn_def ret_def bnd_def)
  from that [OF v_def v ok2 this kept same run(2)] show thesis .
qed

text \<open>A database of version 6 with a failed skill.\<close>

definition demo_v6 :: sql_db where
  "demo_v6 = \<lparr>sd_tables = [
     (''transactions'', \<lparr>tb_columns = [''id'', ''created_at''], tb_events = [], tb_rows = [
        [(''id'', Text ''t1''), (''created_at'', Stamp (IsoText (DateTime 50 (Some 20))))], [(''id'', Text ''t0''), (''created_at'', Stamp empty_text)]]\<rparr>),
     (''skills'', \<lparr>tb_columns = skills_v1, tb_events = [], tb_rows = [
        [(''id'', Text ''s1''), (''transaction_id'', Text ''t1''), (''name'', Text ''pay''), (''execution_order'', Num 1),
         (''status'', Text ''failed''), (''arguments'', Text ''{}'')]]\<rparr>),
     (''exceptions'', \<lparr>tb_columns = exceptions_v1, tb_events = [], tb_rows = [
        [(''id'', Text ''e1''), (''skill_id'', Text ''s1''), (''message'', Text ''no funds'')]]\<rparr>),
     (''transaction_history'', \<lparr>tb_columns = history_v3, tb_events = events_v3, tb_rows = [
        [(''transaction_id'', Text ''t1''), (''sequence'', Num 1), (''event'', Text ''skill_failed''), (''skill_name'', Text ''pay'')]]\<rparr>),
     (''transaction_metadata'', \<lparr>tb_columns = metadata_v4, tb_events = [], tb_rows = []\<rparr>)],
     sd_indexes = [], sd_versions = Some [(''transactions'', 6)]\<rparr>"

lemma demo_ensured: "fst (ensure_schema (utc_datetime 0) demo_v6) = Inr ()"
  by code_simp

definition demo_v10 :: sql_db where
  "demo_v10 = snd (ensure_schema (utc_datetime 0) demo_v6)"

lemma demo_migrated: "ensure_schema (utc_datetime 0) demo_v6 = (Inr (), demo_v10)"
  using demo_ensured by (simp add: demo_v10_def prod_eq_iff)

lemma demo_v6_facts:
  "distinct_ids demo_v6" "\<not> table_exists ''steps'' demo_v6" "component_schema_version ''transactions'' demo_v6 = 6"
  by (simp_all add: distinct_ids_def table_rows_def table_exists_def component_schema_version_def find_table_def
      demo_v6_def row_id_def cell_of_def)

text \<open>C27: A successful migration loses nothing. The rows of the transactions, of their metadata and of
  their artifacts are all there, in order, with all their cells (an empty query key may have been
  computed); so are the steps, exceptions and history entries when the database already spoke of steps,
  and otherwise every skill, exception and history entry of the database has become the corresponding
  row of the tables of version 10, cell by cell, with the skill events renamed to step events.\<close>

theorem migration_loses_nothing:
  assumes "ensure_schema now db = (Inr (), db')" "distinct_ids db"
  shows "table_kept ''transactions'' db db' \<and> table_kept ''transaction_metadata'' db db' \<and>
    table_kept ''transaction_artifacts'' db db' \<and>
    (if table_exists ''steps'' db \<or> component_schema_version ''transactions'' db = 10
     then table_kept ''steps'' db db' \<and> table_kept ''exceptions'' db db' \<and> table_kept ''transaction_history'' db db'
     else list_all2 (carried skills_v1 skills_v1) (table_rows ''skills'' db) (table_rows ''steps'' db') \<and>
       list_all2 (carried exceptions_v10 (exceptions_v1 @ [''code''])) (table_rows ''exceptions'' db)
         (table_rows ''exceptions'' db') \<and>
       list_all2 (carried history_v10 history_v3) (table_rows ''transaction_history'' db)
         (table_rows ''transaction_history'' db'))"
proof -
  from assms(1) obtain v db2 where e: "v = component_schema_version ''transactions'' db" "v \<le> 10"
    "kept_in UNIV db db2" "table_exists ''steps'' db2 \<longleftrightarrow> table_exists ''steps'' db"
    "(if v < 10 then migrate_transactions_to_v10 else ret ()) db2 = (Inr (), db')"
    by (rule ensured) blast
  have kept: "table_kept n db db2" for n using e(3) assms(2) by (simp add: kept_in_def)
  show ?thesis
  proof (cases "table_exists ''steps'' db \<or> v = 10")
    case True
    with e(2,4,5) have "tabs db' = tabs db2"
      by (auto simp: migrate_transactions_to_v10_def bnd_Inr get_st_def raise_exc_def ret_def dest: record_version_Inr split: if_splits)
    note same = same_tabs [OF this]
    have "table_kept n db db'" for n using kept [of n] by (simp add: table_kept_def same)
    then show ?thesis using True by (simp add: e(1))
  next
    case False
    with e(2,4,5) obtain db3 where 3: "translate_skills db2 = (Inr (), db3)" "record_version 10 db3 = (Inr (), db')"
      by (auto simp: migrate_transactions_to_v10_def bnd_Inr thn_Inr get_st_def raise_exc_def split: if_splits)
    note same = same_tabs [OF record_version_Inr [OF 3(2)]]
    note t = translate_Inr [OF 3(1)]
    have rows: "list_all2 row_kept (table_rows n db) (table_rows n db2)" for n using kept [of n] by (simp add: table_kept_def)
    have other: "table_kept n db db'" if "find_table n db3 = find_table n db2" for n
      using kept [of n] that by (simp add: table_kept_def same) (simp add: table_rows_def table_exists_def)
    have "list_all2 (carried skills_v1 skills_v1) (table_rows ''skills'' db) (table_rows ''steps'' db')"
      unfolding same [THEN conjunct1] t [THEN conjunct1] step_row_of_def
      by (rule carried_all [OF rows carried_select]) (simp_all add: skills_v1_def)
    moreover have "list_all2 (carried exceptions_v10 (exceptions_v1 @ [''code''])) (table_rows ''exceptions'' db) (table_rows ''exceptions'' db')"
      unfolding same [THEN conjunct1] t [THEN conjunct2, THEN conjunct1] exception_row_of_def
      by (rule carried_all [OF rows carried_select]) (simp_all add: exceptions_v10_def exceptions_v1_def)
    moreover have "list_all2 (carried history_v10 history_v3) (table_rows ''transaction_history'' db) (table_rows ''transaction_history'' db')"
      unfolding same [THEN conjunct1] t [THEN conjunct2, THEN conjunct2, THEN conjunct1]
      by (rule carried_all [OF rows carried_history])
    moreover have "table_kept ''transactions'' db db'" "table_kept ''transaction_metadata'' db db'" "table_kept ''transaction_artifacts'' db db'"
      using t by (auto intro: other)
    moreover have "\<not> (table_exists ''steps'' db \<or> component_schema_version ''transactions'' db = 10)" using False e(1) by simp
    ultimately show ?thesis by (simp only: if_False)
  qed
qed

theorem migration_loses_nothing_witness:
  "table_kept ''transactions'' demo_v6 demo_v10 \<and>
   list_all2 (carried history_v10 history_v3) (table_rows ''transaction_history'' demo_v6) (table_rows ''transaction_history'' demo_v10)"
  using migration_loses_nothing [OF demo_migrated demo_v6_facts(1)] by (simp add: demo_v6_facts)

section \<open>Once\<close>

lemma translation_acceptable: "keeps stays_acceptable translate_skills"
proof -
  have "keeps stays_acceptable (check_counts pairs)" "keeps stays_acceptable (check_references refs)" for pairs refs
    by (auto simp: keeps_def checks_unchanged [OF surjective_pairing] stays_acceptable.R_refl)
  then show ?thesis
    by (auto simp: translate_skills_def create_new_def create_if_missing_def select_rows_def insert_rows_def drop_table_def
        rename_table_def map_table_def intro!: stays_acceptable.keeps_thn stays_acceptable.keeps_bnd stays_acceptable.keeps_get
        stays_acceptable.keeps_raise stays_acceptable.keeps_ret stays_acceptable.keeps_upd same_versions split: option.split)
qed

lemma v10_acceptable: "keeps stays_acceptable migrate_transactions_to_v10"
  unfolding migrate_transactions_to_v10_def record_version_def
  by (auto intro!: stays_acceptable.keeps_bnd stays_acceptable.keeps_get stays_acceptable.keeps_raise
      stays_acceptable.keeps_thn translation_acceptable stays_acceptable.R_record simp: transaction_schema_version_def)

lemma recorded: "record_component_schema_version c n db = (Inr (), db') \<Longrightarrow> component_schema_version c db' = n"
  by (cases "sd_versions db")
    (auto simp: record_component_schema_version_def bnd_def get_st_def raise_exc_def upd_st_def component_schema_version_def)

lemma v10_version: "migrate_transactions_to_v10 db = (Inr (), db') \<Longrightarrow> component_schema_version ''transactions'' db' = 10"
  unfolding migrate_transactions_to_v10_def record_version_def
  by (auto simp: bnd_Inr thn_Inr get_st_def raise_exc_def intro: recorded split: if_splits)

lemma current_schema:
  assumes "acceptable db" "component_schema_version ''transactions'' db = 10"
  shows "ensure_schema now db = (Inr (), db)"
proof -
  obtain rows where "sd_versions db = Some rows" using assms(2) by (auto simp: component_schema_version_def split: option.splits)
  moreover have "ensure_database_compatibility db = (Inr (), db)" using assms(1) by (rule compatibility)
  ultimately show ?thesis
    using assms(2) by (simp add: ensure_schema_def atomically_def thn_def bnd_def ensure_supported_schema_def get_st_def
        ensure_schema_version_table_def upd_st_def migration_from_def ret_def transaction_schema_version_def)
qed

text \<open>A migration is done once. After a successful one the marker says version 10, and migrating
  again, whenever that may be, succeeds and changes nothing.\<close>

theorem migration_is_done_once:
  assumes "ensure_schema now db = (Inr (), db')"
  shows "component_schema_version ''transactions'' db' = 10 \<and> ensure_schema later db' = (Inr (), db')"
proof -
  from assms obtain v :: int and db2 where e: "v \<le> 10" "acceptable db2"
    "v = 10 \<Longrightarrow> component_schema_version ''transactions'' db2 = 10"
    "(if v < 10 then migrate_transactions_to_v10 else ret ()) db2 = (Inr (), db')"
    by (rule ensured) blast
  have ten: "component_schema_version ''transactions'' db' = 10"
  proof (cases "v = 10")
    case False
    then show ?thesis using e(1,4) v10_version [of db2 db'] by simp
  qed (use e(3,4) in \<open>simp add: ret_def\<close>)
  have "keeps stays_acceptable (if v < 10 then migrate_transactions_to_v10 else ret ())"
    by (simp add: v10_acceptable stays_acceptable.keeps_ret)
  from keepsD [OF this e(4)] e(2) have "acceptable db'" by (simp add: stays_acceptable_def)
  with ten show ?thesis by (simp add: current_schema)
qed

theorem migration_is_done_once_witness:
  "component_schema_version ''transactions'' demo_v10 = 10 \<and> ensure_schema (utc_datetime 7) demo_v10 = (Inr (), demo_v10)"
  by (rule migration_is_done_once [OF demo_migrated])

text \<open>C28: Nothing is changed unless the whole migration succeeds: a failed one is rolled back, whatever the
  reason. And a database with a marker of a newer version, or of an unknown component, is refused at
  once.\<close>

theorem failed_migration_changes_nothing:
  "(\<not> acceptable db \<longrightarrow> (\<exists>m. ensure_schema now db = (Inl (RuntimeErr m), db))) \<and>
   (ensure_schema now db = (Inl e, db') \<longrightarrow> db' = db)"
proof -
  have "\<exists>m. ensure_schema now db = (Inl (RuntimeErr m), db)" if "\<not> acceptable db"
    using compatibility(2) [OF that] by (auto simp: ensure_schema_def atomically_def thn_def bnd_def)
  then show ?thesis by (auto simp: ensure_schema_def atomically_Inl)
qed

theorem failed_migration_changes_nothing_witness:
  "\<exists>m. ensure_schema (utc_datetime 0) (empty_sql\<lparr>sd_versions := Some [(''transactions'', 11)]\<rparr>) =
     (Inl (RuntimeErr m), empty_sql\<lparr>sd_versions := Some [(''transactions'', 11)]\<rparr>)"
  using failed_migration_changes_nothing [of "empty_sql\<lparr>sd_versions := Some [(''transactions'', 11)]\<rparr>" "utc_datetime 0"]
  by (simp add: acceptable_def version_acceptable_def supported_version_def transaction_schema_version_def)

section \<open>Query keys\<close>

definition filled :: "datetime \<Rightarrow> sql_row \<Rightarrow> sql_row" where
  "filled now r = (if unkeyed r
     then case legacy_utc_timestamp now (created_text r) of
       Inl _ \<Rightarrow> r | Inr utc \<Rightarrow> set_cell ''created_at_utc'' (Stamp utc) r
     else r)"

text \<open>The backfill of the query keys, 500 rows at a time with a cursor on the id, amounts to one pass over
  the table: every row without a key, and no other, gets the key of its creation time, and a creation
  time that is not a timestamp fails the migration with the error of the first such row by id.\<close>

theorem batched_backfill_is_one_pass:
  assumes "distinct (map row_id rows)"
  shows "key_batches (Suc n) now None rows =
    rbnd (decode_rows (key_update now) (filter unkeyed (sort_key row_id rows))) (\<lambda>_. Inr (map (filled now) rows))"
proof -
  let ?L = "filter unkeyed (sort_key row_id rows)"
  have all: "filter (\<lambda>r. past None (row_id r)) rows = rows" by (simp add: past_def)
  have "apply_updates us rows = map (filled now) rows"
    if us: "decode_rows (key_update now) ?L = Inr us" for us
  proof -
    have "(case map_of us (row_id r) of None \<Rightarrow> r | Some utc \<Rightarrow> set_cell ''created_at_utc'' (Stamp utc) r) = filled now r"
      if r: "r \<in> set rows" for r
    proof (cases "unkeyed r")
      case True
      then have "r \<in> set ?L" using r by simp
      then obtain k where k: "k < length ?L" "?L ! k = r" unfolding in_set_conv_nth by blast
      have "list_all2 (\<lambda>r u. key_update now r = Inr u) ?L us" using us by (simp only: decode_rows_Inr)
      from list_all2_nthD [OF this k(1)] list_all2_lengthD [OF this] k
      have u: "us ! k \<in> set us" "key_update now r = Inr (us ! k)" by simp_all
      then obtain utc where utc: "legacy_utc_timestamp now (created_text r) = Inr utc" "us ! k = (row_id r, utc)"
        by (auto simp: key_update_def rbnd_Inr)
      have "distinct (map fst us)"
        using assms by (simp add: updates_ids [OF us] distinct_map inj_on_def)
      then have "map_of us (row_id r) = Some utc" using u(1) utc(2) by simp
      with True utc(1) show ?thesis by (simp add: filled_def)
    next
      case False
      have "row_id r \<notin> fst ` set us"
      proof
        assume "row_id r \<in> fst ` set us"
        then obtain r' where r': "r' \<in> set rows" "unkeyed r'" "row_id r' = row_id r"
          using arg_cong [OF updates_ids [OF us], of set] by auto
        then have "r' = r" using assms r by (auto simp: distinct_map dest: inj_onD)
        with r'(2) False show False by simp
      qed
      then have "map_of us (row_id r) = None" by (simp add: map_of_eq_None_iff)
      with False show ?thesis by (simp add: filled_def)
    qed
    then show ?thesis by (simp add: apply_updates_def)
  qed
  then show ?thesis using assms
    by (auto simp: batches_are_one_pass single_pass_def all rbnd_def split: sum.split)
qed

theorem batched_backfill_is_one_pass_witness:
  "key_batches (Suc 0) (utc_datetime 0) None
     [[(''id'', Text ''b''), (''created_at'', Stamp (IsoText (DateTime 50 (Some 20)))), (''created_at_utc'', Stamp empty_text)],
      [(''id'', Text ''a''), (''created_at_utc'', Stamp (IsoText (utc_datetime 3)))]] =
   Inr [[(''id'', Text ''b''), (''created_at'', Stamp (IsoText (DateTime 50 (Some 20)))),
         (''created_at_utc'', Stamp (IsoText (utc_datetime 30)))],
      [(''id'', Text ''a''), (''created_at_utc'', Stamp (IsoText (utc_datetime 3)))]]"
  by (subst batched_backfill_is_one_pass)
    (simp_all add: row_id_def cell_of_def unkeyed_def key_update_def created_text_def filled_def rbnd_def
      legacy_utc_timestamp_def empty_text_def fromisoformat_def isoformat_def is_aware_def astimezone_utc_def utc_datetime_def
      instant_def)

end
