(* ===== verification/QueueMigrations.thy ===== *)
theory QueueMigrations
  imports MigrationSteps
begin

text \<open>
  The schema migrations of the queue (\<open>rpacore/queue.py\<close>, \<open>_ensure_schema\<close> and \<open>_migrate_queue_to_v1\<close>
  to \<open>v5\<close>), with the race of two constructors, and their properties.
\<close>

section \<open>The migrations\<close>

definition items_v1 :: "string list" where
  "items_v1 = [''id'', ''reference'', ''payload'', ''status'', ''retry_count'', ''created_at'', ''claimed_by'', ''claimed_at'']"

definition admin_events_v3 :: "string list" where
  "admin_events_v3 = [''sequence'', ''item_id'', ''action'', ''reason'', ''previous_status'', ''new_status'', ''created_at'']"

definition attempts_v4 :: "string list" where
  "attempts_v4 = [''sequence'', ''item_id'', ''claim_token'', ''claimed_by'', ''started_at'', ''finished_at'', ''outcome'']"

definition poison_events_v4 :: "string list" where
  "poison_events_v4 = [''sequence'', ''item_id'', ''error_type'', ''created_at'']"

definition record_queue_schema_version :: "int \<Rightarrow> unit sql" where
  "record_queue_schema_version = record_component_schema_version ''queue''"

definition migrate_queue_to_v1 :: "unit sql" where
  "migrate_queue_to_v1 = thn (create_if_missing ''queue_items'' items_v1 []) (record_queue_schema_version 1)"

definition migrate_queue_to_v2 :: "unit sql" where
  "migrate_queue_to_v2 =
     thn (ensure_column ''queue_items'' ''transaction_id'' (Text []))
    (thn (create_index ''queue_items'' ''idx_queue_items_created_at_id'')
    (thn (create_index ''queue_items'' ''idx_queue_items_status_created_at_id'')
    (thn (create_index ''queue_items'' ''idx_queue_items_reference_status'')
         (record_queue_schema_version 2))))"

definition release_row :: "sql_row \<Rightarrow> sql_row" where
  "release_row r = (if cell_of r ''status'' = Text ''in_progress''
     then set_cell ''claimed_at'' Null (set_cell ''claimed_by'' (Text []) (set_cell ''status'' (Text ''pending'') r))
     else r)"

text \<open>\<open>UPDATE queue_items SET \<dots> WHERE status = 'in_progress'\<close>.\<close>

definition release_untokened_leases :: "unit sql" where
  "release_untokened_leases = bnd get_st (\<lambda>db.
     if \<not> table_exists ''queue_items'' db then raise_exc (OperationalError ''no such table'')
     else upd_st (map_table ''queue_items'' (\<lambda>tb. tb\<lparr>tb_rows := map release_row (tb_rows tb)\<rparr>)))"

definition migrate_queue_to_v3 :: "unit sql" where
  "migrate_queue_to_v3 =
     thn (ensure_column ''queue_items'' ''claim_token'' (Text []))
    (thn release_untokened_leases
    (thn (create_if_missing ''queue_admin_events'' admin_events_v3 [])
    (thn (create_index ''queue_admin_events'' ''idx_queue_admin_events_item_sequence'')
         (record_queue_schema_version 3))))"

definition migrate_queue_to_v4 :: "unit sql" where
  "migrate_queue_to_v4 =
     thn (create_if_missing ''queue_attempts'' attempts_v4 [])
    (thn (create_index ''queue_attempts'' ''idx_queue_attempts_item_sequence'')
    (thn (create_if_missing ''queue_poison_events'' poison_events_v4 [])
    (thn (create_index ''queue_poison_events'' ''idx_queue_poison_events_item_sequence'')
         (record_queue_schema_version 4))))"

text \<open>Unlike the other columns, this one is added without a look at the table.\<close>

definition migrate_queue_to_v5 :: "unit sql" where
  "migrate_queue_to_v5 = thn (alter_add ''queue_items'' ''available_at'' Null) (record_queue_schema_version 5)"

definition queue_migration_from :: "int \<Rightarrow> unit sql" where
  "queue_migration_from v =
     thn (if v < 1 then migrate_queue_to_v1 else ret ())
    (thn (if v < 2 then migrate_queue_to_v2 else ret ())
    (thn (if v < 3 then migrate_queue_to_v3 else ret ())
    (thn (if v < 4 then migrate_queue_to_v4 else ret ())
    (thn (if v < 5 then migrate_queue_to_v5 else ret ())
         (if max v 5 \<noteq> queue_schema_version
          then raise_exc (RuntimeErr ''Unsupported queue schema version'') else ret ())))))"

text \<open>
  The version is read, the write lock is taken when a migration is due, and the version is read again
  under the lock. \<open>interference\<close> is what other processes do before the lock is ours.
\<close>

definition ensure_queue_schema :: "(sql_db \<Rightarrow> sql_db) \<Rightarrow> unit sql" where
  "ensure_queue_schema interference =
     thn ensure_database_compatibility
    (bnd (ensure_supported_schema ''queue'' queue_schema_version) (\<lambda>v.
       if v < queue_schema_version
       then thn (upd_st interference) (atomically
         (thn ensure_database_compatibility
         (bnd (ensure_supported_schema ''queue'' queue_schema_version) (\<lambda>v.
            thn ensure_schema_version_table (queue_migration_from v)))))
       else atomically (thn ensure_schema_version_table (queue_migration_from v))))"

section \<open>Items are kept\<close>

definition extends :: "sql_row \<Rightarrow> sql_row \<Rightarrow> bool" where
  "extends r r' \<longleftrightarrow> map_of r \<subseteq>\<^sub>m map_of r'"

lemma extends_refl [simp]: "extends r r"
  by (simp add: extends_def)

lemma extends_trans: "extends r r' \<Longrightarrow> extends r' r'' \<Longrightarrow> extends r r''"
  by (auto simp: extends_def intro: map_le_trans)

lemma all_extends_trans: "list_all2 extends xs ys \<Longrightarrow> list_all2 extends ys zs \<Longrightarrow> list_all2 extends xs zs"
  using list_all2_trans [of extends extends extends xs ys zs] extends_trans by blast

definition items_extended :: "sql_db \<Rightarrow> sql_db \<Rightarrow> bool" where
  "items_extended db db' \<longleftrightarrow> list_all2 extends (table_rows ''queue_items'' db) (table_rows ''queue_items'' db')"

interpretation items_extended: step_relation items_extended
  by unfold_locales (auto simp: items_extended_def list_all2_refl intro: all_extends_trans)

lemma items_extended_same: "table_rows ''queue_items'' db' = table_rows ''queue_items'' db \<Longrightarrow> items_extended db db'"
  by (simp add: items_extended_def list_all2_refl)

lemma extended_create: "keeps items_extended (create_if_missing name columns events)"
  by (auto simp: create_if_missing_def table_rows_def find_created intro!: items_extended.keeps_upd items_extended_same
      split: option.split)

lemma extends_add: "extends r (r @ [(c, v)])"
  by (auto simp: extends_def map_le_def map_add_def dom_def)

lemma items_extended_map_table:
  "(\<And>tb. list_all2 extends (tb_rows tb) (tb_rows (f tb))) \<Longrightarrow> items_extended db (map_table name f db)"
  by (auto simp: items_extended_def table_rows_map_table list_all2_refl table_rows_def split: option.split)

lemma extended_alter: "keeps items_extended (alter_add name c v)"
proof -
  have "items_extended db (map_table name (add_column name c v) db)" for db
    by (rule items_extended_map_table) (simp add: add_column_def list_all2_conv_all_nth extends_add)
  then show ?thesis
    by (auto simp: alter_add_def intro!: items_extended.keeps_bnd items_extended.keeps_get items_extended.keeps_raise items_extended.keeps_upd)
qed

lemma table_rows_rest [simp]:
  "table_rows n (db\<lparr>sd_versions := v\<rparr>) = table_rows n db" "table_rows n (db\<lparr>sd_indexes := i\<rparr>) = table_rows n db"
  by (simp_all add: table_rows_def)

lemma extended_rest:
  "keeps items_extended (ensure_column name c v)" "keeps items_extended (create_index table name)"
  "keeps items_extended (record_queue_schema_version n)"
  by (auto simp: ensure_column_def create_index_def record_queue_schema_version_def record_component_schema_version_def
      intro!: items_extended.keeps_bnd items_extended.keeps_get items_extended.keeps_ret items_extended.keeps_raise
      items_extended.keeps_upd extended_alter items_extended_same split: option.split)

lemmas extended = items_extended.keeps_thn extended_create extended_alter extended_rest items_extended.keeps_ret

lemma extended_migrations:
  "keeps items_extended migrate_queue_to_v1" "keeps items_extended migrate_queue_to_v2"
  "keeps items_extended migrate_queue_to_v4" "keeps items_extended migrate_queue_to_v5"
  unfolding migrate_queue_to_v1_def migrate_queue_to_v2_def migrate_queue_to_v4_def migrate_queue_to_v5_def
  by (intro extended)+

definition has_status :: "sql_row \<Rightarrow> bool" where
  "has_status r \<longleftrightarrow> map_of r ''status'' \<noteq> None"

lemma cell_extends: "extends r r' \<Longrightarrow> map_of r c \<noteq> None \<Longrightarrow> map_of r' c = map_of r c"
  by (auto simp: extends_def map_le_def dom_def)

lemma release_extends:
  assumes "has_status r" "extends r r'"
  shows "extends (release_row r) (release_row r')"
proof -
  have "cell_of r' ''status'' = cell_of r ''status''" using cell_extends [OF assms(2), of "''status''"] assms(1)
    by (simp add: has_status_def cell_of_def)
  moreover have "map_of r c = Some x \<Longrightarrow> map_of r' c = Some x" for c x using cell_extends [OF assms(2), of c] by simp
  ultimately show ?thesis
    using assms(2) by (auto simp: release_row_def extends_def map_le_def map_of_set_cell dom_def split: if_splits)
qed

lemma released_status: "has_status r \<Longrightarrow> extends (release_row r) r' \<Longrightarrow> cell_of r' ''status'' \<noteq> Text ''in_progress''"
  using cell_extends [of "release_row r" r' "''status''"]
  by (auto simp: release_row_def has_status_def cell_of_def map_of_set_cell split: if_splits)

text \<open>Version 3 adds a column, releases the rows, and adds the table of the operators' events.\<close>

lemma v3_rows:
  assumes "migrate_queue_to_v3 db = (Inr (), db')"
  obtains db1 where "items_extended db db1"
    "list_all2 extends (map release_row (table_rows ''queue_items'' db1)) (table_rows ''queue_items'' db')"
proof -
  from assms obtain d1 d2 where run: "ensure_column ''queue_items'' ''claim_token'' (Text []) db = (Inr (), d1)"
    "release_untokened_leases d1 = (Inr (), d2)"
    "thn (create_if_missing ''queue_admin_events'' admin_events_v3 [])
      (thn (create_index ''queue_admin_events'' ''idx_queue_admin_events_item_sequence'')
         (record_queue_schema_version 3)) d2 = (Inr (), db')"
    by (auto simp: migrate_queue_to_v3_def thn_Inr)
  have rows: "table_rows ''queue_items'' d2 = map release_row (table_rows ''queue_items'' d1)"
    using run(2) by (auto simp: release_untokened_leases_def bnd_Inr get_st_def upd_st_def raise_exc_def table_rows_map_table
        table_rows_def split: if_splits option.splits)
  have "items_extended db d1" by (rule keepsD [OF extended_rest(1) run(1)])
  moreover have "items_extended d2 db'" by (rule keepsD [where m = "thn a b" for a b, OF _ run(3)]) (intro extended)
  ultimately show thesis using that by (simp add: items_extended_def rows)
qed

lemma v3_extended:
  assumes "migrate_queue_to_v3 db = (Inr (), db')" "list_all has_status (table_rows ''queue_items'' db)"
  shows "list_all2 extends (map release_row (table_rows ''queue_items'' db)) (table_rows ''queue_items'' db')"
proof -
  from assms(1) obtain db1 where 1: "items_extended db db1"
    "list_all2 extends (map release_row (table_rows ''queue_items'' db1)) (table_rows ''queue_items'' db')" by (rule v3_rows)
  have "list_all2 extends (map release_row (table_rows ''queue_items'' db)) (map release_row (table_rows ''queue_items'' db1))"
    using 1(1) assms(2)
    by (auto simp: items_extended_def list_all2_conv_all_nth list_all_length release_extends)
  then show ?thesis using 1(2) by (rule all_extends_trans)
qed

lemma status_kept: "items_extended db db' \<Longrightarrow> list_all has_status (table_rows ''queue_items'' db) \<Longrightarrow>
  list_all has_status (table_rows ''queue_items'' db')"
  using cell_extends by (auto simp: items_extended_def list_all2_conv_all_nth list_all_length has_status_def)

lemma released_extended:
  "items_extended db db1 \<Longrightarrow> list_all has_status (table_rows ''queue_items'' db) \<Longrightarrow>
   list_all2 extends (map release_row (table_rows ''queue_items'' db1)) rows \<Longrightarrow>
   list_all2 extends (map release_row (table_rows ''queue_items'' db)) rows"
  by (rule all_extends_trans [of _ "map release_row (table_rows ''queue_items'' db1)"])
    (auto simp: items_extended_def list_all2_conv_all_nth list_all_length release_extends)

lemma migrated_rows:
  assumes "queue_migration_from v db = (Inr (), db')" "list_all has_status (table_rows ''queue_items'' db)"
  shows "list_all2 extends (map (if v < 3 then release_row else (\<lambda>r. r)) (table_rows ''queue_items'' db)) (table_rows ''queue_items'' db')"
proof -
  from assms(1) obtain d1 d2 where run:
    "thn (if v < 1 then migrate_queue_to_v1 else ret ()) (if v < 2 then migrate_queue_to_v2 else ret ()) db = (Inr (), d1)"
    "(if v < 3 then migrate_queue_to_v3 else ret ()) d1 = (Inr (), d2)"
    "thn (if v < 4 then migrate_queue_to_v4 else ret ()) (thn (if v < 5 then migrate_queue_to_v5 else ret ())
         (if max v 5 \<noteq> queue_schema_version
          then raise_exc (RuntimeErr ''Unsupported queue schema version'') else ret ())) d2 = (Inr (), db')"
    by (auto simp: queue_migration_from_def thn_Inr)
  have 1: "items_extended db d1"
    by (rule keepsD [where m = "thn a b" for a b, OF _ run(1)]) (simp add: items_extended.keeps_thn extended_migrations items_extended.keeps_ret)
  have 2: "items_extended d2 db'"
    by (rule keepsD [where m = "thn a b" for a b, OF _ run(3)])
      (simp add: items_extended.keeps_thn extended_migrations items_extended.keeps_ret items_extended.keeps_raise)
  show ?thesis
  proof (cases "v < 3")
    case True
    then have "migrate_queue_to_v3 d1 = (Inr (), d2)" using run(2) by simp
    from v3_extended [OF this status_kept [OF 1 assms(2)]]
    have "list_all2 extends (map release_row (table_rows ''queue_items'' d1)) (table_rows ''queue_items'' d2)" .
    from released_extended [OF 1 assms(2) this] 2 [unfolded items_extended_def] True
    show ?thesis by (auto intro: all_extends_trans)
  next
    case False
    then have "d2 = d1" using run(2) by (simp add: ret_def)
    with items_extended.R_trans [OF 1] 2 False show ?thesis by (simp add: items_extended_def)
  qed
qed

lemma supported_run:
  "ensure_supported_schema c n db = ((if component_schema_version c db \<le> n then Inr (component_schema_version c db)
     else Inl (RuntimeErr ''Unsupported schema version'')), db)"
  by (auto simp: ensure_supported_schema_def bnd_def get_st_def raise_exc_def ret_def)

lemma compatible_run: "ensure_database_compatibility db = (Inr (), t) \<longleftrightarrow> acceptable db \<and> t = db"
  using compatibility [of db] by (cases "acceptable db") auto

text \<open>Whatever the other processes did: they left the database that is migrated.\<close>

lemma ensured_run:
  assumes "ensure_queue_schema interference db = (Inr (), db')"
  obtains db0 db1 where "db0 = (if component_schema_version ''queue'' db < 5 then interference db else db)"
    "component_schema_version ''queue'' db0 \<le> 5" "acceptable db0"
    "ensure_schema_version_table db0 = (Inr (), db1)"
    "queue_migration_from (component_schema_version ''queue'' db0) db1 = (Inr (), db')"
  using assms
  by (auto simp: ensure_queue_schema_def thn_Inr bnd_Inr atomically_Inr compatible_run supported_run upd_st_def
      queue_schema_version_def split: if_splits)

text \<open>A migration of the queue keeps every item with all its cells, except that an item a worker holds
  under a lease from before version 3, which has no token, is released; after it no such lease is left.\<close>

theorem queue_migration_keeps_items:
  assumes "ensure_queue_schema (\<lambda>s. s) db = (Inr (), db')" "list_all has_status (table_rows ''queue_items'' db)"
  shows "list_all2 extends (map (if component_schema_version ''queue'' db < 3 then release_row else (\<lambda>r. r))
        (table_rows ''queue_items'' db)) (table_rows ''queue_items'' db') \<and>
    (component_schema_version ''queue'' db < 3 \<longrightarrow>
      (\<forall>r \<in> set (table_rows ''queue_items'' db'). cell_of r ''status'' \<noteq> Text ''in_progress''))"
proof -
  from assms(1) obtain db1 where 1: "ensure_schema_version_table db = (Inr (), db1)"
    "queue_migration_from (component_schema_version ''queue'' db) db1 = (Inr (), db')" by (rule ensured_run) (simp split: if_splits)
  have rows: "table_rows n db1 = table_rows n db" for n using version_table_tabs [OF 1(1)] by (simp add: tabs_rows)
  have main: "list_all2 extends (map (if component_schema_version ''queue'' db < 3 then release_row else (\<lambda>r. r))
        (table_rows ''queue_items'' db)) (table_rows ''queue_items'' db')"
    using migrated_rows [OF 1(2)] assms(2) by (simp add: rows)
  moreover have "cell_of r ''status'' \<noteq> Text ''in_progress''"
    if v: "component_schema_version ''queue'' db < 3" and r: "r \<in> set (table_rows ''queue_items'' db')" for r
  proof -
    from main v r obtain r0 where "has_status r0" "extends (release_row r0) r"
      using assms(2) by (auto simp: list_all2_conv_all_nth in_set_conv_nth list_all_length)
    then show ?thesis by (rule released_status)
  qed
  ultimately show ?thesis by blast
qed

text \<open>A database of version 2 with a leased item.\<close>

definition demo_queue_v2 :: sql_db where
  "demo_queue_v2 = \<lparr>sd_tables = [(''queue_items'', \<lparr>tb_columns = items_v1 @ [''transaction_id''], tb_events = [], tb_rows = [
     [(''id'', Text ''q1''), (''status'', Text ''in_progress''), (''retry_count'', Num 1), (''claimed_by'', Text ''w'')]]\<rparr>)],
     sd_indexes = [], sd_versions = Some [(''queue'', 2)]\<rparr>"

definition demo_queue_v5 :: sql_db where
  "demo_queue_v5 = snd (ensure_queue_schema (\<lambda>s. s) demo_queue_v2)"

lemma demo_queue_migrated: "ensure_queue_schema (\<lambda>s. s) demo_queue_v2 = (Inr (), demo_queue_v5)"
proof -
  have "fst (ensure_queue_schema (\<lambda>s. s) demo_queue_v2) = Inr ()" by code_simp
  then show ?thesis by (simp add: demo_queue_v5_def prod_eq_iff)
qed

theorem queue_migration_keeps_items_witness:
  "list_all2 extends [[(''id'', Text ''q1''), (''status'', Text ''pending''), (''retry_count'', Num 1), (''claimed_by'', Text [])]]
     (table_rows ''queue_items'' demo_queue_v5)"
  using queue_migration_keeps_items [OF demo_queue_migrated]
  by (simp add: demo_queue_v2_def table_rows_def find_table_def has_status_def component_schema_version_def release_row_def cell_of_def)

section \<open>Two constructors\<close>

lemma queue_record_acceptable: "n \<le> 5 \<Longrightarrow> keeps stays_acceptable (record_queue_schema_version n)"
proof (rule keepsI)
  fix db :: sql_db
  assume "n \<le> 5"
  then have "stays_acceptable db (db\<lparr>sd_versions := Some (set_version rows ''queue'' n)\<rparr>)"
    if "sd_versions db = Some rows" for rows
    using that set_set_version [of rows "''queue''" n]
    by (auto simp: stays_acceptable_def acceptable_def version_acceptable_def supported_version_def queue_schema_version_def)
  then show "stays_acceptable db (snd (record_queue_schema_version n db))"
    by (cases "sd_versions db")
      (simp_all add: record_queue_schema_version_def record_component_schema_version_def bnd_def get_st_def raise_exc_def
        upd_st_def stays_acceptable.R_refl)
qed

lemma queue_acceptable: "keeps stays_acceptable (queue_migration_from v)"
proof -
  have release: "keeps stays_acceptable release_untokened_leases"
    by (auto simp: release_untokened_leases_def map_table_def intro!: stays_acceptable.keeps_bnd stays_acceptable.keeps_get
        stays_acceptable.keeps_raise stays_acceptable.keeps_upd same_versions)
  have create: "keeps stays_acceptable (create_if_missing name columns events)" for name columns events
    by (auto simp: create_if_missing_def intro!: stays_acceptable.keeps_upd same_versions)
  have alter: "keeps stays_acceptable (alter_add name column x)" for name column x
    by (auto simp: alter_add_def map_table_def intro!: stays_acceptable.keeps_bnd stays_acceptable.keeps_get
        stays_acceptable.keeps_raise stays_acceptable.keeps_upd same_versions)
  have ensure: "keeps stays_acceptable (ensure_column name column x)" for name column x
    by (auto simp: ensure_column_def intro!: stays_acceptable.keeps_bnd stays_acceptable.keeps_get stays_acceptable.keeps_ret alter)
  show ?thesis
    unfolding queue_migration_from_def migrate_queue_to_v1_def migrate_queue_to_v2_def migrate_queue_to_v3_def
      migrate_queue_to_v4_def migrate_queue_to_v5_def
    by (auto intro!: stays_acceptable.keeps_thn stays_acceptable.keeps_ret stays_acceptable.keeps_raise
        queue_record_acceptable release create alter ensure stays_acceptable.R_index)
qed

lemma queue_version_5:
  assumes "queue_migration_from v db = (Inr (), db')" "v \<le> 5" "v = 5 \<Longrightarrow> component_schema_version ''queue'' db = 5"
  shows "component_schema_version ''queue'' db' = 5"
proof (cases "v = 5")
  case True
  then have "db' = db" using assms(1) by (auto simp: queue_migration_from_def thn_Inr ret_def queue_schema_version_def)
  with assms(3) True show ?thesis by simp
next
  case False
  with assms(2) have v: "v < 5" by simp
  with assms(1) obtain d where "migrate_queue_to_v5 d = (Inr (), db')"
    by (auto simp: queue_migration_from_def thn_Inr ret_def queue_schema_version_def)
  then show ?thesis
    unfolding migrate_queue_to_v5_def record_queue_schema_version_def by (auto simp: thn_Inr bnd_Inr
        record_component_schema_version_def get_st_def raise_exc_def upd_st_def component_schema_version_def split: option.splits)
qed

lemma current_queue:
  assumes "acceptable db" "component_schema_version ''queue'' db = 5"
  shows "ensure_queue_schema interference db = (Inr (), db)"
proof -
  obtain rows where "sd_versions db = Some rows"
    using assms(2) by (auto simp: component_schema_version_def split: option.splits)
  with assms compatibility(1) [OF assms(1)] show ?thesis
    by (simp add: ensure_queue_schema_def atomically_def thn_def bnd_def supported_run ensure_schema_version_table_def upd_st_def
        queue_migration_from_def ret_def queue_schema_version_def)
qed

lemma relocked:
  assumes "acceptable db" "component_schema_version ''queue'' db < 5" "acceptable db'" "component_schema_version ''queue'' db' = 5"
  shows "ensure_queue_schema (\<lambda>_. db') db = (Inr (), db')"
proof -
  obtain rows where "sd_versions db' = Some rows"
    using assms(4) by (auto simp: component_schema_version_def split: option.splits)
  with assms(2,4) compatibility(1) [OF assms(1)] compatibility(1) [OF assms(3)] show ?thesis
    by (simp add: ensure_queue_schema_def atomically_def thn_def bnd_def supported_run ensure_schema_version_table_def upd_st_def
        queue_migration_from_def ret_def queue_schema_version_def)
qed

text \<open>What a constructor leaves, whatever the others did meanwhile.\<close>

lemma ensured_current:
  assumes "ensure_queue_schema interference db = (Inr (), db')"
  shows "component_schema_version ''queue'' db' = 5 \<and> acceptable db'"
proof -
  from assms obtain db0 db1 where 1: "component_schema_version ''queue'' db0 \<le> 5" "acceptable db0"
    "ensure_schema_version_table db0 = (Inr (), db1)"
    "queue_migration_from (component_schema_version ''queue'' db0) db1 = (Inr (), db')" by (rule ensured_run)
  have "component_schema_version c db1 = component_schema_version c db0" for c using version_table_tabs [OF 1(3)] by simp
  moreover have "acceptable db1" using 1(2,3)
    by (auto simp: ensure_schema_version_table_def upd_st_def acceptable_def split: if_splits option.splits)
  ultimately show ?thesis
    using queue_version_5 [OF 1(4,1)] keepsD [OF queue_acceptable 1(4)] by (simp add: stays_acceptable_def)
qed

lemma ensure_failed:
  assumes "ensure_queue_schema interference db = (Inl e, t)"
  shows "t = db \<or> t = interference db"
proof (cases "acceptable db")
  case True
  then show ?thesis
    using assms compatibility(1) [OF True]
    by (auto simp: ensure_queue_schema_def thn_def bnd_Inl supported_run upd_st_def atomically_Inl
        queue_schema_version_def split: if_splits)
next
  case False
  then show ?thesis using assms compatibility(2) by (force simp: ensure_queue_schema_def thn_def bnd_def)
qed

text \<open>C29: Two processes may construct the queue at the same time. Whoever finds, under the lock, that the other
  has migrated meanwhile leaves the database as it is, and so does every later construction; and a
  construction that fails leaves the database as the other processes left it.\<close>

theorem queue_constructors_race:
  assumes "ensure_queue_schema (\<lambda>s. s) db = (Inr (), db')"
  shows "component_schema_version ''queue'' db' = 5 \<and> ensure_queue_schema (\<lambda>_. db') db = (Inr (), db') \<and>
    ensure_queue_schema interference db' = (Inr (), db') \<and>
    (ensure_queue_schema interference db = (Inl e, t) \<longrightarrow> t = db \<or> t = interference db)"
proof -
  from assms have 1: "component_schema_version ''queue'' db \<le> 5" "acceptable db"
    by (auto elim!: ensured_run split: if_splits)
  have five: "component_schema_version ''queue'' db' = 5" and ok: "acceptable db'"
    using ensured_current [OF assms] by simp_all
  have "ensure_queue_schema (\<lambda>_. db') db = (Inr (), db')"
  proof (cases "component_schema_version ''queue'' db = 5")
    case True
    with assms current_queue [OF 1(2) True, of "\<lambda>s. s"] current_queue [OF 1(2) True, of "\<lambda>_. db'"] show ?thesis by simp
  next
    case False
    with relocked [OF 1(2) _ ok five] 1(1) show ?thesis by simp
  qed
  with five current_queue [OF ok five] ensure_failed show ?thesis by blast
qed

theorem queue_constructors_race_witness:
  "ensure_queue_schema (\<lambda>_. demo_queue_v5) demo_queue_v2 = (Inr (), demo_queue_v5)"
  using queue_constructors_race [OF demo_queue_migrated] by blast

end
