(* ===== verification/Config.thy ===== *)
theory Config
  imports ConfigValues Schema
begin

text \<open>
  The configuration loader (\<open>rpacore/config.py\<close>), the choice of the credential provider
  (\<open>rpacore/credentials.py\<close>) and the access of steps to state and configuration
  (\<open>rpacore/context.py\<close>).

  The parsed TOML file is a parameter: \<open>None\<close> when there is no file, and the error or the dictionary
  that \<open>tomllib\<close> returns otherwise. Paths are POSIX paths; \<open>base\<close> is the resolved directory of the file.
\<close>

section \<open>Known keys\<close>

definition config_defaults :: pydict where
  "config_defaults =
     [(''max_retries'', PInt 0), (''retry_delay'', PFloat (FinF 0)), (''retry_backoff'', PFloat (FinF 1)),
      (''log_level'', PStr ''INFO''), (''log_format'', PStr ''text''), (''transaction_db_path'', PStr ''rpacore.db''),
      (''screenshot_dir'', PStr []), (''credential_provider'', PStr ''env'')]"

definition log_levels :: "string list" where
  "log_levels = [''CRITICAL'', ''ERROR'', ''WARNING'', ''INFO'', ''DEBUG'', ''NOTSET'']"

definition log_formats :: "string list" where
  "log_formats = [''text'', ''json'']"

definition supported_credential_providers :: "string list" where
  "supported_credential_providers = [''env'', ''keyring'']"

definition upper_char :: "char \<Rightarrow> char" where
  "upper_char c = (if is_lower c then char_of (code_point c - 32) else c)"

definition upper :: "string \<Rightarrow> string" where
  "upper s = map upper_char s"

section \<open>Validation\<close>

text \<open>\<open>config[key]\<close>.\<close>

definition item :: "pydict \<Rightarrow> string \<Rightarrow> pyexc + pyval" where
  "item config key = (case dict_get config key of None \<Rightarrow> Inl (KeyErr key) | Some v \<Rightarrow> Inr v)"

definition max_retries_value :: "pyval \<Rightarrow> pyexc + unit" where
  "max_retries_value v = (case v of
     PInt n \<Rightarrow> (if n < 0 then Inl (ValueErr ''int >= 0'') else Inr ())
   | _ \<Rightarrow> Inl (TypeErr ''int''))"

text \<open>\<open>math.isfinite\<close> and \<open>float\<close> convert an integer to a double, which overflows from here on.\<close>

definition too_large :: "int \<Rightarrow> bool" where
  "too_large n \<longleftrightarrow> 2 ^ 1024 - 2 ^ 970 \<le> \<bar>n\<bar>"

definition number_value :: "rat \<Rightarrow> pyval \<Rightarrow> pyexc + pyval" where
  "number_value least v = (case v of
     PInt n \<Rightarrow>
       (if of_int n < least then Inl (ValueErr ''number'')
        else if too_large n then Inl (OtherException ''OverflowError'')
        else Inr (PFloat (FinF (of_int n))))
   | PFloat f \<Rightarrow> (if float_less f (FinF least) \<or> \<not> isfinite f then Inl (ValueErr ''number'') else Inr v)
   | _ \<Rightarrow> Inl (TypeErr ''number''))"

definition choice_text :: "(string \<Rightarrow> string) \<Rightarrow> string list \<Rightarrow> pyval \<Rightarrow> pyexc + pyval" where
  "choice_text change allowed v = (case v of
     PStr s \<Rightarrow> (if change s \<in> set allowed then Inr (PStr (change s)) else Inl (ValueErr ''one of''))
   | _ \<Rightarrow> Inl (TypeErr ''str''))"

definition screenshot_dir_value :: "pyval \<Rightarrow> pyexc + unit" where
  "screenshot_dir_value v = (case v of
     PStr s \<Rightarrow>
       (if s \<noteq> [] \<and> (blank s \<or> strip s = '':memory:'')
        then Inl (ValueErr ''empty string or filesystem directory path'') else Inr ())
   | _ \<Rightarrow> Inl (TypeErr ''str''))"

text \<open>\<open>config.get("queue")\<close> and its \<open>db_path\<close>, when there are any.\<close>

definition queue_db_path :: "pydict \<Rightarrow> pyval option" where
  "queue_db_path config = (case dict_get config ''queue'' of
     Some (PDict d) \<Rightarrow> map_of d (PStr ''db_path'') | _ \<Rightarrow> None)"

definition validate_settings :: "pydict \<Rightarrow> pyexc + pydict" where
  "validate_settings config =
     (if dict_has config ''db_path'' then Inl (ValueErr ''renamed to transaction_db_path'')
      else
        rbnd (item config ''max_retries'') (\<lambda>v. rbnd (max_retries_value v) (\<lambda>_.
        rbnd (item config ''retry_delay'') (\<lambda>v. rbnd (number_value 0 v) (\<lambda>w.
        let config = dict_set config ''retry_delay'' w in
        rbnd (item config ''retry_backoff'') (\<lambda>v. rbnd (number_value 1 v) (\<lambda>w.
        let config = dict_set config ''retry_backoff'' w in
        rbnd (item config ''log_level'') (\<lambda>v. rbnd (choice_text upper log_levels v) (\<lambda>w.
        let config = dict_set config ''log_level'' w in
        rbnd (item config ''log_format'') (\<lambda>v. rbnd (choice_text lower log_formats v) (\<lambda>w.
        let config = dict_set config ''log_format'' w in
        rbnd (item config ''transaction_db_path'') (\<lambda>v. rbnd (validate_durable_sqlite_path v) (\<lambda>_.
        rbnd (case queue_db_path config of
                None \<Rightarrow> Inr () | Some v \<Rightarrow> rbnd (validate_durable_sqlite_path v) (\<lambda>_. Inr ())) (\<lambda>_.
        rbnd (item config ''screenshot_dir'') (\<lambda>v. rbnd (screenshot_dir_value v) (\<lambda>_.
        rbnd (item config ''credential_provider'') (\<lambda>v.
        rbnd (choice_text (\<lambda>s. s) supported_credential_providers v) (\<lambda>_.
          Inr config))))))))))))))))))"

section \<open>Paths\<close>

definition is_absolute :: "string \<Rightarrow> bool" where
  "is_absolute p = (take 1 p = ''/'')"

text \<open>\<open>str(base / path)\<close> for a relative path.\<close>

definition join_path :: "string \<Rightarrow> string \<Rightarrow> string" where
  "join_path base p = (let parts = filter (\<lambda>w. w \<noteq> [] \<and> w \<noteq> ''.'') (split_on CHR ''/'' p) in
     if parts = [] then base
     else if base = ''/'' then base @ join_on CHR ''/'' parts
     else base @ ''/'' @ join_on CHR ''/'' parts)"

definition resolve_config_path_value :: "string \<Rightarrow> string \<Rightarrow> string" where
  "resolve_config_path_value base p =
     (if blank p \<or> strip p = '':memory:'' then p else if is_absolute p then p else join_path base p)"

definition resolve_text :: "string \<Rightarrow> pyval \<Rightarrow> pyval" where
  "resolve_text base v = (case v of PStr p \<Rightarrow> PStr (resolve_config_path_value base p) | _ \<Rightarrow> v)"

definition set_item :: "(pyval \<times> pyval) list \<Rightarrow> string \<Rightarrow> pyval \<Rightarrow> (pyval \<times> pyval) list" where
  "set_item d k v = map (\<lambda>(k', v'). (k', if k' = PStr k then v else v')) d"

definition resolve_queue :: "string \<Rightarrow> pydict \<Rightarrow> pydict" where
  "resolve_queue base config = (case dict_get config ''queue'' of
     Some (PDict d) \<Rightarrow>
       (case map_of d (PStr ''db_path'') of
          Some (PStr p) \<Rightarrow> dict_set config ''queue'' (PDict (set_item d ''db_path'' (resolve_text base (PStr p))))
        | _ \<Rightarrow> config)
   | _ \<Rightarrow> config)"

definition resolve_config_paths :: "string \<Rightarrow> pydict \<Rightarrow> pyexc + pydict" where
  "resolve_config_paths base config =
     rbnd (item config ''transaction_db_path'') (\<lambda>v.
       let config = resolve_queue base (dict_set config ''transaction_db_path'' (resolve_text base v)) in
       rbnd (item config ''screenshot_dir'') (\<lambda>v.
         Inr (if v = PStr [] then config else dict_set config ''screenshot_dir'' (resolve_text base v))))"

definition load_config :: "string \<Rightarrow> bool \<Rightarrow> (pyexc + pydict) option \<Rightarrow> pyexc + pydict" where
  "load_config base require_file file = (case file of
     None \<Rightarrow>
       (if require_file then Inl (OSErr ''Config file not found'') else validate_settings config_defaults)
   | Some (Inl e) \<Rightarrow> Inl e
   | Some (Inr source) \<Rightarrow>
       rbnd (validate_settings (dict_merge config_defaults source)) (resolve_config_paths base))"

section \<open>Credential providers\<close>

datatype credential_provider = EnvCredentialProvider | KeyringCredentialProvider string

definition build_credential_provider :: "pyval \<Rightarrow> pyexc + credential_provider" where
  "build_credential_provider v = (case v of
     PStr p \<Rightarrow>
       (if p \<in> set supported_credential_providers
        then Inr (if p = ''env'' then EnvCredentialProvider else KeyringCredentialProvider ''rpacore'')
        else Inl (ValueErr ''one of env, keyring''))
   | _ \<Rightarrow> Inl (TypeErr ''str''))"

text \<open>
  The lookups: \<open>environ\<close> are the environment variables, \<open>keyring\<close> the keyring of the system, absent when
  its package is not installed.
\<close>

definition get_credential ::
  "(string \<Rightarrow> string option) \<Rightarrow> (string \<Rightarrow> string \<Rightarrow> string option) option \<Rightarrow> credential_provider \<Rightarrow> string \<Rightarrow> pyexc + string" where
  "get_credential environ keyring provider name = (case provider of
     EnvCredentialProvider \<Rightarrow>
       (case environ (''RPACORE_CRED_'' @ upper name) of
          None \<Rightarrow> Inl (OtherException ''CredentialNotFoundError'') | Some v \<Rightarrow> Inr v)
   | KeyringCredentialProvider service \<Rightarrow>
       (case keyring of
          None \<Rightarrow> Inl (OtherException ''ImportError'')
        | Some get_password \<Rightarrow>
            (case get_password service name of
               None \<Rightarrow> Inl (OtherException ''CredentialNotFoundError'') | Some v \<Rightarrow> Inr v)))"

section \<open>State and configuration in a step\<close>

definition require_value ::
  "datetime \<Rightarrow> pydict \<Rightarrow> string \<Rightarrow> pytype list option \<Rightarrow> string \<Rightarrow> pyexc + pyval" where
  "require_value now values key expected action = (case dict_get values key of
     None \<Rightarrow> Inl (repair_error now ''Missing required key'' action)
   | Some v \<Rightarrow>
       (case expected of
          None \<Rightarrow> Inr v
        | Some types \<Rightarrow>
            (case require_config values key (plain_checks types) of
               Inr w \<Rightarrow> Inr w
             | Inl e \<Rightarrow>
                 (if is_key_error e then Inl (repair_error now ''Missing required key'' action)
                  else if is_type_error e \<or> is_value_error e then Inl (repair_error now ''expected'' action)
                  else Inl e))))"

definition require_state ::
  "datetime \<Rightarrow> transaction \<Rightarrow> string \<Rightarrow> pytype list option \<Rightarrow> string \<Rightarrow> pyexc + pyval" where
  "require_state now t key expected action = require_value now (tx_state t) key expected action"

definition optional_state ::
  "datetime \<Rightarrow> transaction \<Rightarrow> string \<Rightarrow> pytype list \<Rightarrow> pyval \<Rightarrow> string \<Rightarrow> pyexc + pyval" where
  "optional_state now t key types fallback action =
     (if \<not> dict_has (tx_state t) key then Inr fallback
      else require_value now (tx_state t) key (Some types) action)"

definition add_artifact ::
  "string \<Rightarrow> datetime \<Rightarrow> string \<Rightarrow> string \<Rightarrow> string \<Rightarrow> pydict option \<Rightarrow> transaction \<Rightarrow> artifact \<times> transaction" where
  "add_artifact fresh_id now name path kind metadata t =
     (let a = \<lparr>art_name = name, art_path = path, art_kind = kind, art_id = fresh_id, art_created_at = now,
               art_metadata = (case metadata of None \<Rightarrow> [] | Some d \<Rightarrow> d)\<rparr>
      in (a, t\<lparr>tx_artifacts := tx_artifacts t @ [a]\<rparr>))"

end
