(* ===== verification/ConfigClaims.thy ===== *)
theory ConfigClaims
  imports Config
begin

text \<open>
  What a loaded configuration owes its users: the types and ranges of the known keys, stability under
  validation, absolute paths; and what a step gets from its state.
\<close>

section \<open>Typed configurations\<close>

definition durable_path :: "string \<Rightarrow> bool" where
  "durable_path p \<longleftrightarrow> \<not> blank p \<and> strip p \<noteq> '':memory:''"

definition typed_settings :: "pydict \<Rightarrow> bool" where
  "typed_settings c \<longleftrightarrow>
     \<not> dict_has c ''db_path'' \<and>
     (\<exists>n. dict_get c ''max_retries'' = Some (PInt n) \<and> 0 \<le> n) \<and>
     (\<exists>r. dict_get c ''retry_delay'' = Some (PFloat (FinF r)) \<and> 0 \<le> r) \<and>
     (\<exists>r. dict_get c ''retry_backoff'' = Some (PFloat (FinF r)) \<and> 1 \<le> r) \<and>
     (\<exists>s \<in> set log_levels. dict_get c ''log_level'' = Some (PStr s)) \<and>
     (\<exists>s \<in> set log_formats. dict_get c ''log_format'' = Some (PStr s)) \<and>
     (\<exists>p. dict_get c ''transaction_db_path'' = Some (PStr p) \<and> durable_path p) \<and>
     (queue_db_path c = None \<or> (\<exists>p. queue_db_path c = Some (PStr p) \<and> durable_path p)) \<and>
     (\<exists>p. dict_get c ''screenshot_dir'' = Some (PStr p) \<and> (p = [] \<or> durable_path p)) \<and>
     (\<exists>s \<in> set supported_credential_providers. dict_get c ''credential_provider'' = Some (PStr s))"

lemma item_Inr: "item c k = Inr v \<longleftrightarrow> dict_get c k = Some v"
  by (simp add: item_def split: option.split)

lemma max_retries_Inr: "max_retries_value v = Inr () \<longleftrightarrow> (\<exists>n. v = PInt n \<and> 0 \<le> n)"
  by (auto simp: max_retries_value_def split: pyval.splits)

lemma number_value_Inr: "number_value least v = Inr w \<Longrightarrow> \<exists>r. w = PFloat (FinF r) \<and> least \<le> r"
proof -
  assume v: "number_value least v = Inr w"
  show ?thesis
  proof (cases v)
    case (PFloat f)
    with v show ?thesis by (cases f) (auto simp: number_value_def isfinite_def split: if_splits)
  qed (use v in \<open>auto simp: number_value_def split: if_splits\<close>)
qed

lemma number_value_same: "least \<le> r \<Longrightarrow> number_value least (PFloat (FinF r)) = Inr (PFloat (FinF r))"
  by (simp add: number_value_def isfinite_def)

lemma choice_text_Inr: "choice_text f allowed v = Inr w \<longleftrightarrow> (\<exists>s. v = PStr s \<and> f s \<in> set allowed \<and> w = PStr (f s))"
  by (auto simp: choice_text_def split: pyval.splits)

lemma path_Inr: "validate_durable_sqlite_path v = Inr p \<longleftrightarrow> v = PStr p \<and> durable_path p"
  by (auto simp: validate_durable_sqlite_path_def durable_path_def split: pyval.splits)

lemma screenshot_Inr: "screenshot_dir_value v = Inr () \<longleftrightarrow> (\<exists>p. v = PStr p \<and> (p = [] \<or> durable_path p))"
  by (auto simp: screenshot_dir_value_def durable_path_def split: pyval.splits)

lemma queue_path_set: "k \<noteq> ''queue'' \<Longrightarrow> queue_db_path (dict_set c k v) = queue_db_path c"
  by (simp add: queue_db_path_def dict_get_set)

lemma dict_has_set: "dict_has (dict_set c k v) k' \<longleftrightarrow> k' = k \<or> dict_has c k'"
  by (simp add: dict_has_def keys_dict_set)

lemma dict_set_same: "dict_get c k = Some v \<Longrightarrow> dict_set c k v = c"
  by (induction c k v rule: dict_set.induct) (auto simp: dict_get_def split: if_splits)

lemma validated_settings:
  assumes "validate_settings c = Inr c'"
  shows "typed_settings c'"
proof -
  from assms obtain retries delay delay' backoff backoff' level level' form form' path path' shots provider provider' where
    keys: "\<not> dict_has c ''db_path''"
      "dict_get c ''max_retries'' = Some retries" "max_retries_value retries = Inr ()"
      "number_value 0 delay = Inr delay'" "number_value 1 backoff = Inr backoff'"
      "choice_text upper log_levels level = Inr level'" "choice_text lower log_formats form = Inr form'"
      "dict_get c ''transaction_db_path'' = Some path" "validate_durable_sqlite_path path = Inr path'"
      "queue_db_path c = None \<or> (\<exists>v p. queue_db_path c = Some v \<and> validate_durable_sqlite_path v = Inr p)"
      "dict_get c ''screenshot_dir'' = Some shots" "screenshot_dir_value shots = Inr ()"
      "dict_get c ''credential_provider'' = Some provider"
      "choice_text (\<lambda>s. s) supported_credential_providers provider = Inr provider'"
    and c': "c' = dict_set (dict_set (dict_set (dict_set c ''retry_delay'' delay') ''retry_backoff'' backoff')
      ''log_level'' level') ''log_format'' form'"
    by (auto simp: validate_settings_def rbnd_Inr Let_def item_Inr dict_get_set queue_path_set split: if_splits option.splits)
  from keys show ?thesis
    by (auto simp: typed_settings_def c' dict_has_set dict_get_set queue_path_set max_retries_Inr choice_text_Inr path_Inr
        screenshot_Inr dest!: number_value_Inr)
qed

lemma choice_texts: "s \<in> set log_levels \<Longrightarrow> upper s = s" "s \<in> set log_formats \<Longrightarrow> lower s = s"
  by (auto simp: log_levels_def log_formats_def upper_def lower_def upper_char_def lower_char_def is_lower_def code_point_def)

lemma durable_valid: "durable_path p \<Longrightarrow> validate_durable_sqlite_path (PStr p) = Inr p"
  by (simp add: path_Inr)

lemma screenshot_valid: "p = [] \<or> durable_path p \<Longrightarrow> screenshot_dir_value (PStr p) = Inr ()"
  by (simp add: screenshot_Inr)

lemma typed_is_valid: "typed_settings c \<Longrightarrow> validate_settings c = Inr c"
  unfolding typed_settings_def
  by (elim conjE exE bexE disjE)
    (simp_all add: validate_settings_def item_def max_retries_value_def number_value_same dict_set_same choice_text_def
      choice_texts durable_valid screenshot_valid Let_def)

section \<open>Resolved paths\<close>

lemma absolute_durable: "is_absolute p \<Longrightarrow> durable_path p"
proof -
  assume "is_absolute p"
  then obtain q where p: "p = CHR ''/'' # q" by (cases p) (auto simp: is_absolute_def)
  have slash: "\<not> is_space (CHR ''/'')" by (simp add: is_space_def code_point_def)
  have "strip p = CHR ''/'' # rev (dropWhile is_space (rev q))"
    using slash by (simp add: strip_def p dropWhile_append3)
  then show ?thesis by (simp add: durable_path_def blank_def)
qed

lemma join_path_absolute: "is_absolute base \<Longrightarrow> is_absolute (join_path base p)"
  by (cases base) (auto simp: join_path_def Let_def is_absolute_def)

lemma resolved_absolute: "is_absolute base \<Longrightarrow> durable_path p \<Longrightarrow> is_absolute (resolve_config_path_value base p)"
  by (simp add: resolve_config_path_value_def durable_path_def join_path_absolute)

lemma map_of_set_item: "map_of (set_item d k v) (PStr k) = map_option (\<lambda>_. v) (map_of d (PStr k))"
  by (induction d) (auto simp: set_item_def)

lemma queue_path_resolved: "queue_db_path (resolve_queue base c) = map_option (resolve_text base) (queue_db_path c)"
  by (auto simp: queue_db_path_def resolve_queue_def dict_get_set map_of_set_item resolve_text_def
      split: option.splits pyval.splits)

lemma resolve_queue_get: "k \<noteq> ''queue'' \<Longrightarrow> dict_get (resolve_queue base c) k = dict_get c k"
  by (auto simp: resolve_queue_def dict_get_set split: option.splits pyval.splits)

lemma resolve_queue_has: "k \<noteq> ''queue'' \<Longrightarrow> dict_has (resolve_queue base c) k = dict_has c k"
  by (auto simp: resolve_queue_def dict_has_set split: option.splits pyval.splits)

definition absolute_paths :: "pydict \<Rightarrow> bool" where
  "absolute_paths c \<longleftrightarrow>
     (\<exists>p. dict_get c ''transaction_db_path'' = Some (PStr p) \<and> is_absolute p) \<and>
     (queue_db_path c = None \<or> (\<exists>p. queue_db_path c = Some (PStr p) \<and> is_absolute p)) \<and>
     (\<exists>p. dict_get c ''screenshot_dir'' = Some (PStr p) \<and> (p = [] \<or> is_absolute p))"

lemma resolved_settings:
  assumes typed: "typed_settings c" and base: "is_absolute base" and c': "resolve_config_paths base c = Inr c'"
  shows "typed_settings c' \<and> absolute_paths c'"
proof -
  from typed obtain p shots where p: "dict_get c ''transaction_db_path'' = Some (PStr p)" "durable_path p"
    and shots: "dict_get c ''screenshot_dir'' = Some (PStr shots)" "shots = [] \<or> durable_path shots"
    by (auto simp: typed_settings_def)
  define c1 where "c1 = resolve_queue base (dict_set c ''transaction_db_path'' (resolve_text base (PStr p)))"
  have get1: "dict_get c1 k = (if k = ''transaction_db_path'' then Some (PStr (resolve_config_path_value base p)) else dict_get c k)"
    if "k \<noteq> ''queue''" for k
    using that by (simp add: c1_def resolve_queue_get dict_get_set resolve_text_def)
  have c'1: "c' = (if shots = [] then c1 else dict_set c1 ''screenshot_dir'' (PStr (resolve_config_path_value base shots)))"
    using c' by (auto simp: resolve_config_paths_def item_def p(1) Let_def c1_def shots(1) resolve_text_def resolve_queue_get
        dict_get_set split: if_splits)
  have get: "dict_get c' k = (if k = ''transaction_db_path'' then Some (PStr (resolve_config_path_value base p))
      else if k = ''screenshot_dir'' then Some (PStr (if shots = [] then [] else resolve_config_path_value base shots))
      else dict_get c k)" if "k \<noteq> ''queue''" for k
    using get1 [OF that] get1 [of "''screenshot_dir''"] get1 [of "''transaction_db_path''"] shots(1)
    by (auto simp: c'1 dict_get_set)
  have has: "dict_has c' ''db_path'' = dict_has c ''db_path''"
    by (simp add: c'1 c1_def dict_has_set resolve_queue_has)
  have queue: "queue_db_path c' = map_option (resolve_text base) (queue_db_path c)"
    by (simp add: c'1 c1_def queue_path_set queue_path_resolved)
  have abs: "is_absolute (resolve_config_path_value base p)" "shots \<noteq> [] \<Longrightarrow> is_absolute (resolve_config_path_value base shots)"
    using resolved_absolute [OF base] p(2) shots(2) by auto
  have queue_abs: "queue_db_path c' = None \<or> (\<exists>p. queue_db_path c' = Some (PStr p) \<and> is_absolute p)"
    using typed resolved_absolute [OF base] by (auto simp: queue typed_settings_def resolve_text_def)
  have "absolute_paths c'" using abs queue_abs by (simp add: absolute_paths_def get)
  moreover have "typed_settings c'"
    using typed abs queue_abs absolute_durable by (auto simp: typed_settings_def get has)
  ultimately show ?thesis by blast
qed

text \<open>C31: A loaded configuration is well typed: the retry settings are a count and finite numbers in their
  ranges, the log settings and the credential provider are of their vocabularies, the database paths can
  hold a database, and, when it comes from a file, all its paths are absolute. Validating it again
  changes nothing, and its credential provider can be built.\<close>

theorem loaded_configuration_is_typed:
  assumes "load_config base require_file file = Inr c" "is_absolute base"
  shows "typed_settings c \<and> validate_settings c = Inr c \<and> (file \<noteq> None \<longrightarrow> absolute_paths c) \<and>
    (\<exists>v provider. dict_get c ''credential_provider'' = Some v \<and> build_credential_provider v = Inr provider)"
proof -
  have main: "typed_settings c \<and> (file \<noteq> None \<longrightarrow> absolute_paths c)"
  proof (cases "file")
    case None
    then show ?thesis using assms(1) validated_settings by (auto simp: load_config_def split: if_splits)
  next
    case (Some r)
    with assms(1) obtain d c0 where "validate_settings d = Inr c0" "resolve_config_paths base c0 = Inr c"
      by (auto simp: load_config_def rbnd_Inr split: sum.splits)
    with validated_settings resolved_settings assms(2) show ?thesis by blast
  qed
  then show ?thesis
    by (auto simp: typed_is_valid typed_settings_def build_credential_provider_def)
qed

definition demo_source :: pydict where
  "demo_source = [(''log_level'', PStr ''debug''), (''retry_delay'', PInt 2), (''queue'', PDict [(PStr ''db_path'', PStr ''./q//items.db'')])]"

definition demo_loaded :: pydict where
  "demo_loaded = [(''max_retries'', PInt 0), (''retry_delay'', PFloat (FinF 2)), (''retry_backoff'', PFloat (FinF 1)),
     (''log_level'', PStr ''DEBUG''), (''log_format'', PStr ''text''), (''transaction_db_path'', PStr ''/srv/rpacore.db''),
     (''screenshot_dir'', PStr []), (''credential_provider'', PStr ''env''),
     (''queue'', PDict [(PStr ''db_path'', PStr ''/srv/q/items.db'')])]"

lemma demo_config_load: "load_config ''/srv'' False (Some (Inr demo_source)) = Inr demo_loaded"
  by code_simp

theorem loaded_configuration_is_typed_witness: "typed_settings demo_loaded \<and> absolute_paths demo_loaded"
  using loaded_configuration_is_typed [OF demo_config_load] by (simp add: is_absolute_def)

section \<open>State of a step\<close>

lemma plain_conforms: "conforms (plain_checks types) v \<longleftrightarrow> is_instance v types \<and> \<not> is_rejected_bool v types"
  by (simp add: conforms_def plain_checks_def choice_values_def)

text \<open>What a step requires of its state or configuration, it gets with the type it asked for; otherwise it
  gets a system exception that carries its hint, never a Python error.\<close>

theorem required_value_has_type:
  "(require_value now values key expected action = Inr v \<longrightarrow> dict_get values key = Some v \<and>
      (case expected of None \<Rightarrow> True | Some types \<Rightarrow> is_instance v types \<and> \<not> is_rejected_bool v types)) \<and>
   (require_value now values key expected action = Inl e \<longrightarrow>
      (\<exists>x. e = StepExc x \<and> \<not> is_business x \<and> exc_action x = action))"
proof -
  have error: "\<exists>x. repair_error now m action = StepExc x \<and> \<not> is_business x \<and> exc_action x = action" for m
    by (simp add: repair_error_def system_exception_def validate_failure_code_def)
  have "validate_value (plain_checks types) v =
      (if is_instance v types \<and> \<not> is_rejected_bool v types then Inr v else Inl (TypeErr ''expected''))" for types v
    by (simp add: validate_value_def plain_checks_def choice_values_def)
  with error show ?thesis
    by (auto simp: require_value_def require_config_def split: option.splits if_splits)
qed

theorem required_value_has_type_witness:
  "\<exists>x. require_value (utc_datetime 0) [(''rows'', PBool True)] ''rows'' (Some [TInt]) ''fill in rows'' = Inl (StepExc x) \<and>
     \<not> is_business x \<and> exc_action x = ''fill in rows''"
proof (cases "require_value (utc_datetime 0) [(''rows'', PBool True)] ''rows'' (Some [TInt]) ''fill in rows''")
  case (Inl e)
  then show ?thesis using required_value_has_type [of "utc_datetime 0" _ _ "Some [TInt]" "''fill in rows''"] by blast
next
  case (Inr v)
  then show ?thesis
    using required_value_has_type [of "utc_datetime 0" "[(''rows'', PBool True)]" "''rows''" "Some [TInt]" "''fill in rows''" v]
    by (auto simp: dict_get_def is_rejected_bool_def)
qed

end
