(* ===== verification/Report.thy ===== *)
theory Report
  imports Serialization
begin

text \<open>
  Transaction reports (\<open>rpacore/report.py\<close>) and the screenshot links of their HTML form
  (\<open>rpacore/_report_links.py\<close>).

  The record of a report is kept as what its JSON text decodes to, a \<open>payload\<close>. \<open>class_name\<close> gives the name
  of the class of an exception object, which may be a subclass of the two categories. The few
  characters of the source above code point 255 are written as the bytes of their UTF-8 encoding.
\<close>

section \<open>Payloads\<close>

record exc_view =
  ev_type :: string
  ev_message :: string
  ev_retry_number :: int
  ev_action :: string
  ev_screenshot_path :: string
  ev_halts :: bool

record step_view =
  sv_name :: string
  sv_order :: int
  sv_status :: string
  sv_exceptions :: "exc_view list"

record artifact_view =
  av_id :: string
  av_name :: string
  av_path :: string
  av_kind :: string
  av_created_at :: string
  av_metadata :: pydict

record history_view =
  hv_sequence :: int
  hv_timestamp :: string
  hv_event :: string
  hv_status :: string
  hv_retry_number :: int
  hv_step_name :: string
  hv_step_order :: "int option"

record payload =
  pl_generated_at :: string
  pl_complete :: bool
  pl_errors :: "string list"
  pl_id :: string
  pl_reference :: string
  pl_status :: string
  pl_retry_count :: int
  pl_created_at :: string
  pl_started_at :: string
  pl_finished_at :: string
  pl_metadata :: pydict
  pl_category :: string
  pl_disposition :: string
  pl_failure_code :: string
  pl_steps :: "step_view list"
  pl_artifacts :: "artifact_view list"
  pl_history :: "history_view list"
  pl_record :: "pydict option"

section \<open>Reports\<close>

record step_report =
  sr_name :: string
  sr_order :: int
  sr_status :: status
  sr_icon :: string
  sr_exceptions :: "step_exc list"

record tx_report =
  rp_transaction_id :: string
  rp_reference :: string
  rp_status :: status
  rp_retry_count :: int
  rp_steps :: "step_report list"
  rp_outcome :: "outcome_category \<times> retry_disposition \<times> string"
  rp_created_at :: "datetime option"
  rp_started_at :: "datetime option"
  rp_finished_at :: "datetime option"
  rp_metadata :: pydict
  rp_artifacts :: "artifact list"
  rp_history :: "history_entry list"
  rp_transaction_record :: pydict
  rp_generated_at :: datetime
  rp_record :: "payload option"

definition icon_of :: "status \<Rightarrow> string" where
  "icon_of st = (case st of
     SUCCESSFUL \<Rightarrow> [CHR 0xE2, CHR 0x9C, CHR 0x93] | FAILED \<Rightarrow> [CHR 0xE2, CHR 0x9C, CHR 0x97]
   | SKIPPED \<Rightarrow> [CHR 0xE2, CHR 0x8A, CHR 0x98] | _ \<Rightarrow> [CHR 0xE2, CHR 0x8F, CHR 0xB8])"

text \<open>Copies of nested containers; other objects are left as they are.\<close>

fun snapshot_json_value :: "pyval \<Rightarrow> pyval" where
  "snapshot_json_value (PList xs) = PList (map snapshot_json_value xs)"
| "snapshot_json_value (PDict d) = PDict (map (\<lambda>(k, v). (k, snapshot_json_value v)) d)"
| "snapshot_json_value v = v"

definition snapshot_json_mapping :: "pydict \<Rightarrow> pydict" where
  "snapshot_json_mapping d = map (\<lambda>(k, v). (k, snapshot_json_value v)) d"

definition format_dt :: "datetime option \<Rightarrow> string" where
  "format_dt v = (case v of None \<Rightarrow> ''unknown'' | Some d \<Rightarrow> iso_string (isoformat d))"

definition reloaded_dict :: "(rat \<Rightarrow> string) \<Rightarrow> pydict \<Rightarrow> pydict" where
  "reloaded_dict ft d = sort_key fst (map (\<lambda>(k, v). (k, reloaded ft v)) d)"

definition exception_payload :: "(step_exc \<Rightarrow> string) \<Rightarrow> step_exc \<Rightarrow> exc_view" where
  "exception_payload class_name e = \<lparr>ev_type = class_name e, ev_message = exc_message e,
     ev_retry_number = exc_retry_number e, ev_action = exc_action e, ev_screenshot_path = exc_screenshot_path e,
     ev_halts = halts_remaining_steps e\<rparr>"

definition history_payload :: "history_entry \<Rightarrow> history_view" where
  "history_payload h = \<lparr>hv_sequence = he_sequence h, hv_timestamp = iso_string (isoformat (he_timestamp h)),
     hv_event = event_value (he_event h), hv_status = status_value (he_status h), hv_retry_number = he_retry_number h,
     hv_step_name = he_step_name h, hv_step_order = he_step_order h\<rparr>"

definition artifact_payload :: "(rat \<Rightarrow> string) \<Rightarrow> artifact \<Rightarrow> artifact_view" where
  "artifact_payload ft a = \<lparr>av_id = art_id a, av_name = art_name a, av_path = art_path a, av_kind = art_kind a,
     av_created_at = iso_string (isoformat (art_created_at a)),
     av_metadata = reloaded_dict ft (snapshot_json_mapping (art_metadata a))\<rparr>"

text \<open>What every record says, and the record of a report whose metadata is no JSON.\<close>

definition payload_header :: "tx_report \<Rightarrow> payload" where
  "payload_header r = \<lparr>pl_generated_at = iso_string (isoformat (rp_generated_at r)), pl_complete = False,
     pl_errors = [''rpacore.report.record_serialization_failed''], pl_id = rp_transaction_id r,
     pl_reference = rp_reference r, pl_status = status_value (rp_status r), pl_retry_count = rp_retry_count r,
     pl_created_at = format_dt (rp_created_at r), pl_started_at = format_dt (rp_started_at r),
     pl_finished_at = format_dt (rp_finished_at r), pl_metadata = [],
     pl_category = outcome_value (fst (rp_outcome r)), pl_disposition = disposition_value (fst (snd (rp_outcome r))),
     pl_failure_code = snd (snd (rp_outcome r)), pl_steps = [], pl_artifacts = [], pl_history = [], pl_record = None\<rparr>"

definition build_report_record :: "(rat \<Rightarrow> string) \<Rightarrow> (step_exc \<Rightarrow> string) \<Rightarrow> tx_report \<Rightarrow> payload" where
  "build_report_record ft class_name r =
     (let failed = (rp_transaction_record r = []) in
      if sorted_dumpable (of_dict (snapshot_json_mapping (rp_metadata r))) \<and>
         list_all (\<lambda>a. sorted_dumpable (of_dict (snapshot_json_mapping (art_metadata a)))) (rp_artifacts r) \<and>
         sorted_dumpable (of_dict (rp_transaction_record r))
      then (payload_header r)\<lparr>pl_complete := \<not> failed,
        pl_errors := (if failed then [''rpacore.report.transaction_serialization_failed''] else []),
        pl_metadata := reloaded_dict ft (snapshot_json_mapping (rp_metadata r)),
        pl_steps := map (\<lambda>s. \<lparr>sv_name = sr_name s, sv_order = sr_order s, sv_status = status_value (sr_status s),
          sv_exceptions = map (exception_payload class_name) (sr_exceptions s)\<rparr>) (rp_steps r),
        pl_artifacts := map (artifact_payload ft) (rp_artifacts r),
        pl_history := map history_payload (rp_history r),
        pl_record := (if failed then None else Some (reloaded_dict ft (rp_transaction_record r)))\<rparr>
      else payload_header r)"

definition caught_by_report :: "pyexc \<Rightarrow> bool" where
  "caught_by_report e \<longleftrightarrow> is_type_error e \<or> is_value_error e"

text \<open>The reading of the clock is \<open>now\<close>. An exception other than a \<open>TypeError\<close> or a \<open>ValueError\<close> is raised.\<close>

definition generate_report ::
  "(rat \<Rightarrow> string) \<Rightarrow> (step_exc \<Rightarrow> string) \<Rightarrow> datetime \<Rightarrow> transaction \<Rightarrow> pyexc + tx_report" where
  "generate_report ft class_name now t =
     rbnd (case serialize_transaction t of
             Inr d \<Rightarrow> Inr d | Inl e \<Rightarrow> (if caught_by_report e then Inr [] else Inl e)) (\<lambda>transaction_record.
     let report = \<lparr>rp_transaction_id = tx_id t, rp_reference = tx_reference t, rp_status = tx_status t,
       rp_retry_count = tx_retry_count t,
       rp_steps = map (\<lambda>s. \<lparr>sr_name = st_name s, sr_order = st_order s, sr_status = st_status s,
         sr_icon = icon_of (st_status s), sr_exceptions = st_exceptions s\<rparr>) (ordered_steps t),
       rp_outcome = (tx_outcome t, tx_disposition t, tx_failure_code t),
       rp_created_at = tx_created_at t, rp_started_at = tx_started_at t, rp_finished_at = tx_finished_at t,
       rp_metadata = snapshot_json_mapping (tx_metadata t),
       rp_artifacts = map (\<lambda>a. a\<lparr>art_metadata := snapshot_json_mapping (art_metadata a)\<rparr>) (tx_artifacts t),
       rp_history = tx_history t, rp_transaction_record = transaction_record, rp_generated_at = now, rp_record = None\<rparr>
     in Inr (report\<lparr>rp_record := Some (build_report_record ft class_name report)\<rparr>))"

text \<open>
  The metadata as the objects it is made of, which may contain themselves: copying them recurses, and Python
  raises \<open>RecursionError\<close> when the frames of its stack run out. Keys of dictionaries are hashable, so no
  containers. The copies are trees.
\<close>

fun leaf_value :: "pyref \<Rightarrow> pyval" where
  "leaf_value RNone = PNone"
| "leaf_value (RBool b) = PBool b"
| "leaf_value (RInt n) = PInt n"
| "leaf_value (RFloat f) = PFloat f"
| "leaf_value (RStr s) = PStr s"
| "leaf_value (RRef _) = POther ''object''"
| "leaf_value (ROther c) = POther c"

primrec snapshot_ref :: "nat \<Rightarrow> heap \<Rightarrow> pyref \<Rightarrow> pyexc + pyval" where
  "snapshot_ref 0 h v = Inl (OtherException ''RecursionError'')"
| "snapshot_ref (Suc frames) h v = (case v of
     RRef r \<Rightarrow>
       (case map_of h r of
          Some (HList xs) \<Rightarrow> map_sum id PList (decode_rows (snapshot_ref frames h) xs)
        | Some (HDict kvs) \<Rightarrow>
            map_sum id PDict (decode_rows (\<lambda>(k, x). map_sum id (Pair (leaf_value k)) (snapshot_ref frames h x)) kvs)
        | None \<Rightarrow> Inl (RuntimeErr ''no such object''))
   | _ \<Rightarrow> Inr (leaf_value v))"

definition mapping_of :: "pyval \<Rightarrow> pydict" where
  "mapping_of v = (case dict_of v of Some d \<Rightarrow> d | None \<Rightarrow> [])"

definition with_metadata :: "pyval \<Rightarrow> pyval list \<Rightarrow> transaction \<Rightarrow> transaction" where
  "with_metadata m ams t = t\<lparr>tx_metadata := mapping_of m,
     tx_artifacts := map (\<lambda>(a, v). a\<lparr>art_metadata := mapping_of v\<rparr>) (zip (tx_artifacts t) ams)\<rparr>"

text \<open>\<open>generate_report\<close> of a transaction with these objects as its metadata and that of its artifacts.\<close>

definition generate_report_of_objects ::
  "(rat \<Rightarrow> string) \<Rightarrow> (step_exc \<Rightarrow> string) \<Rightarrow> datetime \<Rightarrow> nat \<Rightarrow> heap \<Rightarrow> pyref \<Rightarrow> pyref list \<Rightarrow> transaction \<Rightarrow>
   pyexc + tx_report" where
  "generate_report_of_objects ft class_name now frames h metadata artifact_metadata t =
     rbnd (decode_rows (snapshot_ref frames h) artifact_metadata) (\<lambda>ams.
     rbnd (snapshot_ref frames h metadata) (\<lambda>m. generate_report ft class_name now (with_metadata m ams t)))"

text \<open>The record the renderers read.\<close>

definition record_payload :: "(rat \<Rightarrow> string) \<Rightarrow> (step_exc \<Rightarrow> string) \<Rightarrow> tx_report \<Rightarrow> payload" where
  "record_payload ft class_name r = (case rp_record r of None \<Rightarrow> build_report_record ft class_name r | Some p \<Rightarrow> p)"

text \<open>The copy an observer gets.\<close>

definition snapshot_report :: "tx_report \<Rightarrow> tx_report" where
  "snapshot_report r = r\<lparr>rp_metadata := snapshot_json_mapping (rp_metadata r),
     rp_artifacts := map (\<lambda>a. a\<lparr>art_metadata := snapshot_json_mapping (art_metadata a)\<rparr>) (rp_artifacts r),
     rp_transaction_record := snapshot_json_mapping (rp_transaction_record r)\<rparr>"

end
