(* ===== verification/ReportRender.thy ===== *)
theory ReportRender
  imports Report
begin

text \<open>
  The plain-text and the HTML form of a report (\<open>render_text\<close>, \<open>render_html\<close>), and the links to local
  screenshots. A \<open>string.Template\<close> of the source is a function of its variables.
\<close>

section \<open>Plain text\<close>

definition newline :: string where
  "newline = [CHR 0x0A]"

definition dash :: string where
  "dash = [CHR 0xE2, CHR 0x80, CHR 0x94]"

definition status_icon :: "string \<Rightarrow> string" where
  "status_icon st = (case status_of st of None \<Rightarrow> ''?'' | Some s \<Rightarrow> icon_of s)"

definition exc_kind :: "exc_view \<Rightarrow> string" where
  "exc_kind e = (if ev_type e = ''BusinessException'' then ''BIZ'' else ''SYS'')"

definition halt_text :: "exc_view \<Rightarrow> string" where
  "halt_text e = (if ev_halts e then '' halts_remaining_steps=true'' else [])"

definition int_or_none :: "int option \<Rightarrow> string" where
  "int_or_none x = (case x of None \<Rightarrow> ''None'' | Some n \<Rightarrow> show_int n)"

definition optional_line :: "string \<Rightarrow> string \<Rightarrow> string list" where
  "optional_line label v = (if v = [] then [] else [label @ v])"

definition exception_lines :: "exc_view \<Rightarrow> string list" where
  "exception_lines e =
     [''      ['' @ exc_kind e @ ''] retry='' @ show_int (ev_retry_number e) @ halt_text e @ '': '' @ ev_message e] @
     optional_line ''             action: '' (ev_action e) @
     optional_line ''             screenshot: '' (ev_screenshot_path e)"

definition step_lines :: "step_view \<Rightarrow> string list" where
  "step_lines s =
     [''  ['' @ status_icon (sv_status s) @ ''] '' @ sv_name s @ '' (order '' @ show_int (sv_order s) @ '') '' @ dash @ '' '' @ sv_status s] @
     concat (map exception_lines (sv_exceptions s))"

definition metadata_lines :: "(rat \<Rightarrow> string) \<Rightarrow> string \<Rightarrow> pydict \<Rightarrow> string list" where
  "metadata_lines ft indent d =
     map (\<lambda>(k, v). indent @ k @ '': '' @ format_json_value ft v) (sort_key fst d)"

definition artifact_lines :: "(rat \<Rightarrow> string) \<Rightarrow> artifact_view \<Rightarrow> string list" where
  "artifact_lines ft a =
     [''  '' @ av_name a @ (if av_kind a = [] then [] else '' kind='' @ av_kind a) @ '' path='' @ av_path a @
       '' created='' @ av_created_at a] @
     metadata_lines ft ''    '' (av_metadata a)"

definition history_step :: "(string \<Rightarrow> string) \<Rightarrow> history_view \<Rightarrow> string" where
  "history_step esc h = (if hv_step_name h = [] then []
     else '' step='' @ esc (hv_step_name h) @ '' order='' @ int_or_none (hv_step_order h))"

definition history_line :: "history_view \<Rightarrow> string" where
  "history_line h = ''  #'' @ show_int (hv_sequence h) @ '' '' @ hv_timestamp h @ '' '' @ hv_event h @ '' status='' @ hv_status h @
     '' retry='' @ show_int (hv_retry_number h) @ history_step (\<lambda>s. s) h"

definition error_codes :: "payload \<Rightarrow> string" where
  "error_codes p = joined '', '' (case filter (\<lambda>c. c \<noteq> []) (pl_errors p) of [] \<Rightarrow> [''unknown''] | cs \<Rightarrow> cs)"

definition section_lines :: "string \<Rightarrow> string list \<Rightarrow> string list" where
  "section_lines title ls = (if ls = [] then [] else [[], title] @ ls)"

definition text_lines :: "(rat \<Rightarrow> string) \<Rightarrow> payload \<Rightarrow> string list" where
  "text_lines ft p =
     [''Transaction: '' @ pl_reference p @ '' ('' @ pl_id p @ '')'',
      ''Status:      '' @ pl_status p @ ''  Retries: '' @ show_int (pl_retry_count p),
      ''Outcome:     '' @ pl_category p @ ''  Retry disposition: '' @ pl_disposition p] @
     optional_line ''Failure code: '' (pl_failure_code p) @
     (if pl_complete p then [] else [''Report record incomplete: '' @ error_codes p]) @
     [''Created:     '' @ pl_created_at p, ''Started:     '' @ pl_started_at p, ''Finished:    '' @ pl_finished_at p,
      ''Generated:   '' @ pl_generated_at p, []] @
     concat (map step_lines (pl_steps p)) @
     section_lines ''Metadata:'' (metadata_lines ft ''  '' (pl_metadata p)) @
     section_lines ''Artifacts:'' (concat (map (artifact_lines ft) (pl_artifacts p))) @
     section_lines ''History:'' (map history_line (pl_history p))"

definition render_text :: "(rat \<Rightarrow> string) \<Rightarrow> (step_exc \<Rightarrow> string) \<Rightarrow> tx_report \<Rightarrow> string" where
  "render_text ft class_name r = joined newline (text_lines ft (record_payload ft class_name r))"

section \<open>Escaping\<close>

definition replace_char :: "char \<Rightarrow> string \<Rightarrow> string \<Rightarrow> string" where
  "replace_char c new s = concat (map (\<lambda>x. if x = c then new else [x]) s)"

definition esc :: "string \<Rightarrow> string" where
  "esc s = replace_char CHR 0x22 ''&quot;'' (replace_char CHR ''>'' ''&gt;''
     (replace_char CHR ''<'' ''&lt;'' (replace_char CHR ''&'' ''&amp;'' s)))"

text \<open>\<open>html.escape(s, quote=True)\<close>.\<close>

definition html_escape :: "string \<Rightarrow> string" where
  "html_escape s = replace_char CHR 0x27 ''&#x27;'' (esc s)"

section \<open>Screenshot links\<close>

text \<open>The UTF-8 encoding, percent-encoded outside the unreserved characters and the slash.\<close>

definition utf8 :: "char \<Rightarrow> nat list" where
  "utf8 c = (if code_point c < 128 then [code_point c] else [192 + code_point c div 64, 128 + code_point c mod 64])"

definition hex_upper :: "nat \<Rightarrow> char" where
  "hex_upper n = (if n < 10 then char_of (48 + n) else char_of (55 + n))"

definition is_letter :: "char \<Rightarrow> bool" where
  "is_letter c \<longleftrightarrow> is_lower c \<or> (65 \<le> code_point c \<and> code_point c \<le> 90)"

definition unreserved :: "char \<Rightarrow> bool" where
  "unreserved c \<longleftrightarrow> is_letter c \<or> is_digit c \<or> c \<in> set ''_.-~/''"

definition quote_path :: "string \<Rightarrow> string" where
  "quote_path s = concat (map (\<lambda>c. if unreserved c then [c]
     else concat (map (\<lambda>b. [CHR ''%'', hex_upper (b div 16), hex_upper (b mod 16)]) (utf8 c))) s)"

definition has_drive :: "string \<Rightarrow> bool" where
  "has_drive p \<longleftrightarrow> 3 \<le> length p \<and> is_letter (p ! 0) \<and> p ! 1 = CHR '':'' \<and> p ! 2 \<in> {CHR ''/'', CHR 0x5C}"

text \<open>\<open>re.match(r"^[A-Za-z][A-Za-z0-9+.-]*:", path)\<close>.\<close>

definition has_scheme :: "string \<Rightarrow> bool" where
  "has_scheme p = (case p of [] \<Rightarrow> False | c # q \<Rightarrow> is_letter c \<and>
     (case dropWhile (\<lambda>x. is_letter x \<or> is_digit x \<or> x \<in> set ''+.-'') q of [] \<Rightarrow> False | x # _ \<Rightarrow> x = CHR '':''))"

text \<open>\<open>PureWindowsPath(path).as_uri()\<close> of a path with a drive and a root.\<close>

definition windows_uri :: "string \<Rightarrow> string" where
  "windows_uri normalized = ''file:///'' @ take 2 normalized @
     quote_path (''/'' @ join_on CHR ''/'' (filter (\<lambda>w. w \<noteq> [] \<and> w \<noteq> ''.'') (split_on CHR ''/'' (drop 3 normalized))))"

definition link_target :: "string \<Rightarrow> string" where
  "link_target path = (let normalized = replace_char CHR 0x5C ''/'' path in
     if path = strip path \<and> list_all (\<lambda>c. 32 \<le> code_point c \<and> code_point c \<noteq> 127) path \<and>
        take 1 path \<noteq> [CHR 0x5C] \<and> take 2 normalized \<noteq> ''//''
     then (if has_drive path then windows_uri normalized
           else if \<not> has_scheme path then quote_path normalized else [])
     else [])"

definition screenshot_html :: "string \<Rightarrow> string" where
  "screenshot_html path = (if path = [] then []
     else if link_target path \<noteq> []
     then ''<br><a href='' @ [CHR 0x22] @ html_escape (link_target path) @ [CHR 0x22] @ ''>screenshot</a>''
     else ''<br>screenshot: '' @ html_escape path)"

section \<open>Templates\<close>

text \<open>Texts that are HTML already; the other arguments of a template are plain and escaped by the caller.\<close>

type_synonym markup = string

definition quote :: string where
  "quote = [CHR 0x22]"

definition html_css :: string where
  "html_css =
     ''body{font-family:monospace;padding:1rem;max-width:900px;margin:auto}'' @ newline @
     ''h2{margin-bottom:.25rem}'' @ newline @
     ''.step{margin:.5rem 0;padding:.5rem;border:1px solid #ccc;border-radius:4px}'' @ newline @
     ''.successful{border-color:#4caf50}.failed{border-color:#f44336}'' @ newline @
     ''.skipped{border-color:#9e9e9e}.pending{border-color:#ff9800}'' @ newline @
     ''.in-progress{border-color:#2196f3}'' @ newline @ ''.exc{margin:.25rem 0 .25rem 1.5rem;font-size:.9em}'' @
     newline @ ''.biz{color:#e65100}.sys{color:#b71c1c}'' @ newline @
     ''.metadata{margin-top:1rem}.metadata li{margin:.25rem 0}'' @ newline @
     ''.artifacts{margin-top:1rem}.artifacts li{margin:.25rem 0}'' @ newline @
     ''.history{margin-top:1rem}.history li{margin:.25rem 0}'' @ newline"

definition exc_template :: "string \<Rightarrow> string \<Rightarrow> string \<Rightarrow> string \<Rightarrow> markup \<Rightarrow> markup \<Rightarrow> markup" where
  "exc_template exc_class kd retry_number msg action_html shot =
     ''<div class='' @ quote @ ''exc '' @ exc_class @ quote @ ''><strong>['' @ kd @ '']</strong> retry='' @
     retry_number @ '': '' @ msg @ action_html @ shot @ ''</div>''"

definition step_template :: "string \<Rightarrow> string \<Rightarrow> string \<Rightarrow> string \<Rightarrow> string \<Rightarrow> markup \<Rightarrow> markup" where
  "step_template css_class ic nm execution_order st exceptions_html =
     ''<div class='' @ quote @ ''step '' @ css_class @ quote @ ''>'' @ newline @ ''  <strong>'' @ ic @ '' '' @ nm @
     ''</strong> (order '' @ execution_order @ '') &mdash; '' @ st @ newline @ ''  '' @ exceptions_html @ newline @
     ''</div>''"

definition history_item_template :: "string \<Rightarrow> string \<Rightarrow> string \<Rightarrow> string \<Rightarrow> string \<Rightarrow> string \<Rightarrow> markup" where
  "history_item_template sq timestamp evt st retry_number stp =
     ''    <li><code>#'' @ sq @ ''</code> '' @ timestamp @ '' '' @ evt @ '' status='' @ st @ '' retry='' @
     retry_number @ stp @ ''</li>''"

definition history_template :: "string \<Rightarrow> string" where
  "history_template history_items =
     ''<section class='' @ quote @ ''history'' @ quote @ ''>'' @ newline @ ''  <h3>History</h3>'' @ newline @
     ''  <ol>'' @ newline @ history_items @ newline @ ''  </ol>'' @ newline @ ''</section>''"

definition metadata_item_template :: "string \<Rightarrow> string \<Rightarrow> string" where
  "metadata_item_template ky vl =
     ''    <li><code>'' @ ky @ ''</code>: '' @ vl @ ''</li>''"

definition metadata_template :: "string \<Rightarrow> string" where
  "metadata_template metadata_items =
     ''<section class='' @ quote @ ''metadata'' @ quote @ ''>'' @ newline @ ''  <h3>Metadata</h3>'' @ newline @
     ''  <ul>'' @ newline @ metadata_items @ newline @ ''  </ul>'' @ newline @ ''</section>''"

definition artifact_item_template :: "string \<Rightarrow> string \<Rightarrow> string \<Rightarrow> string \<Rightarrow> string \<Rightarrow> string" where
  "artifact_item_template nm kd pth created_at meta =
     ''    <li><strong>'' @ nm @ ''</strong>'' @ kd @ '' path=<code>'' @ pth @ ''</code> created='' @ created_at @
     meta @ ''</li>''"

definition artifacts_template :: "string \<Rightarrow> string" where
  "artifacts_template artifact_items =
     ''<section class='' @ quote @ ''artifacts'' @ quote @ ''>'' @ newline @ ''  <h3>Artifacts</h3>'' @ newline @
     ''  <ul>'' @ newline @ artifact_items @ newline @ ''  </ul>'' @ newline @ ''</section>''"

definition html_template :: "string \<Rightarrow> string \<Rightarrow> string \<Rightarrow> string \<Rightarrow> string \<Rightarrow> string \<Rightarrow> markup \<Rightarrow> markup \<Rightarrow>
  string \<Rightarrow> string \<Rightarrow> string \<Rightarrow> string \<Rightarrow> markup \<Rightarrow> markup \<Rightarrow> markup \<Rightarrow> markup \<Rightarrow> markup" where
  "html_template reference st retry_count generated_at outcome_category retry_disposition failure_code_html
     report_error_html created_at started_at finished_at transaction_id steps_html metadata_html artifacts_html
     history_html =
     ''<!DOCTYPE html>'' @ newline @ ''<html lang='' @ quote @ ''en'' @ quote @ ''>'' @ newline @ ''<head>'' @
     newline @ ''<meta charset='' @ quote @ ''utf-8'' @ quote @ ''>'' @ newline @
     ''<title>rpacore Report &mdash; '' @ reference @ ''</title>'' @ newline @ ''<style>'' @ newline @ html_css @
     ''</style>'' @ newline @ ''</head>'' @ newline @ ''<body>'' @ newline @ ''<h2>'' @ reference @ ''</h2>'' @
     newline @ ''<p>Status: <strong>'' @ st @ ''</strong> &nbsp; Retries: '' @ retry_count @
     '' &nbsp; Generated: '' @ generated_at @ ''</p>'' @ newline @ ''<p>Outcome: <strong>'' @ outcome_category @
     ''</strong> &nbsp; Retry disposition: '' @ retry_disposition @ ''</p>'' @ failure_code_html @
     report_error_html @ newline @ ''<p>Created: '' @ created_at @ '' &nbsp; Started: '' @ started_at @
     '' &nbsp; Finished: '' @ finished_at @ ''</p>'' @ newline @ ''<p>ID: <code>'' @ transaction_id @
     ''</code></p>'' @ newline @ steps_html @ newline @ metadata_html @ newline @ artifacts_html @ newline @
     history_html @ newline @ ''</body>'' @ newline @ ''</html>''"

section \<open>HTML\<close>

definition exc_html :: "exc_view \<Rightarrow> string" where
  "exc_html e = exc_template (if exc_kind e = ''BIZ'' then ''biz'' else ''sys'') (exc_kind e)
     (show_int (ev_retry_number e) @ halt_text e) (esc (ev_message e))
     (if ev_action e = [] then [] else '' &mdash; action: '' @ esc (ev_action e))
     (screenshot_html (ev_screenshot_path e))"

definition step_html :: "step_view \<Rightarrow> string" where
  "step_html s = step_template (replace_char CHR ''_'' ''-'' (sv_status s)) (status_icon (sv_status s)) (esc (sv_name s))
     (show_int (sv_order s)) (sv_status s) (joined (newline @ ''  '') (map exc_html (sv_exceptions s)))"

definition history_item_html :: "history_view \<Rightarrow> string" where
  "history_item_html h = history_item_template (show_int (hv_sequence h)) (esc (hv_timestamp h)) (esc (hv_event h))
     (esc (hv_status h)) (show_int (hv_retry_number h)) (history_step esc h)"

definition metadata_item_html :: "(rat \<Rightarrow> string) \<Rightarrow> string \<times> pyval \<Rightarrow> string" where
  "metadata_item_html ft kv = metadata_item_template (esc (fst kv)) (esc (format_json_value ft (snd kv)))"

definition artifact_metadata_html :: "(rat \<Rightarrow> string) \<Rightarrow> pydict \<Rightarrow> string" where
  "artifact_metadata_html ft d = (if d = [] then [] else '' metadata='' @ joined ''; '' (map (\<lambda>kv.
     esc (fst kv) @ ''='' @ esc (format_json_value ft (snd kv))) (sort_key fst d)))"

definition artifact_item_html :: "(rat \<Rightarrow> string) \<Rightarrow> artifact_view \<Rightarrow> string" where
  "artifact_item_html ft a = artifact_item_template (esc (av_name a))
     (if av_kind a = [] then [] else '' kind='' @ esc (av_kind a)) (esc (av_path a)) (esc (av_created_at a))
     (artifact_metadata_html ft (av_metadata a))"

definition html_section :: "(string \<Rightarrow> string) \<Rightarrow> string list \<Rightarrow> string" where
  "html_section template items = (if items = [] then [] else template (joined newline items))"

definition failure_code_html :: "payload \<Rightarrow> string" where
  "failure_code_html p = (if pl_failure_code p = [] then []
     else newline @ ''<p>Failure code: <code>'' @ esc (pl_failure_code p) @ ''</code></p>'')"

definition report_error_html :: "payload \<Rightarrow> string" where
  "report_error_html p = (if pl_complete p then []
     else newline @ ''<p>Report record incomplete: <code>'' @ esc (error_codes p) @ ''</code></p>'')"

definition payload_html :: "(rat \<Rightarrow> string) \<Rightarrow> payload \<Rightarrow> string" where
  "payload_html ft p = html_template (esc (pl_reference p)) (pl_status p) (show_int (pl_retry_count p))
     (esc (pl_generated_at p)) (esc (pl_category p)) (esc (pl_disposition p)) (failure_code_html p) (report_error_html p)
     (esc (pl_created_at p)) (esc (pl_started_at p)) (esc (pl_finished_at p)) (esc (pl_id p))
     (joined newline (map step_html (pl_steps p)))
     (html_section metadata_template (map (metadata_item_html ft) (sort_key fst (pl_metadata p))))
     (html_section artifacts_template (map (artifact_item_html ft) (pl_artifacts p)))
     (html_section history_template (map history_item_html (pl_history p)))"

definition render_html :: "(rat \<Rightarrow> string) \<Rightarrow> (step_exc \<Rightarrow> string) \<Rightarrow> tx_report \<Rightarrow> string" where
  "render_html ft class_name r = payload_html ft (record_payload ft class_name r)"

end
