(* ===== verification/ReportClaims.thy ===== *)
theory ReportClaims
  imports ReportRender
begin

text \<open>
  What reports promise: they repeat the transaction or say that they could not; no text of a transaction
  becomes markup of the HTML report; and its links lead to local files.
\<close>

section \<open>The markup of a document\<close>

text \<open>A scan of HTML: outside tags, inside a tag, inside a quoted attribute value.\<close>

datatype mode = Out | Tag | Quoted

fun next_mode :: "mode \<Rightarrow> char \<Rightarrow> mode" where
  "next_mode Out c = (if c = CHR ''<'' then Tag else Out)"
| "next_mode Tag c = (if c = CHR ''>'' then Out else if c = CHR 0x22 then Quoted else Tag)"
| "next_mode Quoted c = (if c = CHR 0x22 then Tag else Quoted)"

text \<open>All tags with their attributes, without the text between them and inside the quotes.\<close>

fun outline :: "mode \<Rightarrow> string \<Rightarrow> string" where
  "outline m [] = []"
| "outline m (c # s) =
     (if m = Tag \<or> (m = Out \<and> c = CHR ''<'') \<or> (m = Quoted \<and> c = CHR 0x22) then [c] else []) @ outline (next_mode m c) s"

definition after :: "mode \<Rightarrow> string \<Rightarrow> mode" where
  "after m s = fold (\<lambda>c m. next_mode m c) s m"

lemma after_simps [simp]: "after m [] = m" "after m (c # s) = after (next_mode m c) s"
  by (simp_all add: after_def)

lemma after_append [simp]: "after m (s @ t) = after (after m s) t"
  by (simp add: after_def)

lemma outline_append [simp]: "outline m (s @ t) = outline m s @ outline (after m s) t"
  by (induction m s rule: outline.induct) simp_all

lemma outside: "CHR ''<'' \<notin> set s \<Longrightarrow> outline Out s = [] \<and> after Out s = Out"
  by (induction s) auto

lemma quoted: "CHR 0x22 \<notin> set s \<Longrightarrow> outline Quoted s = [] \<and> after Quoted s = Quoted"
  by (induction s) auto

text \<open>Two texts with the same markup, between tags and inside quotes.\<close>

definition alike :: "string \<Rightarrow> string \<Rightarrow> bool" where
  "alike a b \<longleftrightarrow> after Out a = Out \<and> after Out b = Out \<and> outline Out a = outline Out b"

definition alike_quoted :: "string \<Rightarrow> string \<Rightarrow> bool" where
  "alike_quoted a b \<longleftrightarrow> after Quoted a = Quoted \<and> after Quoted b = Quoted \<and> outline Quoted a = outline Quoted b"

lemma alike_plain: "CHR ''<'' \<notin> set a \<Longrightarrow> CHR ''<'' \<notin> set b \<Longrightarrow> alike a b"
  by (simp add: alike_def outside)

lemma alike_append: "alike a b \<Longrightarrow> alike c d \<Longrightarrow> alike (a @ c) (b @ d)"
  by (simp add: alike_def)

lemma alike_quoted_plain: "CHR 0x22 \<notin> set a \<Longrightarrow> CHR 0x22 \<notin> set b \<Longrightarrow> alike_quoted a b"
  by (simp add: alike_quoted_def quoted)

lemma alike_joined: "CHR ''<'' \<notin> set sep \<Longrightarrow> list_all2 alike xs ys \<Longrightarrow> alike (joined sep xs) (joined sep ys)"
proof (induction xs arbitrary: ys rule: induct_list012)
  case (3 x y zs)
  then obtain u v ws where ys: "ys = u # v # ws" by (auto simp: list_all2_Cons1)
  have "alike (joined sep (y # zs)) (joined sep (v # ws))" using 3 by (simp add: ys)
  moreover have "alike x u" "alike sep sep" using 3 by (simp_all add: ys alike_plain)
  ultimately show ?case by (simp add: ys alike_def)
qed (auto simp: list_all2_Cons1 alike_plain)

section \<open>Escaped texts\<close>

lemma set_replace: "x \<in> set (replace_char c new s) \<Longrightarrow> x \<in> set new \<or> (x \<in> set s \<and> x \<noteq> c)"
  by (auto simp: replace_char_def split: if_splits)

lemma esc_clean: "CHR ''<'' \<notin> set (esc s)" "CHR ''>'' \<notin> set (esc s)" "CHR 0x22 \<notin> set (esc s)"
  by (auto simp: esc_def dest!: set_replace)

lemma html_escape_clean: "CHR ''<'' \<notin> set (html_escape s)" "CHR 0x22 \<notin> set (html_escape s)"
  using esc_clean [of s] by (auto simp: html_escape_def dest!: set_replace)

lemma digits_clean: "x \<in> set (show_nat n) \<Longrightarrow> \<exists>d < 10. x = digit_char d"
proof (induction n rule: show_nat.induct)
  case (1 n)
  show ?case
  proof (cases "n < 10")
    case True
    then have "x = digit_char n" using 1(2) by (simp add: show_nat.simps [of n])
    with True show ?thesis by blast
  next
    case False
    then have "x \<in> set (show_nat (n div 10)) \<or> x = digit_char (n mod 10)" using 1(2) by (auto simp: show_nat.simps [of n])
    moreover have "n mod 10 < 10" by simp
    ultimately show ?thesis using 1(1) False by blast
  qed
qed

lemma digit_plain: "d < 10 \<Longrightarrow> digit_char d \<noteq> CHR ''<''"
proof
  assume d: "d < 10" and "digit_char d = CHR ''<''"
  then have "(of_char (digit_char d) :: nat) = of_char CHR ''<''" by simp
  then have "(48 + d) mod 256 = (60 :: nat)" by (simp add: digit_char_def)
  with d show False by simp
qed

lemma show_int_clean: "CHR ''<'' \<notin> set (show_int n)"
proof -
  have "CHR ''<'' \<notin> set (show_nat m)" for m by (metis digits_clean digit_plain)
  then show ?thesis by (simp add: show_int_def)
qed

lemma status_clean: "CHR ''<'' \<notin> set (status_value st)" "CHR 0x22 \<notin> set (status_value st)"
  by (cases st; simp)+

lemma icon_clean: "CHR ''<'' \<notin> set (status_icon s)"
  by (auto simp: status_icon_def icon_of_def split: option.splits status.splits)

section \<open>Templates\<close>

lemma css_clean: "CHR ''<'' \<notin> set html_css"
  by (simp add: html_css_def newline_def)

lemmas scan_simps = alike_def alike_quoted_def quote_def newline_def

lemma exc_template_alike:
  "alike_quoted c c' \<Longrightarrow> alike k k' \<Longrightarrow> alike r r' \<Longrightarrow> alike m m' \<Longrightarrow> alike a a' \<Longrightarrow> alike s s' \<Longrightarrow>
   alike (exc_template c k r m a s) (exc_template c' k' r' m' a' s')"
  by (simp add: scan_simps exc_template_def)

lemma step_template_alike:
  "alike_quoted c c' \<Longrightarrow> alike i i' \<Longrightarrow> alike n n' \<Longrightarrow> alike r r' \<Longrightarrow> alike s s' \<Longrightarrow> alike e e' \<Longrightarrow>
   alike (step_template c i n r s e) (step_template c' i' n' r' s' e')"
  by (simp add: scan_simps step_template_def)

lemma history_item_template_alike:
  "alike a a' \<Longrightarrow> alike b b' \<Longrightarrow> alike c c' \<Longrightarrow> alike d d' \<Longrightarrow> alike e e' \<Longrightarrow> alike f f' \<Longrightarrow>
   alike (history_item_template a b c d e f) (history_item_template a' b' c' d' e' f')"
  by (simp add: scan_simps history_item_template_def)

lemma item_templates_alike:
  "alike a a' \<Longrightarrow> alike b b' \<Longrightarrow> alike (metadata_item_template a b) (metadata_item_template a' b')"
  "alike a a' \<Longrightarrow> alike b b' \<Longrightarrow> alike c c' \<Longrightarrow> alike d d' \<Longrightarrow> alike e e' \<Longrightarrow>
   alike (artifact_item_template a b c d e) (artifact_item_template a' b' c' d' e')"
  by (simp_all add: scan_simps metadata_item_template_def artifact_item_template_def)

lemma section_templates_alike:
  "alike a a' \<Longrightarrow> alike (history_template a) (history_template a')"
  "alike a a' \<Longrightarrow> alike (metadata_template a) (metadata_template a')"
  "alike a a' \<Longrightarrow> alike (artifacts_template a) (artifacts_template a')"
  by (simp_all add: scan_simps history_template_def metadata_template_def artifacts_template_def)

lemma html_template_alike:
  "alike a a' \<Longrightarrow> alike b b' \<Longrightarrow> alike c c' \<Longrightarrow> alike d d' \<Longrightarrow> alike e e' \<Longrightarrow> alike f f' \<Longrightarrow> alike g g' \<Longrightarrow> alike h h' \<Longrightarrow>
   alike i i' \<Longrightarrow> alike j j' \<Longrightarrow> alike k k' \<Longrightarrow> alike l l' \<Longrightarrow> alike m m' \<Longrightarrow> alike n n' \<Longrightarrow> alike p p' \<Longrightarrow> alike q q' \<Longrightarrow>
   alike (html_template a b c d e f g h i j k l m n p q) (html_template a' b' c' d' e' f' g' h' i' j' k' l' m' n' p' q')"
  by (simp add: scan_simps html_template_def outside [OF css_clean])

section \<open>The markup does not depend on the texts\<close>

text \<open>The shape of a payload: every text and every number is replaced by a fixed one. Kept are the lengths of
  the lists, the statuses, whether an optional text is there, and whether a screenshot is linked.\<close>

definition hidden :: "string \<Rightarrow> string" where
  "hidden s = (if s = [] then [] else ''x'')"

definition exc_shape :: "exc_view \<Rightarrow> exc_view" where
  "exc_shape e = \<lparr>ev_type = [], ev_message = [], ev_retry_number = 0, ev_action = hidden (ev_action e),
     ev_screenshot_path = (if ev_screenshot_path e = [] then [] else if link_target (ev_screenshot_path e) \<noteq> [] then ''x'' else ''//''),
     ev_halts = False\<rparr>"

definition step_shape :: "step_view \<Rightarrow> step_view" where
  "step_shape s = \<lparr>sv_name = [], sv_order = 0, sv_status = sv_status s, sv_exceptions = map exc_shape (sv_exceptions s)\<rparr>"

definition metadata_shape :: "pydict \<Rightarrow> pydict" where
  "metadata_shape d = map (\<lambda>_. ([], PNone)) d"

definition artifact_shape :: "artifact_view \<Rightarrow> artifact_view" where
  "artifact_shape a = \<lparr>av_id = [], av_name = [], av_path = [], av_kind = hidden (av_kind a), av_created_at = [],
     av_metadata = metadata_shape (av_metadata a)\<rparr>"

definition history_shape :: "history_view \<Rightarrow> history_view" where
  "history_shape h = \<lparr>hv_sequence = 0, hv_timestamp = [], hv_event = [], hv_status = [], hv_retry_number = 0,
     hv_step_name = hidden (hv_step_name h), hv_step_order = None\<rparr>"

definition payload_shape :: "payload \<Rightarrow> payload" where
  "payload_shape p = \<lparr>pl_generated_at = [], pl_complete = pl_complete p, pl_errors = [], pl_id = [], pl_reference = [],
     pl_status = pl_status p, pl_retry_count = 0, pl_created_at = [], pl_started_at = [], pl_finished_at = [],
     pl_metadata = metadata_shape (pl_metadata p), pl_category = [], pl_disposition = [],
     pl_failure_code = hidden (pl_failure_code p), pl_steps = map step_shape (pl_steps p),
     pl_artifacts = map artifact_shape (pl_artifacts p), pl_history = map history_shape (pl_history p), pl_record = None\<rparr>"

lemma esc_alike: "alike (esc s) (esc t)"
  by (simp add: alike_plain esc_clean)

lemma show_int_alike: "alike (show_int m) (show_int n)"
  by (simp add: alike_plain show_int_clean)

lemma screenshot_linked: "link_target ''x'' \<noteq> []" "link_target ''//'' = []"
  by code_simp+

lemma screenshot_alike:
  "alike (screenshot_html p) (screenshot_html (if p = [] then [] else if link_target p \<noteq> [] then ''x'' else ''//''))"
  using html_escape_clean screenshot_linked
  by (auto simp: screenshot_html_def alike_def quoted outside)

lemma exc_alike: "alike (exc_html e) (exc_html (exc_shape e))"
  unfolding exc_html_def
  by (rule exc_template_alike)
    (auto simp: exc_shape_def exc_kind_def halt_text_def hidden_def screenshot_alike esc_clean show_int_clean
      intro!: alike_plain alike_quoted_plain)

lemma alike_maps: "(\<And>x. x \<in> set xs \<Longrightarrow> alike (f x) (g (h x))) \<Longrightarrow> list_all2 alike (map f xs) (map g (map h xs))"
  by (simp add: list_all2_conv_all_nth)

lemma step_alike:
  assumes "sv_status s = status_value st"
  shows "alike (step_html s) (step_html (step_shape s))"
proof -
  have "CHR 0x22 \<notin> set (replace_char CHR ''_'' ''-'' (status_value st))" using status_clean by (auto dest!: set_replace)
  moreover have "alike (joined (newline @ ''  '') (map exc_html (sv_exceptions s)))
      (joined (newline @ ''  '') (map exc_html (map exc_shape (sv_exceptions s))))"
    by (intro alike_joined alike_maps exc_alike) (simp add: newline_def)
  ultimately show ?thesis
    unfolding step_html_def using assms
    by (intro step_template_alike) (simp_all add: step_shape_def alike_plain alike_quoted_plain icon_clean esc_clean
        show_int_clean status_clean)
qed

lemma history_alike: "alike (history_item_html h) (history_item_html (history_shape h))"
  unfolding history_item_html_def
  by (rule history_item_template_alike)
    (auto simp: history_shape_def history_step_def hidden_def int_or_none_def esc_clean show_int_clean
      intro!: alike_plain split: option.splits)

lemma sorted_shape: "sort_key fst (metadata_shape d) = metadata_shape d" "length (metadata_shape d) = length d"
  by (simp_all add: metadata_shape_def sort_key_sorted sorted_wrt_map o_def)

lemma metadata_alike:
  "list_all2 alike (map (metadata_item_html ft) (sort_key fst d)) (map (metadata_item_html ft) (sort_key fst (metadata_shape d)))"
  by (auto simp: list_all2_conv_all_nth sorted_shape metadata_item_html_def intro!: item_templates_alike esc_alike)

lemma artifact_metadata_alike: "alike (artifact_metadata_html ft d) (artifact_metadata_html ft (metadata_shape d))"
proof -
  have "alike (joined ''; '' (map (\<lambda>kv. esc (fst kv) @ ''='' @ esc (format_json_value ft (snd kv))) (sort_key fst d)))
      (joined ''; '' (map (\<lambda>kv. esc (fst kv) @ ''='' @ esc (format_json_value ft (snd kv))) (sort_key fst (metadata_shape d))))"
    by (rule alike_joined) (auto simp: list_all2_conv_all_nth sorted_shape esc_clean intro!: alike_plain)
  moreover have "metadata_shape d = [] \<longleftrightarrow> d = []" by (simp add: metadata_shape_def)
  ultimately show ?thesis
    by (simp add: artifact_metadata_html_def) (simp add: alike_def)
qed

lemma artifact_alike: "alike (artifact_item_html ft a) (artifact_item_html ft (artifact_shape a))"
  unfolding artifact_item_html_def
  by (rule item_templates_alike)
    (auto simp: artifact_shape_def hidden_def artifact_metadata_alike esc_clean intro!: alike_plain)

lemma section_alike:
  assumes "\<And>a b. alike a b \<Longrightarrow> alike (template a) (template b)" "list_all2 alike xs ys"
  shows "alike (html_section template xs) (html_section template ys)"
  using assms by (auto simp: html_section_def newline_def alike_def [of "[]"] intro!: assms(1) alike_joined)

lemma optional_alike:
  "alike (failure_code_html p) (failure_code_html (payload_shape p))" "alike (report_error_html p) (report_error_html (payload_shape p))"
  by (auto simp: failure_code_html_def report_error_html_def payload_shape_def hidden_def newline_def alike_def outside esc_clean)

lemma payload_alike:
  assumes "pl_status p = status_value st" "\<forall>s \<in> set (pl_steps p). \<exists>st. sv_status s = status_value st"
  shows "alike (payload_html ft p) (payload_html ft (payload_shape p))"
  unfolding payload_html_def
proof (intro html_template_alike esc_alike show_int_alike optional_alike)
  show "alike (pl_status p) (pl_status (payload_shape p))"
    using assms(1) by (simp add: payload_shape_def alike_plain status_clean)
  have "list_all2 alike (map step_html (pl_steps p)) (map step_html (map step_shape (pl_steps p)))"
    using assms(2) step_alike by (intro alike_maps) blast
  then show "alike (joined newline (map step_html (pl_steps p))) (joined newline (map step_html (pl_steps (payload_shape p))))"
    by (intro alike_joined) (simp_all add: payload_shape_def newline_def)
  show "alike (html_section metadata_template (map (metadata_item_html ft) (sort_key fst (pl_metadata p))))
     (html_section metadata_template (map (metadata_item_html ft) (sort_key fst (pl_metadata (payload_shape p)))))"
    using metadata_alike by (intro section_alike section_templates_alike) (simp_all add: payload_shape_def)
  have "list_all2 alike (map (artifact_item_html ft) (pl_artifacts p)) (map (artifact_item_html ft) (map artifact_shape (pl_artifacts p)))"
    by (intro alike_maps artifact_alike)
  then show "alike (html_section artifacts_template (map (artifact_item_html ft) (pl_artifacts p)))
     (html_section artifacts_template (map (artifact_item_html ft) (pl_artifacts (payload_shape p))))"
    by (intro section_alike section_templates_alike) (simp_all add: payload_shape_def)
  have "list_all2 alike (map history_item_html (pl_history p)) (map history_item_html (map history_shape (pl_history p)))"
    by (intro alike_maps history_alike)
  then show "alike (html_section history_template (map history_item_html (pl_history p)))
     (html_section history_template (map history_item_html (pl_history (payload_shape p))))"
    by (intro section_alike section_templates_alike) (simp_all add: payload_shape_def)
qed

section \<open>Reports of transactions\<close>

lemma snapshot_same [simp]: "snapshot_json_value v = v" "snapshot_json_mapping d = d"
proof -
  show same: "snapshot_json_value v = v" for v
    by (induction v rule: snapshot_json_value.induct) (force intro: map_idI)+
  show "snapshot_json_mapping d = d"
    by (auto simp: snapshot_json_mapping_def same intro: map_idI)
qed

lemma validation_caught: "validate_durable_data t = Inl e \<Longrightarrow> caught_by_report e"
proof -
  have all: "validate_all f xs = Inl e \<Longrightarrow> \<exists>x. f x = Inl e" for f :: "'b \<Rightarrow> pyexc + unit" and xs e
    by (induction xs) (auto split: sum.splits)
  have code: "validate_failure_code c = Inl e \<Longrightarrow> caught_by_report e" for c e
    by (auto simp: validate_failure_code_def caught_by_report_def split: if_splits)
  have ident: "validate_definition_identity v b = Inl e \<Longrightarrow> caught_by_report e" for v b e
    by (auto simp: validate_definition_identity_def caught_by_report_def split: if_splits pyval.splits)
  have obj: "validate_json_object (of_dict d) = Inl e \<Longrightarrow> caught_by_report e" for d e
    by (auto simp: validate_json_object_of_dict caught_by_report_def split: if_splits)
  assume "validate_durable_data t = Inl e"
  then show ?thesis
    by (auto simp: validate_durable_data_def split: sum.splits dest: code ident obj dest!: all)
qed

text \<open>The report of a transaction whose record serialized to \<open>d\<close>.\<close>

definition report_of :: "(rat \<Rightarrow> string) \<Rightarrow> (step_exc \<Rightarrow> string) \<Rightarrow> datetime \<Rightarrow> transaction \<Rightarrow> pydict \<Rightarrow> tx_report" where
  "report_of ft class_name now t d = \<lparr>rp_transaction_id = tx_id t, rp_reference = tx_reference t, rp_status = tx_status t,
     rp_retry_count = tx_retry_count t,
     rp_steps = map (\<lambda>s. \<lparr>sr_name = st_name s, sr_order = st_order s, sr_status = st_status s,
       sr_icon = icon_of (st_status s), sr_exceptions = st_exceptions s\<rparr>) (ordered_steps t),
     rp_outcome = (tx_outcome t, tx_disposition t, tx_failure_code t),
     rp_created_at = tx_created_at t, rp_started_at = tx_started_at t, rp_finished_at = tx_finished_at t,
     rp_metadata = tx_metadata t, rp_artifacts = tx_artifacts t,
     rp_history = tx_history t, rp_transaction_record = d, rp_generated_at = now, rp_record = None\<rparr>"

lemma generate_report_eq:
  "generate_report ft class_name now t =
     (let r = report_of ft class_name now t (if durable_safe t then transaction_json t else [])
      in Inr (r\<lparr>rp_record := Some (build_report_record ft class_name r)\<rparr>))"
proof (cases "validate_durable_data t")
  case (Inl e)
  then have "\<not> durable_safe t" using validate_durable_data_iff [of t t] by auto
  with Inl validation_caught [OF Inl] show ?thesis
    by (simp add: generate_report_def serialize_transaction_eq report_of_def Let_def)
next
  case (Inr t')
  then have "durable_safe t" by (simp add: validate_durable_data_iff)
  with Inr show ?thesis by (simp add: generate_report_def serialize_transaction_eq report_of_def Let_def)
qed

text \<open>What the entries of a report say of the entries of the transaction.\<close>

definition exception_told :: "(step_exc \<Rightarrow> string) \<Rightarrow> exc_view \<Rightarrow> step_exc \<Rightarrow> bool" where
  "exception_told class_name v e \<longleftrightarrow> ev_type v = class_name e \<and> ev_message v = exc_message e \<and>
     ev_retry_number v = exc_retry_number e \<and> ev_action v = exc_action e \<and>
     ev_screenshot_path v = exc_screenshot_path e \<and> ev_halts v = halts_remaining_steps e"

definition step_told :: "(step_exc \<Rightarrow> string) \<Rightarrow> step_view \<Rightarrow> step \<Rightarrow> bool" where
  "step_told class_name v s \<longleftrightarrow> sv_name v = st_name s \<and> sv_order v = st_order s \<and>
     sv_status v = status_value (st_status s) \<and> list_all2 (exception_told class_name) (sv_exceptions v) (st_exceptions s)"

definition history_told :: "history_view \<Rightarrow> history_entry \<Rightarrow> bool" where
  "history_told v h \<longleftrightarrow> hv_sequence v = he_sequence h \<and> hv_event v = event_value (he_event h) \<and>
     hv_status v = status_value (he_status h) \<and> hv_retry_number v = he_retry_number h \<and>
     hv_step_name v = he_step_name h \<and> hv_step_order v = he_step_order h \<and>
     hv_timestamp v = iso_string (isoformat (he_timestamp h))"

definition mapping_told :: "(rat \<Rightarrow> string) \<Rightarrow> pydict \<Rightarrow> pydict \<Rightarrow> bool" where
  "mapping_told ft d' d \<longleftrightarrow> (\<forall>k. dict_get d' k = map_option (reloaded ft) (dict_get d k))"

definition artifact_told :: "(rat \<Rightarrow> string) \<Rightarrow> artifact_view \<Rightarrow> artifact \<Rightarrow> bool" where
  "artifact_told ft v a \<longleftrightarrow> av_id v = art_id a \<and> av_name v = art_name a \<and> av_path v = art_path a \<and>
     av_kind v = art_kind a \<and> av_created_at v = iso_string (isoformat (art_created_at a)) \<and>
     mapping_told ft (av_metadata v) (art_metadata a)"

lemma map_of_sort_key: "map_of (sort_key fst xs) k = map_of xs k"
proof -
  have first: "map_of ys k = (case filter (\<lambda>p. fst p = k) ys of [] \<Rightarrow> None | p # _ \<Rightarrow> Some (snd p))" for ys
    by (induction ys) auto
  show ?thesis unfolding first [of "sort_key fst xs"] first [of xs] sort_key_stable ..
qed

lemma reloaded_told: "mapping_told ft (reloaded_dict ft d) d"
proof -
  have "map_of (map (\<lambda>(k, v). (k, reloaded ft v)) d) k = map_option (reloaded ft) (map_of d k)" for k
    by (induction d) auto
  then show ?thesis by (simp add: mapping_told_def reloaded_dict_def dict_get_def map_of_sort_key)
qed

lemma list_all2_map: "(\<And>x. P (f x) x) \<Longrightarrow> list_all2 P (map f xs) xs"
  by (induction xs) auto

lemma payloads_told:
  "list_all2 (step_told class_name) (map (\<lambda>s. \<lparr>sv_name = st_name s, sv_order = st_order s, sv_status = status_value (st_status s),
     sv_exceptions = map (exception_payload class_name) (st_exceptions s)\<rparr>) ss) ss"
  "list_all2 history_told (map history_payload hs) hs"
  "list_all2 (artifact_told ft) (map (artifact_payload ft) as) as"
  by (rule list_all2_map; simp add: step_told_def exception_told_def exception_payload_def history_told_def
      history_payload_def artifact_told_def artifact_payload_def reloaded_told snapshot_same list_all2_map)+

lemma generated_report:
  "\<exists>r. generate_report ft class_name now t = Inr r \<and>
     (let p = record_payload ft class_name r in
        pl_id p = tx_id t \<and> pl_reference p = tx_reference t \<and> pl_status p = status_value (tx_status t) \<and>
        pl_retry_count p = tx_retry_count t \<and> pl_category p = outcome_value (tx_outcome t) \<and>
        pl_disposition p = disposition_value (tx_disposition t) \<and> pl_failure_code p = tx_failure_code t \<and>
        pl_complete p = durable_safe t \<and> (pl_errors p = []) = durable_safe t \<and>
        (if durable_safe t
         then list_all2 (step_told class_name) (pl_steps p) (ordered_steps t) \<and>
           list_all2 history_told (pl_history p) (tx_history t) \<and>
           list_all2 (artifact_told ft) (pl_artifacts p) (tx_artifacts t) \<and>
           mapping_told ft (pl_metadata p) (tx_metadata t) \<and>
           (\<exists>d d'. serialize_transaction t = Inr d \<and> pl_record p = Some d' \<and> mapping_told ft d' d)
         else pl_record p = None))"
proof -
  have filled: "transaction_json t \<noteq> []" by (simp add: transaction_json_def)
  show ?thesis
  proof (cases "durable_safe t")
    case True
    then have "sorted_dumpable (of_dict (tx_metadata t))" "list_all (\<lambda>a. sorted_dumpable (of_dict (art_metadata a))) (tx_artifacts t)"
      by (auto simp: durable_safe_def list_all_iff safe_of_dict intro!: safe_dumpable)
    moreover have "serialize_transaction t = Inr (transaction_json t)"
      using validate_durable_data_iff [of t t] True by (simp add: serialize_transaction_eq)
    ultimately show ?thesis
      using True transaction_json_dumpable [OF True] filled payloads_told reloaded_told
      by (simp add: generate_report_eq record_payload_def Let_def report_of_def build_report_record_def payload_header_def o_def)
  next
    case False
    then show ?thesis
      by (simp add: generate_report_eq record_payload_def Let_def report_of_def build_report_record_def payload_header_def)
  qed
qed

section \<open>The objects behind the metadata\<close>

definition hashable_keys :: "heap \<Rightarrow> bool" where
  "hashable_keys h \<longleftrightarrow> (\<forall>(r, ob) \<in> set h. case ob of
     HDict kvs \<Rightarrow> list_all (\<lambda>(k, _). case k of RRef _ \<Rightarrow> False | _ \<Rightarrow> True) kvs | HList _ \<Rightarrow> True)"

lemma hashable_key:
  assumes "hashable_keys h" "map_of h r = Some (HDict kvs)" "(k, x) \<in> set kvs"
  shows "denotes h k v \<longleftrightarrow> v = leaf_value k"
proof -
  have "(r, HDict kvs) \<in> set h" by (rule map_of_SomeD [OF assms(2)])
  then have "case k of RRef _ \<Rightarrow> False | _ \<Rightarrow> True"
    using assms(1,3) by (fastforce simp: hashable_keys_def list_all_iff)
  then show ?thesis by (cases k) (auto intro: denotes.intros elim: denotes_leafE)
qed

lemma eventually_all2:
  fixes f :: "nat \<Rightarrow> 'a \<Rightarrow> pyexc + 'b"
  assumes "list_all2 (\<lambda>x y. \<exists>n. \<forall>m \<ge> n. f m x = Inr y) xs ys"
  shows "\<exists>n. \<forall>m \<ge> n. decode_rows (f m) xs = Inr ys"
  using assms unfolding decode_rows_Inr
proof (induction rule: list_all2_induct)
  case (Cons x xs y ys)
  from Cons(1) obtain n1 where "\<forall>m \<ge> n1. f m x = Inr y" ..
  moreover from Cons(3) obtain n2 where "\<forall>m \<ge> n2. list_all2 (\<lambda>x y. f m x = Inr y) xs ys" ..
  ultimately show ?case by (intro exI [of _ "max n1 n2"]) simp
qed simp

lemma snapshot_of_tree:
  assumes "hashable_keys h" "denotes h v t"
  shows "\<exists>n. \<forall>m \<ge> n. snapshot_ref m h v = Inr t"
  using assms(2)
proof (induction rule: denotes.induct)
  case (d_list r xs ts)
  then have "list_all2 (\<lambda>x y. \<exists>n. \<forall>m \<ge> n. snapshot_ref m h x = Inr y) xs ts" by (auto elim: list_all2_mono)
  from eventually_all2 [OF this] obtain n where n: "\<forall>m \<ge> n. decode_rows (snapshot_ref m h) xs = Inr ts" ..
  show ?case
  proof (intro exI allI impI)
    fix m assume "Suc n \<le> m"
    then show "snapshot_ref m h (RRef r) = Inr (PList ts)" using n d_list.hyps by (cases m) auto
  qed
next
  case (d_dict r kvs ts)
  have "list_all2 (\<lambda>x y. \<exists>n. \<forall>m \<ge> n. (\<lambda>m (k, x). map_sum id (Pair (leaf_value k)) (snapshot_ref m h x)) m x = Inr y) kvs ts"
    unfolding list_all2_conv_all_nth
  proof (intro conjI allI impI)
    show "length kvs = length ts" using d_dict.IH by (rule list_all2_lengthD)
    fix i assume i: "i < length kvs"
    with d_dict.IH have k: "denotes h (fst (kvs ! i)) (fst (ts ! i))"
      and x: "\<exists>n. \<forall>m \<ge> n. snapshot_ref m h (snd (kvs ! i)) = Inr (snd (ts ! i))"
      by (auto simp: list_all2_conv_all_nth)
    have "(fst (kvs ! i), snd (kvs ! i)) \<in> set kvs" using i by simp
    from k [unfolded hashable_key [OF assms(1) d_dict.hyps(1) this]]
    have key: "leaf_value (fst (kvs ! i)) = fst (ts ! i)" ..
    from x obtain n where "\<forall>m \<ge> n. snapshot_ref m h (snd (kvs ! i)) = Inr (snd (ts ! i))" ..
    with key show "\<exists>n. \<forall>m \<ge> n. (\<lambda>m (k, x). map_sum id (Pair (leaf_value k)) (snapshot_ref m h x)) m (kvs ! i) = Inr (ts ! i)"
      by (intro exI [of _ n]) (simp add: case_prod_beta)
  qed
  from eventually_all2 [OF this] obtain n where
    n: "\<forall>m \<ge> n. decode_rows (\<lambda>(k, x). map_sum id (Pair (leaf_value k)) (snapshot_ref m h x)) kvs = Inr ts" ..
  show ?case
  proof (intro exI allI impI)
    fix m assume "Suc n \<le> m"
    then show "snapshot_ref m h (RRef r) = Inr (PDict ts)" using n d_dict.hyps by (cases m) auto
  qed
qed (rule exI [of _ 1]; intro allI impI; case_tac m; simp)+

lemma snapshot_is_tree:
  assumes "hashable_keys h"
  shows "snapshot_ref n h v = Inr t \<Longrightarrow> denotes h v t"
proof (induction n arbitrary: v t)
  case (Suc n)
  show ?case
  proof (cases v)
    case (RRef r)
    then obtain ob where ob: "map_of h r = Some ob" using Suc.prems by (auto split: option.splits)
    show ?thesis
    proof (cases ob)
      case (HList xs)
      then obtain ts where ts: "t = PList ts" "decode_rows (snapshot_ref n h) xs = Inr ts"
        using Suc.prems RRef ob by (cases "decode_rows (snapshot_ref n h) xs") auto
      then have "list_all2 (denotes h) xs ts" using Suc.IH by (auto simp: decode_rows_Inr elim: list_all2_mono)
      then show ?thesis using d_list ob HList RRef ts(1) by blast
    next
      case (HDict kvs)
      let ?f = "\<lambda>(k, x). map_sum id (Pair (leaf_value k)) (snapshot_ref n h x)"
      obtain ts where ts: "t = PDict ts" "decode_rows ?f kvs = Inr ts"
        using Suc.prems RRef ob HDict by (cases "decode_rows ?f kvs") auto
      have "list_all2 (\<lambda>x y. denotes h (fst x) (fst y) \<and> denotes h (snd x) (snd y)) kvs ts"
        unfolding list_all2_conv_all_nth
      proof (intro conjI allI impI)
        show "length kvs = length ts" using ts(2) by (auto simp: decode_rows_Inr dest: list_all2_lengthD)
        fix i assume i: "i < length kvs"
        then have f: "?f (kvs ! i) = Inr (ts ! i)" using ts(2) by (simp add: decode_rows_Inr list_all2_conv_all_nth)
        obtain y where y: "snapshot_ref n h (snd (kvs ! i)) = Inr y" "ts ! i = (leaf_value (fst (kvs ! i)), y)"
          using f by (cases "snapshot_ref n h (snd (kvs ! i))") (auto simp: case_prod_beta)
        have "(fst (kvs ! i), snd (kvs ! i)) \<in> set kvs" using i by simp
        from hashable_key [OF assms ob [unfolded HDict] this, of "fst (ts ! i)"] y
        show "denotes h (fst (kvs ! i)) (fst (ts ! i))" by simp
        show "denotes h (snd (kvs ! i)) (snd (ts ! i))" using Suc.IH [OF y(1)] y(2) by simp
      qed
      then show ?thesis using d_dict ob HDict RRef ts(1) by blast
    qed
  qed (use Suc.prems in \<open>auto intro: denotes.intros\<close>)
qed simp

lemma mapping_of_dict [simp]: "mapping_of (of_dict d) = d"
  by (simp add: mapping_of_def)

lemma with_own_metadata:
  "with_metadata (of_dict (tx_metadata t)) (map (\<lambda>a. of_dict (art_metadata a)) (tx_artifacts t)) t = t"
proof -
  have "map (\<lambda>(a, v). a\<lparr>art_metadata := mapping_of v\<rparr>) (zip as (map (\<lambda>a. of_dict (art_metadata a)) as)) = as"
    for as :: "artifact list" by (induction as) auto
  then show ?thesis by (simp add: with_metadata_def)
qed

text \<open>
  C32: a report can be generated of every transaction whose metadata and artifact metadata contain no cycle (and
  whose dictionaries have hashable keys), on a stack that is deep enough, and it tells the truth: it repeats the identity, status, retries and
  outcome of the transaction; it is complete exactly when the durable data of the transaction is valid, and
  then has every step in execution order with all its exceptions, the history, the artifacts and the metadata, entry by
  entry, and the serialized record; and one that is not complete says so with an error code. Of metadata
  or artifact metadata that contains itself no report can be generated on any stack.
\<close>

theorem reports_tell_the_truth:
  assumes "hashable_keys h"
  shows "(denotes h metadata (of_dict (tx_metadata t)) \<and>
      list_all2 (\<lambda>v a. denotes h v (of_dict (art_metadata a))) artifact_metadata (tx_artifacts t) \<longrightarrow>
    (\<exists>limit. \<forall>frames \<ge> limit. \<exists>r.
       generate_report_of_objects ft class_name now frames h metadata artifact_metadata t = Inr r \<and>
       (let p = record_payload ft class_name r in
          pl_id p = tx_id t \<and> pl_reference p = tx_reference t \<and> pl_status p = status_value (tx_status t) \<and>
          pl_retry_count p = tx_retry_count t \<and> pl_category p = outcome_value (tx_outcome t) \<and>
          pl_disposition p = disposition_value (tx_disposition t) \<and> pl_failure_code p = tx_failure_code t \<and>
          pl_complete p = durable_safe t \<and> (pl_errors p = []) = durable_safe t \<and>
          (if durable_safe t
           then list_all2 (step_told class_name) (pl_steps p) (ordered_steps t) \<and>
             list_all2 history_told (pl_history p) (tx_history t) \<and>
             list_all2 (artifact_told ft) (pl_artifacts p) (tx_artifacts t) \<and>
             mapping_told ft (pl_metadata p) (tx_metadata t) \<and>
             (\<exists>d d'. serialize_transaction t = Inr d \<and> pl_record p = Some d' \<and> mapping_told ft d' d)
           else pl_record p = None)))) \<and>
   (\<not> (\<exists>v. denotes h metadata v) \<or> (\<exists>m \<in> set artifact_metadata. \<not> (\<exists>v. denotes h m v)) \<longrightarrow>
     (\<forall>frames r. generate_report_of_objects ft class_name now frames h metadata artifact_metadata t \<noteq> Inr r))"
proof (intro conjI impI)
  assume trees: "denotes h metadata (of_dict (tx_metadata t)) \<and>
      list_all2 (\<lambda>v a. denotes h v (of_dict (art_metadata a))) artifact_metadata (tx_artifacts t)"
  let ?ams = "map (\<lambda>a. of_dict (art_metadata a)) (tx_artifacts t)"
  obtain n1 where n1: "\<forall>m \<ge> n1. snapshot_ref m h metadata = Inr (of_dict (tx_metadata t))"
    using snapshot_of_tree [OF assms] trees by blast
  have "list_all2 (\<lambda>x y. \<exists>n. \<forall>m \<ge> n. snapshot_ref m h x = Inr y) artifact_metadata ?ams"
    using trees snapshot_of_tree [OF assms] by (auto simp: list_all2_map2 elim!: list_all2_mono)
  from eventually_all2 [OF this] obtain n2 where n2: "\<forall>m \<ge> n2. decode_rows (snapshot_ref m h) artifact_metadata = Inr ?ams" ..
  have same: "generate_report_of_objects ft class_name now m h metadata artifact_metadata t = generate_report ft class_name now t"
    if "max n1 n2 \<le> m" for m
    using that n1 n2 by (simp add: generate_report_of_objects_def with_own_metadata)
  show "\<exists>limit. \<forall>frames \<ge> limit. \<exists>r.
       generate_report_of_objects ft class_name now frames h metadata artifact_metadata t = Inr r \<and>
       (let p = record_payload ft class_name r in
          pl_id p = tx_id t \<and> pl_reference p = tx_reference t \<and> pl_status p = status_value (tx_status t) \<and>
          pl_retry_count p = tx_retry_count t \<and> pl_category p = outcome_value (tx_outcome t) \<and>
          pl_disposition p = disposition_value (tx_disposition t) \<and> pl_failure_code p = tx_failure_code t \<and>
          pl_complete p = durable_safe t \<and> (pl_errors p = []) = durable_safe t \<and>
          (if durable_safe t
           then list_all2 (step_told class_name) (pl_steps p) (ordered_steps t) \<and>
             list_all2 history_told (pl_history p) (tx_history t) \<and>
             list_all2 (artifact_told ft) (pl_artifacts p) (tx_artifacts t) \<and>
             mapping_told ft (pl_metadata p) (tx_metadata t) \<and>
             (\<exists>d d'. serialize_transaction t = Inr d \<and> pl_record p = Some d' \<and> mapping_told ft d' d)
           else pl_record p = None))"
    using generated_report [of ft class_name now t] same by (intro exI [of _ "max n1 n2"]) auto
next
  assume cycle: "\<not> (\<exists>v. denotes h metadata v) \<or> (\<exists>m \<in> set artifact_metadata. \<not> (\<exists>v. denotes h m v))"
  have False if "decode_rows (snapshot_ref n h) artifact_metadata = Inr ams" "snapshot_ref n h metadata = Inr m" for n ams m
  proof -
    have "\<exists>v. denotes h x v" if "x \<in> set artifact_metadata" for x
      using \<open>decode_rows (snapshot_ref n h) artifact_metadata = Inr ams\<close> that snapshot_is_tree [OF assms]
      by (fastforce simp: decode_rows_Inr list_all2_conv_all_nth in_set_conv_nth)
    with cycle snapshot_is_tree [OF assms that(2)] show False by blast
  qed
  then show "\<forall>frames r. generate_report_of_objects ft class_name now frames h metadata artifact_metadata t \<noteq> Inr r"
    by (auto simp: generate_report_of_objects_def rbnd_Inr)
qed

definition looped_heap :: heap where
  "looped_heap = [(0, HDict [(RStr ''self'', RRef 0)]), (1, HDict [(RStr ''batch'', RInt 7)])]"

lemma looped_hashable: "hashable_keys looped_heap"
  by (simp add: hashable_keys_def looped_heap_def)

lemma looped_no_tree: "\<not> denotes looped_heap (RRef 0) v"
proof
  assume d: "denotes looped_heap (RRef 0) v"
  then obtain ts where ts: "v = PDict ts"
      "list_all2 (\<lambda>x y. denotes looped_heap (fst x) (fst y) \<and> denotes looped_heap (snd x) (snd y)) [(RStr ''self'', RRef 0)] ts"
    by (auto simp: looped_heap_def elim: denotes_refE)
  then obtain k w where "ts = [(k, w)]" "denotes looped_heap (RRef 0) w" by (auto simp: list_all2_Cons1)
  with denotes_unique [OF d this(2)] ts(1) have "size v = size (PDict [(k, v)])" by simp
  then show False by simp
qed

text \<open>A transaction with a dictionary as its metadata, and one whose metadata contains itself.\<close>

definition told_tx :: transaction where
  "told_tx = \<lparr>tx_reference = ''r'', tx_id = ''t1'', tx_status = PENDING, tx_retry_count = 0,
     tx_created_at = None, tx_started_at = None, tx_finished_at = None, tx_state = [], tx_metadata = [(''batch'', PInt 7)],
     tx_artifacts = [], tx_steps = [], tx_history = [], tx_outcome = OC_UNKNOWN, tx_disposition = RD_UNKNOWN,
     tx_failure_code = [], tx_definition_identity = []\<rparr>"

theorem reports_tell_the_truth_witness:
  "(\<exists>frames r. generate_report_of_objects (\<lambda>_. []) (\<lambda>_. []) (DateTime 0 None) frames looped_heap (RRef 1) [] told_tx = Inr r \<and>
     pl_reference (record_payload (\<lambda>_. []) (\<lambda>_. []) r) = ''r'') \<and>
   (\<exists>e. generate_report_of_objects (\<lambda>_. []) (\<lambda>_. []) (DateTime 0 None) 1000 looped_heap (RRef 0) [] told_tx = Inl e)"
proof (intro conjI)
  have "denotes looped_heap (RRef 1) (of_dict (tx_metadata told_tx))"
    by (auto simp: looped_heap_def told_tx_def of_dict_def intro!: d_dict d_str d_int)
  then have "\<exists>limit. \<forall>frames \<ge> limit. \<exists>r. generate_report_of_objects (\<lambda>_. []) (\<lambda>_. []) (DateTime 0 None) frames looped_heap (RRef 1) [] told_tx = Inr r \<and>
       pl_reference (record_payload (\<lambda>_. []) (\<lambda>_. []) r) = ''r''"
    using conjunct1 [OF reports_tell_the_truth [OF looped_hashable, of "RRef 1" told_tx "[]" "\<lambda>_. []" "\<lambda>_. []" "DateTime 0 None"]]
    by (fastforce simp: told_tx_def Let_def)
  then show "\<exists>frames r. generate_report_of_objects (\<lambda>_. []) (\<lambda>_. []) (DateTime 0 None) frames looped_heap (RRef 1) [] told_tx = Inr r \<and>
     pl_reference (record_payload (\<lambda>_. []) (\<lambda>_. []) r) = ''r''" by blast
  show "\<exists>e. generate_report_of_objects (\<lambda>_. []) (\<lambda>_. []) (DateTime 0 None) 1000 looped_heap (RRef 0) [] told_tx = Inl e"
    using conjunct2 [OF reports_tell_the_truth [OF looped_hashable, of "RRef 0" told_tx "[]" "\<lambda>_. []" "\<lambda>_. []" "DateTime 0 None"]]
      looped_no_tree
    by (cases "generate_report_of_objects (\<lambda>_. []) (\<lambda>_. []) (DateTime 0 None) 1000 looped_heap (RRef 0) [] told_tx") auto
qed

lemma record_statuses:
  "pl_status (build_report_record ft class_name r) = status_value (rp_status r)"
  "\<forall>s \<in> set (pl_steps (build_report_record ft class_name r)). \<exists>st. sv_status s = status_value st"
  by (auto simp: build_report_record_def payload_header_def Let_def)

lemma report_payload:
  "generate_report ft class_name now t = Inr r \<Longrightarrow> \<exists>r0. record_payload ft class_name r = build_report_record ft class_name r0"
  by (auto simp: generate_report_eq record_payload_def Let_def)

text \<open>C33: No text becomes markup. Whatever the names, messages, references, metadata, paths and codes of a
  transaction contain, the tags of its HTML report and their attributes are those of a report in which
  all texts and numbers are replaced by fixed ones; only the values between quotes may differ. And the
  document ends outside every tag.\<close>

theorem texts_are_not_markup:
  assumes "generate_report ft class_name now t = Inr r"
  shows "outline Out (render_html ft class_name r) =
      outline Out (payload_html ft (payload_shape (record_payload ft class_name r))) \<and>
    after Out (render_html ft class_name r) = Out"
proof -
  from report_payload [OF assms] obtain r0 where "record_payload ft class_name r = build_report_record ft class_name r0" by blast
  then show ?thesis
    using payload_alike [OF record_statuses [where ft = ft and class_name = class_name and r = r0]] by (simp add: render_html_def alike_def)
qed

definition demo_attack :: transaction where
  "demo_attack = \<lparr>tx_reference = ''<script>'', tx_id = ''t1'', tx_status = FAILED, tx_retry_count = 0, tx_created_at = None,
     tx_started_at = None, tx_finished_at = None, tx_state = [], tx_metadata = [(''<b>'', PStr ''</code>'')], tx_artifacts = [],
     tx_steps = [\<lparr>st_name = ''pay'', st_order = 1, st_status = FAILED, st_arguments = [],
       st_exceptions = [\<lparr>is_business = True, exc_message = ''<img src=x>'', exc_action = [], exc_retry_number = 0,
         exc_occurred_at = utc_datetime 0, exc_screenshot_path = ''a b.png'', halts_flag = False, exc_code = []\<rparr>]\<rparr>],
     tx_history = [], tx_outcome = OC_BUSINESS_FAILED, tx_disposition = RD_NOT_REQUESTED, tx_failure_code = [],
     tx_definition_identity = []\<rparr>"

theorem texts_are_not_markup_witness:
  "\<exists>r. generate_report (\<lambda>_. []) (\<lambda>_. ''BusinessException'') (utc_datetime 0) demo_attack = Inr r \<and>
     after Out (render_html (\<lambda>_. []) (\<lambda>_. ''BusinessException'') r) = Out"
proof -
  obtain r where r: "generate_report (\<lambda>_. []) (\<lambda>_. ''BusinessException'') (utc_datetime 0) demo_attack = Inr r"
    by (simp add: generate_report_eq Let_def)
  with texts_are_not_markup [OF r] show ?thesis by blast
qed

section \<open>Links\<close>

lemma hex_upper_colon: "n < 16 \<Longrightarrow> hex_upper n \<noteq> CHR '':''"
proof
  assume n: "n < 16" and "hex_upper n = CHR '':''"
  then have "(of_char (hex_upper n) :: nat) = of_char CHR '':''" by simp
  then show False using n by (auto simp: hex_upper_def split: if_splits)
qed

lemma utf8_byte: "b \<in> set (utf8 c) \<Longrightarrow> b < 256"
proof -
  have "code_point c < 256" by (simp add: code_point_def)
  then show "b \<in> set (utf8 c) \<Longrightarrow> b < 256" by (auto simp: utf8_def split: if_splits)
qed

lemma colon_reserved: "\<not> unreserved CHR '':''"
  by (simp add: unreserved_def is_letter_def is_lower_def is_digit_def code_point_def)

lemma quoted_char_no_colon:
  "CHR '':'' \<notin> set (if unreserved c then [c]
     else concat (map (\<lambda>b. [CHR ''%'', hex_upper (b div 16), hex_upper (b mod 16)]) (utf8 c)))"
proof (cases "unreserved c")
  case False
  have "b div 16 < 16 \<and> b mod 16 < 16" if "b \<in> set (utf8 c)" for b using utf8_byte [OF that] by auto
  then have "CHR '':'' \<notin> set [CHR ''%'', hex_upper (b div 16), hex_upper (b mod 16)]" if "b \<in> set (utf8 c)" for b
    using that hex_upper_colon [of "b div 16"] hex_upper_colon [of "b mod 16"] by auto
  with False show ?thesis by (simp only: if_False set_concat set_map) blast
qed (use colon_reserved in auto)

lemma quote_no_colon: "CHR '':'' \<notin> set (quote_path s)"
proof
  assume "CHR '':'' \<in> set (quote_path s)"
  then show False
    unfolding quote_path_def set_concat set_map using quoted_char_no_colon by blast
qed

lemma quote_head: "quote_path s = CHR ''/'' # q \<Longrightarrow> \<exists>s'. s = CHR ''/'' # s' \<and> q = quote_path s'"
proof (cases s)
  case (Cons c s')
  assume q: "quote_path s = CHR ''/'' # q"
  show ?thesis
  proof (cases "unreserved c")
    case True
    with q Cons show ?thesis by (auto simp: quote_path_def)
  next
    case False
    have "utf8 c \<noteq> []" by (simp add: utf8_def)
    with False q Cons show ?thesis by (cases "utf8 c") (auto simp: quote_path_def)
  qed
qed (simp add: quote_path_def)

text \<open>C34: The link of a screenshot leads to a local file: its target is a \<open>file:\<close> URI, or a relative or
  absolute path without a scheme and without a host. And what is not linked is shown as escaped text.\<close>

theorem screenshot_links_are_local:
  assumes "link_target path \<noteq> []"
  shows "take 8 (link_target path) = ''file:///'' \<or>
    (CHR '':'' \<notin> set (link_target path) \<and> take 2 (link_target path) \<noteq> ''//'')"
proof -
  define normalized where "normalized = replace_char CHR 0x5C ''/'' path"
  have no_host: "take 2 normalized \<noteq> ''//''" and
    target: "link_target path = (if has_drive path then windows_uri normalized else quote_path normalized)"
    using assms by (auto simp: link_target_def Let_def normalized_def split: if_splits)
  show ?thesis
  proof (cases "has_drive path")
    case True
    then show ?thesis by (simp add: target windows_uri_def)
  next
    case False
    have "take 2 (quote_path normalized) \<noteq> ''//''"
    proof
      assume "take 2 (quote_path normalized) = ''//''"
      then obtain q where q: "quote_path normalized = CHR ''/'' # CHR ''/'' # q"
        by (cases "quote_path normalized"; cases "tl (quote_path normalized)") auto
      then obtain n where n: "normalized = CHR ''/'' # n" "CHR ''/'' # q = quote_path n" using quote_head by blast
      then obtain m where "n = CHR ''/'' # m" using quote_head [of n q] by auto
      with n no_host show False by simp
    qed
    with False quote_no_colon show ?thesis by (simp add: target)
  qed
qed

theorem screenshot_links_are_local_witness:
  "take 8 (link_target ([CHR ''C'', CHR '':'', CHR 0x5C] @ ''a.png'')) = ''file:///'' \<or>
   (CHR '':'' \<notin> set (link_target ([CHR ''C'', CHR '':'', CHR 0x5C] @ ''a.png'')) \<and>
    take 2 (link_target ([CHR ''C'', CHR '':'', CHR 0x5C] @ ''a.png'')) \<noteq> ''//'')"
proof (rule screenshot_links_are_local)
  show "link_target ([CHR ''C'', CHR '':'', CHR 0x5C] @ ''a.png'') \<noteq> []" by code_simp
qed

text \<open>An exception of a subclass of \<open>BusinessException\<close> is labelled as a system failure.\<close>

lemma subclass_labelled_system:
  "class_name e \<noteq> ''BusinessException'' \<Longrightarrow> exc_kind (exception_payload class_name e) = ''SYS''"
  by (simp add: exc_kind_def exception_payload_def)

end
