(* ===== verification/QueueRead.thy ===== *)
theory QueueRead
  imports QueueSteps Schema Paging
begin

text \<open>
  Read-only inspection of queue storage (\<open>rpacore/_queue_read.py\<close>): opening an existing database, and the
  pages of items, claim attempts and poison events with their cursors.

  A \<open>disk\<close> says what is found at a path. Of a file the reader sees the first hundred bytes, the version
  markers, the tables, and possibly a fault that SQLite raises when the connection reads it. Reading is a
  function of the disk, so it writes nothing. A cursor is kept as what its base64 and JSON layers decode
  to, and \<open>digest\<close> is the SHA-256 of a JSON text, a parameter, as for the transaction store.
\<close>

section \<open>Opening\<close>

record queue_file =
  qf_header :: string
  qf_versions :: "(string \<times> int) list option"
  qf_fault :: "pyexc option"
  qf_db :: qdb

datatype entry = NoEntry | NotRegular | QueueFile queue_file

type_synonym disk = "string \<Rightarrow> entry"

definition database_header_journal_mode :: "disk \<Rightarrow> string \<Rightarrow> pyexc + string" where
  "database_header_journal_mode disk path =
     rbnd (validate_durable_sqlite_path (PStr path)) (\<lambda>p. case disk p of
       NoEntry \<Rightarrow> Inl (OSErr ''FileNotFoundError'')
     | NotRegular \<Rightarrow> Inl (OSErr ''Database path is not a regular file'')
     | QueueFile f \<Rightarrow> Inr (header_journal_mode (qf_header f)))"

text \<open>\<open>connect_sqlite\<close> with \<open>readonly=True\<close>; its \<open>PRAGMA\<close> is the first read.\<close>

definition connect_readonly :: "disk \<Rightarrow> string \<Rightarrow> pyexc + queue_file" where
  "connect_readonly disk path =
     rbnd (validate_durable_sqlite_path (PStr path)) (\<lambda>p. case disk p of
       QueueFile f \<Rightarrow> (case qf_fault f of None \<Rightarrow> Inr f | Some e \<Rightarrow> Inl e)
     | _ \<Rightarrow> Inl (OSErr ''FileNotFoundError''))"

definition file_schema :: "queue_file \<Rightarrow> sql_db" where
  "file_schema f = empty_sql\<lparr>sd_versions := qf_versions f\<rparr>"

definition open_readonly_queue :: "disk \<Rightarrow> string \<Rightarrow> pyexc + qdb" where
  "open_readonly_queue disk path =
     rbnd (database_header_journal_mode disk path) (\<lambda>mode.
       if mode = ''not_sqlite'' then Inl (RuntimeErr ''Queue database is not an SQLite database'')
       else if mode = ''wal'' then Inl (RuntimeErr ''Queue database uses the WAL journal'')
       else rbnd (connect_readonly disk path) (\<lambda>f.
            rbnd (fst (ensure_database_compatibility (file_schema f))) (\<lambda>_.
            rbnd (fst (require_current_schema ''queue'' queue_schema_version (file_schema f))) (\<lambda>_.
              Inr (qf_db f)))))"

section \<open>Cursors\<close>

definition encoded_cursor :: "string \<Rightarrow> string \<Rightarrow> pydict \<Rightarrow> query_cursor" where
  "encoded_cursor kind filters position =
     CursorText (JsonText (of_dict
       [(''filters'', PStr filters), (''kind'', PStr kind), (''position'', of_dict position),
        (''version'', PInt 1)]))"

definition decoded_cursor :: "string \<Rightarrow> string \<Rightarrow> query_cursor \<Rightarrow> pyexc + pydict" where
  "decoded_cursor kind filters cursor = (case cursor of
     EmptyCursor \<Rightarrow> Inl (ValueErr ''cursor must be a non-empty queue query cursor'')
   | CursorText BrokenText \<Rightarrow> Inl (ValueErr ''cursor is not a valid queue query cursor'')
   | CursorText (JsonText v) \<Rightarrow>
       (case dict_of v of
          None \<Rightarrow> Inl (ValueErr ''cursor is not a valid queue query cursor'')
        | Some d \<Rightarrow>
            if field_of d ''version'' \<noteq> PInt 1
            then Inl (ValueErr ''cursor has an unsupported queue query version'')
            else if field_of d ''kind'' \<noteq> PStr kind \<or> field_of d ''filters'' \<noteq> PStr filters
            then Inl (ValueErr ''cursor does not match the queue query kind or filters'')
            else (case dict_of (field_of d ''position'') of
                    None \<Rightarrow> Inl (ValueErr ''cursor is not a valid queue query cursor'')
                  | Some position \<Rightarrow> Inr position)))"

definition position_text :: "pydict \<Rightarrow> string \<Rightarrow> pyexc + string" where
  "position_text position k = (case field_of position k of
     PStr s \<Rightarrow> Inr s | _ \<Rightarrow> Inl (ValueErr ''cursor is not a valid queue query cursor''))"

definition position_sequence :: "pydict \<Rightarrow> pyexc + int" where
  "position_sequence position = (case field_of position ''sequence'' of
     PInt n \<Rightarrow> (if 0 \<le> n \<and> n \<le> 2 ^ 63 - 1 then Inr n
                else Inl (ValueErr ''cursor is not a valid queue query cursor''))
   | _ \<Rightarrow> Inl (ValueErr ''cursor is not a valid queue query cursor''))"

lemma decoded_encoded_cursor [simp]:
  "decoded_cursor kind filters (encoded_cursor kind filters position) = Inr position"
  by (simp add: decoded_cursor_def encoded_cursor_def field_of_def dict_get_def)

section \<open>Arguments\<close>

definition validated_limit :: "int \<Rightarrow> pyexc + int" where
  "validated_limit limit = (if limit < 1 \<or> 1000 < limit
     then Inl (ValueErr ''limit must be an integer from 1 through 1000'') else Inr limit)"

definition validated_item_id :: "string \<Rightarrow> pyexc + string" where
  "validated_item_id item_id = (if blank item_id then Inl (ValueErr ''nonblank queue item id'') else Inr item_id)"

definition validated_optional_item_id :: "string option \<Rightarrow> pyexc + string option" where
  "validated_optional_item_id item_id = (case item_id of
     None \<Rightarrow> Inr None | Some i \<Rightarrow> map_sum id Some (validated_item_id i))"

definition optional_text :: "string option \<Rightarrow> pyval" where
  "optional_text s = (case s of None \<Rightarrow> PNone | Some t \<Rightarrow> PStr t)"

fun queue_status_value :: "queue_status \<Rightarrow> string" where
  "queue_status_value QS_PENDING = ''pending''"
| "queue_status_value QS_IN_PROGRESS = ''in_progress''"
| "queue_status_value QS_SUCCESSFUL = ''successful''"
| "queue_status_value QS_FAILED = ''failed''"

definition item_fingerprint :: "(pyval \<Rightarrow> string) \<Rightarrow> queue_status list option \<Rightarrow> string" where
  "item_fingerprint digest statuses = digest (of_dict
     [(''kind'', PStr ''queue_items''),
      (''statuses'', case statuses of None \<Rightarrow> PNone
         | Some ss \<Rightarrow> PList (map PStr (sort (remdups (map queue_status_value ss)))))])"

definition event_fingerprint :: "(pyval \<Rightarrow> string) \<Rightarrow> string \<Rightarrow> string option \<Rightarrow> string" where
  "event_fingerprint digest kind item_id = digest (of_dict
     [(''kind'', PStr kind), (''item_id'', optional_text item_id)])"

section \<open>Queries\<close>

record 'a queue_page =
  gp_records :: "'a list"
  gp_has_more :: bool
  gp_next_cursor :: "query_cursor option"

definition get_queue_item :: "disk \<Rightarrow> string \<Rightarrow> string \<Rightarrow> pyexc + queue_item option" where
  "get_queue_item disk path item_id =
     rbnd (validated_item_id item_id) (\<lambda>_.
     rbnd (open_readonly_queue disk path) (\<lambda>db.
       case filter (\<lambda>r. qr_id r = item_id) (q_items db) of
         [] \<Rightarrow> Inr None
       | row # _ \<Rightarrow> map_sum id Some (row_to_item row None)))"

text \<open>\<open>created_at > ? OR (created_at = ? AND id > ?)\<close>.\<close>

definition after_item :: "(string \<times> string) option \<Rightarrow> item_row \<Rightarrow> bool" where
  "after_item position r = (case position of
     None \<Rightarrow> True
   | Some (created, i) \<Rightarrow> created < iso_string (qr_created_at r) \<or>
       (iso_string (qr_created_at r) = created \<and> i < qr_id r))"

definition item_position :: "string \<Rightarrow> query_cursor option \<Rightarrow> pyexc + (string \<times> string) option" where
  "item_position filters cursor = (case cursor of
     None \<Rightarrow> Inr None
   | Some c \<Rightarrow> rbnd (decoded_cursor ''queue_items'' filters c) (\<lambda>position.
       rbnd (position_text position ''created_at'') (\<lambda>created.
       rbnd (position_text position ''id'') (\<lambda>i. Inr (Some (created, i))))))"

definition item_page :: "item_row list \<Rightarrow> nat \<Rightarrow> string \<Rightarrow> pyexc + queue_item queue_page" where
  "item_page rows limit filters =
     (let has_more = (limit < length rows); page_rows = take limit rows
      in rbnd (decode_rows (\<lambda>r. row_to_item r None) page_rows) (\<lambda>records.
           Inr \<lparr>gp_records = records, gp_has_more = has_more,
                gp_next_cursor = (if has_more \<and> page_rows \<noteq> []
                  then Some (encoded_cursor ''queue_items'' filters
                    [(''created_at'', PStr (iso_string (qr_created_at (last page_rows)))),
                     (''id'', PStr (qr_id (last page_rows)))])
                  else None)\<rparr>))"

definition query_queue_items ::
  "(pyval \<Rightarrow> string) \<Rightarrow> disk \<Rightarrow> string \<Rightarrow> queue_status list option \<Rightarrow> query_cursor option \<Rightarrow> int \<Rightarrow>
   pyexc + queue_item queue_page" where
  "query_queue_items digest disk path statuses cursor limit =
     rbnd (validated_limit limit) (\<lambda>_.
     rbnd (item_position (item_fingerprint digest statuses) cursor) (\<lambda>position.
     rbnd (open_readonly_queue disk path) (\<lambda>db.
       item_page (take (Suc (nat limit)) (sort_key item_order
           (filter (\<lambda>r. status_filter statuses r \<and> after_item position r) (q_items db))))
         (nat limit) (item_fingerprint digest statuses))))"

definition event_position :: "string \<Rightarrow> string \<Rightarrow> query_cursor option \<Rightarrow> pyexc + int option" where
  "event_position kind filters cursor = (case cursor of
     None \<Rightarrow> Inr None
   | Some c \<Rightarrow> rbnd (decoded_cursor kind filters c) (\<lambda>position. map_sum id Some (position_sequence position)))"

definition after_sequence :: "('r \<Rightarrow> int) \<Rightarrow> int option \<Rightarrow> 'r \<Rightarrow> bool" where
  "after_sequence sq position r = (case position of None \<Rightarrow> True | Some n \<Rightarrow> n < sq r)"

definition query_events ::
  "(qdb \<Rightarrow> 'r list) \<Rightarrow> ('r \<Rightarrow> int) \<Rightarrow> ('r \<Rightarrow> string) \<Rightarrow> string \<Rightarrow> ('r \<Rightarrow> pyexc + 'a) \<Rightarrow>
   (pyval \<Rightarrow> string) \<Rightarrow> disk \<Rightarrow> string \<Rightarrow> string option \<Rightarrow> query_cursor option \<Rightarrow> int \<Rightarrow> pyexc + 'a queue_page" where
  "query_events table sq item_of kind decoder digest disk path item_id cursor limit =
     rbnd (validated_limit limit) (\<lambda>_.
     rbnd (validated_optional_item_id item_id) (\<lambda>_.
     let filters = event_fingerprint digest kind item_id in
     rbnd (event_position kind filters cursor) (\<lambda>position.
     rbnd (open_readonly_queue disk path) (\<lambda>db.
       let rows = take (Suc (nat limit)) (sort_key sq
             (filter (\<lambda>r. of_item item_id (item_of r) \<and> after_sequence sq position r) (table db)));
           has_more = (nat limit < length rows);
           page_rows = take (nat limit) rows
       in rbnd (decode_rows decoder page_rows) (\<lambda>records.
            Inr \<lparr>gp_records = records, gp_has_more = has_more,
                 gp_next_cursor = (if has_more \<and> page_rows \<noteq> []
                   then Some (encoded_cursor kind filters [(''sequence'', PInt (sq (last page_rows)))])
                   else None)\<rparr>)))))"

definition query_queue_attempts ::
  "(pyval \<Rightarrow> string) \<Rightarrow> disk \<Rightarrow> string \<Rightarrow> string option \<Rightarrow> query_cursor option \<Rightarrow> int \<Rightarrow>
   pyexc + queue_attempt queue_page" where
  "query_queue_attempts = query_events q_attempts qa_sequence qa_item_id ''queue_attempts'' row_to_attempt"

definition query_queue_poison_events ::
  "(pyval \<Rightarrow> string) \<Rightarrow> disk \<Rightarrow> string \<Rightarrow> string option \<Rightarrow> query_cursor option \<Rightarrow> int \<Rightarrow>
   pyexc + queue_poison_event queue_page" where
  "query_queue_poison_events =
     query_events q_poison qp_sequence qp_item_id ''queue_poison_events'' row_to_poison_event"

end
