(* ===== verification/QueueReadClaims.thy ===== *)
theory QueueReadClaims
  imports QueueRead Keyset QueueClaims
begin

text \<open>
  The pages of queue records: the three queries provide keyset pages, so following their cursors
  enumerates the records, also while workers and operators go on.
\<close>

section \<open>The queries as keyset pages\<close>

definition stored_queue :: "string \<Rightarrow> disk \<Rightarrow> qdb" where
  "stored_queue path disk = (case open_readonly_queue disk path of Inr db \<Rightarrow> db | Inl _ \<Rightarrow> empty_queue)"

definition page_answer :: "pyexc + 'a queue_page \<Rightarrow> pyexc + 'a list \<times> query_cursor option" where
  "page_answer r = rbnd r (\<lambda>p. Inr (gp_records p, gp_next_cursor p))"

text \<open>In a list sorted by a key that no two rows share, keys increase.\<close>

lemma sort_key_increasing:
  "distinct (map k xs) \<Longrightarrow> sorted_wrt (\<lambda>r s. (k r :: 'k::linorder) < k s) (sort_key k (filter P xs))"
proof -
  assume "distinct (map k xs)"
  then have "distinct (map k (sort_key k (filter P xs)))"
    by (metis distinct_map distinct_map_filter distinct_sort set_sort)
  then have "sorted_wrt (<) (map k (sort_key k (filter P xs)))" by (simp add: strict_sorted_iff)
  then show ?thesis by (simp add: sorted_wrt_map)
qed

text \<open>One page as SQL selects it: the first \<open>limit + 1\<close> rows beyond the position.\<close>

lemma page_rows:
  assumes rows: "rows = filter (beyond k position) (sort_key k (filter P xs))" and pos: "0 < limit"
  defines "page \<equiv> take (Suc limit) (sort_key k (filter (\<lambda>r. P r \<and> beyond k position r) xs))"
  shows "take limit page = take limit rows"
    and "limit < length page \<longleftrightarrow> limit < length rows"
    and "limit < length rows \<Longrightarrow> take limit page \<noteq> [] \<and> last (take limit page) = rows ! (limit - 1)"
proof -
  have page: "page = take (Suc limit) rows"
    unfolding page_def rows filter_sort filter_filter by (simp add: conj_commute)
  show "take limit page = take limit rows" by (simp add: page take_take min_def)
  show "limit < length page \<longleftrightarrow> limit < length rows" by (auto simp: page)
  show "take limit page \<noteq> [] \<and> last (take limit page) = rows ! (limit - 1)" if "limit < length rows"
    using that pos by (subst last_conv_nth) (auto simp: page)
qed

definition item_store :: "string \<Rightarrow> int \<Rightarrow> disk \<Rightarrow> bool" where
  "item_store path limit disk \<longleftrightarrow> 1 \<le> limit \<and> limit \<le> 1000 \<and>
     (\<exists>db. open_readonly_queue disk path = Inr db \<and> distinct (map qr_id (q_items db)))"

definition listed_items :: "queue_status list option \<Rightarrow> qdb \<Rightarrow> item_row list" where
  "listed_items statuses db = sort_key item_order (filter (status_filter statuses) (q_items db))"

definition item_cursor :: "(pyval \<Rightarrow> string) \<Rightarrow> queue_status list option \<Rightarrow> string \<times> string \<Rightarrow> query_cursor" where
  "item_cursor digest statuses k = encoded_cursor ''queue_items'' (item_fingerprint digest statuses)
     [(''created_at'', PStr (fst k)), (''id'', PStr (snd k))]"

definition items_read ::
  "(pyval \<Rightarrow> string) \<Rightarrow> string \<Rightarrow> queue_status list option \<Rightarrow> int \<Rightarrow> disk \<Rightarrow> query_cursor option \<Rightarrow>
   pyexc + queue_item list \<times> query_cursor option" where
  "items_read digest path statuses limit disk cursor =
     page_answer (query_queue_items digest disk path statuses cursor limit)"

lemma distinct_item_order: "distinct (map qr_id rows) \<Longrightarrow> distinct (map item_order rows)"
  by (auto simp: distinct_map inj_on_def item_order_def)

lemma after_item_beyond: "after_item position = beyond item_order position"
  by (cases position) (auto simp: after_item_def item_order_def fun_eq_iff)

lemma item_position_cursor:
  "item_position (item_fingerprint digest statuses) (map_option (item_cursor digest statuses) position) = Inr position"
  by (cases position)
    (auto simp: item_position_def item_cursor_def position_text_def field_of_def dict_get_def)

interpretation item_pages: keyset_pages
  "item_store path limit" "\<lambda>disk. listed_items statuses (stored_queue path disk)" item_order
  "\<lambda>r. row_to_item r None" "item_cursor digest statuses" "nat limit" "items_read digest path statuses limit"
  for path limit statuses digest
proof
  fix disk :: disk and rows position
  assume store: "item_store path limit disk"
    and rows: "rows = filter (beyond item_order position) (listed_items statuses (stored_queue path disk))"
  from store obtain db where db: "open_readonly_queue disk path = Inr db" "1 \<le> limit" "limit \<le> 1000"
    by (auto simp: item_store_def)
  have "0 < nat limit" using db by simp
  note page = page_rows [OF rows [unfolded listed_items_def stored_queue_def db sum.case] this]
  show "items_read digest path statuses limit disk (map_option (item_cursor digest statuses) position) =
    rbnd (decode_rows (\<lambda>r. row_to_item r None) (take (nat limit) rows)) (\<lambda>items. Inr (items,
      if nat limit < length rows then Some (item_cursor digest statuses (item_order (rows ! (nat limit - 1)))) else None))"
    using page db
    by (auto simp: items_read_def query_queue_items_def validated_limit_def item_position_cursor after_item_beyond
        page_answer_def item_page_def item_cursor_def item_order_def rbnd_def Let_def split: sum.split)
qed (auto simp: item_store_def listed_items_def stored_queue_def distinct_item_order intro!: sort_key_increasing)

definition event_store ::
  "(qdb \<Rightarrow> 'r list) \<Rightarrow> ('r \<Rightarrow> int) \<Rightarrow> string \<Rightarrow> string option \<Rightarrow> int \<Rightarrow> disk \<Rightarrow> bool" where
  "event_store table sq path item_id limit disk \<longleftrightarrow> 1 \<le> limit \<and> limit \<le> 1000 \<and>
     (case item_id of None \<Rightarrow> True | Some i \<Rightarrow> \<not> blank i) \<and>
     (\<exists>db. open_readonly_queue disk path = Inr db \<and> distinct (map sq (table db)) \<and>
        (\<forall>r \<in> set (table db). 0 \<le> sq r \<and> sq r < 2 ^ 63))"

definition listed_events ::
  "(qdb \<Rightarrow> 'r list) \<Rightarrow> ('r \<Rightarrow> int) \<Rightarrow> ('r \<Rightarrow> string) \<Rightarrow> string option \<Rightarrow> qdb \<Rightarrow> 'r list" where
  "listed_events table sq item_of item_id db =
     sort_key sq (filter (\<lambda>r. of_item item_id (item_of r)) (table db))"

definition event_cursor :: "(pyval \<Rightarrow> string) \<Rightarrow> string \<Rightarrow> string option \<Rightarrow> int \<Rightarrow> query_cursor" where
  "event_cursor digest kind item_id n = encoded_cursor kind (event_fingerprint digest kind item_id)
     [(''sequence'', PInt n)]"

definition events_read ::
  "(qdb \<Rightarrow> 'r list) \<Rightarrow> ('r \<Rightarrow> int) \<Rightarrow> ('r \<Rightarrow> string) \<Rightarrow> string \<Rightarrow> ('r \<Rightarrow> pyexc + 'a) \<Rightarrow> (pyval \<Rightarrow> string) \<Rightarrow>
   string \<Rightarrow> string option \<Rightarrow> int \<Rightarrow> disk \<Rightarrow> query_cursor option \<Rightarrow> pyexc + 'a list \<times> query_cursor option" where
  "events_read table sq item_of kind decoder digest path item_id limit disk cursor =
     page_answer (query_events table sq item_of kind decoder digest disk path item_id cursor limit)"

lemma after_sequence_beyond: "after_sequence sq position = beyond sq position"
  by (cases position) (auto simp: after_sequence_def fun_eq_iff)

lemma event_position_cursor:
  assumes "known (event_store table sq path item_id limit)
    (\<lambda>disk. listed_events table sq item_of item_id (stored_queue path disk)) sq position"
  shows "event_position kind (event_fingerprint digest kind item_id)
    (map_option (event_cursor digest kind item_id) position) = Inr position"
proof (cases position)
  case (Some n)
  then have "0 \<le> n \<and> n < 2 ^ 63"
    using assms by (auto simp: event_store_def listed_events_def stored_queue_def)
  then show ?thesis
    using Some by (simp add: event_position_def event_cursor_def position_sequence_def field_of_def dict_get_def)
qed (simp add: event_position_def)

interpretation event_pages: keyset_pages
  "event_store table sq path item_id limit"
  "\<lambda>disk. listed_events table sq item_of item_id (stored_queue path disk)" sq
  decoder "event_cursor digest kind item_id" "nat limit" "events_read table sq item_of kind decoder digest path item_id limit"
  for table :: "qdb \<Rightarrow> 'r list" and sq item_of kind and decoder :: "'r \<Rightarrow> pyexc + 'a" and digest path item_id limit
proof
  fix disk :: disk and rows position
  assume store: "event_store table sq path item_id limit disk"
    and known: "known (event_store table sq path item_id limit)
      (\<lambda>disk. listed_events table sq item_of item_id (stored_queue path disk)) sq position"
    and rows: "rows = filter (beyond sq position) (listed_events table sq item_of item_id (stored_queue path disk))"
  from store obtain db where db: "open_readonly_queue disk path = Inr db" "1 \<le> limit" "limit \<le> 1000"
    and ids: "validated_optional_item_id item_id = Inr item_id"
    by (auto simp: event_store_def validated_optional_item_id_def validated_item_id_def split: option.splits)
  have "0 < nat limit" using db by simp
  note page = page_rows [OF rows [unfolded listed_events_def stored_queue_def db sum.case] this]
  show "events_read table sq item_of kind decoder digest path item_id limit disk
      (map_option (event_cursor digest kind item_id) position) =
    rbnd (decode_rows decoder (take (nat limit) rows)) (\<lambda>items. Inr (items,
      if nat limit < length rows then Some (event_cursor digest kind item_id (sq (rows ! (nat limit - 1)))) else None))"
    using page db ids
    by (auto simp: events_read_def query_events_def validated_limit_def event_position_cursor [OF known]
        after_sequence_beyond page_answer_def event_cursor_def rbnd_def Let_def split: sum.split)
qed (auto simp: event_store_def listed_events_def stored_queue_def intro!: sort_key_increasing)

section \<open>A queue while workers go on\<close>

text \<open>
  What a client reads in turn: page \<open>n\<close> from \<open>disks n\<close>, which holds the queue \<open>dbs n\<close> as the workers and
  operators have left it by then.
\<close>

definition watched :: "queue_cfg \<Rightarrow> bool \<Rightarrow> string \<Rightarrow> (nat \<Rightarrow> disk) \<Rightarrow> (nat \<Rightarrow> qdb) \<Rightarrow> bool" where
  "watched C adm path disks dbs \<longleftrightarrow> qinv C (dbs 0) \<and> poison_numbered (dbs 0) \<and>
     (\<forall>n. open_readonly_queue (disks n) path = Inr (dbs n) \<and> qsteps C adm (dbs n) (dbs (Suc n)) \<and>
        q_attempt_seq (dbs n) < 2 ^ 63 \<and> q_poison_seq (dbs n) < 2 ^ 63)"

lemma watchedD:
  assumes "watched C adm path disks dbs"
  shows "open_readonly_queue (disks n) path = Inr (dbs n)" and "qsteps C adm (dbs n) (dbs (Suc n))"
    and "q_attempt_seq (dbs n) < 2 ^ 63" and "q_poison_seq (dbs n) < 2 ^ 63"
  using assms unfolding watched_def by blast+

lemma watched_stored: "watched C adm path disks dbs \<Longrightarrow> stored_queue path (disks n) = dbs n"
  by (simp add: watchedD(1) stored_queue_def)

lemma watched_inv:
  assumes "watched C adm path disks dbs"
  shows "qinv C (dbs n)" and "poison_numbered (dbs n)" and "m \<le> n \<Longrightarrow> qsteps C adm (dbs m) (dbs n)"
proof -
  have "qinv C (dbs n) \<and> poison_numbered (dbs n)"
  proof (induction n)
    case (Suc n)
    then show ?case
      using qsteps_qinv [OF watchedD(2) [OF assms]] numbering.qsteps_kept [OF watchedD(2) [OF assms]]
      by (simp add: numbering_kept_def)
  qed (use assms in \<open>simp add: watched_def\<close>)
  then show "qinv C (dbs n)" "poison_numbered (dbs n)" by simp_all
  show "qsteps C adm (dbs m) (dbs n)" if "m \<le> n"
    using that by (induction rule: dec_induct) (auto intro: qsteps_trans watchedD(2) [OF assms])
qed

lemma numbered_distinct:
  assumes "map sq rows = [1..n]" "n < 2 ^ 63"
  shows "distinct (map sq rows) \<and> (\<forall>r \<in> set rows. 0 \<le> sq r \<and> sq r < (2::int) ^ 63)"
proof -
  have "sq ` set rows = {1..n}" using arg_cong [OF assms(1), of set] by simp
  then have "\<forall>r \<in> set rows. 1 \<le> sq r \<and> sq r \<le> n" by (metis atLeastAtMost_iff imageI)
  moreover have "distinct (map sq rows)" unfolding assms(1) by simp
  ultimately show ?thesis using assms(2) by force
qed

lemma watched_stores:
  assumes "watched C adm path disks dbs" and "1 \<le> limit" and "limit \<le> 1000" and "validated_optional_item_id item_id = Inr item_id"
  shows "item_store path limit (disks n)"
    and "event_store q_attempts qa_sequence path item_id limit (disks n)"
    and "event_store q_poison qp_sequence path item_id limit (disks n)"
proof -
  have "case item_id of None \<Rightarrow> True | Some i \<Rightarrow> \<not> blank i"
    using assms(4) by (auto simp: validated_optional_item_id_def validated_item_id_def split: option.splits if_splits)
  note item = this
  have attempts: "map qa_sequence (q_attempts (dbs n)) = [1..q_attempt_seq (dbs n)]"
    and poison: "map qp_sequence (q_poison (dbs n)) = [1..q_poison_seq (dbs n)]"
    and ids: "distinct (map qr_id (q_items (dbs n)))"
    using watched_inv [OF assms(1), of n] by (simp_all add: qinv_def attempts_ok_def rows_ok_def poison_numbered_def)
  show "item_store path limit (disks n)"
    using assms(2,3) watchedD(1) [OF assms(1), of n] ids unfolding item_store_def by blast
  show "event_store q_attempts qa_sequence path item_id limit (disks n)"
    using assms(2,3) item watchedD(1) [OF assms(1), of n] numbered_distinct [OF attempts watchedD(3) [OF assms(1)]]
    unfolding event_store_def by blast
  show "event_store q_poison qp_sequence path item_id limit (disks n)"
    using assms(2,3) item watchedD(1) [OF assms(1), of n] numbered_distinct [OF poison watchedD(4) [OF assms(1)]]
    unfolding event_store_def by blast
qed

text \<open>An item keeps its identity and its creation time, so its place in the order.\<close>

lemma watched_order:
  assumes "watched C adm path disks dbs"
    and "r \<in> set (q_items (dbs m))" "s \<in> set (q_items (dbs n))" "qr_id r = qr_id s"
  shows "item_order r = item_order s"
proof -
  have one: "item_order a = item_order b" if ab: "j \<le> k" "a \<in> set (q_items (dbs j))" "b \<in> set (q_items (dbs k))"
    "qr_id a = qr_id b" for a b j k
  proof -
    obtain i where i: "i < length (q_items (dbs j))" "a = q_items (dbs j) ! i" using ab(2) by (auto simp: in_set_conv_nth)
    let ?b = "q_items (dbs k) ! i"
    have same: "same_item a ?b" "i < length (q_items (dbs k))"
      using qsteps_rows [OF watched_inv(3) [OF assms(1) ab(1)]] i by (auto simp: rows_kept_def)
    have "distinct (map qr_id (q_items (dbs k)))"
      using watched_inv(1) [OF assms(1)] by (simp add: qinv_def rows_ok_def)
    then have "?b = b" using same ab(3,4) by (auto simp: distinct_map inj_on_def same_item_def)
    then show ?thesis using same by (simp add: same_item_def item_order_def)
  qed
  show ?thesis using one [of m n r s] one [of n m s r] assms(2-4) by (metis nat_le_linear)
qed

section \<open>Properties\<close>

definition attempts_read ::
  "(pyval \<Rightarrow> string) \<Rightarrow> string \<Rightarrow> string option \<Rightarrow> int \<Rightarrow> disk \<Rightarrow> query_cursor option \<Rightarrow>
   pyexc + queue_attempt list \<times> query_cursor option" where
  "attempts_read digest path item_id limit disk cursor =
     page_answer (query_queue_attempts digest disk path item_id cursor limit)"

definition poison_read ::
  "(pyval \<Rightarrow> string) \<Rightarrow> string \<Rightarrow> string option \<Rightarrow> int \<Rightarrow> disk \<Rightarrow> query_cursor option \<Rightarrow>
   pyexc + queue_poison_event list \<times> query_cursor option" where
  "poison_read digest path item_id limit disk cursor =
     page_answer (query_queue_poison_events digest disk path item_id cursor limit)"

lemma reads_events:
  "attempts_read digest path item_id limit =
     events_read q_attempts qa_sequence qa_item_id ''queue_attempts'' row_to_attempt digest path item_id limit"
  "poison_read digest path item_id limit =
     events_read q_poison qp_sequence qp_item_id ''queue_poison_events'' row_to_poison_event digest path item_id limit"
  by (simp_all add: fun_eq_iff attempts_read_def poison_read_def events_read_def query_queue_attempts_def
      query_queue_poison_events_def)

lemma listings:
  "fst (list_items statuses None 0 db) = decode_rows (\<lambda>r. row_to_item r None) (listed_items statuses db)"
  "fst (list_attempts item_id db) = decode_rows row_to_attempt (listed_events q_attempts qa_sequence qa_item_id item_id db)"
  "fst (list_poison_events item_id db) =
     decode_rows row_to_poison_event (listed_events q_poison qp_sequence qp_item_id item_id db)"
  by (simp_all add: list_items_def items_where_def bnd_def lift_res_def limit_offset_def listed_items_def
      list_attempts_def list_poison_events_def listed_events_def)

lemma set_listed:
  "r \<in> set (listed_items statuses db) \<longleftrightarrow> r \<in> set (q_items db) \<and> status_filter statuses r"
  "e \<in> set (listed_events table sq item_of item_id db) \<longleftrightarrow> e \<in> set (table db) \<and> of_item item_id (item_of e)"
  by (simp_all add: listed_items_def listed_events_def)

lemma length_listed:
  "length (listed_items statuses db) \<le> length (q_items db)"
  "length (listed_events table sq item_of item_id db) \<le> length (table db)"
  by (simp_all add: listed_items_def listed_events_def)

text \<open>
  C35: reading page after page of a queue at rest gives what the writable queue lists at once: all items of
  the chosen statuses in creation order, all attempts and all poison events in sequence order, each once,
  whatever the page size; a record that cannot be decoded raises the same error.
\<close>

theorem queue_pages_equal_the_listings:
  assumes "watched C adm path (\<lambda>_. disk) (\<lambda>_. db)" and "1 \<le> limit" and "limit \<le> 1000"
    and "validated_optional_item_id item_id = Inr item_id" and "0 < fuel"
    and "length (q_items db) \<le> fuel * nat limit" and "length (q_attempts db) \<le> fuel * nat limit"
    and "length (q_poison db) \<le> fuel * nat limit"
  shows "follow (items_read digest path statuses limit) (\<lambda>_. disk) fuel 0 None =
      rbnd (fst (list_items statuses None 0 db)) (\<lambda>items. Inr (Some items)) \<and>
    follow (attempts_read digest path item_id limit) (\<lambda>_. disk) fuel 0 None =
      rbnd (fst (list_attempts item_id db)) (\<lambda>items. Inr (Some items)) \<and>
    follow (poison_read digest path item_id limit) (\<lambda>_. disk) fuel 0 None =
      rbnd (fst (list_poison_events item_id db)) (\<lambda>items. Inr (Some items))"
proof -
  note stores = watched_stores [OF assms(1-4)]
  have db: "stored_queue path disk = db" using watched_stored [OF assms(1)] .
  show ?thesis
    using item_pages.follow_all [OF stores(1), of statuses fuel digest 0]
      event_pages.follow_all [OF stores(2), of qa_item_id fuel "''queue_attempts''" row_to_attempt digest 0]
      event_pages.follow_all [OF stores(3), of qp_item_id fuel "''queue_poison_events''" row_to_poison_event digest 0]
      assms(5) le_trans [OF length_listed(1) assms(6), of statuses]
      le_trans [OF length_listed(2) [where table = q_attempts] assms(7), of qa_sequence qa_item_id item_id]
      le_trans [OF length_listed(2) [where table = q_poison] assms(8), of qp_sequence qp_item_id item_id]
    by (simp add: db listings reads_events)
qed

text \<open>A disk with a small queue at the current version.\<close>

definition demo_disk :: disk where
  "demo_disk path = (if path = ''q.db'' then QueueFile \<lparr>qf_header = ''SQLite format 3'' @ [CHR 0x00],
     qf_versions = Some [(''queue'', 5)], qf_fault = None, qf_db = demo_claimed\<rparr> else NoEntry)"

lemma demo_opened: "open_readonly_queue demo_disk ''q.db'' = Inr demo_claimed"
proof -
  have path: "validate_durable_sqlite_path (PStr ''q.db'') = Inr ''q.db''"
    by (simp add: validate_durable_sqlite_path_def blank_def strip_def is_space_def code_point_def)
  show ?thesis
    by (simp add: open_readonly_queue_def database_header_journal_mode_def connect_readonly_def path demo_disk_def
        header_journal_mode_def file_schema_def ensure_database_compatibility_def require_current_schema_def
        component_schema_version_def supported_version_def version_acceptable_def queue_schema_version_def
        transaction_schema_version_def empty_sql_def bnd_def thn_def get_st_def ret_def)
qed

lemma demo_watched: "watched demo_cfg False ''q.db'' (\<lambda>_. demo_disk) (\<lambda>_. demo_claimed)"
  by (simp add: watched_def qinv_demo_claimed demo_opened)
    (simp add: poison_numbered_def demo_claimed_def empty_queue_def)

theorem queue_pages_equal_the_listings_witness:
  "follow (attempts_read (\<lambda>_. ''h'') ''q.db'' None 1) (\<lambda>_. demo_disk) 1 0 None = Inr (Some [demo_attempt])"
proof -
  have "fst (list_attempts None demo_claimed) = Inr [demo_attempt]"
    by (simp add: list_attempts_def demo_claimed_def empty_queue_def of_item_def row_to_attempt_def demo_attempt_def)
  then show ?thesis
    using queue_pages_equal_the_listings [OF demo_watched, of 1 None 1 "\<lambda>_. ''h''" None]
    by (simp add: validated_optional_item_id_def demo_claimed_def empty_queue_def)
qed

text \<open>
  C36: pages read while workers and operators go on never show an item twice, show an item only as it was
  at one of the readings, and leave out no item that fits the filter all the time; in the journal of
  attempts they also leave out nothing that was there at the first reading.
\<close>

theorem queue_pages_neither_repeat_nor_omit:
  assumes "watched C adm path disks dbs" and "1 \<le> limit" and "limit \<le> 1000"
    and "validated_optional_item_id item_id = Inr item_id"
    and "follow (items_read digest path statuses limit) disks fuel 0 None = Inr (Some items)"
    and "follow (attempts_read digest path item_id limit) disks fuel 0 None = Inr (Some attempts)"
  shows "distinct (map qi_id items) \<and>
    (\<forall>x \<in> set items. \<exists>n r. r \<in> set (q_items (dbs n)) \<and> status_filter statuses r \<and> row_to_item r None = Inr x) \<and>
    (\<forall>i. (\<forall>n. \<exists>r \<in> set (q_items (dbs n)). qr_id r = i \<and> status_filter statuses r) \<longrightarrow> i \<in> qi_id ` set items) \<and>
    distinct (map qa_sequence attempts) \<and>
    (\<forall>a \<in> set (q_attempts (dbs 0)). of_item item_id (qa_item_id a) \<longrightarrow> qa_sequence a \<in> qa_sequence ` set attempts)"
proof -
  note stores = watched_stores [OF assms(1-4)] and db = watched_stored [OF assms(1)]
  have items: "distinct (map qi_id items) \<and>
      (\<forall>x \<in> set items. \<exists>n r. r \<in> set (listed_items statuses (stored_queue path (disks n))) \<and> row_to_item r None = Inr x) \<and>
      (\<forall>i. (\<forall>n. \<exists>r \<in> set (listed_items statuses (stored_queue path (disks n))). qr_id r = i) \<longrightarrow> i \<in> qi_id ` set items)"
  proof (rule item_pages.follow_identities [OF stores(1) assms(5)])
    show "item_order r = item_order s" if "r \<in> set (listed_items statuses (stored_queue path (disks m)))"
      "s \<in> set (listed_items statuses (stored_queue path (disks n)))" "qr_id r = qr_id s" for m n r s
      using that watched_order [OF assms(1)] by (auto simp: db listed_items_def)
  qed (auto simp: row_to_item_def item_order_def split: sum.splits option.splits if_splits)
  have attempts: "distinct (map qa_sequence attempts) \<and>
      (\<forall>x \<in> set attempts. \<exists>n r. r \<in> set (listed_events q_attempts qa_sequence qa_item_id item_id
        (stored_queue path (disks n))) \<and> row_to_attempt r = Inr x) \<and>
      (\<forall>i. (\<forall>n. \<exists>r \<in> set (listed_events q_attempts qa_sequence qa_item_id item_id
        (stored_queue path (disks n))). qa_sequence r = i) \<longrightarrow> i \<in> qa_sequence ` set attempts)"
    by (rule event_pages.follow_identities [OF stores(2) assms(6) [unfolded reads_events]])
      (auto simp: row_to_attempt_def map_sum_def split: sum.splits option.splits if_splits)
  have "\<exists>b \<in> set (q_attempts (dbs n)). of_item item_id (qa_item_id b) \<and> qa_sequence b = qa_sequence a"
    if a: "a \<in> set (q_attempts (dbs 0))" "of_item item_id (qa_item_id a)" for a n
  proof -
    obtain k where "k < length (q_attempts (dbs 0))" "a = q_attempts (dbs 0) ! k"
      using a(1) by (auto simp: in_set_conv_nth)
    then have "same_attempt a (q_attempts (dbs n) ! k)" "k < length (q_attempts (dbs n))"
      using qsteps_journal [OF watched_inv(3) [OF assms(1), of 0 n]] by (auto simp: journal_def)
    then show ?thesis using a(2) by (intro bexI [of _ "q_attempts (dbs n) ! k"]) (auto simp: same_attempt_def)
  qed
  then have "qa_sequence a \<in> qa_sequence ` set attempts"
    if "a \<in> set (q_attempts (dbs 0))" "of_item item_id (qa_item_id a)" for a
    using that by (intro attempts [THEN conjunct2, THEN conjunct2, rule_format]) (metis db set_listed(2))
  moreover have "i \<in> qi_id ` set items"
    if "\<forall>n. \<exists>r \<in> set (q_items (dbs n)). qr_id r = i \<and> status_filter statuses r" for i
    using that by (intro items [THEN conjunct2, THEN conjunct2, rule_format]) (metis db set_listed(1))
  ultimately show ?thesis using items attempts by (auto simp: db set_listed)
qed

theorem queue_pages_neither_repeat_nor_omit_witness:
  "\<exists>items attempts.
     follow (items_read (\<lambda>_. ''h'') ''q.db'' None 1) (\<lambda>_. demo_disk) 1 0 None = Inr (Some items) \<and>
     follow (attempts_read (\<lambda>_. ''h'') ''q.db'' None 1) (\<lambda>_. demo_disk) 1 0 None = Inr (Some attempts) \<and>
     ''a'' \<in> qi_id ` set items \<and> 1 \<in> qa_sequence ` set attempts"
proof -
  have limits: "(1::int) \<le> 1" "(1::int) \<le> 1000" "validated_optional_item_id None = Inr None"
    by (simp_all add: validated_optional_item_id_def)
  note stores = watched_stores [OF demo_watched limits] and db = watched_stored [OF demo_watched]
  have "\<exists>items. follow (items_read (\<lambda>_. ''h'') ''q.db'' None 1) (\<lambda>_. demo_disk) 1 0 None = Inr (Some items)"
    by (subst item_pages.follow_all [OF stores(1)])
      (simp_all add: db listed_items_def demo_defs status_filter_def row_to_item_def load_payload_def
        load_object_of_dict safe_dict_def parse_available_at_def)
  moreover have "\<exists>attempts. follow (attempts_read (\<lambda>_. ''h'') ''q.db'' None 1) (\<lambda>_. demo_disk) 1 0 None = Inr (Some attempts)"
    unfolding reads_events by (subst event_pages.follow_all [OF stores(2)])
      (simp_all add: db listed_events_def demo_defs of_item_def row_to_attempt_def)
  ultimately obtain items attempts where
    runs: "follow (items_read (\<lambda>_. ''h'') ''q.db'' None 1) (\<lambda>_. demo_disk) 1 0 None = Inr (Some items)"
      "follow (attempts_read (\<lambda>_. ''h'') ''q.db'' None 1) (\<lambda>_. demo_disk) 1 0 None = Inr (Some attempts)" by blast
  have "qr_id (claimed_row ''w'' 5 ''t'' demo_row) = ''a''" "qa_sequence demo_attempt = 1" by (simp_all add: demo_defs)
  then show ?thesis
    using queue_pages_neither_repeat_nor_omit [OF demo_watched limits runs] runs
    by (auto simp: demo_claimed_def empty_queue_def status_filter_def of_item_def)
qed

end
