(* ===== verification/QueueOpen.thy ===== *)
theory QueueOpen
  imports QueueMigrations QueueClaims ConfigValues
begin

text \<open>
  Constructing a queue (\<open>SqliteQueue.__init__\<close> of \<open>rpacore/queue.py\<close>): its settings, the checks made before
  the file is touched, the journal mode and the migrations.

  A database file is its tables and its journal mode. \<open>answer\<close> is the mode SQLite reports, and has, after
  \<open>PRAGMA journal_mode = DELETE\<close>; \<open>others\<close> is what other processes commit before the write lock is taken.
\<close>

section \<open>Settings\<close>

record queue_settings =
  qs_db_path :: string
  qs_cfg :: queue_cfg

definition queue_section :: "pydict \<Rightarrow> pydict" where
  "queue_section cfg = map (\<lambda>(k, v). (''queue.'' @ k, v)) cfg"

text \<open>An option of type \<open>str\<close> or \<open>int\<close>, as the value its check lets through.\<close>

definition text_option :: "pydict \<Rightarrow> string \<Rightarrow> string \<Rightarrow> pyexc + string" where
  "text_option config k fallback =
     rbnd (optional_config config k (plain_checks [TStr]) (PStr fallback)) (\<lambda>v.
       case v of PStr s \<Rightarrow> Inr s | _ \<Rightarrow> Inl (TypeErr ''str''))"

definition int_option :: "pydict \<Rightarrow> string \<Rightarrow> int \<Rightarrow> pyexc + int" where
  "int_option config k fallback =
     rbnd (optional_config config k (plain_checks [TInt]) (PInt fallback)) (\<lambda>v.
       case v of PInt n \<Rightarrow> Inr n | _ \<Rightarrow> Inl (TypeErr ''int''))"

definition queue_settings_of :: "(rat \<Rightarrow> int \<Rightarrow> bool) \<Rightarrow> pydict \<Rightarrow> pyexc + queue_settings" where
  "queue_settings_of overflows cfg =
     rbnd (text_option (queue_section cfg) ''queue.db_path'' ''queue.db'') (\<lambda>db_path.
     rbnd (int_option (queue_section cfg) ''queue.lease_timeout'' 30) (\<lambda>lease_timeout.
     rbnd (int_option (queue_section cfg) ''queue.max_retries'' 3) (\<lambda>max_retries.
     if lease_timeout \<le> 0 then Inl (ValueErr ''queue.lease_timeout'')
     else if max_retries < 0 then Inl (ValueErr ''queue.max_retries'')
     else rbnd (retry_policy cfg) (\<lambda>(retry_delay, retry_backoff).
          rbnd (validate_durable_sqlite_path (PStr db_path)) (\<lambda>path.
            Inr \<lparr>qs_db_path = path, qs_cfg = \<lparr>qc_lease_timeout = lease_timeout, qc_max_retries = max_retries,
              qc_retry_delay = retry_delay, qc_retry_backoff = retry_backoff, qc_overflows = overflows\<rparr>\<rparr>)))))"

section \<open>The constructor\<close>

record sqlite_file =
  sf_schema :: sql_db
  sf_journal :: string

definition on_schema :: "'a sql \<Rightarrow> (sqlite_file, pyexc, 'a) effect" where
  "on_schema m = (\<lambda>s. case m (sf_schema s) of (r, db) \<Rightarrow> (r, s\<lparr>sf_schema := db\<rparr>))"

definition set_rollback_journal :: "(string \<Rightarrow> string) \<Rightarrow> (sqlite_file, pyexc, string) effect" where
  "set_rollback_journal answer =
     thn (upd_st (\<lambda>s. s\<lparr>sf_journal := answer (sf_journal s)\<rparr>))
         (bnd get_st (\<lambda>s. lift_res (configure_rollback_journal (sf_journal s))))"

definition sqlite_queue ::
  "(string \<Rightarrow> string) \<Rightarrow> (sql_db \<Rightarrow> sql_db) \<Rightarrow> (rat \<Rightarrow> int \<Rightarrow> bool) \<Rightarrow> pydict \<Rightarrow>
   (sqlite_file, pyexc, queue_settings) effect" where
  "sqlite_queue answer others overflows cfg =
     bnd (lift_res (queue_settings_of overflows cfg)) (\<lambda>settings.
     thn (on_schema ensure_database_compatibility)
    (thn (on_schema (ensure_supported_schema ''queue'' queue_schema_version))
    (thn (set_rollback_journal answer)
    (thn (on_schema (ensure_queue_schema others))
         (ret settings)))))"

section \<open>Facts\<close>

lemma on_schema_cases:
  "on_schema m s = (r, t) \<longleftrightarrow> (\<exists>db. m (sf_schema s) = (r, db) \<and> t = s\<lparr>sf_schema := db\<rparr>)"
  by (auto simp: on_schema_def split: prod.splits)

lemma compatibility_keeps: "ensure_database_compatibility db = (r, db') \<Longrightarrow> db' = db"
  using keepsD [OF compatibility_unchanged(1)] by metis

lemma rollback_journal_run:
  "set_rollback_journal answer s =
     (configure_rollback_journal (answer (sf_journal s)), s\<lparr>sf_journal := answer (sf_journal s)\<rparr>)"
  by (simp add: set_rollback_journal_def thn_def bnd_def upd_st_def get_st_def lift_res_def)

lemma configure_rollback_Inr: "configure_rollback_journal m = Inr m' \<Longrightarrow> lower m = ''delete''"
  by (auto simp: configure_rollback_journal_def split: if_splits)

lemma queue_settings_Inr:
  assumes "queue_settings_of overflows cfg = Inr settings"
  shows "0 < qc_lease_timeout (qs_cfg settings) \<and> 0 \<le> qc_max_retries (qs_cfg settings) \<and>
    0 \<le> qc_retry_delay (qs_cfg settings) \<and> qc_retry_delay (qs_cfg settings) \<le> max_retry_delay \<and>
    1 \<le> qc_retry_backoff (qs_cfg settings) \<and> \<not> blank (qs_db_path settings) \<and>
    strip (qs_db_path settings) \<noteq> '':memory:''"
  using assms
  by (auto simp: queue_settings_of_def rbnd_Inr validate_durable_sqlite_path_def retry_policy_bounds
      split: if_splits prod.splits)

text \<open>
  C37: a queue that was constructed has settings within their documented bounds, a rollback journal and the
  current schema. A construction that fails leaves the tables as they were, or as another process
  has migrated them meanwhile; and a file of a newer version or with an unknown component keeps even its
  journal mode.
\<close>

theorem constructed_queue_is_ready:
  assumes "sqlite_queue answer others overflows cfg s = (r, t)"
  shows "case r of
      Inr settings \<Rightarrow> 0 < qc_lease_timeout (qs_cfg settings) \<and> 0 \<le> qc_max_retries (qs_cfg settings) \<and>
        0 \<le> qc_retry_delay (qs_cfg settings) \<and> qc_retry_delay (qs_cfg settings) \<le> max_retry_delay \<and>
        1 \<le> qc_retry_backoff (qs_cfg settings) \<and> \<not> blank (qs_db_path settings) \<and>
        strip (qs_db_path settings) \<noteq> '':memory:'' \<and>
        lower (sf_journal t) = ''delete'' \<and> component_schema_version ''queue'' (sf_schema t) = 5
    | Inl e \<Rightarrow> (sf_schema t = sf_schema s \<or> sf_schema t = others (sf_schema s)) \<and>
        (\<not> acceptable (sf_schema s) \<longrightarrow> t = s)"
proof (cases r)
  case (Inl e)
  have "t = s" if bad: "\<not> acceptable (sf_schema s)"
    using assms Inl compatibility(2) [OF bad]
    by (auto simp: sqlite_queue_def bnd_Inl thn_Inl lift_res_def on_schema_cases)
  moreover have "sf_schema t = sf_schema s \<or> sf_schema t = others (sf_schema s)"
    using assms Inl
    by (auto simp: sqlite_queue_def bnd_Inl thn_Inl lift_res_def on_schema_cases supported_run rollback_journal_run ret_def
        dest!: compatibility_keeps dest: ensure_failed)
  ultimately show ?thesis using Inl by simp
next
  case (Inr settings)
  then show ?thesis
    using assms ensured_current
    by (auto simp: sqlite_queue_def bnd_Inr thn_Inr lift_res_def on_schema_cases supported_run rollback_journal_run ret_def
        dest!: queue_settings_Inr configure_rollback_Inr)
qed

definition demo_settings :: queue_settings where
  "demo_settings = \<lparr>qs_db_path = ''queue.db'', qs_cfg = \<lparr>qc_lease_timeout = 30, qc_max_retries = 3,
     qc_retry_delay = 1, qc_retry_backoff = 2, qc_overflows = (\<lambda>_ _. False)\<rparr>\<rparr>"

lemma demo_constructed:
  "sqlite_queue (\<lambda>_. ''delete'') (\<lambda>s. s) (\<lambda>_ _. False) [] \<lparr>sf_schema = demo_queue_v2, sf_journal = ''wal''\<rparr> =
     (Inr demo_settings, \<lparr>sf_schema = demo_queue_v5, sf_journal = ''delete''\<rparr>)"
proof -
  have option: "text_option [] k f = Inr f" "int_option [] k n = Inr n" for k f n
    by (simp_all add: text_option_def int_option_def optional_config_def validate_value_def plain_checks_def dict_get_def
        is_rejected_bool_def is_instance_def choice_values_def list_ex_iff rbnd_def)
  have "retry_policy [] = Inr (1, 2)"
    by (simp add: retry_policy_def policy_number_def dict_get_def max_retry_delay_def Let_def)
  moreover have "validate_durable_sqlite_path (PStr ''queue.db'') = Inr ''queue.db''"
    by (simp add: validate_durable_sqlite_path_def blank_def strip_def is_space_def code_point_def)
  ultimately have "queue_settings_of (\<lambda>_ _. False) [] = Inr demo_settings"
    using option by (simp add: queue_settings_of_def queue_section_def demo_settings_def rbnd_def)
  moreover have "acceptable demo_queue_v2" "component_schema_version ''queue'' demo_queue_v2 \<le> 5"
    by (simp_all add: acceptable_def demo_queue_v2_def version_acceptable_def supported_version_def queue_schema_version_def
        component_schema_version_def)
  moreover have "lower ''delete'' = ''delete''" by (simp add: lower_def lower_char_def is_lower_def code_point_def)
  ultimately show ?thesis
    by (simp add: sqlite_queue_def bnd_def thn_def lift_res_def on_schema_def compatibility(1) supported_run
        rollback_journal_run configure_rollback_journal_def demo_queue_migrated ret_def queue_schema_version_def)
qed

theorem constructed_queue_is_ready_witness: "component_schema_version ''queue'' demo_queue_v5 = 5"
  using constructed_queue_is_ready [OF demo_constructed] by simp

end
