(* ===== verification/LoggerClaims.thy ===== *)
theory LoggerClaims
  imports Logger
begin

text \<open>
  What a log line can and cannot contain, for every record and every bound context, and what configuring
  loggers leaves.
\<close>

section \<open>Redaction\<close>

text \<open>The same object with nothing left under the redacted keys, at any depth.\<close>

fun erased :: "string list \<Rightarrow> log_value \<Rightarrow> log_value" where
  "erased redacted (LList xs) = LList (map (erased redacted) xs)"
| "erased redacted (LTuple xs) = LTuple (map (erased redacted) xs)"
| "erased redacted (LSet xs) = LSet (map (erased redacted) xs)"
| "erased redacted (LDict d) = LDict (map (\<lambda>(k, v). (k, if k \<in> set redacted then LNone else erased redacted v)) d)"
| "erased redacted v = v"

text \<open>No dictionary inside has one of these keys.\<close>

fun free_of :: "string list \<Rightarrow> pyval \<Rightarrow> bool" where
  "free_of keys (PList xs) = (\<forall>x \<in> set xs. free_of keys x)"
| "free_of keys (PDict d) = (\<forall>kv \<in> set d. fst kv \<notin> PStr ` set keys \<and> free_of keys (snd kv))"
| "free_of keys _ = True"

lemma set_dict_set: "set (dict_set d k v) \<subseteq> insert (k, v) (set d)"
  by (induction d k v rule: dict_set.induct) auto

lemma set_dict_merge: "set (dict_merge a b) \<subseteq> set a \<union> set b"
proof (induction b arbitrary: a)
  case (Cons kv b)
  obtain k v where kv: "kv = (k, v)" by (cases kv)
  have "dict_merge a (kv # b) = dict_merge (dict_set a k v) b" by (simp add: dict_merge_def kv)
  then show ?case using Cons [of "dict_set a k v"] set_dict_set [of a k v] kv by auto
qed (simp add: dict_merge_def)

lemma set_dict_of_items: "set (dict_of_items items) \<subseteq> set items"
  using set_dict_merge [of "[]" items] by (simp add: dict_of_items_def)

lemma free_of_dict:
  "free_of keys (of_dict d) \<longleftrightarrow> (\<forall>kv \<in> set d. fst kv \<notin> set keys \<and> free_of keys (snd kv))"
  by (auto simp: of_dict_def)

lemma log_value_safe: "sorted_dumpable (json_log_value ft redacted v) \<and> free_of redacted (json_log_value ft redacted v)"
proof (induction ft redacted v rule: json_log_value.induct)
  case (9 ft redacted d)
  have "sorted_dumpable (snd kv) \<and> fst kv \<notin> set redacted \<and> free_of redacted (snd kv)"
    if "kv \<in> set (dict_of_items (filter (\<lambda>(k, _). k \<notin> set redacted)
      (map (\<lambda>(k, v). (k, json_log_value ft redacted v)) d)))" for kv
    using that set_dict_of_items 9 by fastforce
  then show ?case by (auto simp: of_dict_dumpable free_of_dict)
qed auto

lemma erased_value: "json_log_value ft redacted (erased redacted v) = json_log_value ft redacted v"
proof (induction redacted v rule: erased.induct)
  case (4 redacted d)
  have "filter (\<lambda>(k, _). k \<notin> set redacted) (map (\<lambda>(k, v). (k, json_log_value ft redacted v))
      (map (\<lambda>(k, v). (k, if k \<in> set redacted then LNone else erased redacted v)) d)) =
    filter (\<lambda>(k, _). k \<notin> set redacted) (map (\<lambda>(k, v). (k, json_log_value ft redacted v)) d)"
    using 4 by (auto simp: filter_map comp_def case_prod_beta intro!: map_cong filter_cong)
  then show ?case by (simp only: erased.simps json_log_value.simps)
qed (auto cong: map_cong)

text \<open>A record with the same event and the same values outside the redacted fields.\<close>

definition erased_record :: "string list \<Rightarrow> log_record \<Rightarrow> log_record" where
  "erased_record redacted r = r\<lparr>lr_dict := map (\<lambda>(k, v). (k, if k = ''event'' then v
     else if k \<in> set redacted then LNone else erased redacted v)) (lr_dict r)\<rparr>"

lemma erased_extra:
  fixes redacted r
  defines "f \<equiv> (\<lambda>(k, v). (k, if k = ''event'' then v else if k \<in> set redacted then LNone else erased redacted v))"
  shows "extra_fields (erased_record redacted r) = map f (extra_fields r)"
  unfolding extra_fields_def erased_record_def f_def
  by (simp add: filter_map comp_def case_prod_unfold)

lemma erased_event: "event_of text_of fallback (extra_fields (erased_record redacted r)) = event_of text_of fallback (extra_fields r)"
proof -
  have "map_of (map (\<lambda>(k, v). (k, if k = ''event'' then v else if k \<in> set redacted then LNone else erased redacted v)) d) ''event'' =
      map_of d ''event''" for d
    by (induction d) auto
  then show ?thesis by (simp add: event_of_def erased_extra)
qed

lemma erased_attributes:
  "sanitized_extra_fields ft redacted (without_event (extra_fields (erased_record redacted r))) =
   sanitized_extra_fields ft redacted (without_event (extra_fields r))"
  unfolding erased_extra
  by (auto simp: sanitized_extra_fields_def without_event_def filter_map comp_def case_prod_unfold erased_value
      intro!: map_cong filter_cong)

section \<open>Contexts\<close>

text \<open>What can be bound: approved keys with non-empty texts and numbers from zero.\<close>

definition well_bound :: "pydict \<Rightarrow> bool" where
  "well_bound context \<longleftrightarrow> (\<forall>kv \<in> set context. fst kv \<in> set log_context_fields \<and> context_value (snd kv) = Inr ())"

lemma well_bound_merge: "well_bound a \<Longrightarrow> well_bound b \<Longrightarrow> well_bound (dict_merge a b)"
  using set_dict_merge [of a b] by (auto simp: well_bound_def)

lemma validate_context_Inr: "validate_context attributes = Inr () \<longleftrightarrow> well_bound attributes"
proof -
  have "(\<exists>ys. decode_rows (\<lambda>kv. context_value (snd kv)) d = Inr ys) \<longleftrightarrow> (\<forall>kv \<in> set d. context_value (snd kv) = Inr ())"
    for d :: pydict
    by (induction d) (auto split: sum.splits)
  then show ?thesis by (auto simp: validate_context_def well_bound_def rbnd_Inr)
qed

text \<open>The body runs in the merged context, and the context is the old one afterwards, also when it raises.\<close>

lemma bound_context:
  "bind_log_context attributes body s =
     (if well_bound attributes
      then (fst (body (s\<lparr>lg_context := dict_merge (lg_context s) attributes\<rparr>)),
            (snd (body (s\<lparr>lg_context := dict_merge (lg_context s) attributes\<rparr>)))\<lparr>lg_context := lg_context s\<rparr>)
      else (Inl (case validate_context attributes of Inl e \<Rightarrow> e), s))"
proof (cases "validate_context attributes")
  case (Inl e)
  then have "\<not> well_bound attributes" using validate_context_Inr [of attributes] by simp
  then show ?thesis using Inl by (simp add: bind_log_context_def thn_def bnd_def lift_res_def)
next
  case (Inr u)
  then have "well_bound attributes" using validate_context_Inr by simp
  then show ?thesis using Inr
    by (simp add: bind_log_context_def thn_def bnd_def lift_res_def split: prod.split)
qed

section \<open>Lines\<close>

lemma context_value_safe: "context_value v = Inr () \<Longrightarrow> sorted_dumpable v"
  by (auto simp: context_value_def split: pyval.splits)

lemma context_fields_apart:
  "k \<in> set log_context_fields \<Longrightarrow> k \<notin> set structured_redacted_extra_fields \<and> k \<notin> set canonical_json_fields"
  by (auto simp: log_context_fields_def structured_redacted_extra_fields_def redacted_extra_fields_def canonical_json_fields_def)

text \<open>The attributes of a line.\<close>

definition attributes_of :: "(rat \<Rightarrow> string) \<Rightarrow> pydict \<Rightarrow> log_record \<Rightarrow> pydict" where
  "attributes_of ft context r = dict_merge
     (sanitized_extra_fields ft structured_redacted_extra_fields (without_event (extra_fields r))) context"

lemma attributes_safe:
  assumes "well_bound context" "kv \<in> set (attributes_of ft context r)"
  shows "sorted_dumpable (snd kv)" and "free_of structured_redacted_extra_fields (snd kv)"
    and "fst kv \<notin> set structured_redacted_extra_fields" and "fst kv \<notin> set canonical_json_fields"
proof -
  have "kv \<in> set (sanitized_extra_fields ft structured_redacted_extra_fields (without_event (extra_fields r))) \<or> kv \<in> set context"
    using assms(2) set_dict_merge unfolding attributes_of_def by blast
  moreover have "free_of structured_redacted_extra_fields v" if "context_value v = Inr ()" for v
    using that by (auto simp: context_value_def split: pyval.splits)
  ultimately show "sorted_dumpable (snd kv)" "free_of structured_redacted_extra_fields (snd kv)"
    "fst kv \<notin> set structured_redacted_extra_fields" "fst kv \<notin> set canonical_json_fields"
    using assms(1) context_fields_apart context_value_safe log_value_safe
    by (auto simp: sanitized_extra_fields_def well_bound_def)
qed

lemma event_name_prefix: "take 8 (event_name e) = ''rpacore.''"
proof -
  have "\<forall>kv \<in> set event_names. take 8 (snd kv) = ''rpacore.''" by (simp add: event_names_def)
  then have "take 8 x = ''rpacore.''" if "map_of event_names e = Some x" for x using map_of_SomeD [OF that] by auto
  then show ?thesis by (auto simp: event_name_def split: option.split)
qed

lemma exception_part_dumpable [simp]: "sorted_dumpable (exception_part x)"
  by (simp add: exception_part_def of_dict_dumpable)

lemma payload_dumpable:
  assumes "well_bound context"
  shows "sorted_dumpable (of_dict (json_payload ft text_of context r))"
proof -
  have "sorted_dumpable (of_dict (attributes_of ft context r))"
    using attributes_safe(1) [OF assms] by (auto simp: of_dict_dumpable)
  then show ?thesis
    by (auto simp: json_payload_def Let_def attributes_of_def of_dict_dumpable [of "_ # _"] split: option.split)
qed

lemma erased_lines:
  "format_json ft text_of context (erased_record structured_redacted_extra_fields r) = format_json ft text_of context r"
  "format_text ft text_of value_text (erased_record redacted_extra_fields r) = format_text ft text_of value_text r"
  unfolding format_json_def format_text_def json_payload_def Let_def erased_event erased_attributes
  by (simp_all add: erased_record_def)

text \<open>
  C38: every record gives a JSON line. Its envelope has the canonical fields only, each once; no attribute
  takes the name of one, none of the redacted keys is left at any depth, and the event is in the framework's
  vocabulary. Neither the JSON nor the text line depends on anything stored under a redacted key.
\<close>

theorem log_lines_keep_secrets:
  assumes "well_bound context"
  shows "(\<exists>line. format_json ft text_of context r = Inr line) \<and>
    distinct (map fst (json_payload ft text_of context r)) \<and>
    fst ` set (json_payload ft text_of context r) \<subseteq> set canonical_json_fields \<and>
    (\<exists>attributes. dict_get (json_payload ft text_of context r) ''attributes'' = Some (of_dict attributes) \<and>
       free_of structured_redacted_extra_fields (of_dict attributes) \<and>
       fst ` set attributes \<inter> set canonical_json_fields = {}) \<and>
    (\<exists>event. dict_get (json_payload ft text_of context r) ''event'' = Some (PStr event) \<and> take 8 event = ''rpacore.'') \<and>
    format_json ft text_of context (erased_record structured_redacted_extra_fields r) = format_json ft text_of context r \<and>
    format_text ft text_of value_text (erased_record redacted_extra_fields r) = format_text ft text_of value_text r"
proof (intro conjI)
  let ?payload = "json_payload ft text_of context r"
  show "\<exists>line. format_json ft text_of context r = Inr line"
    using payload_dumpable [OF assms] by (simp add: format_json_def)
  show "distinct (map fst ?payload)" "fst ` set ?payload \<subseteq> set canonical_json_fields"
    by (auto simp: json_payload_def Let_def canonical_json_fields_def split: option.split)
  have "dict_get ?payload ''attributes'' = Some (of_dict (attributes_of ft context r))"
    by (simp add: json_payload_def Let_def attributes_of_def dict_get_def)
  then show "\<exists>attributes. dict_get ?payload ''attributes'' = Some (of_dict attributes) \<and>
      free_of structured_redacted_extra_fields (of_dict attributes) \<and> fst ` set attributes \<inter> set canonical_json_fields = {}"
    using attributes_safe [OF assms] by (intro exI conjI) (auto simp: free_of_dict)
  show "\<exists>event. dict_get ?payload ''event'' = Some (PStr event) \<and> take 8 event = ''rpacore.''"
    by (simp add: json_payload_def Let_def dict_get_def event_name_prefix)
qed (rule erased_lines)+

definition demo_record :: log_record where
  "demo_record = \<lparr>lr_levelname = ''INFO'', lr_created = utc_datetime 0, lr_name = ''rpacore'', lr_message = ''m'',
     lr_dict = [(''event'', LStr ''step_started''), (''config'', LDict [(''password'', LStr ''x'')]),
       (''data'', LDict [(''url'', LStr ''y''), (''n'', LInt 1)])],
     lr_exc_info = None, lr_stack_info = []\<rparr>"

theorem log_lines_keep_secrets_witness:
  "format_json (\<lambda>_. []) (\<lambda>_. ''e'') [(''worker_id'', PStr ''w'')] (erased_record structured_redacted_extra_fields demo_record) =
     format_json (\<lambda>_. []) (\<lambda>_. ''e'') [(''worker_id'', PStr ''w'')] demo_record \<and>
   erased_record structured_redacted_extra_fields demo_record \<noteq> demo_record"
proof -
  have "well_bound [(''worker_id'', PStr ''w'')]"
    by (simp add: well_bound_def log_context_fields_def context_value_def)
  moreover have "erased_record structured_redacted_extra_fields demo_record \<noteq> demo_record"
    by (simp add: erased_record_def demo_record_def structured_redacted_extra_fields_def redacted_extra_fields_def)
  ultimately show ?thesis using log_lines_keep_secrets by blast
qed

section \<open>Configuring loggers\<close>

text \<open>What the framework and the application do to the loggers; an application's handler is not owned.\<close>

inductive registry_step :: "log_registry \<Rightarrow> log_registry \<Rightarrow> bool" where
  r_get: "registry_step g (get_logger name g)"
| r_configure: "registry_step g (snd (configure_logger name level fmt g))"
| r_install: "\<not> hd_owned h \<Longrightarrow> registry_step g (set_logger name (\<lambda>l. l\<lparr>lo_handlers := lo_handlers l @ [h]\<rparr>) g)"

inductive_cases registry_stepE: "registry_step g g'"

definition owned_handlers :: "log_registry \<Rightarrow> string \<Rightarrow> handler list" where
  "owned_handlers g name = filter hd_owned (lo_handlers (rg_loggers g name))"

definition application_handlers :: "log_registry \<Rightarrow> string \<Rightarrow> handler list" where
  "application_handlers g name = filter (\<lambda>h. \<not> hd_owned h) (lo_handlers (rg_loggers g name))"

definition one_owned :: "log_registry \<Rightarrow> bool" where
  "one_owned g \<longleftrightarrow> (\<forall>name. length (owned_handlers g name) \<le> 1)"

lemma configure_run:
  "configure_logger name level fmt g = (r, g') \<Longrightarrow> (\<exists>e. r = Inl e \<and> g' = g) \<or>
     (r = Inr () \<and> length (owned_handlers g' (logger_name name)) = 1 \<and>
      application_handlers g' (logger_name name) = application_handlers g (logger_name name) \<and>
      (\<forall>other. other \<noteq> logger_name name \<longrightarrow> rg_loggers g' other = rg_loggers g other) \<and>
      rg_closed g' = rg_closed g @ map hd_id (owned_handlers g (logger_name name)))"
  by (auto simp: configure_logger_def raise_exc_def bnd_def lift_res_def upd_st_def Let_def owned_handlers_def
      application_handlers_def set_logger_def split: if_splits sum.splits)

lemma one_owned_kept:
  assumes "one_owned g" "registry_step g g'"
  shows "one_owned g'"
  using assms(2)
proof (cases rule: registry_step.cases)
  case (r_configure name level fmt)
  obtain r where run: "configure_logger name level fmt g = (r, g')" using r_configure by (metis prod.collapse)
  have "length (owned_handlers g' other) \<le> 1" for other
    using configure_run [OF run] assms(1)
    by (cases "other = logger_name name") (auto simp: one_owned_def owned_handlers_def)
  then show ?thesis by (simp add: one_owned_def)
next
  case (r_get name)
  then show ?thesis using assms(1)
    by (auto simp: one_owned_def owned_handlers_def get_logger_def Let_def set_logger_def)
next
  case (r_install h name)
  then show ?thesis using assms(1) by (auto simp: one_owned_def owned_handlers_def set_logger_def)
qed

text \<open>
  However often loggers are fetched, configured and extended by the application, every logger has at most
  one handler of the framework, so none writes a line twice; a configuration replaces it and closes the
  old one, keeps the application's handlers in order, and changes nothing when it is refused.
\<close>

theorem configured_loggers_have_one_handler:
  assumes "registry_step\<^sup>*\<^sup>* g g'" and "one_owned g" and "configure_logger name level fmt g' = (r, t)"
  shows "one_owned g' \<and> one_owned t \<and> (case r of
      Inl _ \<Rightarrow> t = g'
    | Inr _ \<Rightarrow> length (owned_handlers t (logger_name name)) = 1 \<and>
        application_handlers t (logger_name name) = application_handlers g' (logger_name name) \<and>
        rg_closed t = rg_closed g' @ map hd_id (owned_handlers g' (logger_name name)))"
proof -
  have g': "one_owned g'" using assms(1,2) by (induction rule: rtranclp_induct) (auto intro: one_owned_kept)
  moreover have "one_owned t" using one_owned_kept [OF g' r_configure, of name level fmt] assms(3) by simp
  ultimately show ?thesis using configure_run [OF assms(3)] by auto
qed

end
