(* ===== verification/Notify.thy ===== *)
theory Notify
  imports ReportRender Config Runtime
begin

text \<open>
  The notifiers (\<open>rpacore/notify.py\<close>): their configuration, what they send, and how they are built; the
  dispatch with its retries is in \<open>Runtime\<close>.

  The SMTP and HTTP conversations are the lists of what is asked of the server, in order. Of an error
  message the model keeps what it shows of a URL.
\<close>

section \<open>Sections of the configuration\<close>

text \<open>\<open>cfg.get(key, default)\<close> on a nested dictionary.\<close>

definition get_or :: "(pyval \<times> pyval) list \<Rightarrow> string \<Rightarrow> pyval \<Rightarrow> pyval" where
  "get_or d k fallback = (case map_of d (PStr k) of None \<Rightarrow> fallback | Some v \<Rightarrow> v)"

definition notification_section :: "pydict \<Rightarrow> string \<Rightarrow> pyexc + (pyval \<times> pyval) list" where
  "notification_section config name =
     (case (case dict_get config ''notification'' of None \<Rightarrow> PDict [] | Some v \<Rightarrow> v) of
        PDict raw \<Rightarrow>
          (case get_or raw name (PDict []) of
             PDict cfg \<Rightarrow> Inr cfg | _ \<Rightarrow> Inl (TypeErr (''notification.'' @ name)))
      | _ \<Rightarrow> Inl (TypeErr ''notification''))"

definition nonempty_text :: "(pyval \<times> pyval) list \<Rightarrow> string \<Rightarrow> pyexc + string" where
  "nonempty_text cfg k = (case get_or cfg k (PStr []) of
     PStr s \<Rightarrow> (if s = [] then Inl (ValueErr ''non-empty str'') else Inr s) | _ \<Rightarrow> Inl (TypeErr ''str''))"

definition int_value :: "(pyval \<times> pyval) list \<Rightarrow> string \<Rightarrow> int \<Rightarrow> pyexc + int" where
  "int_value cfg k fallback = (case get_or cfg k (PInt fallback) of PInt n \<Rightarrow> Inr n | _ \<Rightarrow> Inl (TypeErr ''int''))"

definition timeout_value :: "(pyval \<times> pyval) list \<Rightarrow> pyexc + int" where
  "timeout_value cfg = rbnd (int_value cfg ''timeout'' 30) (\<lambda>n.
     if n \<le> 0 then Inl (ValueErr ''int > 0'') else Inr n)"

definition bool_value :: "(pyval \<times> pyval) list \<Rightarrow> string \<Rightarrow> bool \<Rightarrow> pyexc + bool" where
  "bool_value cfg k fallback = (case get_or cfg k (PBool fallback) of PBool b \<Rightarrow> Inr b | _ \<Rightarrow> Inl (TypeErr ''bool''))"

section \<open>E-mail\<close>

record email_notifier =
  en_host :: string
  en_port :: int
  en_timeout :: int
  en_from :: string
  en_to :: "string list"
  en_attach :: bool
  en_credentials :: credential_provider

definition recipients :: "pyval \<Rightarrow> pyexc + string list" where
  "recipients v =
     rbnd (case v of
         PList xs \<Rightarrow>
           (if \<forall>x \<in> set xs. isinstance_of x TStr then Inr (map (\<lambda>x. case x of PStr s \<Rightarrow> s | _ \<Rightarrow> []) xs)
            else Inl (TypeErr ''list[str]''))
       | PStr s \<Rightarrow> Inr (filter (\<lambda>a. a \<noteq> []) (map strip (split_on CHR '','' s)))
       | _ \<Rightarrow> Inl (TypeErr ''list[str] or comma-separated str''))
     (\<lambda>to_addrs. if to_addrs = [] then Inl (ValueErr ''non-empty list[str]'') else Inr to_addrs)"

definition email_notifier_init :: "pydict \<Rightarrow> credential_provider \<Rightarrow> pyexc + email_notifier" where
  "email_notifier_init config credentials =
     rbnd (notification_section config ''email'') (\<lambda>cfg.
     rbnd (nonempty_text cfg ''host'') (\<lambda>host.
     rbnd (int_value cfg ''port'' 587) (\<lambda>port.
     rbnd (nonempty_text cfg ''from_addr'') (\<lambda>from_addr.
     rbnd (recipients (get_or cfg ''to_addrs'' (PStr []))) (\<lambda>to_addrs.
     rbnd (timeout_value cfg) (\<lambda>timeout.
     rbnd (bool_value cfg ''attach_screenshots'' True) (\<lambda>attach.
       Inr \<lparr>en_host = host, en_port = port, en_timeout = timeout, en_from = from_addr, en_to = to_addrs,
            en_attach = attach, en_credentials = credentials\<rparr>)))))))"

record email_message =
  em_subject :: string
  em_from :: string
  em_to :: string
  em_text :: string
  em_html :: string
  em_attachments :: "(string \<times> string) list"

datatype smtp_action =
    SmtpConnect string int int
  | SmtpStartTls
  | SmtpLogin string string
  | SmtpSend string "string list" email_message

text \<open>\<open>os.path.basename\<close>.\<close>

definition basename :: "string \<Rightarrow> string" where
  "basename path = last (split_on CHR ''/'' path)"

text \<open>Each path once, in the order of its first use; an unreadable file is skipped.\<close>

fun attachments :: "(string \<Rightarrow> string option) \<Rightarrow> string list \<Rightarrow> string list \<Rightarrow> (string \<times> string) list" where
  "attachments read_bytes seen [] = []"
| "attachments read_bytes seen (path # paths) =
     (if path = [] \<or> path \<in> set seen then attachments read_bytes seen paths
      else case read_bytes path of
        None \<Rightarrow> attachments read_bytes (path # seen) paths
      | Some content \<Rightarrow> (basename path, content) # attachments read_bytes (path # seen) paths)"

definition screenshot_paths :: "payload \<Rightarrow> string list" where
  "screenshot_paths p = concat (map (\<lambda>s. map ev_screenshot_path (sv_exceptions s)) (pl_steps p))"

definition email_message_of ::
  "(rat \<Rightarrow> string) \<Rightarrow> (step_exc \<Rightarrow> string) \<Rightarrow> (string \<Rightarrow> string option) \<Rightarrow> email_notifier \<Rightarrow> tx_report \<Rightarrow> email_message" where
  "email_message_of ft class_name read_bytes en r =
     (let p = record_payload ft class_name r in
      \<lparr>em_subject = ''rpacore ['' @ pl_status p @ ''] '' @ pl_reference p, em_from = en_from en,
       em_to = joined '', '' (en_to en), em_text = render_text ft class_name r, em_html = render_html ft class_name r,
       em_attachments = (if en_attach en then attachments read_bytes [] (screenshot_paths p) else [])\<rparr>)"

definition email_send ::
  "(string \<Rightarrow> string option) \<Rightarrow> (string \<Rightarrow> string \<Rightarrow> string option) option \<Rightarrow> (rat \<Rightarrow> string) \<Rightarrow> (step_exc \<Rightarrow> string) \<Rightarrow>
   (string \<Rightarrow> string option) \<Rightarrow> email_notifier \<Rightarrow> tx_report \<Rightarrow> pyexc + smtp_action list" where
  "email_send environ keyring ft class_name read_bytes en r =
     rbnd (get_credential environ keyring (en_credentials en) ''smtp_password'') (\<lambda>password.
       Inr [SmtpConnect (en_host en) (en_port en) (en_timeout en), SmtpStartTls, SmtpLogin (en_from en) password,
            SmtpSend (en_from en) (en_to en) (email_message_of ft class_name read_bytes en r)])"

section \<open>URLs\<close>

record url_parts =
  up_scheme :: string
  up_netloc :: string
  up_path :: string
  up_params :: string
  up_query :: string
  up_fragment :: string

definition scheme_char :: "char \<Rightarrow> bool" where
  "scheme_char c \<longleftrightarrow> is_letter c \<or> is_digit c \<or> c \<in> {CHR ''+'', CHR ''-'', CHR ''.''}"

text \<open>
  \<open>urllib.parse.urlparse\<close>, as far as it is used. \<open>valid_netloc\<close> is its check of bracketed and of
  non-ASCII hosts.
\<close>

definition clean_url :: "string \<Rightarrow> string" where
  "clean_url url = filter (\<lambda>c. c \<notin> {CHR 0x09, CHR 0x0A, CHR 0x0D}) (dropWhile (\<lambda>c. code_point c \<le> 32) url)"

definition split_scheme :: "string \<Rightarrow> string \<times> string" where
  "split_scheme url =
     (let candidate = takeWhile (\<lambda>c. c \<noteq> CHR '':'') url in
      if candidate \<noteq> [] \<and> length candidate < length url \<and> is_letter (hd candidate) \<and> list_all scheme_char candidate
      then (lower candidate, drop (Suc (length candidate)) url) else ([], url))"

definition cut_at :: "char \<Rightarrow> string \<Rightarrow> string \<times> string" where
  "cut_at c s = (takeWhile (\<lambda>x. x \<noteq> c) s, drop 1 (dropWhile (\<lambda>x. x \<noteq> c) s))"

text \<open>The parameters are those of the last segment of the path; only some schemes have them.\<close>

definition split_params :: "string \<Rightarrow> string \<Rightarrow> string \<times> string" where
  "split_params scheme path =
     (let segments = split_on CHR ''/'' path; (segment, params) = cut_at CHR '';'' (last segments) in
      if scheme \<in> {[], ''ftp'', ''hdl'', ''prospero'', ''http'', ''imap'', ''https'', ''shttp'', ''rtsp'', ''rtsps'',
           ''rtspu'', ''sip'', ''sips'', ''mms'', ''sftp'', ''tel''}
      then (join_on CHR ''/'' (butlast segments @ [segment]), params) else (path, []))"

definition urlparse :: "(string \<Rightarrow> bool) \<Rightarrow> string \<Rightarrow> pyexc + url_parts" where
  "urlparse valid_netloc url =
     (let (scheme, rest) = split_scheme (clean_url url);
          location = take 2 rest = ''//'';
          ends = (\<lambda>c. c \<in> {CHR ''/'', CHR ''?'', CHR ''#''});
          netloc = (if location then takeWhile (\<lambda>c. \<not> ends c) (drop 2 rest) else []);
          tail = (if location then dropWhile (\<lambda>c. \<not> ends c) (drop 2 rest) else rest);
          (before, fragment) = cut_at CHR ''#'' tail;
          (whole_path, query) = cut_at CHR ''?'' before;
          (path, params) = split_params scheme whole_path
      in if valid_netloc netloc
         then Inr \<lparr>up_scheme = scheme, up_netloc = netloc, up_path = path, up_params = params, up_query = query,
           up_fragment = fragment\<rparr>
         else Inl (ValueErr ''Invalid URL''))"

text \<open>\<open>geturl\<close>, for a URL with a scheme and a location; an empty component is left out with its mark.\<close>

definition marked :: "char \<Rightarrow> string \<Rightarrow> string" where
  "marked c s = (if s = [] then [] else c # s)"

definition geturl :: "url_parts \<Rightarrow> string" where
  "geturl p = up_scheme p @ ''://'' @ up_netloc p @ up_path p @ marked CHR '';'' (up_params p) @
     marked CHR ''?'' (up_query p) @ marked CHR ''#'' (up_fragment p)"

text \<open>What stands before the last at sign of the location, split at its first colon.\<close>

definition user_info :: "string \<Rightarrow> string option" where
  "user_info netloc = (case rev (split_on CHR ''@'' netloc) of
     host # (w # ws) \<Rightarrow> Some (join_on CHR ''@'' (rev (w # ws))) | _ \<Rightarrow> None)"

definition has_credentials :: "string \<Rightarrow> bool" where
  "has_credentials netloc = (case user_info netloc of
     None \<Rightarrow> False
   | Some info \<Rightarrow> takeWhile (\<lambda>c. c \<noteq> CHR '':'') info \<noteq> [] \<or> drop 1 (dropWhile (\<lambda>c. c \<noteq> CHR '':'') info) \<noteq> [])"

definition redact_url_credentials :: "url_parts \<Rightarrow> string" where
  "redact_url_credentials parsed =
     geturl (parsed\<lparr>up_netloc := ''<credentials>@'' @ last (split_on CHR ''@'' (up_netloc parsed))\<rparr>)"

section \<open>Webhooks\<close>

record webhook_notifier =
  wn_url :: string
  wn_timeout :: int
  wn_include_transaction :: bool
  wn_include_report :: bool

definition webhook_url :: "(string \<Rightarrow> bool) \<Rightarrow> string \<Rightarrow> pyexc + string" where
  "webhook_url valid_netloc url =
     rbnd (urlparse valid_netloc url) (\<lambda>parsed.
       if up_scheme parsed \<notin> {''http'', ''https''} \<or> up_netloc parsed = [] then Inl (ValueErr url)
       else if has_credentials (up_netloc parsed) then Inl (ValueErr (redact_url_credentials parsed))
       else Inr url)"

definition webhook_notifier_init :: "(string \<Rightarrow> bool) \<Rightarrow> pydict \<Rightarrow> pyexc + webhook_notifier" where
  "webhook_notifier_init valid_netloc config =
     rbnd (notification_section config ''webhook'') (\<lambda>cfg.
     rbnd (nonempty_text cfg ''url'') (\<lambda>url.
     rbnd (webhook_url valid_netloc url) (\<lambda>url.
     rbnd (timeout_value cfg) (\<lambda>timeout.
     rbnd (bool_value cfg ''include_transaction'' False) (\<lambda>include_transaction.
     rbnd (bool_value cfg ''include_report'' False) (\<lambda>include_report.
       Inr \<lparr>wn_url = url, wn_timeout = timeout, wn_include_transaction = include_transaction,
            wn_include_report = include_report\<rparr>))))))"

definition artifact_view_json :: "artifact_view \<Rightarrow> pyval" where
  "artifact_view_json a = of_dict
     [(''id'', PStr (av_id a)), (''name'', PStr (av_name a)), (''path'', PStr (av_path a)), (''kind'', PStr (av_kind a)),
      (''created_at'', PStr (av_created_at a)), (''metadata'', of_dict (av_metadata a))]"

text \<open>The body of the request; the whole report, when it is included, is kept as its record.\<close>

record webhook_body =
  wb_fields :: pydict
  wb_report :: "payload option"

definition webhook_body_of ::
  "(rat \<Rightarrow> string) \<Rightarrow> (step_exc \<Rightarrow> string) \<Rightarrow> webhook_notifier \<Rightarrow> tx_report \<Rightarrow> webhook_body" where
  "webhook_body_of ft class_name wn r =
     (let p = record_payload ft class_name r in
      \<lparr>wb_fields =
         [(''transaction_id'', PStr (pl_id p)), (''reference'', PStr (pl_reference p)), (''status'', PStr (pl_status p)),
          (''retry_count'', PInt (pl_retry_count p)), (''generated_at'', PStr (pl_generated_at p)),
          (''metadata'', of_dict (pl_metadata p)), (''artifacts'', PList (map artifact_view_json (pl_artifacts p))),
          (''text'', PStr (render_text ft class_name r))] @
         (case pl_record p of
            Some d \<Rightarrow> (if wn_include_transaction wn \<and> d \<noteq> [] then [(''transaction'', of_dict d)] else [])
          | None \<Rightarrow> []),
       wb_report = (if wn_include_report wn then Some p else None)\<rparr>)"

datatype http_request = Post string int webhook_body

definition webhook_send ::
  "(rat \<Rightarrow> string) \<Rightarrow> (step_exc \<Rightarrow> string) \<Rightarrow> webhook_notifier \<Rightarrow> tx_report \<Rightarrow> http_request" where
  "webhook_send ft class_name wn r = Post (wn_url wn) (wn_timeout wn) (webhook_body_of ft class_name wn r)"

section \<open>Building\<close>

datatype notifier = Email email_notifier | Webhook webhook_notifier

definition build_notifiers :: "(string \<Rightarrow> bool) \<Rightarrow> pydict \<Rightarrow> credential_provider \<Rightarrow> pyexc + notifier list" where
  "build_notifiers valid_netloc config credentials =
     (case (case dict_get config ''notification'' of None \<Rightarrow> PDict [] | Some v \<Rightarrow> v) of
        PDict notification \<Rightarrow>
          rbnd (if PStr ''email'' \<in> fst ` set notification
                then rbnd (email_notifier_init config credentials) (\<lambda>n. Inr [Email n]) else Inr []) (\<lambda>emails.
          rbnd (if PStr ''webhook'' \<in> fst ` set notification
                then rbnd (webhook_notifier_init valid_netloc config) (\<lambda>n. Inr [Webhook n]) else Inr []) (\<lambda>webhooks.
            Inr (emails @ webhooks)))
      | _ \<Rightarrow> Inr [])"

end
