(* ===== verification/Spec2Isabelle.thy ===== *)
theory Spec2Isabelle
  imports EngineClaims QueueClaims StoreClaims RecoveryClaims RunnerClaims RunnerOutcomes RunnerLiveness
    PagingClaims Execution MigrationClaims QueueMigrations ConfigClaims ReportClaims QueueReadClaims QueueOpen
    LoggerClaims NotifyClaims
begin

text \<open>
  A verification development of rpacore, a Python framework for durable robotic process automation.

  \<^bold>\<open>The program.\<close> A \<^emph>\<open>transaction\<close> is a list of steps with a status, a durable JSON state and an
  append-only history. The \<^emph>\<open>engine\<close> runs its steps in execution order, classifies the exceptions they
  raise, repeats retryable ones in later passes and calls a checkpoint after every change. The
  \<^emph>\<open>transaction store\<close> saves a snapshot in six SQLite tables and loads it back; \<^emph>\<open>recovery\<close> joins a
  loaded snapshot with fresh step code. The \<^emph>\<open>queue\<close> hands items to workers under leases: a claim is a
  worker name and a token, and every later operation of the worker is fenced by it. The \<^emph>\<open>runner\<close> drains
  the queue: it claims an item, builds or recovers its transaction, runs the engine with checkpoints that
  are fenced by the claim and by the stored revision, reports, and completes or fails the item, while
  a heartbeat thread renews the lease.

  \<^bold>\<open>Theories and sources\<close> (under \<^verbatim>\<open>src/rpacore\<close>).

    \<^item> \<open>Prelude\<close>: the effects \<open>state \<Rightarrow> (exception + value) \<times> state\<close> in which all stateful code is written,
      and the locale \<open>step_relation\<close> of relations between the states before and after.
    \<^item> \<open>PyValues\<close>, \<open>Times\<close>, \<open>Outcomes\<close>: Python values and texts, timestamps, the vocabularies of
      \<^verbatim>\<open>status.py\<close> and \<^verbatim>\<open>outcome.py\<close>, the exceptions of \<^verbatim>\<open>exceptions.py\<close>, and \<^verbatim>\<open>_definition.py\<close>.
    \<^item> \<open>JsonState\<close>: \<^verbatim>\<open>_json_state.py\<close> on a heap of objects, because it guards against cycles by identity, and
      its refinement to finite trees.
    \<^item> \<open>Transactions\<close>: \<^verbatim>\<open>step.py\<close> and \<^verbatim>\<open>transaction.py\<close>. \<open>Kernel\<close>: \<^verbatim>\<open>transition.py\<close> and \<^verbatim>\<open>_kernel.py\<close>.
    \<^item> \<open>Engine\<close>: \<^verbatim>\<open>engine.py\<close>, one definition per method. \<open>EngineProps\<close> and \<open>EngineRuns\<close> hold what passes
      and whole runs do to steps, history, transitions and pauses, \<open>EngineClaims\<close> the properties.
    \<^item> \<open>QueueRetry\<close>: \<^verbatim>\<open>_queue_retry.py\<close>. \<open>Queue\<close>: \<^verbatim>\<open>queue.py\<close> and \<^verbatim>\<open>_queue_read.py\<close>, one effect per database
      transaction. \<open>QueueInv\<close> has the invariant \<open>qinv\<close>; \<open>QueueSteps\<close> the step relation \<open>qstep\<close>, whose sequences
      are the interleavings of all workers and operators; \<open>QueueClaims\<close> the properties.
    \<^item> \<open>Storage\<close>, \<open>Persistence\<close>: \<^verbatim>\<open>persistence.py\<close> (saving and loading) and \<^verbatim>\<open>_transaction_read.py\<close>.
      \<open>PersistenceInv\<close> has the invariant \<open>tinv\<close>, \<open>PersistenceLoad\<close> what loads after a save.
    \<^item> \<open>Checkpoint\<close>: \<^verbatim>\<open>_queue_checkpoint.py\<close>, one transaction over both stores. \<open>StoreSteps\<close> and \<open>StoreClaims\<close>:
      the steps \<open>cstep\<close> of all writers of the two stores, and the properties.
    \<^item> \<open>Recovery\<close>, \<open>RecoveryClaims\<close>: \<^verbatim>\<open>recovery.py\<close>.
    \<^item> \<open>Runtime\<close>: \<^verbatim>\<open>_sqlite_retry.py\<close>, the resource scopes, and the dispatch of \<^verbatim>\<open>notify.py\<close>.
    \<^item> \<open>Runner\<close>: \<^verbatim>\<open>runner.py\<close>, written over the interface \<open>services\<close> of a queue provider and a store.
      \<open>RunnerProps\<close> proves once, for any relation that the services keep, that a whole run keeps it;
      \<open>RunnerStore\<close> interprets the contract \<open>service_contract\<close> on the modelled queue and store;
      \<open>RunnerClaims\<close> and \<open>RunnerOutcomes\<close> hold the properties, \<open>RunnerDemo\<close> and \<open>RunnerExamples\<close> the small
      runs that witness them.
      \<open>RunnerLiveness\<close> measures the work left in a queue and shows that its runs end. An item is run inside the
      log context of its identifier, reference and worker, whose check of the attributes is that of \<open>Logger\<close>.
    \<^item> \<open>Execution\<close>: \<^verbatim>\<open>execution.py\<close>, a run outside a queue.
    \<^item> \<open>Paging\<close>, \<open>PagingClaims\<close>: the queries and listings of \<^verbatim>\<open>persistence.py\<close>, with their cursors.
    \<^item> \<open>Schema\<close>: databases as tables with columns, and \<^verbatim>\<open>_sqlite.py\<close>. \<open>Migrations\<close>: the migrations of
      \<^verbatim>\<open>persistence.py\<close>; \<open>MigrationSteps\<close> what each statement keeps and what the batches do, \<open>MigrationClaims\<close>
      the properties. \<open>QueueMigrations\<close>: the migrations of \<^verbatim>\<open>queue.py\<close> and the race of two constructors;
      \<open>QueueOpen\<close>: the constructor of \<open>SqliteQueue\<close>.
    \<^item> \<open>Keyset\<close>: the contract \<open>keyset_pages\<close> of a paged query and what following its cursors shows; the
      transaction query and the queue queries provide it. \<open>QueueRead\<close>, \<open>QueueReadClaims\<close>: the read-only half of
      \<^verbatim>\<open>_queue_read.py\<close>.
    \<^item> \<open>ConfigValues\<close>: \<^verbatim>\<open>config_validation.py\<close>. \<open>Config\<close>: \<^verbatim>\<open>config.py\<close>, \<^verbatim>\<open>credentials.py\<close> and the accessors of
      \<^verbatim>\<open>context.py\<close>; \<open>ConfigClaims\<close> the properties.
    \<^item> \<open>Serialization\<close>: \<^verbatim>\<open>serialization.py\<close>. \<open>Report\<close>: the generation half of \<^verbatim>\<open>report.py\<close>, \<open>ReportRender\<close> its text
      and HTML renderers with \<^verbatim>\<open>_report_links.py\<close>; \<open>ReportClaims\<close> the properties. Metadata is copied twice over:
      as trees (\<open>generate_report\<close>), and as objects of a heap that may contain themselves, on a stack of so many
      frames (\<open>generate_report_of_objects\<close>); the second refines the first where there is no cycle.
    \<^item> \<open>Logger\<close>, \<open>LoggerClaims\<close>: \<^verbatim>\<open>logger.py\<close>. \<open>Notify\<close>, \<open>NotifyClaims\<close>: the notifiers of \<^verbatim>\<open>notify.py\<close>, whose
      conversations are the lists of what they ask of the server.

  \<^bold>\<open>What is shown.\<close> Of the engine: how a returned run is classified; that finished steps and business
  failures are not executed again; bounds on starts, retries and pauses; the order of execution; the
  agreement of emitted transitions with the history; its error paths. Of the queue: the invariant under
  every interleaving; exclusion of claims and powerlessness of closed ones; append-only journals;
  exact effects of claiming, reclaiming, failing and overriding. Of the store: the round trip of a save
  and a load; isolation of transactions; that no identity, revision or history is taken back; that
  fenced checkpoints exclude stale workers and lost updates. Of recovery: what a resume restores,
  that repeating it changes nothing, and that a recovered run repeats no successful step. Of the
  runner: that its counters account for every claim and tell what the queue stored; the order of its
  callbacks; that an item is completed only when its own transaction is stored as successful, and which failures are
  delivered again; that a run ends,
  and leaves no item due unless it was stopped or lost a lease; and that a
  whole run is a sequence of transactions of the stores, with other processes in between. Of a run
  outside a queue: that what it returns with is stored. Of the queries: that following the cursors
  enumerates exactly the matches, also while others write, for transactions and for queue records. Of the migrations: that they lose no
  row and no cell, are done once, are rolled back when they fail, and do not race. Of the configuration: that
  what validation returns has the types, ranges and choices asked for, that defaults pass their own checks,
  and that validating a loaded configuration again changes nothing. Of the reports: that one can be
  made exactly when the metadata contains no cycle, and tells the truth about its transaction or says that it is
  incomplete; that no text of a transaction becomes markup of the HTML; that links lead to local files only. Of logging and notifications: that redacted fields stay out of log lines
  at every depth and nothing shadows their envelope; that notifiers are built from complete settings only, send the
  password only after the connection was secured, and disclose what they were configured to.

  \<^bold>\<open>Loops and fuel.\<close> The engine's retry loop ends by the counter of retries, and is a total function.
  \<open>next_item\<close> loops until it finds an item whose payload decodes; with fuel above the number of items it
  ends when nobody else writes (\<open>next_item_takes_the_oldest\<close>), and \<open>sqlite_next_item\<close> is given that fuel. The
  queue loop itself runs as long as there are items, so \<open>run_items\<close> has fuel, the number of claims; its
  result \<open>None\<close> says that the fuel ran out, and the properties of runs hold for every fuel. An item can be
  claimed at most \<open>2 * max_retries + 2\<close> times before it is done, so \<open>enough_fuel\<close>, that many claims per
  item, always suffices when nobody adds work (\<open>queue_run_ends\<close>).

  \<^bold>\<open>Conventions.\<close> Strings are lists of characters below code point 256; finite floats are the rationals they
  denote, so rounding is not modelled. Fields carry the types of the source's annotations, so guards by
  \<open>isinstance\<close> on them hold by typing. The text of an ISO timestamp or of a JSON column is kept as what it
  decodes to. Error messages are abbreviated. What the program takes from outside (the code of steps, clocks,
  fresh identifiers, screenshots, callbacks, notifiers, faults of the database, other processes) is a
  parameter, indexed by the number of the reading where it can differ from call to call. The code
  of a step may change the durable state, metadata and artifacts of its transaction and its own
  status, and may raise; a callback does not change the transaction it is shown. A database call either
  commits or raises before it changed anything. The heartbeat thread takes its turns where the runner
  looks at it or takes the operation lock; the loss of a lease between two such points is seen at
  the next one, as in the code. In \<open>RunnerStore\<close> the transactions inside one \<open>next_item\<close> are not interrupted;
  \<open>QueueSteps\<close> treats their interruption.

  Of a \<open>CREATE TABLE\<close> statement the columns and the allowed history events are kept; the other constraints
  held on the old tables. The operations on the two stores are modelled on the current schema. The text
  that Python prints for a float is a parameter. A configuration value is a JSON value or an opaque object;
  tuples and sets occur as the choices of a field, not as values. The UTF-8 bytes of a rendered character
  above code point 255 (the icons and the dash of a report) stand for it. Where data is a tree, in the extra fields of a log
  record among others, it contains no cycle and the stack of Python is deep enough for it; \<open>JsonState\<close>
  and \<open>Report\<close> treat cycles. The powers of a retry backoff do not overflow, a path has no NUL character, and a
  NaN is never one of the choices of a field.

  \<^bold>\<open>Not modelled.\<close> The connections to SQLite themselves; the parser of
  configuration files; run manifests; the paths of a project and
  the screen capture; the command line, the project templates and the release scripts.
\<close>

end
